(* ===== verification/Prelude.thy ===== *)
theory Prelude
  imports Main "HOL-Library.List_Lexorder" "HOL-Library.Char_ord" "HOL-Library.Code_Target_Numeral"
begin

text \<open>
  What every component shares: the collections of the development, the sequence of
  guards a validator is made of, and the few table operations a SQL statement of the
  datastore compiles to (a filtered update, the number of rows it changed, a lookup by
  primary key).
\<close>

named_theorems table_simps \<open>facts about the SQL table operations\<close>
named_theorems guard_simps \<open>facts about sequences of guards\<close>

subsection \<open>Time\<close>

text \<open>
  A timestamp column holds \<open>chrono::Utc::now().to_rfc3339()\<close>. The code compares two of
  them with SQL's \<open><\<close> on the text, whose order is the order of the instants, and adds
  \<open>chrono::TimeDelta\<close>s. The model keeps the instant itself, in nanoseconds.
\<close>

type_synonym instant = int

abbreviation nanos :: int where
  "nanos \<equiv> 1000000000"

definition plus_secs :: "instant \<Rightarrow> int \<Rightarrow> instant" where
  "plus_secs t s = t + s * nanos"

lemma plus_secs_mono [simp]: "0 < s \<Longrightarrow> t < plus_secs t s"
  by (simp add: plus_secs_def)

subsection \<open>Sequences of guards\<close>

text \<open>
  A validator is a sequence of \<open>if cond { bail!(e) }\<close>: it returns the first error whose
  guard fires. A guard is \<open>None\<close> (nothing to say) or \<open>Some e\<close>.
\<close>

definition guard :: "bool \<Rightarrow> 'e \<Rightarrow> 'e option" where
  "guard c e = (if c then Some e else None)"

fun first_err :: "'e option list \<Rightarrow> 'e option" where
  "first_err [] = None"
| "first_err (Some e # cs) = Some e"
| "first_err (None # cs) = first_err cs"

fun guard_all :: "('a \<Rightarrow> 'e option) \<Rightarrow> 'a list \<Rightarrow> 'e option" where
  "guard_all f [] = None"
| "guard_all f (x # xs) = (case f x of Some e \<Rightarrow> Some e | None \<Rightarrow> guard_all f xs)"

definition guard_opt :: "('a \<Rightarrow> 'e option) \<Rightarrow> 'a option \<Rightarrow> 'e option" where
  "guard_opt f v = (case v of None \<Rightarrow> None | Some x \<Rightarrow> f x)"

lemma guard_None [guard_simps, simp]: "guard c e = None \<longleftrightarrow> \<not> c"
  by (simp add: guard_def)

lemma guard_Some [guard_simps]: "guard c e = Some x \<longleftrightarrow> c \<and> x = e"
  by (auto simp: guard_def)

lemma first_err_None [guard_simps]: "first_err cs = None \<longleftrightarrow> (\<forall>c \<in> set cs. c = None)"
  by (induction cs rule: first_err.induct) auto

lemma first_err_Cons: "first_err (c # cs) = (case c of Some e \<Rightarrow> Some e | None \<Rightarrow> first_err cs)"
  by (cases c) auto

lemma first_err_append: "first_err (cs @ ds) = (case first_err cs of Some e \<Rightarrow> Some e | None \<Rightarrow> first_err ds)"
  by (induction cs rule: first_err.induct) auto

lemma guard_all_None [guard_simps]: "guard_all f xs = None \<longleftrightarrow> (\<forall>x \<in> set xs. f x = None)"
  by (induction xs) (auto split: option.splits)

lemma guard_opt_None [guard_simps]: "guard_opt f v = None \<longleftrightarrow> (\<forall>x. v = Some x \<longrightarrow> f x = None)"
  by (cases v) (auto simp: guard_opt_def)

lemma guard_opt_simps [simp]: "guard_opt f None = None" "guard_opt f (Some x) = f x"
  by (simp_all add: guard_opt_def)

text \<open>
  \<open>for x in xs { check(x)?; if !seen.insert(key(x)) { bail!(..) } }\<close>: each element is
  checked, and then its key must not have been seen before.
\<close>

fun guard_seen :: "('a \<Rightarrow> 'e option) \<Rightarrow> ('a \<Rightarrow> 'k) \<Rightarrow> ('a \<Rightarrow> 'e) \<Rightarrow> 'k list \<Rightarrow> 'a list \<Rightarrow> 'e option" where
  "guard_seen f key dup seen [] = None"
| "guard_seen f key dup seen (x # xs) =
     (case f x of
        Some e \<Rightarrow> Some e
      | None \<Rightarrow> if key x \<in> set seen then Some (dup x) else guard_seen f key dup (key x # seen) xs)"

lemma guard_seen_None [guard_simps]:
  "guard_seen f key dup seen xs = None \<longleftrightarrow>
     (\<forall>x \<in> set xs. f x = None \<and> key x \<notin> set seen) \<and> distinct (map key xs)"
proof (induction xs arbitrary: seen)
  case (Cons a xs)
  show ?case
  proof (cases "f a")
    case None
    with Cons.IH [of "key a # seen"] show ?thesis by (auto simp: image_iff)
  qed simp
qed simp

subsection \<open>Fallible steps\<close>

text \<open>The operator \<open>?\<close>: an error ends the sequence.\<close>

fun and_then :: "'e + 'a \<Rightarrow> ('a \<Rightarrow> 'e + 'b) \<Rightarrow> 'e + 'b" where
  "and_then (Inl e) f = Inl e"
| "and_then (Inr x) f = f x"

lemma and_then_Inr: "and_then r f = Inr y \<longleftrightarrow> (\<exists>x. r = Inr x \<and> f x = Inr y)"
  by (cases r) auto

lemma and_then_Inl: "and_then r f = Inl e \<longleftrightarrow> r = Inl e \<or> (\<exists>x. r = Inr x \<and> f x = Inl e)"
  by (cases r) auto

lemma and_then_cong [fundef_cong]:
  "r = r' \<Longrightarrow> (\<And>x. r' = Inr x \<Longrightarrow> f x = g x) \<Longrightarrow> and_then r f = and_then r' g"
  by (cases r') auto

subsection \<open>Ordered maps\<close>

text \<open>
  A \<open>BTreeMap\<close> keyed by strings is the list of its entries in key order; \<open>insert\<close> keeps the order.
\<close>

type_synonym 'v btree = "(string \<times> 'v) list"

fun bt_insert :: "string \<Rightarrow> 'v \<Rightarrow> 'v btree \<Rightarrow> 'v btree" where
  "bt_insert k v [] = [(k, v)]"
| "bt_insert k v ((k', v') # m) =
     (if k = k' then (k, v) # m
      else if k < k' then (k, v) # (k', v') # m
      else (k', v') # bt_insert k v m)"

lemma map_of_bt_insert [simp]: "map_of (bt_insert k v m) = (map_of m)(k \<mapsto> v)"
  by (induction k v m rule: bt_insert.induct) (auto simp: fun_upd_twist)

text \<open>\<open>extend\<close>: a later entry wins.\<close>

definition bt_extend :: "'v btree \<Rightarrow> 'v btree \<Rightarrow> 'v btree" where
  "bt_extend m es = fold (\<lambda>(k, v). bt_insert k v) es m"

subsection \<open>Tables\<close>

text \<open>
  A table is the list of its rows. \<open>UPDATE t SET .. WHERE p\<close> changes the rows on which
  \<open>p\<close> holds, all of them against the table as it was before the statement, and reports
  how many they are.
\<close>

definition update_where :: "('r \<Rightarrow> bool) \<Rightarrow> ('r \<Rightarrow> 'r) \<Rightarrow> 'r list \<Rightarrow> 'r list" where
  "update_where p f rs = map (\<lambda>r. if p r then f r else r) rs"

definition rows_affected :: "('r \<Rightarrow> bool) \<Rightarrow> 'r list \<Rightarrow> nat" where
  "rows_affected p rs = length (filter p rs)"

lemma rows_affected_0 [table_simps]: "rows_affected p rs = 0 \<longleftrightarrow> (\<forall>r \<in> set rs. \<not> p r)"
  by (simp add: rows_affected_def filter_empty_conv)

lemma rows_affected_pos [table_simps]: "0 < rows_affected p rs \<longleftrightarrow> (\<exists>r \<in> set rs. p r)"
  using rows_affected_0 [of p rs] by auto

lemma length_update_where [simp]: "length (update_where p f rs) = length rs"
  by (simp add: update_where_def)

lemma set_update_where [table_simps]:
  "set (update_where p f rs) = {if p r then f r else r | r. r \<in> set rs}"
  by (auto simp: update_where_def)

lemma update_where_none: "(\<And>r. r \<in> set rs \<Longrightarrow> \<not> p r) \<Longrightarrow> update_where p f rs = rs"
  by (simp add: update_where_def map_idI)

text \<open>A statement that keeps the key keeps the list of keys, and so its distinctness.\<close>

lemma map_key_update_where:
  assumes "\<And>r. r \<in> set rs \<Longrightarrow> p r \<Longrightarrow> key (f r) = key r"
  shows "map key (update_where p f rs) = map key rs"
  using assms by (simp add: update_where_def)

lemma in_update_whereE:
  assumes "r \<in> set (update_where p f rs)"
  obtains q where "q \<in> set rs" "r = (if p q then f q else q)"
  using assms by (auto simp: update_where_def)

lemma updated_in: "r \<in> set rs \<Longrightarrow> p r \<Longrightarrow> f r \<in> set (update_where p f rs)"
  by (force simp: update_where_def)

lemma not_updated_in: "r \<in> set rs \<Longrightarrow> \<not> p r \<Longrightarrow> r \<in> set (update_where p f rs)"
  by (force simp: update_where_def)

lemma list_ex_update_where:
  "(\<And>r. P (f r) = P r) \<Longrightarrow> list_ex P (update_where p f rs) = list_ex P rs"
  by (induction rs) (auto simp: update_where_def)

lemma update_where_cong:
  "(\<And>r. r \<in> set rs \<Longrightarrow> p r = q r) \<Longrightarrow> update_where p f rs = update_where q f rs"
  by (simp add: update_where_def)

lemma filter_update_where:
  "filter q (update_where p f rs) = update_where p f (filter (\<lambda>r. q (if p r then f r else r)) rs)"
  by (induction rs) (auto simp: update_where_def)

text \<open>The row with a given key: what \<open>WHERE id = ?\<close> finds on a primary key.\<close>

definition row_of :: "('r \<Rightarrow> 'k) \<Rightarrow> 'k \<Rightarrow> 'r list \<Rightarrow> 'r option" where
  "row_of key k rs = find (\<lambda>r. key r = k) rs"

lemma row_of_SomeD: "row_of key k rs = Some r \<Longrightarrow> r \<in> set rs \<and> key r = k"
  by (auto simp: row_of_def find_Some_iff)

lemma row_of_None: "row_of key k rs = None \<longleftrightarrow> k \<notin> key ` set rs"
  by (auto simp: row_of_def find_None_iff)

lemma row_of_unique:
  "distinct (map key rs) \<Longrightarrow> r \<in> set rs \<Longrightarrow> row_of key (key r) rs = Some r"
proof (induction rs)
  case (Cons a rs)
  then show ?case by (force simp: row_of_def)
qed simp

lemma distinct_key_eq:
  "distinct (map key rs) \<Longrightarrow> r \<in> set rs \<Longrightarrow> q \<in> set rs \<Longrightarrow> key r = key q \<Longrightarrow> r = q"
  by (meson distinct_map inj_onD)

lemma selected_key:
  "distinct (map key rs) \<Longrightarrow>
     map key (filter (\<lambda>r. key r = k \<and> p r) rs) = (if 0 < rows_affected (\<lambda>r. key r = k \<and> p r) rs then [k] else [])"
proof (induction rs)
  case Nil
  then show ?case by (simp add: rows_affected_def)
next
  case (Cons a rs)
  show ?case
  proof (cases "key a = k")
    case True
    with Cons.prems have "filter (\<lambda>r. key r = k \<and> p r) rs = []"
      by (auto simp: filter_empty_conv image_iff)
    with True show ?thesis by (simp add: rows_affected_def)
  next
    case False
    with Cons show ?thesis by (simp add: rows_affected_def)
  qed
qed

text \<open>On a table with distinct keys a statement guarded by a key changes at most one row.\<close>

lemma rows_affected_key:
  assumes "distinct (map key rs)"
  shows "rows_affected (\<lambda>r. key r = k \<and> p r) rs \<le> 1"
  using assms
proof (induction rs)
  case Nil
  then show ?case by (simp add: rows_affected_def)
next
  case (Cons a rs)
  show ?case
  proof (cases "key a = k")
    case True
    with Cons.prems have "filter (\<lambda>r. key r = k \<and> p r) rs = []"
      by (auto simp: filter_empty_conv image_iff)
    then show ?thesis by (simp add: rows_affected_def)
  next
    case False
    with Cons show ?thesis by (simp add: rows_affected_def)
  qed
qed

end
