(* ===== verification/Fault.thy ===== *)
theory Fault
  imports Rust_Str
begin

text \<open>
  The fault taxonomy (\<open>dagron-core/src/fault.rs\<close>): the classes a failure is put in,
  the disposition that decides its retry budget, the driver's XID codes and the text
  classifier. Which lines of a text are searched, and in which order the signatures are
  tried, is the policy, and is modelled as it is written.
\<close>

subsection \<open>Classes and dispositions\<close>

datatype disposition = Infrastructure | Application | Platform | DUnknown

fun disposition_budget :: "disposition \<Rightarrow> nat" where
  "disposition_budget Infrastructure = 5"
| "disposition_budget Application = 1"
| "disposition_budget Platform = 3"
| "disposition_budget DUnknown = 0"

fun disposition_as_str :: "disposition \<Rightarrow> string" where
  "disposition_as_str Infrastructure = ''infrastructure''"
| "disposition_as_str Application = ''application''"
| "disposition_as_str Platform = ''platform''"
| "disposition_as_str DUnknown = ''unknown''"

datatype precedence = Symptom | Ambiguous | RootCause

datatype fault_class =
  GpuXid | GpuEcc | GpuFallenOffBus | Nvlink | GpuUnresponsive | FabricIb | NcclCommAbort | NcclTimeout | Deadlock | StragglerRank | DataloaderStall | HostOom | GpuOom | NanLoss | CheckpointCorrupt | UserCode | Config | Storage | Preemption | NodeFail | WalltimeExceeded | FCancelled | FUnknown

fun fault_as_str :: "fault_class \<Rightarrow> string" where
  "fault_as_str GpuXid = ''gpu-xid''"
| "fault_as_str GpuEcc = ''gpu-ecc''"
| "fault_as_str GpuFallenOffBus = ''gpu-fallen-off-bus''"
| "fault_as_str Nvlink = ''nvlink''"
| "fault_as_str GpuUnresponsive = ''gpu-unresponsive''"
| "fault_as_str FabricIb = ''fabric-ib''"
| "fault_as_str NcclCommAbort = ''nccl-comm-abort''"
| "fault_as_str NcclTimeout = ''nccl-timeout''"
| "fault_as_str Deadlock = ''deadlock''"
| "fault_as_str StragglerRank = ''straggler-rank''"
| "fault_as_str DataloaderStall = ''dataloader-stall''"
| "fault_as_str HostOom = ''host-oom''"
| "fault_as_str GpuOom = ''gpu-oom''"
| "fault_as_str NanLoss = ''nan-loss''"
| "fault_as_str CheckpointCorrupt = ''checkpoint-corrupt''"
| "fault_as_str UserCode = ''user-code''"
| "fault_as_str Config = ''config''"
| "fault_as_str Storage = ''storage''"
| "fault_as_str Preemption = ''preemption''"
| "fault_as_str NodeFail = ''node-fail''"
| "fault_as_str WalltimeExceeded = ''walltime-exceeded''"
| "fault_as_str FCancelled = ''cancelled''"
| "fault_as_str FUnknown = ''unknown''"

definition fault_parse :: "string \<Rightarrow> fault_class" where
  "fault_parse s =
     (let k = replace_char (CHR ''_'') ''-'' (to_ascii_lowercase (trim s)) in
       if k = ''gpu-xid'' then GpuXid
       else if k = ''gpu-ecc'' then GpuEcc
       else if k = ''gpu-fallen-off-bus'' then GpuFallenOffBus
       else if k = ''nvlink'' then Nvlink
       else if k = ''gpu-unresponsive'' then GpuUnresponsive
       else if k = ''fabric-ib'' then FabricIb
       else if k = ''nccl-comm-abort'' then NcclCommAbort
       else if k = ''nccl-timeout'' then NcclTimeout
       else if k = ''deadlock'' then Deadlock
       else if k = ''straggler-rank'' then StragglerRank
       else if k = ''dataloader-stall'' then DataloaderStall
       else if k = ''host-oom'' then HostOom
       else if k = ''gpu-oom'' then GpuOom
       else if k = ''nan-loss'' then NanLoss
       else if k = ''checkpoint-corrupt'' then CheckpointCorrupt
       else if k = ''user-code'' then UserCode
       else if k = ''config'' then Config
       else if k = ''storage'' then Storage
       else if k = ''preemption'' then Preemption
       else if k = ''node-fail'' then NodeFail
       else if k = ''walltime-exceeded'' then WalltimeExceeded
       else if k = ''cancelled'' \<or> k = ''canceled'' then FCancelled
       else FUnknown)"

definition fault_disposition :: "fault_class \<Rightarrow> disposition" where
  "fault_disposition c =
     (if c \<in> {GpuXid, GpuEcc, GpuFallenOffBus, Nvlink, GpuUnresponsive, FabricIb,
              NcclCommAbort, Storage, NodeFail} then Infrastructure
      else if c \<in> {Deadlock, StragglerRank, DataloaderStall, HostOom, GpuOom, NanLoss,
              CheckpointCorrupt, UserCode, Config} then Application
      else if c \<in> {Preemption, WalltimeExceeded, FCancelled} then Platform
      else DUnknown)"

definition fault_precedence :: "fault_class \<Rightarrow> precedence" where
  "fault_precedence c =
     (if c \<in> {GpuXid, GpuEcc, GpuFallenOffBus, Nvlink, GpuUnresponsive, FabricIb, Storage,
              NodeFail, Preemption} then RootCause
      else if c \<in> {HostOom, GpuOom, NanLoss, CheckpointCorrupt, Config, WalltimeExceeded,
              FCancelled} then RootCause
      else if c \<in> {NcclCommAbort, Deadlock, StragglerRank, DataloaderStall, UserCode}
        then Ambiguous
      else Symptom)"

definition should_drain_node :: "fault_class \<Rightarrow> bool" where
  "should_drain_node c =
     (c \<in> {GpuXid, GpuEcc, GpuFallenOffBus, Nvlink, GpuUnresponsive, FabricIb, NodeFail})"

definition fault_default_budget :: "fault_class \<Rightarrow> nat" where
  "fault_default_budget c = disposition_budget (fault_disposition c)"

definition fault_class_names :: "string list" where
  "fault_class_names =
     [''gpu-xid'',
      ''gpu-ecc'',
      ''gpu-fallen-off-bus'',
      ''nvlink'',
      ''gpu-unresponsive'',
      ''fabric-ib'',
      ''nccl-comm-abort'',
      ''nccl-timeout'',
      ''deadlock'',
      ''straggler-rank'',
      ''dataloader-stall'',
      ''host-oom'',
      ''gpu-oom'',
      ''nan-loss'',
      ''checkpoint-corrupt'',
      ''user-code'',
      ''config'',
      ''storage'',
      ''preemption'',
      ''node-fail'',
      ''walltime-exceeded'',
      ''cancelled'',
      ''unknown'']"

definition fault_all :: "fault_class list" where
  "fault_all =
     [GpuXid, GpuEcc, GpuFallenOffBus, Nvlink, GpuUnresponsive, FabricIb, NcclCommAbort, NcclTimeout, Deadlock, StragglerRank, DataloaderStall, HostOom, GpuOom, NanLoss, CheckpointCorrupt, UserCode, Config, Storage, Preemption, NodeFail, WalltimeExceeded, FCancelled, FUnknown]"

subsection \<open>Evidence\<close>

datatype confidence = Low | Medium | High

fun confidence_as_str :: "confidence \<Rightarrow> string" where
  "confidence_as_str Low = ''low''"
| "confidence_as_str Medium = ''medium''"
| "confidence_as_str High = ''high''"

text \<open>
  The evidence line is cut to 400 characters, and an ellipsis (U+2026) says so. The model
  keeps the cut text and, beside it, whether the ellipsis was added.
\<close>

abbreviation evidence_max :: nat where
  "evidence_max \<equiv> 400"

definition clip :: "string \<Rightarrow> string \<times> bool" where
  "clip s = (let t = trim s in if length t \<le> evidence_max then (t, False) else (take evidence_max t, True))"

record classification =
  cl_class :: fault_class
  cl_confidence :: confidence
  cl_evidence :: "string \<times> bool"

definition classification_new :: "fault_class \<Rightarrow> confidence \<Rightarrow> string \<Rightarrow> classification" where
  "classification_new c k ev = \<lparr>cl_class = c, cl_confidence = k, cl_evidence = clip ev\<rparr>"

subsection \<open>Driver codes\<close>

definition xid_class :: "nat \<Rightarrow> fault_class option" where
  "xid_class xid =
     (if xid \<in> {13, 31, 43, 45} then Some UserCode
      else if xid \<in> {48, 63, 64, 92, 94, 95} then Some GpuEcc
      else if xid \<in> {74, 80, 81} then Some Nvlink
      else if xid = 79 then Some GpuFallenOffBus
      else if xid \<in> {62, 119, 120, 121, 122} then Some GpuUnresponsive
      else if xid \<in> {61, 68, 69, 93} then Some GpuXid
      else None)"

definition xid_is_fatal :: "nat \<Rightarrow> bool" where
  "xid_is_fatal xid = (case xid_class xid of None \<Rightarrow> False | Some c \<Rightarrow> should_drain_node c)"

fun first_number_scan :: "string \<Rightarrow> string \<Rightarrow> nat option" where
  "first_number_scan [] digits = parse_u32 digits"
| "first_number_scan (ch # cs) digits =
     (if ch = CHR 0x0A then parse_u32 digits
      else if is_ascii_digit ch then first_number_scan cs (digits @ [ch])
      else if digits \<noteq> [] then parse_u32 digits
      else first_number_scan cs digits)"

definition parse_first_number :: "string \<Rightarrow> nat option" where
  "parse_first_number s = first_number_scan s []"

fun xid_scan :: "string \<Rightarrow> string \<Rightarrow> string \<Rightarrow> nat option" where
  "xid_scan rest [] digits = parse_u32 digits"
| "xid_scan rest (ch # cs) digits =
     (if ch = CHR 0x0A then parse_u32 digits
      else if is_ascii_digit ch then xid_scan rest cs (digits @ [ch])
      else if digits \<noteq> [] then parse_u32 digits
      else if ch = CHR ''('' then
        (case split_once '')'' rest of
           Some (_, after) \<Rightarrow> parse_first_number after
         | None \<Rightarrow> xid_scan rest cs digits)
      else xid_scan rest cs digits)"

definition parse_xid :: "string \<Rightarrow> nat option" where
  "parse_xid line =
     (case split_once ''xid'' (to_ascii_lowercase line) of
        None \<Rightarrow> None
      | Some (before, _) \<Rightarrow>
          (let rest = drop (length before + 3) line in xid_scan rest rest []))"

subsection \<open>The text classifier\<close>

definition signatures :: "(string \<times> fault_class \<times> confidence) list" where
  "signatures =
    [(''cuda out of memory'', GpuOom, High),
     (''torch.cuda.outofmemoryerror'', GpuOom, High),
     (''out of memory (oom)'', HostOom, High),
     (''oomkilled'', HostOom, High),
     (''killed process'', HostOom, Medium),
     (''out of memory: killed'', HostOom, High),
     (''loss is nan'', NanLoss, High),
     (''loss became nan'', NanLoss, High),
     (''nan or inf found in input tensor'', NanLoss, High),
     (''found nan in loss'', NanLoss, High),
     (''gradient overflow detected'', NanLoss, Low),
     (''unexpected end of file while loading checkpoint'', CheckpointCorrupt, High),
     (''invalid load key'', CheckpointCorrupt, Medium),
     (''unpicklingerror'', CheckpointCorrupt, Medium),
     (''checkpoint file is corrupt'', CheckpointCorrupt, High),
     (''central directory not found'', CheckpointCorrupt, Medium),
     (''has fallen off the bus'', GpuFallenOffBus, High),
     (''gpu is lost'', GpuFallenOffBus, High),
     (''uncorrectable ecc error'', GpuEcc, High),
     (''double bit ecc'', GpuEcc, High),
     (''uncontained ecc'', GpuEcc, High),
     (''contained ecc error'', GpuEcc, High),
     (''row remap failure'', GpuEcc, High),
     (''ecc error'', GpuEcc, Medium),
     (''nvlink error'', Nvlink, High),
     (''nvlink is down'', Nvlink, High),
     (''nvswitch fatal'', Nvlink, High),
     (''gsp rpc timeout'', GpuUnresponsive, High),
     (''unable to determine the device handle'', GpuUnresponsive, Medium),
     (''cuda error: unspecified launch failure'', GpuUnresponsive, Medium),
     (''cuda error: ecc uncorrectable'', GpuEcc, High),
     (''device-side assert triggered'', UserCode, High),
     (''an illegal memory access was encountered'', UserCode, High),
     (''link_down'', FabricIb, High),
     (''port state change: down'', FabricIb, High),
     (''ib link flap'', FabricIb, High),
     (''ibv_'', FabricIb, Low),
     (''transport retry counter exceeded'', FabricIb, Medium),
     (''rdma_'', FabricIb, Low),
     (''ncclsystemerror'', NcclCommAbort, Medium),
     (''ncclinternalerror'', NcclCommAbort, Medium),
     (''ncclunhandledcudaerror'', NcclCommAbort, Medium),
     (''nccl warn bootstrap'', NcclCommAbort, Medium),
     (''unhandled system error'', NcclCommAbort, Low),
     (''watchdog caught collective operation timeout'', NcclTimeout, Low),
     (''nccl watchdog thread terminated'', NcclTimeout, Low),
     (''timeout(ms)='', NcclTimeout, Low),
     (''some nccl operations have failed or timed out'', NcclTimeout, Low),
     (''stale file handle'', Storage, High),
     (''no space left on device'', Storage, High),
     (''input/output error'', Storage, Medium),
     (''lustre'', Storage, Low),
     (''transport endpoint is not connected'', Storage, Medium),
     (''spot instance termination'', Preemption, High),
     (''preempted'', Preemption, High),
     (''instance is scheduled for termination'', Preemption, High),
     (''node_fail'', NodeFail, High),
     (''node failure'', NodeFail, High),
     (''due to time limit'', WalltimeExceeded, High),
     (''job cancelled'', FCancelled, High),
     (''dagron_local_command_allowlist'', Config, High),
     (''dagron_local_env_passthrough'', Config, High),
     (''imagepullbackoff'', Config, High),
     (''errimagepull'', Config, High),
     (''no such file or directory'', Config, Low),
     (''command not found'', Config, Medium),
     (''permission denied'', Config, Low)]"

definition line_containing :: "string \<Rightarrow> string \<Rightarrow> string \<Rightarrow> string option" where
  "line_containing text lower needle =
     (case split_once needle lower of
        None \<Rightarrow> None
      | Some (before, _) \<Rightarrow>
          (let at = length before;
               start = rev (takeWhile (\<lambda>c. c \<noteq> CHR 0x0A) (rev (take at text)));
               rest = takeWhile (\<lambda>c. c \<noteq> CHR 0x0A) (drop at text)
           in Some (trim (start @ rest))))"

fun first_signature ::
  "string \<Rightarrow> string \<Rightarrow> (string \<times> fault_class \<times> confidence) list \<Rightarrow> classification option" where
  "first_signature text lower [] = None"
| "first_signature text lower ((needle, c, k) # sigs) =
     (case line_containing text lower needle of
        Some line \<Rightarrow> Some (classification_new c k line)
      | None \<Rightarrow> first_signature text lower sigs)"

definition classify_text :: "string \<Rightarrow> classification option" where
  "classify_text text =
     (if trim text = [] then None
      else
        (let lower = to_ascii_lowercase text;
             xid_line = (case line_containing text lower ''xid'' of Some l \<Rightarrow> l | None \<Rightarrow> text)
         in case (if contains lower ''xid'' then parse_xid text else None) of
              Some xid \<Rightarrow>
                (case xid_class xid of
                   Some c \<Rightarrow> Some (classification_new c High xid_line)
                 | None \<Rightarrow> Some (classification_new GpuXid Low xid_line))
            | None \<Rightarrow> first_signature text lower signatures))"

subsection \<open>Properties\<close>

lemma fault_all_complete [simp]: "c \<in> set fault_all"
  by (cases c) (simp_all add: fault_all_def)

lemma fault_names_as_str: "fault_class_names = map fault_as_str fault_all"
  by (simp add: fault_class_names_def fault_all_def)

lemma fault_parse_all: "list_all (\<lambda>c. fault_parse (fault_as_str c) = c) fault_all"
  by code_simp

lemma fault_parse_as_str [simp]: "fault_parse (fault_as_str c) = c"
  using fault_parse_all by (simp add: list_all_iff)

lemma fault_as_str_inject [simp]: "fault_as_str c = fault_as_str d \<longleftrightarrow> c = d"
  by (metis fault_parse_as_str)

lemma fault_as_str_in_names [simp]: "fault_as_str c \<in> set fault_class_names"
  by (simp add: fault_names_as_str)

text \<open>A class name is canonical (it reads back as itself, the test a workflow's
  \<open>retry_budgets\<close> keys must pass) exactly when it is one of the advertised names, and
  every class prints a name that parses back to it.\<close>

theorem fault_names_canonical:
  "(s = fault_as_str (fault_parse s) \<longleftrightarrow> s \<in> set fault_class_names)
   \<and> fault_parse (fault_as_str c) = c \<and> distinct fault_class_names"
proof -
  have "s \<in> set fault_class_names \<Longrightarrow> s = fault_as_str (fault_parse s)"
    by (auto simp: fault_names_as_str)
  moreover have "s = fault_as_str (fault_parse s) \<Longrightarrow> s \<in> set fault_class_names"
    by (metis fault_as_str_in_names)
  moreover have "distinct fault_class_names" by code_simp
  ultimately show ?thesis by auto
qed

lemma drain_is_infrastructure:
  "should_drain_node c \<Longrightarrow> fault_disposition c = Infrastructure \<and> fault_precedence c = RootCause"
  by (auto simp: should_drain_node_def fault_disposition_def fault_precedence_def)

text \<open>A driver code drains its node exactly when it is in the table and is not one of
  the kernel-side codes, and a class that drains a node is an infrastructure fault and a
  root cause, so it is retried five times.\<close>

theorem xid_drain_policy:
  "(xid_is_fatal x \<longleftrightarrow> (\<exists>c. xid_class x = Some c \<and> c \<noteq> UserCode))
   \<and> (should_drain_node c \<longrightarrow> fault_default_budget c = 5 \<and> fault_precedence c = RootCause)"
proof -
  have "xid_class x = Some d \<Longrightarrow> should_drain_node d \<longleftrightarrow> d \<noteq> UserCode" for d
    by (auto simp: xid_class_def should_drain_node_def split: if_splits)
  then show ?thesis
    by (auto simp: xid_is_fatal_def fault_default_budget_def drain_is_infrastructure
             split: option.splits)
qed

theorem xid_drain_policy_witness: "fault_default_budget GpuFallenOffBus = 5"
proof -
  have "should_drain_node GpuFallenOffBus" by (simp add: should_drain_node_def)
  then show ?thesis using xid_drain_policy [of 79 GpuFallenOffBus] by blast
qed

subsubsection \<open>The order of the table\<close>

lemma line_containing_None [simp]: "line_containing t l n = None \<longleftrightarrow> \<not> contains l n"
  by (auto simp: line_containing_def contains_def Let_def split: option.splits)

lemma line_containing_Some: "line_containing t l n = Some line \<Longrightarrow> contains l n"
  using line_containing_None [of t l n] by auto

lemma first_signature_None:
  "first_signature t l sigs = None \<longleftrightarrow> (\<forall>(n, c, k) \<in> set sigs. \<not> contains l n)"
  by (induction t l sigs rule: first_signature.induct)
     (auto split: option.splits dest: line_containing_Some)

lemma first_signature_Some:
  "first_signature t l sigs = Some cl \<Longrightarrow>
     \<exists>pre n c k post line. sigs = pre @ (n, c, k) # post
       \<and> (\<forall>(n', c', k') \<in> set pre. \<not> contains l n')
       \<and> line_containing t l n = Some line \<and> cl = classification_new c k line"
proof (induction t l sigs rule: first_signature.induct)
  case (2 t l needle c k sigs)
  show ?case
  proof (cases "line_containing t l needle")
    case None
    with "2.prems" have "first_signature t l sigs = Some cl" by simp
    from "2.IH" [OF None this] obtain pre n c' k' post line where
      h: "sigs = pre @ (n, c', k') # post" "\<forall>(n', c', k') \<in> set pre. \<not> contains l n'"
         "line_containing t l n = Some line" "cl = classification_new c' k' line"
      by blast
    from None have "\<not> contains l needle" by simp
    with h have "\<forall>(n', c', k') \<in> set ((needle, c, k) # pre). \<not> contains l n'" by auto
    with h show ?thesis by (metis append_Cons)
  next
    case (Some line)
    with 2 have "cl = classification_new c k line" by simp
    with Some show ?thesis by fastforce
  qed
qed simp

text \<open>Without a driver code in the text, the verdict is that of the first signature of
  the table that occurs anywhere in it, whatever line it is on: every earlier signature is
  absent from the whole text, the evidence is the line the signature is on, and it is cut
  to 400 characters.\<close>

theorem classify_text_table_order:
  assumes "classify_text t = Some cl" and "\<not> contains (to_ascii_lowercase t) ''xid''"
  shows "\<exists>pre n c k post line. signatures = pre @ (n, c, k) # post
     \<and> (\<forall>(n', c', k') \<in> set pre. \<not> contains (to_ascii_lowercase t) n')
     \<and> contains (to_ascii_lowercase t) n
     \<and> line_containing t (to_ascii_lowercase t) n = Some line
     \<and> cl = classification_new c k line \<and> length (fst (cl_evidence cl)) \<le> 400"
proof -
  from assms have "first_signature t (to_ascii_lowercase t) signatures = Some cl"
    by (simp add: classify_text_def Let_def split: if_splits)
  then obtain pre n c k post line where
    h: "signatures = pre @ (n, c, k) # post"
       "\<forall>(n', c', k') \<in> set pre. \<not> contains (to_ascii_lowercase t) n'"
       "line_containing t (to_ascii_lowercase t) n = Some line" "cl = classification_new c k line"
    using first_signature_Some by blast
  from h(3) have "contains (to_ascii_lowercase t) n"
    by (metis line_containing_None option.distinct(1))
  moreover have "length (fst (cl_evidence cl)) \<le> 400"
    by (simp add: h(4) classification_new_def clip_def Let_def)
  ultimately show ?thesis using h by blast
qed

lemma signatures_head: "signatures = (''cuda out of memory'', GpuOom, High) # tl signatures"
  by (simp add: signatures_def)

text \<open>The symptom comes first in the text and the cause later: the cause wins.\<close>

definition oom_after_timeout :: string where
  "oom_after_timeout =
     ''Timeout(ms)=1'' @ [CHR 0x0A] @ ''CUDA out of memory''"

lemma oom_after_timeout_class:
  "classify_text oom_after_timeout = Some \<lparr>cl_class = GpuOom, cl_confidence = High,
     cl_evidence = (''CUDA out of memory'', False)\<rparr>"
  by code_simp

lemma oom_after_timeout_no_xid: "\<not> contains (to_ascii_lowercase oom_after_timeout) ''xid''"
  by code_simp

theorem classify_text_table_order_witness:
  "\<exists>pre n c k post. signatures = pre @ (n, c, k) # post \<and> c = GpuOom
     \<and> contains (to_ascii_lowercase oom_after_timeout) n"
  using classify_text_table_order [OF oom_after_timeout_class oom_after_timeout_no_xid]
  by (auto simp: classification_new_def)

text \<open>The search for the code behind an \<open>Xid (\<close> looks for the closing bracket in the
  whole rest of the text, not in its line: with the bracket closed on the next line, the
  number is taken from the next line, which the function's comment says cannot happen.\<close>

theorem parse_xid_next_line:
  "parse_xid (''NVRM: Xid (PCI'' @ [CHR 0x0A] @ ''retry) 79'') = Some 79
   \<and> parse_xid (''NVRM: Xid'' @ [CHR 0x0A] @ ''retry 79'') = None"
  by code_simp

end
