(* ===== verification/Models.thy ===== *)
theory Models
  imports Fault
begin

text \<open>
  The vocabulary of the datastore (\<open>dagron-core/src/models.rs\<close>): the statuses and their
  stored spelling, the rules that decide whether a task whose dependencies are over runs,
  and the retry policy of a failed attempt.
\<close>

subsection \<open>Stored enumerations\<close>

text \<open>
  An enumeration column is written with \<open>Display\<close> and read with \<open>FromStr\<close>. The contract
  of such a pair is the same for every one of them, and is stated once.
\<close>

locale stored_enum =
  fixes put :: "'a \<Rightarrow> string"
    and get :: "string \<Rightarrow> 'a option"
  assumes get_put: "get (put a) = Some a"
    and get_exact: "get s = Some a \<Longrightarrow> put a = s"
begin

lemma put_inj: "put a = put b \<longleftrightarrow> a = b"
  by (metis get_put option.inject)

lemma get_Some_iff: "get s = Some a \<longleftrightarrow> s = put a"
  using get_put get_exact by blast

lemma get_None_iff: "get s = None \<longleftrightarrow> s \<notin> range put"
  by (metis get_Some_iff not_None_eq rangeE rangeI)

lemma get_inj: "get s = Some a \<Longrightarrow> get t = Some a \<Longrightarrow> s = t"
  using get_exact by metis

end

datatype clock_confidence = Synced | Drifted | CUnknown

fun clock_as_str :: "clock_confidence \<Rightarrow> string" where
  "clock_as_str Synced = ''synced''"
| "clock_as_str Drifted = ''drifted''"
| "clock_as_str CUnknown = ''unknown''"

fun clock_gauge :: "clock_confidence \<Rightarrow> nat" where
  "clock_gauge Synced = 0"
| "clock_gauge Drifted = 1"
| "clock_gauge CUnknown = 2"

definition clock_from_str :: "string \<Rightarrow> clock_confidence option" where
  "clock_from_str s =
     (if s = ''synced'' then Some Synced
      else if s = ''drifted'' then Some Drifted
      else if s = ''unknown'' then Some CUnknown
      else None)"

datatype task_status =
  Pending | Ready | Running | AwaitingApproval | Succeeded | Failed | Skipped | Cancelled

fun task_status_str :: "task_status \<Rightarrow> string" where
  "task_status_str Pending = ''pending''"
| "task_status_str Ready = ''ready''"
| "task_status_str Running = ''running''"
| "task_status_str AwaitingApproval = ''awaiting_approval''"
| "task_status_str Succeeded = ''succeeded''"
| "task_status_str Failed = ''failed''"
| "task_status_str Skipped = ''skipped''"
| "task_status_str Cancelled = ''cancelled''"

definition task_status_from_str :: "string \<Rightarrow> task_status option" where
  "task_status_from_str s =
     (if s = ''pending'' then Some Pending
      else if s = ''ready'' then Some Ready
      else if s = ''running'' then Some Running
      else if s = ''awaiting_approval'' then Some AwaitingApproval
      else if s = ''succeeded'' then Some Succeeded
      else if s = ''failed'' then Some Failed
      else if s = ''skipped'' then Some Skipped
      else if s = ''cancelled'' then Some Cancelled
      else None)"

datatype run_status = RunPending | RunRunning | RunSucceeded | RunFailed | RunCancelled

fun run_status_str :: "run_status \<Rightarrow> string" where
  "run_status_str RunPending = ''pending''"
| "run_status_str RunRunning = ''running''"
| "run_status_str RunSucceeded = ''succeeded''"
| "run_status_str RunFailed = ''failed''"
| "run_status_str RunCancelled = ''cancelled''"

definition run_status_from_str :: "string \<Rightarrow> run_status option" where
  "run_status_from_str s =
     (if s = ''pending'' then Some RunPending
      else if s = ''running'' then Some RunRunning
      else if s = ''succeeded'' then Some RunSucceeded
      else if s = ''failed'' then Some RunFailed
      else if s = ''cancelled'' then Some RunCancelled
      else None)"

fun run_is_terminal :: "run_status \<Rightarrow> bool" where
  "run_is_terminal s = (s \<in> {RunSucceeded, RunFailed, RunCancelled})"

interpretation clock_enum: stored_enum clock_as_str clock_from_str
proof
  show "clock_from_str (clock_as_str a) = Some a" for a
    by (cases a) (simp_all add: clock_from_str_def)
  show "clock_from_str s = Some a \<Longrightarrow> clock_as_str a = s" for s a
    by (auto simp: clock_from_str_def split: if_splits)
qed

interpretation task_enum: stored_enum task_status_str task_status_from_str
proof
  show "task_status_from_str (task_status_str a) = Some a" for a
    by (cases a) (simp_all add: task_status_from_str_def)
  show "task_status_from_str s = Some a \<Longrightarrow> task_status_str a = s" for s a
    by (auto simp: task_status_from_str_def split: if_splits)
qed

interpretation run_enum: stored_enum run_status_str run_status_from_str
proof
  show "run_status_from_str (run_status_str a) = Some a" for a
    by (cases a) (simp_all add: run_status_from_str_def)
  show "run_status_from_str s = Some a \<Longrightarrow> run_status_str a = s" for s a
    by (auto simp: run_status_from_str_def split: if_splits)
qed

text \<open>The four statuses a task never leaves on its own.\<close>

definition is_terminal :: "task_status \<Rightarrow> bool" where
  "is_terminal s = (s \<in> {Succeeded, Failed, Skipped, Cancelled})"

text \<open>The state machine of a task (\<open>docs/ARCHITECTURE.md\<close>, section 3), with the moves of
  approval gates, fan-out barriers and stops.\<close>

inductive task_move :: "task_status \<Rightarrow> task_status \<Rightarrow> bool" where
  ready: "task_move Pending Ready"
| skip: "task_move Pending Skipped"
| gate: "task_move Pending AwaitingApproval"
| barrier: "task_move Pending Running"
| unfit: "task_move Pending Failed"
| claim: "task_move Ready Running"
| requeue: "task_move Running Ready"
| succeed: "s \<in> {Running, AwaitingApproval} \<Longrightarrow> task_move s Succeeded"
| fail: "s \<in> {Running, AwaitingApproval} \<Longrightarrow> task_move s Failed"
| cancel: "s \<in> {Pending, Ready, Running, AwaitingApproval} \<Longrightarrow> task_move s Cancelled"

text \<open>Where a status can lead, as a function.\<close>

fun can_reach :: "task_status \<Rightarrow> task_status \<Rightarrow> bool" where
  "can_reach Pending s = True"
| "can_reach Ready s = (s \<in> {Ready, Running, Succeeded, Failed, Cancelled})"
| "can_reach Running s = (s \<in> {Ready, Running, Succeeded, Failed, Cancelled})"
| "can_reach AwaitingApproval s = (s \<in> {AwaitingApproval, Succeeded, Failed, Cancelled})"
| "can_reach s s' = (s' = s)"

inductive_simps task_move_simps [simp]: "task_move s s'"

lemma can_reach_refl [simp]: "can_reach s s"
  by (cases s) simp_all

lemma can_reach_trans: "can_reach a b \<Longrightarrow> can_reach b c \<Longrightarrow> can_reach a c"
  by (cases a; cases b) auto

lemma can_reach_final: "can_reach s s' \<Longrightarrow> is_terminal s \<Longrightarrow> s' = s"
  by (cases s) (simp_all add: is_terminal_def)

lemma can_reach_pending: "can_reach s Pending \<Longrightarrow> s = Pending"
  by (cases s) simp_all

lemma can_reach_moves: "can_reach s s' \<longleftrightarrow> task_move\<^sup>*\<^sup>* s s'"
proof
  assume "task_move\<^sup>*\<^sup>* s s'"
  then show "can_reach s s'"
  proof induction
    case (step b c)
    then show ?case by (cases s; cases b) auto
  qed simp
next
  have two: "task_move a b \<Longrightarrow> task_move b c \<Longrightarrow> task_move\<^sup>*\<^sup>* a c" for a b c
    by (meson r_into_rtranclp rtranclp.rtrancl_into_rtrancl)
  have "task_move\<^sup>*\<^sup>* Pending Succeeded" "task_move\<^sup>*\<^sup>* Ready Succeeded" "task_move\<^sup>*\<^sup>* Ready Failed"
    by (rule two [of _ Running]; simp)+
  moreover assume "can_reach s s'"
  ultimately show "task_move\<^sup>*\<^sup>* s s'"
    by (cases s; cases s') (auto intro: r_into_rtranclp)
qed

lemma is_terminal_simps [simp]:
  "is_terminal Succeeded" "is_terminal Failed" "is_terminal Skipped" "is_terminal Cancelled"
  "\<not> is_terminal Pending" "\<not> is_terminal Ready" "\<not> is_terminal Running"
  "\<not> is_terminal AwaitingApproval"
  by (simp_all add: is_terminal_def)

subsection \<open>Orders the code derives\<close>

text \<open>\<open>Precedence\<close> and \<open>Confidence\<close> derive \<open>Ord\<close>: the order of their constructors.\<close>

fun precedence_rank :: "precedence \<Rightarrow> nat" where
  "precedence_rank Symptom = 0"
| "precedence_rank Ambiguous = 1"
| "precedence_rank RootCause = 2"

fun confidence_rank :: "confidence \<Rightarrow> nat" where
  "confidence_rank Low = 0"
| "confidence_rank Medium = 1"
| "confidence_rank High = 2"

lemma precedence_rank_inj: "precedence_rank a = precedence_rank b \<Longrightarrow> a = b"
  by (cases a; cases b) auto

lemma confidence_rank_inj: "confidence_rank a = confidence_rank b \<Longrightarrow> a = b"
  by (cases a; cases b) auto

instantiation precedence :: linorder
begin
definition less_eq_precedence :: "precedence \<Rightarrow> precedence \<Rightarrow> bool" where
  "less_eq_precedence a b = (precedence_rank a \<le> precedence_rank b)"
definition less_precedence :: "precedence \<Rightarrow> precedence \<Rightarrow> bool" where
  "less_precedence a b = (precedence_rank a < precedence_rank b)"
instance
  by standard (auto simp: less_eq_precedence_def less_precedence_def dest: precedence_rank_inj)
end

instantiation confidence :: linorder
begin
definition less_eq_confidence :: "confidence \<Rightarrow> confidence \<Rightarrow> bool" where
  "less_eq_confidence a b = (confidence_rank a \<le> confidence_rank b)"
definition less_confidence :: "confidence \<Rightarrow> confidence \<Rightarrow> bool" where
  "less_confidence a b = (confidence_rank a < confidence_rank b)"
instance
  by standard (auto simp: less_eq_confidence_def less_confidence_def dest: confidence_rank_inj)
end

subsection \<open>Trigger rules\<close>

definition trigger_rules :: "string list" where
  "trigger_rules = [''all_success'', ''all_done'', ''one_failed'', ''all_failed'', ''none_failed'']"

definition default_trigger_rule :: string where
  "default_trigger_rule = ''all_success''"

definition trigger_rule_ready :: "string \<Rightarrow> string list \<Rightarrow> bool" where
  "trigger_rule_ready rule dep_statuses =
     (let is_failed = (\<lambda>s. s = ''failed'' \<or> s = ''cancelled'');
          is_nonfailure = (\<lambda>s. s = ''succeeded'' \<or> s = ''skipped'')
      in if dep_statuses = [] then True
         else if rule = ''all_done'' then True
         else if rule = ''one_failed'' then list_ex is_failed dep_statuses
         else if rule = ''all_failed'' then list_all is_failed dep_statuses
         else if rule = ''none_failed'' then list_all is_nonfailure dep_statuses
         else list_all (\<lambda>s. s = ''succeeded'') dep_statuses)"

text \<open>Over the outcomes of finished dependencies the five rules fit together: a root
  always runs; with a dependency, exactly one of \<open>one_failed\<close> and \<open>none_failed\<close> holds;
  \<open>all_success\<close> implies \<open>none_failed\<close>, and \<open>all_failed\<close> implies \<open>one_failed\<close>; a rule the
  code does not know is read as \<open>all_success\<close>.\<close>

theorem trigger_rules_fit:
  assumes "list_all is_terminal ds"
  defines "ss \<equiv> map task_status_str ds"
  shows "(ds = [] \<longrightarrow> trigger_rule_ready rule ss)
    \<and> (ds \<noteq> [] \<longrightarrow> (trigger_rule_ready ''one_failed'' ss \<longleftrightarrow> \<not> trigger_rule_ready ''none_failed'' ss))
    \<and> (trigger_rule_ready ''all_success'' ss \<longrightarrow> trigger_rule_ready ''none_failed'' ss)
    \<and> (trigger_rule_ready ''all_failed'' ss \<longrightarrow> trigger_rule_ready ''one_failed'' ss)
    \<and> (rule \<notin> set trigger_rules \<longrightarrow>
         trigger_rule_ready rule ss = trigger_rule_ready ''all_success'' ss)"
proof -
  have one: "s = ''failed'' \<or> s = ''cancelled'' \<longleftrightarrow> \<not> (s = ''succeeded'' \<or> s = ''skipped'')"
    if "s \<in> set ss" for s
  proof -
    from that obtain d where "d \<in> set ds" "s = task_status_str d" by (auto simp: ss_def)
    with assms(1) show ?thesis by (cases d) (auto simp: list_all_iff)
  qed
  have "ds \<noteq> [] \<Longrightarrow> trigger_rule_ready ''one_failed'' ss \<longleftrightarrow> \<not> trigger_rule_ready ''none_failed'' ss"
    using one by (auto simp: trigger_rule_ready_def ss_def list_ex_iff list_all_iff Let_def)
  moreover have "trigger_rule_ready ''all_failed'' ss \<longrightarrow> trigger_rule_ready ''one_failed'' ss"
    by (cases ss) (auto simp: trigger_rule_ready_def list_ex_iff list_all_iff)
  ultimately show ?thesis
    by (auto simp: trigger_rule_ready_def trigger_rules_def ss_def list_all_iff)
qed

theorem trigger_rules_fit_witness:
  "trigger_rule_ready ''one_failed'' (map task_status_str [Succeeded, Failed])
    \<longleftrightarrow> \<not> trigger_rule_ready ''none_failed'' (map task_status_str [Succeeded, Failed])"
  using trigger_rules_fit [of "[Succeeded, Failed]"] by simp

lemma trigger_rule_all_success:
  "trigger_rule_ready ''all_success'' (map task_status_str ds) \<longleftrightarrow> list_all (\<lambda>d. d = Succeeded) ds"
proof -
  have "task_status_str d = ''succeeded'' \<longleftrightarrow> d = Succeeded" for d
    using task_enum.put_inj [of d Succeeded] by simp
  then show ?thesis
    by (cases ds) (auto simp: trigger_rule_ready_def list_all_iff)
qed

subsection \<open>Retries\<close>

definition should_retry_failed :: "int \<Rightarrow> nat \<Rightarrow> bool \<Rightarrow> bool \<Rightarrow> bool" where
  "should_retry_failed attempt max_attempts timed_out retry_on_timeout =
     (if timed_out \<and> \<not> retry_on_timeout then False else attempt < int max_attempts)"

definition effective_budget :: "nat \<Rightarrow> fault_class option \<Rightarrow> nat option \<Rightarrow> nat" where
  "effective_budget max_attempts cls budget_override =
     (case budget_override of
        Some n \<Rightarrow> n
      | None \<Rightarrow>
          (case cls of
             Some c \<Rightarrow> (let d = fault_default_budget c in if d > 0 then d else max_attempts)
           | None \<Rightarrow> max_attempts))"

definition should_retry_failed_with_class ::
  "int \<Rightarrow> nat \<Rightarrow> bool \<Rightarrow> bool \<Rightarrow> fault_class option \<Rightarrow> nat option \<Rightarrow> bool" where
  "should_retry_failed_with_class attempt max_attempts timed_out retry_on_timeout cls budget_override =
     (if timed_out \<and> \<not> retry_on_timeout then False
      else attempt < int (effective_budget max_attempts cls budget_override))"

text \<open>An unclassified failure, and one of a class that declines to have an opinion, is
  retried as it was before classes: on the task's own budget. The author's word for a
  class beats the class, an infrastructure fault gets five attempts whatever
  \<open>max_attempts\<close> is, an application fault one, and a deadline kill the author opted out of
  retrying is not resurrected by any of them.\<close>

theorem retry_budget_precedence:
  "should_retry_failed_with_class a m t r None None = should_retry_failed a m t r
   \<and> (fault_disposition c = DUnknown \<longrightarrow>
        should_retry_failed_with_class a m t r (Some c) None = should_retry_failed a m t r)
   \<and> should_retry_failed_with_class a m False r k (Some b) = (a < int b)
   \<and> (fault_disposition c = Infrastructure \<longrightarrow>
        should_retry_failed_with_class a m False r (Some c) None = (a < 5))
   \<and> (fault_disposition c = Application \<longrightarrow>
        should_retry_failed_with_class a m False r (Some c) None = (a < 1))
   \<and> \<not> should_retry_failed_with_class a m True False k ov"
  by (auto simp: should_retry_failed_with_class_def should_retry_failed_def effective_budget_def
        fault_default_budget_def Let_def)

theorem retry_budget_precedence_witness:
  "should_retry_failed_with_class 4 1 False True (Some GpuEcc) None"
proof -
  have "fault_disposition GpuEcc = Infrastructure" by (simp add: fault_disposition_def)
  then show ?thesis
    using retry_budget_precedence [of 4 1 False True GpuEcc None 0 None] by simp
qed

text \<open>What a person's rerun, retry or clear keeps a replaced attempt under.\<close>

datatype run_again = Rerun | RerunAll | Retry | Clear | AutoRerun

fun run_again_reason :: "run_again \<Rightarrow> string" where
  "run_again_reason Rerun = ''rerun''"
| "run_again_reason RerunAll = ''rerun''"
| "run_again_reason AutoRerun = ''rerun''"
| "run_again_reason Retry = ''retry''"
| "run_again_reason Clear = ''clear''"

end
