(* ===== verification/Task_Rows.thy ===== *)
theory Task_Rows
  imports Models
begin

text \<open>
  The tables the scheduler works on (\<open>dagron-core/src/models.rs\<close>, \<open>db/sqlite.rs\<close>): the rows
  of \<open>task_runs\<close> and \<open>workflow_runs\<close>, the edges of \<open>task_dependencies\<close>, and the contract of
  the statements that change task rows.

  The counter \<open>remaining_deps\<close> is what makes a task start: it must never be lower than the
  number of dependencies still open. A statement that ends tasks owes their dependents a
  decrement each; the debt is paid by the statements that follow it in the transaction.
  The contract of each kind of statement is a locale, and its consequences for the tables
  are proved once in it.
\<close>

subsection \<open>Rows\<close>

record task_row =
  tr_id :: string
  tr_run_id :: string
  tr_name :: string
  tr_status :: task_status
  tr_attempt :: int
  tr_remaining_deps :: int
  tr_input :: "string option"
  tr_output :: "string option"
  tr_claimed_by :: "string option"
  tr_lease_expires_at :: "instant option"
  tr_version :: int
  tr_scheduled_at :: "instant option"
  tr_finished_at :: "instant option"
  tr_trigger_rule :: string
  tr_allow_failure :: bool
  tr_is_approval :: bool
  tr_approval_timeout_secs :: "int option"
  tr_approval_on_timeout :: "string option"
  tr_runner_class :: string
  tr_gang_id :: "string option"
  tr_gang_size :: "int option"
  tr_priority :: int
  tr_pool :: "string option"
  tr_cache_hit :: bool
  tr_wake_at :: "instant option"
  tr_wait_url :: "string option"
  tr_wait_dataset :: "string option"
  tr_wait_dataset_cursor :: "int option"
  tr_next_poll_at :: "instant option"
  tr_sub_run_id :: "string option"
  tr_fanout_of :: "string option"
  tr_external_kind :: "string option"
  tr_external_handle :: "string option"
  tr_external_endpoint :: "string option"
  tr_external_epoch :: int
  tr_external_deadline_at :: "instant option"
  tr_external_cancel_attempts :: int
  tr_fault_class :: "string option"
  tr_fault_detail :: "string option"
  tr_fault_confidence :: "string option"
  tr_decided_by :: "string option"
  tr_decision_comment :: "string option"
  tr_log :: "string option"
  tr_log_fence :: "int option"
  tr_log_gen :: "string option"
  tr_quota_wait_since :: "instant option"
  tr_quota_wait_version :: "int option"
  tr_quota_waits :: int
  tr_quota_wait_detail :: "string option"
  tr_stop_requested_at :: "instant option"
  tr_session_id :: "string option"
  tr_attempt_base :: int

record run_row =
  wr_id :: string
  wr_definition_id :: string
  wr_status :: run_status
  wr_input :: "string option"
  wr_output :: "string option"
  wr_created_at :: instant
  wr_finished_at :: "instant option"
  wr_clock_confidence :: "string option"
  wr_clock_offset_ms :: "int option"
  wr_clock_source :: "string option"
  wr_deadline_at :: "instant option"
  wr_result_from :: "string option"
  wr_completion_pending_at :: "instant option"
  wr_start_pending_at :: "instant option"
  wr_stopping_as :: "run_status option"
  wr_stop_requested_at :: "instant option"
  wr_queued_at :: "instant option"
  wr_admitted_at :: "instant option"

text \<open>\<open>WorkflowRun::waits\<close>: a run that arrived while its workflow's cap was full.\<close>

definition run_waits :: "run_row \<Rightarrow> bool" where
  "run_waits w = (wr_status w = RunRunning \<and> wr_queued_at w \<noteq> None \<and> wr_admitted_at w = None)"

record attempt_row =
  at_task_id :: string
  at_attempt :: int
  at_reason :: string
  at_status :: "string option"
  at_scheduled_at :: "instant option"
  at_output :: "string option"
  at_truncated :: bool
  at_finished_at :: instant

record outbox_event =
  ev_id :: string
  ev_run_id :: string
  ev_type :: string
  ev_payload :: string
  ev_status :: string
  ev_attempts :: int
  ev_next_attempt_at :: instant
  ev_created_at :: instant

text \<open>An edge is \<open>(dependent_id, dependency_id)\<close>.\<close>

record db =
  task_runs :: "task_row list"
  task_deps :: "(string \<times> string) list"
  workflow_runs :: "run_row list"
  task_attempts :: "attempt_row list"
  event_outbox :: "outbox_event list"

subsection \<open>Statements\<close>

definition upd :: "(task_row \<Rightarrow> bool) \<Rightarrow> (task_row \<Rightarrow> task_row) \<Rightarrow> db \<Rightarrow> db" where
  "upd p f db = db\<lparr>task_runs := update_where p f (task_runs db)\<rparr>"

definition aff :: "(task_row \<Rightarrow> bool) \<Rightarrow> db \<Rightarrow> nat" where
  "aff p db = rows_affected p (task_runs db)"

definition upd_runs :: "(run_row \<Rightarrow> bool) \<Rightarrow> (run_row \<Rightarrow> run_row) \<Rightarrow> db \<Rightarrow> db" where
  "upd_runs p f db = db\<lparr>workflow_runs := update_where p f (workflow_runs db)\<rparr>"

lemma upd_simps [simp]:
  "task_runs (upd p f db) = update_where p f (task_runs db)"
  "task_deps (upd p f db) = task_deps db"
  "workflow_runs (upd p f db) = workflow_runs db"
  "task_attempts (upd p f db) = task_attempts db"
  "event_outbox (upd p f db) = event_outbox db"
  by (simp_all add: upd_def)

lemma upd_runs_simps [simp]:
  "task_runs (upd_runs p f db) = task_runs db"
  "task_deps (upd_runs p f db) = task_deps db"
  "workflow_runs (upd_runs p f db) = update_where p f (workflow_runs db)"
  "task_attempts (upd_runs p f db) = task_attempts db"
  "event_outbox (upd_runs p f db) = event_outbox db"
  by (simp_all add: upd_runs_def)

definition dependency_ids :: "db \<Rightarrow> string \<Rightarrow> string list" where
  "dependency_ids db t = map snd (filter (\<lambda>e. fst e = t) (task_deps db))"

definition dependent_ids :: "db \<Rightarrow> string \<Rightarrow> string list" where
  "dependent_ids db t = map fst (filter (\<lambda>e. snd e = t) (task_deps db))"

text \<open>The join of \<open>task_dependencies\<close> with the rows of the dependencies.\<close>

definition dep_rows :: "db \<Rightarrow> string \<Rightarrow> task_row list" where
  "dep_rows db t =
     concat (map (\<lambda>i. filter (\<lambda>r. tr_id r = i) (task_runs db)) (dependency_ids db t))"

text \<open>
  \<open>UPDATE task_runs SET remaining_deps = remaining_deps - 1 WHERE id IN (dependents of t)
  AND status = 'pending'\<close>: the statement every terminal transition of \<open>t\<close> is followed by.
\<close>

definition decrement_dependents :: "string \<Rightarrow> db \<Rightarrow> db" where
  "decrement_dependents t db =
     upd (\<lambda>r. tr_id r \<in> set (dependent_ids db t) \<and> tr_status r = Pending)
         (\<lambda>r. r\<lparr>tr_remaining_deps := tr_remaining_deps r - 1\<rparr>) db"

lemma set_dependency_ids: "d \<in> set (dependency_ids db t) \<longleftrightarrow> (t, d) \<in> set (task_deps db)"
  by (force simp: dependency_ids_def)

lemma set_dependent_ids: "i \<in> set (dependent_ids db t) \<longleftrightarrow> (i, t) \<in> set (task_deps db)"
  by (force simp: dependent_ids_def)

lemma set_dep_rows:
  "r \<in> set (dep_rows db t) \<longleftrightarrow> r \<in> set (task_runs db) \<and> (t, tr_id r) \<in> set (task_deps db)"
  by (auto simp: dep_rows_def set_dependency_ids)

subsection \<open>The counter and the open dependencies\<close>

text \<open>A dependency is open while a row of its id has not ended.\<close>

definition open_id :: "db \<Rightarrow> string \<Rightarrow> bool" where
  "open_id db i = list_ex (\<lambda>r. tr_id r = i \<and> \<not> is_terminal (tr_status r)) (task_runs db)"

definition open_deps :: "db \<Rightarrow> string \<Rightarrow> nat" where
  "open_deps db t = length (filter (open_id db) (dependency_ids db t))"

text \<open>What the ids of \<open>D\<close>, ended but not yet counted down, still owe to \<open>t\<close>.\<close>

definition debt :: "db \<Rightarrow> string list \<Rightarrow> string \<Rightarrow> nat" where
  "debt db D t = length (filter (\<lambda>d. (t, d) \<in> set (task_deps db)) D)"

text \<open>How much higher the counter of a row is than it must be.\<close>

definition slack :: "db \<Rightarrow> string list \<Rightarrow> task_row \<Rightarrow> int" where
  "slack db D r = tr_remaining_deps r - int (open_deps db (tr_id r)) - int (debt db D (tr_id r))"

text \<open>A parked row carries what it waits for: a child run, a time, a URL, a dataset or a remote
  job.\<close>

definition no_park :: "task_row \<Rightarrow> bool" where
  "no_park r =
     (tr_sub_run_id r = None \<and> tr_wake_at r = None \<and> tr_wait_url r = None
      \<and> tr_wait_dataset r = None \<and> tr_external_handle r = None)"

text \<open>A row that a worker holds is running, only a held row is asked to stop, a lease that
  counts has a holder, nothing that can be claimed or is held is parked, and a trigger parked on
  its child run waits for nothing else.\<close>

definition row_ok :: "task_row \<Rightarrow> bool" where
  "row_ok r = ((tr_claimed_by r \<noteq> None \<longrightarrow> tr_status r = Running)
               \<and> (tr_stop_requested_at r \<noteq> None \<longrightarrow> tr_claimed_by r \<noteq> None)
               \<and> (tr_lease_expires_at r \<noteq> None \<longrightarrow> tr_claimed_by r \<noteq> None \<or> is_terminal (tr_status r))
               \<and> (tr_claimed_by r \<noteq> None \<or> tr_status r \<in> {Pending, Ready} \<longrightarrow> no_park r)
               \<and> (tr_sub_run_id r \<noteq> None \<longrightarrow> no_park (r\<lparr>tr_sub_run_id := None\<rparr>)))"

definition has_started :: "task_status \<Rightarrow> bool" where
  "has_started s = (s \<noteq> Pending \<and> s \<noteq> Cancelled)"

text \<open>A task is begun when it is queued, runs, is asked about or has succeeded. (It can fail
  without: its condition may not be readable.)\<close>

fun begun :: "task_status \<Rightarrow> bool" where
  "begun Pending = False"
| "begun Ready = True"
| "begun Running = True"
| "begun AwaitingApproval = True"
| "begun Succeeded = True"
| "begun Failed = False"
| "begun Skipped = False"
| "begun Cancelled = False"

text \<open>The trigger rule of a row, on how its dependencies stand.\<close>

definition rule_met :: "db \<Rightarrow> task_row \<Rightarrow> bool" where
  "rule_met db r =
     trigger_rule_ready (tr_trigger_rule r) (map (\<lambda>d. task_status_str (tr_status d)) (dep_rows db (tr_id r)))"

definition tables_ok :: "db \<Rightarrow> bool" where
  "tables_ok db =
     (distinct (map tr_id (task_runs db)) \<and> distinct (task_deps db)
      \<and> list_all (\<lambda>e. fst e \<in> tr_id ` set (task_runs db) \<and> snd e \<in> tr_id ` set (task_runs db)) (task_deps db)
      \<and> list_all row_ok (task_runs db))"

text \<open>The invariant, with the debt \<open>D\<close>: a pending row's counter covers what it waits for, a
  row that has started waits for nothing, and the rule of one that is begun was met.\<close>

definition sched_inv_debt :: "string list \<Rightarrow> db \<Rightarrow> bool" where
  "sched_inv_debt D db =
     (tables_ok db
      \<and> list_all (\<lambda>r. tr_status r = Pending \<longrightarrow> 0 \<le> slack db D r) (task_runs db)
      \<and> list_all (\<lambda>r. has_started (tr_status r) \<longrightarrow> open_deps db (tr_id r) = 0) (task_runs db)
      \<and> list_all (\<lambda>r. begun (tr_status r) \<longrightarrow> rule_met db r) (task_runs db))"

definition sched_inv :: "db \<Rightarrow> bool" where
  "sched_inv db = sched_inv_debt [] db"

text \<open>The exact counter: nothing is counted down twice and nothing is forgotten.\<close>

definition counter_exact_debt :: "string list \<Rightarrow> db \<Rightarrow> bool" where
  "counter_exact_debt D db =
     list_all (\<lambda>r. tr_status r = Pending \<longrightarrow> slack db D r = 0) (task_runs db)"

definition counter_exact :: "db \<Rightarrow> bool" where
  "counter_exact db = counter_exact_debt [] db"

end
