(* ===== verification/Contracts.thy ===== *)
theory Contracts
  imports Task_Rows
begin

text \<open>
  The contracts of the statements that change task rows, and what each gives for the
  invariant: a statement that ends no task keeps the invariant, one that ends tasks owes
  their dependents a decrement, and \<open>decrement_dependents\<close> pays one.
\<close>

named_theorems stmt_defs \<open>WHERE and SET clauses\<close>

subsection \<open>Debts\<close>

lemma debt_Nil [simp]: "debt db [] t = 0"
  by (simp add: debt_def)

lemma debt_Cons: "debt db (d # D) t = (if (t, d) \<in> set (task_deps db) then 1 else 0) + debt db D t"
  by (simp add: debt_def)

lemma debt_append: "debt db (A @ D) t = debt db A t + debt db D t"
  by (simp add: debt_def)

lemma debt_cong: "task_deps db' = task_deps db \<Longrightarrow> debt db' D t = debt db D t"
  by (simp add: debt_def)

lemma forget_debt: "sched_inv_debt (A @ D) db \<Longrightarrow> sched_inv_debt D db"
  by (fastforce simp: sched_inv_debt_def slack_def debt_append list_all_iff)

lemma no_negative_counter:
  "sched_inv_debt D db \<Longrightarrow> r \<in> set (task_runs db) \<Longrightarrow> tr_status r = Pending \<Longrightarrow> 0 \<le> tr_remaining_deps r"
  by (fastforce simp: sched_inv_debt_def slack_def list_all_iff)

lemma dependency_ids_distinct: "distinct (task_deps db) \<Longrightarrow> distinct (dependency_ids db t)"
  by (auto simp: dependency_ids_def distinct_map inj_on_def)

lemma upd_edges [simp]:
  "debt (upd p f db) = debt db" "dependency_ids (upd p f db) = dependency_ids db"
  by (simp_all add: debt_def dependency_ids_def fun_eq_iff)

lemma tables_ok_row: "tables_ok db \<Longrightarrow> r \<in> set (task_runs db) \<Longrightarrow> row_ok r"
  by (auto simp: tables_ok_def list_all_iff)

lemma open_id_row:
  assumes "tables_ok db" "r \<in> set (task_runs db)"
  shows "open_id db (tr_id r) \<longleftrightarrow> \<not> is_terminal (tr_status r)"
  using assms distinct_key_eq [of tr_id "task_runs db"]
  by (auto simp: tables_ok_def open_id_def list_ex_iff)

lemma open_deps_0:
  "open_deps db t = 0 \<longleftrightarrow> (\<forall>r \<in> set (dep_rows db t). is_terminal (tr_status r))"
  by (auto simp: open_deps_def filter_empty_conv set_dep_rows set_dependency_ids open_id_def list_ex_iff)

text \<open>The invariant reads the task rows and the edges only.\<close>

lemma inv_tables: "sched_inv_debt D db \<Longrightarrow> tables_ok db"
  by (simp add: sched_inv_debt_def)

lemma inv_cong:
  assumes "task_runs a = task_runs b" "task_deps a = task_deps b"
  shows "sched_inv_debt D a = sched_inv_debt D b" "counter_exact_debt D a = counter_exact_debt D b"
    "tables_ok a = tables_ok b"
proof -
  have "open_deps a = open_deps b"
    using assms by (simp add: open_deps_def open_id_def dependency_ids_def fun_eq_iff)
  then have "slack a D r = slack b D r" for r using assms by (simp add: slack_def debt_def)
  moreover have "rule_met a = rule_met b"
    using assms by (simp add: rule_met_def dep_rows_def dependency_ids_def fun_eq_iff)
  ultimately show "sched_inv_debt D a = sched_inv_debt D b"
    "counter_exact_debt D a = counter_exact_debt D b" "tables_ok a = tables_ok b"
    using assms \<open>open_deps a = open_deps b\<close> by (simp_all add: sched_inv_debt_def tables_ok_def counter_exact_debt_def)
qed

lemma begun_started: "begun s \<Longrightarrow> has_started s"
  by (cases s) (simp_all add: has_started_def)

text \<open>A rule, once its dependencies are over, is met or not for good.\<close>

lemma rule_met_over:
  assumes "task_deps db' = task_deps db" "tr_id r' = tr_id r" "tr_trigger_rule r' = tr_trigger_rule r"
    and "\<And>i. filter (\<lambda>q. tr_id q = i) (task_runs db') = map g (filter (\<lambda>q. tr_id q = i) (task_runs db))"
    and "open_deps db (tr_id r) = 0"
    and "\<And>q. q \<in> set (task_runs db) \<Longrightarrow> is_terminal (tr_status q) \<Longrightarrow> tr_status (g q) = tr_status q"
  shows "rule_met db' r' = rule_met db r"
proof -
  have "map (\<lambda>d. task_status_str (tr_status d)) (dep_rows db' (tr_id r)) =
      map (\<lambda>d. task_status_str (tr_status (g d))) (dep_rows db (tr_id r))"
    using assms(1,4) by (simp add: dep_rows_def dependency_ids_def map_concat comp_def)
  also have "\<dots> = map (\<lambda>d. task_status_str (tr_status d)) (dep_rows db (tr_id r))"
    using assms(5,6) by (simp add: open_deps_0 set_dep_rows)
  finally show ?thesis using assms(2,3) by (simp add: rule_met_def)
qed

lemma upd_runs_inv [simp]:
  "sched_inv_debt D (upd_runs p f db) = sched_inv_debt D db"
  "counter_exact_debt D (upd_runs p f db) = counter_exact_debt D db"
  "tables_ok (upd_runs p f db) = tables_ok db"
  by (rule inv_cong; simp)+

subsection \<open>A statement on task rows\<close>

text \<open>
  What every \<open>UPDATE task_runs\<close> of the scheduler promises, on a row its \<open>WHERE\<close> selects:
  the keys and the counter stay, the status moves along the state machine (so a final one
  stays and nothing becomes pending again), the fence never falls and rises with every new
  claim, and a task only begins when its counter is down to zero.
\<close>

locale task_update =
  fixes p :: "task_row \<Rightarrow> bool" and f :: "task_row \<Rightarrow> task_row"
  assumes keeps_id: "p r \<Longrightarrow> row_ok r \<Longrightarrow> tr_id (f r) = tr_id r"
    and keeps_counter: "p r \<Longrightarrow> row_ok r \<Longrightarrow> tr_remaining_deps (f r) = tr_remaining_deps r"
    and keeps_ok: "p r \<Longrightarrow> row_ok r \<Longrightarrow> row_ok (f r)"
    and moves: "p r \<Longrightarrow> row_ok r \<Longrightarrow> can_reach (tr_status r) (tr_status (f r))"
    and fenced: "p r \<Longrightarrow> row_ok r \<Longrightarrow> tr_claimed_by (f r) \<noteq> None \<Longrightarrow>
                   tr_claimed_by (f r) = tr_claimed_by r \<and> tr_version (f r) = tr_version r \<or> tr_version r < tr_version (f r)"
    and keeps_run: "p r \<Longrightarrow> row_ok r \<Longrightarrow> tr_run_id (f r) = tr_run_id r"
    and fence_up: "p r \<Longrightarrow> row_ok r \<Longrightarrow> tr_version r \<le> tr_version (f r)"
    and begins: "p r \<Longrightarrow> row_ok r \<Longrightarrow> has_started (tr_status (f r)) \<Longrightarrow>
                   has_started (tr_status r) \<or> tr_status r = Pending \<and> tr_remaining_deps r \<le> 0"
    and keeps_rule: "p r \<Longrightarrow> row_ok r \<Longrightarrow> tr_trigger_rule (f r) = tr_trigger_rule r"
begin

lemma final: "p r \<Longrightarrow> row_ok r \<Longrightarrow> is_terminal (tr_status r) \<Longrightarrow> tr_status (f r) = tr_status r"
  using moves [of r] can_reach_final by simp

lemma not_back: "p r \<Longrightarrow> row_ok r \<Longrightarrow> tr_status (f r) = Pending \<Longrightarrow> tr_status r = Pending"
  using moves [of r] can_reach_pending by simp

lemma ids_kept:
  assumes "tables_ok db"
  shows "map tr_id (update_where p f (task_runs db)) = map tr_id (task_runs db)"
  using assms by (intro map_key_update_where) (auto intro: keeps_id tables_ok_row)

lemma tables_kept:
  assumes "tables_ok db"
  shows "tables_ok (upd p f db)"
proof -
  have "tr_id ` set (update_where p f (task_runs db)) = tr_id ` set (task_runs db)"
    by (metis ids_kept [OF assms] list.set_map)
  moreover have "list_all row_ok (update_where p f (task_runs db))"
    using tables_ok_row [OF assms] keeps_ok unfolding list_all_iff
    by (metis in_update_whereE)
  ultimately show ?thesis
    using assms ids_kept [OF assms] by (simp add: tables_ok_def)
qed

lemma open_id_shrinks:
  assumes "tables_ok db" "open_id (upd p f db) i"
  shows "open_id db i"
proof -
  from assms(2) obtain q where q: "q \<in> set (task_runs db)"
    and i: "tr_id (if p q then f q else q) = i"
    and n: "\<not> is_terminal (tr_status (if p q then f q else q))"
    by (auto simp: open_id_def list_ex_iff elim!: in_update_whereE)
  have "row_ok q" using assms(1) q by (rule tables_ok_row)
  then have "tr_id q = i" "\<not> is_terminal (tr_status q)"
    using i n keeps_id final by (auto split: if_splits)
  with q show ?thesis by (auto simp: open_id_def list_ex_iff)
qed

lemma open_deps_shrinks:
  assumes "tables_ok db"
  shows "open_deps (upd p f db) t \<le> open_deps db t"
proof -
  have "set (filter (open_id (upd p f db)) (dependency_ids (upd p f db) t)) \<subseteq>
      set (filter (open_id db) (dependency_ids db t))"
    using open_id_shrinks [OF assms] by auto
  moreover have "distinct (dependency_ids db t)"
    using assms by (simp add: tables_ok_def dependency_ids_distinct)
  ultimately show ?thesis
    unfolding open_deps_def
    by (metis card_mono distinct_card distinct_filter upd_edges(2) List.finite_set)
qed

text \<open>The rows of the new table come from rows of the old one.\<close>

lemma from_row:
  assumes "tables_ok db" "r' \<in> set (task_runs (upd p f db))"
  obtains r where "r \<in> set (task_runs db)" "row_ok r" "r' = (if p r then f r else r)"
    "tr_id r' = tr_id r" "tr_remaining_deps r' = tr_remaining_deps r"
proof -
  from assms(2) obtain r where r: "r \<in> set (task_runs db)" "r' = (if p r then f r else r)"
    by (auto elim!: in_update_whereE)
  moreover have "row_ok r" using assms(1) r(1) by (rule tables_ok_row)
  ultimately show thesis using that keeps_id keeps_counter by auto
qed

text \<open>What has started waits for nothing, after the statement as before it.\<close>

lemma started_kept:
  assumes inv: "sched_inv_debt D db" and r': "r' \<in> set (task_runs (upd p f db))"
    and s: "has_started (tr_status r')"
  shows "open_deps (upd p f db) (tr_id r') = 0"
proof -
  have tab: "tables_ok db" using inv by (simp add: sched_inv_debt_def)
  then obtain r where r: "r \<in> set (task_runs db)" "row_ok r" "r' = (if p r then f r else r)"
    "tr_id r' = tr_id r" by (rule from_row [OF _ r'])
  have "has_started (tr_status r) \<or> tr_status r = Pending \<and> tr_remaining_deps r \<le> 0"
    using r s begins by (auto split: if_splits)
  then have "open_deps db (tr_id r) = 0"
    using inv r(1) by (fastforce simp: sched_inv_debt_def list_all_iff slack_def)
  then show ?thesis using open_deps_shrinks [OF tab, of "tr_id r"] r(4) by simp
qed

text \<open>The rule of what waits for nothing stays as it is.\<close>

lemma rule_kept:
  assumes tab: "tables_ok db" and r: "r \<in> set (task_runs db)" "open_deps db (tr_id r) = 0"
  shows "rule_met (upd p f db) (if p r then f r else r) = rule_met db r"
proof (rule rule_met_over [where g = "\<lambda>q. if p q then f q else q"])
  have ok: "row_ok q" if "q \<in> set (task_runs db)" for q using tab that by (rule tables_ok_row)
  have "filter (\<lambda>q. tr_id q = i) (map (\<lambda>q. if p q then f q else q) xs) =
      map (\<lambda>q. if p q then f q else q) (filter (\<lambda>q. tr_id q = i) xs)" if "set xs \<subseteq> set (task_runs db)" for i xs
    using that ok keeps_id by (induction xs) auto
  then show "filter (\<lambda>q. tr_id q = i) (task_runs (upd p f db)) =
      map (\<lambda>q. if p q then f q else q) (filter (\<lambda>q. tr_id q = i) (task_runs db))" for i
    by (simp add: update_where_def)
qed (use assms final keeps_id keeps_rule tables_ok_row [OF tab] in auto)

text \<open>What is begun had its rule met, if what this statement begins has.\<close>

lemma rules_kept:
  assumes inv: "sched_inv_debt D db"
    and new: "\<And>r. r \<in> set (task_runs db) \<Longrightarrow> p r \<Longrightarrow> begun (tr_status (f r)) \<Longrightarrow>
      begun (tr_status r) \<or> open_deps db (tr_id r) = 0 \<and> rule_met db r"
  shows "list_all (\<lambda>r. begun (tr_status r) \<longrightarrow> rule_met (upd p f db) r) (task_runs (upd p f db))"
  unfolding list_all_iff
proof (intro ballI impI)
  fix r' assume "r' \<in> set (task_runs (upd p f db))" and b: "begun (tr_status r')"
  then obtain r where r: "r \<in> set (task_runs db)" "r' = (if p r then f r else r)" by (auto elim!: in_update_whereE)
  have old: "open_deps db (tr_id r) = 0 \<and> rule_met db r" if "begun (tr_status r)"
    using inv r(1) that begun_started by (auto simp: sched_inv_debt_def list_all_iff)
  have "open_deps db (tr_id r) = 0 \<and> rule_met db r"
    using new [OF r(1)] b r(2) old by (auto split: if_splits)
  with rule_kept [OF inv_tables [OF inv] r(1)] r(2) show "rule_met (upd p f db) r'" by simp
qed

end

text \<open>All but the statements of an advance begin nothing that was not begun.\<close>

locale row_update = task_update +
  assumes begins_nothing: "p r \<Longrightarrow> row_ok r \<Longrightarrow> begun (tr_status (f r)) \<Longrightarrow> begun (tr_status r)"
begin

lemma rules_same:
  assumes "sched_inv_debt D db"
  shows "list_all (\<lambda>r. begun (tr_status r) \<longrightarrow> rule_met (upd p f db) r) (task_runs (upd p f db))"
  using begins_nothing tables_ok_row [OF inv_tables [OF assms]] by (intro rules_kept [OF assms]) blast

end

subsection \<open>What later tables keep of earlier ones\<close>

text \<open>
  A table extends another when it has the same rows in the same runs with the same edges, each
  status one the state machine leads to, and no fence has fallen or been given out twice. \<open>inv_from db0 D db\<close> is the
  invariant of tables that extend \<open>db0\<close>; every operation keeps it, from any \<open>db0\<close>.
\<close>

definition row_ext :: "task_row \<Rightarrow> task_row \<Rightarrow> bool" where
  "row_ext r r' =
     (tr_id r' = tr_id r \<and> tr_run_id r' = tr_run_id r \<and> tr_trigger_rule r' = tr_trigger_rule r
      \<and> can_reach (tr_status r) (tr_status r') \<and> tr_version r \<le> tr_version r'
      \<and> (tr_claimed_by r' \<noteq> None \<longrightarrow>
           tr_claimed_by r' = tr_claimed_by r \<and> tr_version r' = tr_version r \<or> tr_version r < tr_version r'))"

definition extends :: "db \<Rightarrow> db \<Rightarrow> bool" where
  "extends a b = (task_deps b = task_deps a \<and> list_all2 row_ext (task_runs a) (task_runs b))"

definition inv_from :: "db \<Rightarrow> string list \<Rightarrow> db \<Rightarrow> bool" where
  "inv_from db0 D db = (sched_inv_debt D db \<and> extends db0 db)"

lemma row_ext_refl [simp]: "row_ext r r"
  by (simp add: row_ext_def)

lemma row_ext_trans:
  assumes "row_ext a b" "row_ext b c"
  shows "row_ext a c"
proof -
  have "can_reach (tr_status a) (tr_status c)"
    using assms can_reach_trans by (auto simp: row_ext_def)
  with assms show ?thesis unfolding row_ext_def by (metis less_le_trans le_less_trans order_trans)
qed

lemma extends_refl [simp]: "extends db db"
  by (simp add: extends_def list_all2_refl)

lemma extends_trans: "extends a b \<Longrightarrow> extends b c \<Longrightarrow> extends a c"
proof -
  assume ab: "extends a b" and bc: "extends b c"
  have "list_all2 row_ext (task_runs a) (task_runs c)"
  proof (rule list_all2_trans [of row_ext row_ext])
    show "row_ext x y \<Longrightarrow> row_ext y z \<Longrightarrow> row_ext x z" for x y z by (rule row_ext_trans)
    show "list_all2 row_ext (task_runs a) (task_runs b)" using ab by (simp only: extends_def)
    show "list_all2 row_ext (task_runs b) (task_runs c)" using bc by (simp only: extends_def)
  qed
  then show "extends a c" using ab bc by (simp only: extends_def simp_thms)
qed

lemma extends_cong: "task_runs b = task_runs b' \<Longrightarrow> task_deps b = task_deps b' \<Longrightarrow> extends a b = extends a b'"
  by (simp add: extends_def)

lemma extends_row:
  assumes "extends a b" "r \<in> set (task_runs a)"
  obtains r' where "r' \<in> set (task_runs b)" "row_ext r r'"
proof -
  obtain i where i: "i < length (task_runs a)" "r = task_runs a ! i"
    using assms(2) by (auto simp: in_set_conv_nth)
  have "list_all2 row_ext (task_runs a) (task_runs b)" using assms(1) by (simp add: extends_def)
  then have "row_ext r (task_runs b ! i)" "i < length (task_runs b)"
    using i by (auto simp: list_all2_conv_all_nth)
  then show thesis using that nth_mem by blast
qed

lemma from_cong:
  assumes "task_runs a = task_runs b" "task_deps a = task_deps b"
  shows "inv_from db0 D a = inv_from db0 D b"
  using inv_cong(1) [OF assms] extends_cong [OF assms] by (simp add: inv_from_def)

lemma from_upd_runs [simp]: "inv_from db0 D (upd_runs p f db) = inv_from db0 D db"
  by (rule from_cong) simp_all

lemma from_tables: "inv_from db0 D db \<Longrightarrow> tables_ok db"
  by (auto simp: inv_from_def dest: inv_tables)

lemma inv_from_self: "sched_inv db \<Longrightarrow> inv_from db [] db"
  by (simp add: inv_from_def sched_inv_def)

context task_update
begin

lemma upd_extends:
  assumes "tables_ok db"
  shows "extends db (upd p f db)"
proof -
  have "row_ext r (if p r then f r else r)" if "r \<in> set (task_runs db)" for r
    using tables_ok_row [OF assms that] keeps_id keeps_run keeps_rule moves fence_up fenced by (simp add: row_ext_def)
  then show ?thesis by (simp add: extends_def update_where_def list.rel_map list_all2_same)
qed

lemma from_ext: "inv_from db0 D db \<Longrightarrow> extends db0 (upd p f db)"
  using upd_extends extends_trans by (auto simp: inv_from_def dest: inv_tables)

end

subsection \<open>Free tasks\<close>

text \<open>A pending task is free when its counter is down; nothing raises a counter, so it stays
  free until it leaves \<open>pending\<close>.\<close>

definition pending_id :: "string \<Rightarrow> task_row \<Rightarrow> bool" where
  "pending_id t r = (tr_id r = t \<and> tr_status r = Pending)"

definition free_to_go :: "db \<Rightarrow> string \<Rightarrow> bool" where
  "free_to_go db t = list_all (\<lambda>r. pending_id t r \<longrightarrow> tr_remaining_deps r \<le> 0) (task_runs db)"

context task_update
begin

lemma free_kept:
  assumes "tables_ok db" "free_to_go db t"
  shows "free_to_go (upd p f db) t"
  unfolding free_to_go_def list_all_iff
proof (intro ballI impI)
  fix r' assume r': "r' \<in> set (task_runs (upd p f db))" and pend: "pending_id t r'"
  from from_row [OF assms(1) r'] obtain r where r: "r \<in> set (task_runs db)" "row_ok r"
    "r' = (if p r then f r else r)" "tr_id r' = tr_id r" "tr_remaining_deps r' = tr_remaining_deps r"
    by metis
  have "pending_id t r" using r pend not_back by (auto simp: pending_id_def split: if_splits)
  with assms(2) r show "tr_remaining_deps r' \<le> 0" by (auto simp: free_to_go_def list_all_iff)
qed

end

subsection \<open>A statement that ends no task\<close>

locale still_update = task_update +
  assumes ends_none: "p r \<Longrightarrow> row_ok r \<Longrightarrow> is_terminal (tr_status (f r)) = is_terminal (tr_status r)"
begin

lemma open_id_same:
  assumes "tables_ok db"
  shows "open_id (upd p f db) i = open_id db i"
proof
  assume "open_id db i"
  then obtain q where q: "q \<in> set (task_runs db)" "tr_id q = i" "\<not> is_terminal (tr_status q)"
    by (auto simp: open_id_def list_ex_iff)
  have "row_ok q" using assms q(1) by (rule tables_ok_row)
  with q have "tr_id (if p q then f q else q) = i \<and> \<not> is_terminal (tr_status (if p q then f q else q))"
    using keeps_id ends_none by auto
  moreover have "(if p q then f q else q) \<in> set (task_runs (upd p f db))"
    using q(1) by (auto simp: set_update_where)
  ultimately show "open_id (upd p f db) i" unfolding open_id_def list_ex_iff by blast
qed (rule open_id_shrinks [OF assms])

lemma slack_same:
  assumes "tables_ok db" "tr_id r' = tr_id r" "tr_remaining_deps r' = tr_remaining_deps r"
  shows "slack (upd p f db) D r' = slack db D r"
  using assms by (simp add: slack_def open_deps_def open_id_same cong: filter_cong)

lemma slack_kept:
  assumes tab: "tables_ok db" and old: "list_all (\<lambda>r. tr_status r = Pending \<longrightarrow> P (slack db D r)) (task_runs db)"
  shows "list_all (\<lambda>r. tr_status r = Pending \<longrightarrow> P (slack (upd p f db) D r)) (task_runs (upd p f db))"
  unfolding list_all_iff
proof (intro ballI impI)
  fix r' assume r': "r' \<in> set (task_runs (upd p f db))" and pend: "tr_status r' = Pending"
  from from_row [OF tab r'] obtain r where r: "r \<in> set (task_runs db)" "row_ok r"
    "r' = (if p r then f r else r)" "tr_id r' = tr_id r" "tr_remaining_deps r' = tr_remaining_deps r"
    by metis
  have "tr_status r = Pending" using r pend not_back by (auto split: if_splits)
  with old r(1) have "P (slack db D r)" by (auto simp: list_all_iff)
  then show "P (slack (upd p f db) D r')" using slack_same [OF tab r(4,5)] by simp
qed

lemma inv_kept_if:
  assumes "sched_inv_debt D db"
    and "list_all (\<lambda>r. begun (tr_status r) \<longrightarrow> rule_met (upd p f db) r) (task_runs (upd p f db))"
  shows "sched_inv_debt D (upd p f db)"
proof -
  have "tables_ok db" "list_all (\<lambda>r. tr_status r = Pending \<longrightarrow> 0 \<le> slack db D r) (task_runs db)"
    using assms(1) by (simp_all add: sched_inv_debt_def)
  then have "list_all (\<lambda>r. tr_status r = Pending \<longrightarrow> 0 \<le> slack (upd p f db) D r) (task_runs (upd p f db))"
    by (rule slack_kept)
  moreover have "tables_ok (upd p f db)" using \<open>tables_ok db\<close> by (rule tables_kept)
  moreover have "list_all (\<lambda>r. has_started (tr_status r) \<longrightarrow> open_deps (upd p f db) (tr_id r) = 0) (task_runs (upd p f db))"
    using started_kept [OF assms(1)] by (simp only: list_all_iff) blast
  ultimately show ?thesis using assms(2) unfolding sched_inv_debt_def by blast
qed

text \<open>A statement that may begin a task, where the rule of what it selects is met.\<close>

lemma from_begun:
  assumes "inv_from db0 D db"
    and "\<And>r. r \<in> set (task_runs db) \<Longrightarrow> p r \<Longrightarrow> tr_status r = Pending \<and> tr_remaining_deps r \<le> 0 \<and> rule_met db r"
  shows "inv_from db0 D (upd p f db)"
proof -
  have inv: "sched_inv_debt D db" using assms(1) by (simp add: inv_from_def)
  have "open_deps db (tr_id r) = 0" if "r \<in> set (task_runs db)" "p r" for r
    using assms(2) [OF that] inv that(1) by (fastforce simp: sched_inv_debt_def list_all_iff slack_def)
  then have "list_all (\<lambda>r. begun (tr_status r) \<longrightarrow> rule_met (upd p f db) r) (task_runs (upd p f db))"
    using assms(2) by (intro rules_kept [OF inv]) blast
  with inv_kept_if [OF inv] from_ext [OF assms(1)] show ?thesis by (simp add: inv_from_def)
qed

lemma exact_kept: "tables_ok db \<Longrightarrow> counter_exact_debt D db \<Longrightarrow> counter_exact_debt D (upd p f db)"
  unfolding counter_exact_debt_def by (rule slack_kept)

end

locale quiet_update = row_update +
  assumes ends_none': "p r \<Longrightarrow> row_ok r \<Longrightarrow> is_terminal (tr_status (f r)) = is_terminal (tr_status r)"

sublocale quiet_update \<subseteq> still_update
  by unfold_locales (rule ends_none')

context quiet_update
begin

lemma inv_kept: "sched_inv_debt D db \<Longrightarrow> sched_inv_debt D (upd p f db)"
  by (rule inv_kept_if [OF _ rules_same])

lemma from_kept: "inv_from db0 D db \<Longrightarrow> inv_from db0 D (upd p f db)"
  using inv_kept from_ext by (simp add: inv_from_def)

end

subsection \<open>A statement that ends every task it selects\<close>

locale ending_update = row_update +
  assumes ends_all: "p r \<Longrightarrow> row_ok r \<Longrightarrow> \<not> is_terminal (tr_status r) \<and> is_terminal (tr_status (f r))"
begin

abbreviation ended :: "db \<Rightarrow> string list" where
  "ended db \<equiv> map tr_id (filter p (task_runs db))"

lemma open_id_ended:
  assumes "tables_ok db"
  shows "open_id (upd p f db) i \<longleftrightarrow> open_id db i \<and> i \<notin> set (ended db)"
proof
  assume open': "open_id (upd p f db) i"
  then obtain q where q: "q \<in> set (task_runs db)" "tr_id (if p q then f q else q) = i"
    "\<not> is_terminal (tr_status (if p q then f q else q))"
    by (auto simp: open_id_def list_ex_iff elim!: in_update_whereE)
  have "row_ok q" using assms q(1) by (rule tables_ok_row)
  then have "\<not> p q" "tr_id q = i" using q(2,3) ends_all by (auto split: if_splits)
  with q(1) assms have "i \<notin> set (ended db)"
    by (auto simp: tables_ok_def dest: distinct_key_eq)
  with open_id_shrinks [OF assms open'] show "open_id db i \<and> i \<notin> set (ended db)" by simp
next
  assume "open_id db i \<and> i \<notin> set (ended db)"
  then obtain q where q: "q \<in> set (task_runs db)" "tr_id q = i" "\<not> is_terminal (tr_status q)" "\<not> p q"
    by (force simp: open_id_def list_ex_iff)
  then have "q \<in> set (task_runs (upd p f db))" by (force simp: set_update_where)
  with q show "open_id (upd p f db) i" unfolding open_id_def list_ex_iff by blast
qed

text \<open>What is no longer open has become a debt.\<close>

lemma open_deps_ended:
  assumes tab: "tables_ok db"
  shows "open_deps (upd p f db) t + debt db (ended db) t = open_deps db t"
proof -
  let ?ids = "dependency_ids db t" and ?E = "ended db"
  have dist: "distinct ?ids" "distinct ?E"
    using tab by (simp_all add: tables_ok_def dependency_ids_distinct distinct_map_filter)
  have allopen: "open_id db i" if "i \<in> set ?E" for i
    using that tab ends_all tables_ok_row [OF tab] by (auto simp: open_id_row)
  have "set (filter (open_id db) ?ids) =
      set (filter (open_id (upd p f db)) ?ids) \<union> set (filter (\<lambda>d. (t, d) \<in> set (task_deps db)) ?E)"
    using allopen by (auto simp: open_id_ended [OF tab] set_dependency_ids)
  moreover have "set (filter (open_id (upd p f db)) ?ids) \<inter> set (filter (\<lambda>d. (t, d) \<in> set (task_deps db)) ?E) = {}"
    by (auto simp: open_id_ended [OF tab])
  ultimately have "card (set (filter (open_id db) ?ids)) =
      card (set (filter (open_id (upd p f db)) ?ids)) + card (set (filter (\<lambda>d. (t, d) \<in> set (task_deps db)) ?E))"
    by (simp add: card_Un_disjoint)
  then show ?thesis
    using dist by (simp add: open_deps_def debt_def distinct_card distinct_filter del: set_filter)
qed

lemma slack_ended:
  assumes "tables_ok db" "tr_id r' = tr_id r" "tr_remaining_deps r' = tr_remaining_deps r"
  shows "slack (upd p f db) (ended db @ D) r' = slack db D r"
  using assms open_deps_ended [of db "tr_id r"] by (simp add: slack_def debt_append)

lemma slack_owed:
  assumes tab: "tables_ok db" and old: "list_all (\<lambda>r. tr_status r = Pending \<longrightarrow> P (slack db D r)) (task_runs db)"
  shows "list_all (\<lambda>r. tr_status r = Pending \<longrightarrow> P (slack (upd p f db) (ended db @ D) r)) (task_runs (upd p f db))"
  unfolding list_all_iff
proof (intro ballI impI)
  fix r' assume r': "r' \<in> set (task_runs (upd p f db))" and pend: "tr_status r' = Pending"
  from from_row [OF tab r'] obtain r where r: "r \<in> set (task_runs db)" "row_ok r"
    "r' = (if p r then f r else r)" "tr_id r' = tr_id r" "tr_remaining_deps r' = tr_remaining_deps r"
    by metis
  have "tr_status r = Pending" using r pend not_back by (auto split: if_splits)
  with old r(1) have "P (slack db D r)" by (auto simp: list_all_iff)
  then show "P (slack (upd p f db) (ended db @ D) r')" using slack_ended [OF tab r(4,5)] by simp
qed

lemma inv_owed:
  assumes "sched_inv_debt D db"
  shows "sched_inv_debt (ended db @ D) (upd p f db)"
proof -
  have "tables_ok db" "list_all (\<lambda>r. tr_status r = Pending \<longrightarrow> 0 \<le> slack db D r) (task_runs db)"
    using assms by (simp_all add: sched_inv_debt_def)
  then have "list_all (\<lambda>r. tr_status r = Pending \<longrightarrow> 0 \<le> slack (upd p f db) (ended db @ D) r) (task_runs (upd p f db))"
    by (rule slack_owed)
  moreover have "tables_ok (upd p f db)" using \<open>tables_ok db\<close> by (rule tables_kept)
  moreover have "list_all (\<lambda>r. has_started (tr_status r) \<longrightarrow> open_deps (upd p f db) (tr_id r) = 0) (task_runs (upd p f db))"
    using started_kept [OF assms] by (simp only: list_all_iff) blast
  ultimately show ?thesis using rules_same [OF assms] unfolding sched_inv_debt_def by blast
qed

lemma from_owed: "inv_from db0 D db \<Longrightarrow> inv_from db0 (ended db @ D) (upd p f db)"
  using inv_owed from_ext by (simp add: inv_from_def)

lemma exact_owed:
  "tables_ok db \<Longrightarrow> counter_exact_debt D db \<Longrightarrow> counter_exact_debt (ended db @ D) (upd p f db)"
  unfolding counter_exact_debt_def by (rule slack_owed)

lemma inv_forgotten: "sched_inv_debt D db \<Longrightarrow> sched_inv_debt D (upd p f db)"
  by (blast intro: inv_owed forget_debt)

lemma from_forgotten: "inv_from db0 D db \<Longrightarrow> inv_from db0 D (upd p f db)"
  using inv_forgotten from_ext by (simp add: inv_from_def)

end

subsection \<open>Paying a debt\<close>

definition counted_down :: "task_row \<Rightarrow> task_row" where
  "counted_down r = r\<lparr>tr_remaining_deps := tr_remaining_deps r - 1\<rparr>"

lemma counted_down_simps [simp]:
  "tr_id (counted_down r) = tr_id r" "tr_status (counted_down r) = tr_status r"
  "tr_claimed_by (counted_down r) = tr_claimed_by r"
  "tr_stop_requested_at (counted_down r) = tr_stop_requested_at r"
  "tr_remaining_deps (counted_down r) = tr_remaining_deps r - 1"
  by (simp_all add: counted_down_def)

lemma row_ok_counted_down [simp]: "row_ok (counted_down r) = row_ok r"
  by (simp add: row_ok_def no_park_def counted_down_def)

lemma decrement_runs:
  "task_runs (decrement_dependents t db) =
     update_where (\<lambda>r. (tr_id r, t) \<in> set (task_deps db) \<and> tr_status r = Pending) counted_down (task_runs db)"
  by (simp add: decrement_dependents_def set_dependent_ids counted_down_def [abs_def])

lemma decrement_open [simp]:
  "open_deps (decrement_dependents t db) i = open_deps db i"
  "task_deps (decrement_dependents t db) = task_deps db"
  "workflow_runs (decrement_dependents t db) = workflow_runs db"
proof -
  have "open_id (decrement_dependents t db) j = open_id db j" for j
    by (simp add: open_id_def decrement_runs list_ex_update_where)
  then show "open_deps (decrement_dependents t db) i = open_deps db i"
    by (simp add: open_deps_def decrement_dependents_def dependency_ids_def cong: filter_cong)
qed (simp_all add: decrement_dependents_def)

lemma decrement_row:
  assumes "r' \<in> set (task_runs (decrement_dependents t db))"
  obtains r where "r \<in> set (task_runs db)"
    "r' = (if (tr_id r, t) \<in> set (task_deps db) \<and> tr_status r = Pending then counted_down r else r)"
  using assms unfolding decrement_runs by (rule in_update_whereE)

lemma decrement_tables:
  assumes "tables_ok db"
  shows "tables_ok (decrement_dependents t db)"
proof -
  have k: "map tr_id (task_runs (decrement_dependents t db)) = map tr_id (task_runs db)"
    by (simp add: decrement_runs map_key_update_where)
  then have "tr_id ` set (task_runs (decrement_dependents t db)) = tr_id ` set (task_runs db)"
    by (metis list.set_map)
  moreover have "list_all row_ok (task_runs (decrement_dependents t db))"
    unfolding list_all_iff using tables_ok_row [OF assms]
    by (metis decrement_row row_ok_counted_down)
  ultimately show ?thesis using assms k by (simp add: tables_ok_def)
qed

lemma decrement_slack:
  assumes old: "list_all (\<lambda>r. tr_status r = Pending \<longrightarrow> P (slack db (t # D) r)) (task_runs db)"
  shows "list_all (\<lambda>r. tr_status r = Pending \<longrightarrow> P (slack (decrement_dependents t db) D r))
           (task_runs (decrement_dependents t db))"
  unfolding list_all_iff
proof (intro ballI impI)
  fix r' assume "r' \<in> set (task_runs (decrement_dependents t db))" and pend: "tr_status r' = Pending"
  then obtain r where r: "r \<in> set (task_runs db)"
    "r' = (if (tr_id r, t) \<in> set (task_deps db) \<and> tr_status r = Pending then counted_down r else r)"
    by (metis decrement_row)
  from r(2) pend have s: "tr_status r = Pending" "tr_id r' = tr_id r" by (simp_all split: if_splits)
  then have "P (slack db (t # D) r)" using old r(1) by (auto simp: list_all_iff)
  moreover have "slack (decrement_dependents t db) D r' = slack db (t # D) r"
    using r(2) s debt_cong [of "decrement_dependents t db" db] by (simp add: slack_def debt_Cons)
  ultimately show "P (slack (decrement_dependents t db) D r')" by simp
qed

lemma decrement_inv:
  assumes "sched_inv_debt (t # D) db"
  shows "sched_inv_debt D (decrement_dependents t db)"
proof -
  have "list_all (\<lambda>r. tr_status r = Pending \<longrightarrow> 0 \<le> slack db (t # D) r) (task_runs db)"
    using assms by (simp add: sched_inv_debt_def)
  then have "list_all (\<lambda>r. tr_status r = Pending \<longrightarrow> 0 \<le> slack (decrement_dependents t db) D r)
      (task_runs (decrement_dependents t db))" by (rule decrement_slack)
  moreover have "tables_ok (decrement_dependents t db)"
    using assms by (simp add: sched_inv_debt_def decrement_tables)
  moreover have "open_deps db (tr_id r') = 0"
    if "r' \<in> set (task_runs (decrement_dependents t db))" "has_started (tr_status r')" for r'
  proof -
    from that(1) obtain r where "r \<in> set (task_runs db)" "tr_id r' = tr_id r" "tr_status r' = tr_status r"
      by (rule decrement_row) (simp split: if_splits)
    with that(2) assms show ?thesis by (auto simp: sched_inv_debt_def list_all_iff)
  qed
  moreover have "rule_met (decrement_dependents t db) r'"
    if r': "r' \<in> set (task_runs (decrement_dependents t db))" "begun (tr_status r')" for r'
  proof -
    from r'(1) obtain r where r: "r \<in> set (task_runs db)"
      "r' = (if (tr_id r, t) \<in> set (task_deps db) \<and> tr_status r = Pending then counted_down r else r)"
      by (rule decrement_row)
    with r'(2) have "begun (tr_status r)" by (simp split: if_splits)
    with assms r(1) begun_started have "open_deps db (tr_id r) = 0" "rule_met db r"
      by (auto simp: sched_inv_debt_def list_all_iff)
    moreover have "r' = r" using r(2) \<open>begun (tr_status r)\<close> by (auto split: if_splits)
    moreover have "rule_met (decrement_dependents t db) r = rule_met db r"
      by (rule rule_met_over [where g = "\<lambda>q. if (tr_id q, t) \<in> set (task_deps db) \<and> tr_status q = Pending then counted_down q else q"])
        (use \<open>open_deps db (tr_id r) = 0\<close> in \<open>auto simp: decrement_runs update_where_def filter_map comp_def intro!: arg_cong2 [where f = map] filter_cong\<close>)
    ultimately show ?thesis by simp
  qed
  ultimately show ?thesis by (simp add: sched_inv_debt_def list_all_iff)
qed

lemma decrement_extends: "extends db (decrement_dependents t db)"
proof -
  have "row_ext r (counted_down r)" for r by (simp add: row_ext_def counted_down_def)
  then show ?thesis by (simp add: extends_def decrement_runs update_where_def list.rel_map list_all2_same)
qed

lemma decrement_from: "inv_from db0 (t # D) db \<Longrightarrow> inv_from db0 D (decrement_dependents t db)"
  using decrement_inv decrement_extends extends_trans by (auto simp: inv_from_def)

lemma decrement_exact:
  "counter_exact_debt (t # D) db \<Longrightarrow> counter_exact_debt D (decrement_dependents t db)"
  unfolding counter_exact_debt_def by (rule decrement_slack)

lemma decrement_free: "free_to_go db t \<Longrightarrow> free_to_go (decrement_dependents u db) t"
  unfolding free_to_go_def list_all_iff
  by (auto simp: pending_id_def elim!: decrement_row split: if_splits)

text \<open>A list of decrements pays the list of debts.\<close>

definition decrement_all :: "string list \<Rightarrow> db \<Rightarrow> db" where
  "decrement_all ts db = fold decrement_dependents ts db"

lemma decrement_all_simps [simp]:
  "decrement_all [] db = db"
  "decrement_all (t # ts) db = decrement_all ts (decrement_dependents t db)"
  by (simp_all add: decrement_all_def)

lemma decrement_all_inv: "sched_inv_debt (ts @ D) db \<Longrightarrow> sched_inv_debt D (decrement_all ts db)"
  by (induction ts arbitrary: db) (simp_all add: decrement_inv)

lemma decrement_all_from: "inv_from db0 (ts @ D) db \<Longrightarrow> inv_from db0 D (decrement_all ts db)"
  by (induction ts arbitrary: db) (simp_all add: decrement_from)

lemma decrement_all_exact: "counter_exact_debt (ts @ D) db \<Longrightarrow> counter_exact_debt D (decrement_all ts db)"
  by (induction ts arbitrary: db) (simp_all add: decrement_exact)

lemma decrement_all_tables: "tables_ok db \<Longrightarrow> tables_ok (decrement_all ts db)"
  by (induction ts arbitrary: db) (simp_all add: decrement_tables)

end
