(* ===== verification/F64.thy ===== *)
theory F64
  imports Complex_Main "HOL-Library.Log_Nat" Rust_Str
begin

text \<open>
  Rust's \<open>f64\<close>, as far as the expression evaluator uses it: reading a decimal, the
  comparisons, \<open>+ - * / %\<close> and printing. A finite double is the rational number it
  denotes. The sign of a zero is not kept: the code divides only by a number other than
  zero and prints an integral result through \<open>i64\<close>, so it never shows.
\<close>

datatype f64 = NaN | Inf bool | Fin rat

subsection \<open>Rounding to a double\<close>

text \<open>The exponent of the highest bit of a positive fraction \<open>n / d\<close>.\<close>

definition log2_floor :: "nat \<Rightarrow> nat \<Rightarrow> int" where
  "log2_floor n d =
     (let l = int (floorlog 2 n) - int (floorlog 2 d)
      in if (if l \<ge> 0 then n \<ge> d * 2 ^ nat l else n * 2 ^ nat (- l) \<ge> d) then l else l - 1)"

definition pow2 :: "int \<Rightarrow> rat" where
  "pow2 e = (if e \<ge> 0 then 2 ^ nat e else 1 / 2 ^ nat (- e))"

definition half_even :: "rat \<Rightarrow> int" where
  "half_even q =
     (let f = \<lfloor>q\<rfloor>; r = q - of_int f
      in if r < 1 / 2 then f else if r > 1 / 2 then f + 1 else if even f then f else f + 1)"

text \<open>
  Round to nearest, ties to even: 53 bits of mantissa, no unit below \<open>2 ^ -1074\<close>, infinite
  from \<open>2 ^ 1024\<close> on.
\<close>

definition round_abs :: "rat \<Rightarrow> rat option" where
  "round_abs q =
     (if q = 0 then Some 0
      else
        (let (n, d) = quotient_of q;
             k = max (- 1074) (log2_floor (nat n) (nat d) - 52);
             v = of_int (half_even (q / pow2 k)) * pow2 k
         in if v < 2 ^ 1024 then Some v else None))"

definition f64_round :: "rat \<Rightarrow> f64" where
  "f64_round q =
     (case round_abs \<bar>q\<bar> of
        None \<Rightarrow> Inf (q < 0)
      | Some v \<Rightarrow> Fin (if q < 0 then - v else v))"

subsection \<open>Reading\<close>

text \<open>
  \<open>f64::from_str\<close>: a sign, then \<open>inf\<close>, \<open>infinity\<close>, \<open>nan\<close> in any case, or digits with at most
  one point and at least one digit, and an optional decimal exponent with at least one.
\<close>

definition take_digits :: "string \<Rightarrow> string \<times> string" where
  "take_digits s = (takeWhile is_ascii_digit s, dropWhile is_ascii_digit s)"

definition take_sign :: "string \<Rightarrow> bool \<times> string" where
  "take_sign s = (case s of
     [] \<Rightarrow> (False, [])
   | c # cs \<Rightarrow> (if c = CHR ''-'' then (True, cs) else if c = CHR ''+'' then (False, cs) else (False, s)))"

definition parse_exp :: "string \<Rightarrow> int option" where
  "parse_exp s =
     (case s of
        [] \<Rightarrow> Some 0
      | c # cs \<Rightarrow>
          (if c = CHR ''e'' \<or> c = CHR ''E''
           then (let (neg, ds) = take_sign cs
                 in if ds \<noteq> [] \<and> list_all is_ascii_digit ds
                    then Some (if neg then - int (digits_val ds) else int (digits_val ds))
                    else None)
           else None))"

definition pow10 :: "int \<Rightarrow> rat" where
  "pow10 e = (if e \<ge> 0 then 10 ^ nat e else 1 / 10 ^ nat (- e))"

definition parse_decimal :: "string \<Rightarrow> rat option" where
  "parse_decimal s =
     (let (whole, r) = take_digits s;
          (frac, r') = (case r of [] \<Rightarrow> ([], []) | c # cs \<Rightarrow> if c = CHR ''.'' then take_digits cs else ([], r))
      in if whole = [] \<and> frac = [] then None
         else map_option (\<lambda>e. of_nat (digits_val (whole @ frac)) * pow10 (e - int (length frac))) (parse_exp r'))"

definition parse_f64 :: "string \<Rightarrow> f64 option" where
  "parse_f64 s =
     (let (neg, r) = take_sign s; l = to_ascii_lowercase r
      in if l = ''inf'' \<or> l = ''infinity'' then Some (Inf neg)
         else if l = ''nan'' then Some NaN
         else map_option (\<lambda>q. f64_round (if neg then - q else q)) (parse_decimal r))"

subsection \<open>Comparing\<close>

text \<open>A comparison with a NaN is false, and its negation \<open>!=\<close> true.\<close>

fun f64_eq :: "f64 \<Rightarrow> f64 \<Rightarrow> bool" where
  "f64_eq (Inf a) (Inf b) = (a = b)"
| "f64_eq (Fin a) (Fin b) = (a = b)"
| "f64_eq _ _ = False"

fun f64_lt :: "f64 \<Rightarrow> f64 \<Rightarrow> bool" where
  "f64_lt (Fin a) (Fin b) = (a < b)"
| "f64_lt (Fin _) (Inf n) = (\<not> n)"
| "f64_lt (Inf n) (Fin _) = n"
| "f64_lt (Inf m) (Inf n) = (m \<and> \<not> n)"
| "f64_lt _ _ = False"

definition f64_le :: "f64 \<Rightarrow> f64 \<Rightarrow> bool" where
  "f64_le a b = (f64_lt a b \<or> f64_eq a b)"

subsection \<open>Arithmetic\<close>

fun f64_neg :: "f64 \<Rightarrow> f64" where
  "f64_neg NaN = NaN"
| "f64_neg (Inf n) = Inf (\<not> n)"
| "f64_neg (Fin q) = Fin (- q)"

fun f64_add :: "f64 \<Rightarrow> f64 \<Rightarrow> f64" where
  "f64_add (Fin a) (Fin b) = f64_round (a + b)"
| "f64_add (Fin _) (Inf n) = Inf n"
| "f64_add (Inf n) (Fin _) = Inf n"
| "f64_add (Inf m) (Inf n) = (if m = n then Inf m else NaN)"
| "f64_add _ _ = NaN"

definition f64_sub :: "f64 \<Rightarrow> f64 \<Rightarrow> f64" where
  "f64_sub a b = f64_add a (f64_neg b)"

fun f64_mul :: "f64 \<Rightarrow> f64 \<Rightarrow> f64" where
  "f64_mul (Fin a) (Fin b) = f64_round (a * b)"
| "f64_mul (Fin a) (Inf n) = (if a = 0 then NaN else Inf ((a < 0) \<noteq> n))"
| "f64_mul (Inf n) (Fin a) = (if a = 0 then NaN else Inf ((a < 0) \<noteq> n))"
| "f64_mul (Inf m) (Inf n) = Inf (m \<noteq> n)"
| "f64_mul _ _ = NaN"

text \<open>Division and remainder by a number other than zero, the only ones the code reaches.\<close>

fun f64_div :: "f64 \<Rightarrow> f64 \<Rightarrow> f64" where
  "f64_div (Fin a) (Fin b) = f64_round (a / b)"
| "f64_div (Fin a) (Inf n) = Fin 0"
| "f64_div (Inf n) (Fin a) = Inf ((a < 0) \<noteq> n)"
| "f64_div _ _ = NaN"

definition trunc_rat :: "rat \<Rightarrow> int" where
  "trunc_rat q = (if q \<ge> 0 then \<lfloor>q\<rfloor> else \<lceil>q\<rceil>)"

fun f64_rem :: "f64 \<Rightarrow> f64 \<Rightarrow> f64" where
  "f64_rem (Fin a) (Fin b) = Fin (a - b * of_int (trunc_rat (a / b)))"
| "f64_rem (Fin a) (Inf n) = Fin a"
| "f64_rem _ _ = NaN"

subsection \<open>Printing\<close>

text \<open>
  \<open>Display\<close> prints the shortest decimal that reads back as the number, the one closest to it
  among those of that length, without an exponent. Seventeen digits always suffice.
\<close>

definition closest_digits :: "rat \<Rightarrow> int \<Rightarrow> nat option" where
  "closest_digits q e =
     (let lo = nat \<lfloor>q / pow10 e\<rfloor>; hi = lo + 1;
          ok = (\<lambda>m. f64_round (of_nat m * pow10 e) = Fin q)
      in if ok lo \<and> ok hi
         then Some (if q - of_nat lo * pow10 e \<le> of_nat hi * pow10 e - q then lo else hi)
         else if ok lo then Some lo else if ok hi then Some hi else None)"

fun shortest_from :: "nat \<Rightarrow> rat \<Rightarrow> int \<Rightarrow> nat \<times> int" where
  "shortest_from 0 q e = (nat \<lfloor>q / pow10 e\<rfloor>, e)"
| "shortest_from (Suc k) q e =
     (case closest_digits q e of Some m \<Rightarrow> (m, e) | None \<Rightarrow> shortest_from k q (e - 1))"

fun strip_zeros :: "nat \<Rightarrow> nat \<Rightarrow> int \<Rightarrow> nat \<times> int" where
  "strip_zeros 0 m e = (m, e)"
| "strip_zeros (Suc k) m e = (if m \<noteq> 0 \<and> m mod 10 = 0 then strip_zeros k (m div 10) (e + 1) else (m, e))"

definition place_point :: "nat \<Rightarrow> int \<Rightarrow> string" where
  "place_point m e =
     (let ds = digits_of m; n = nat (- e)
      in if e \<ge> 0 then ds @ replicate (nat e) CHR ''0''
         else if length ds \<le> n then ''0.'' @ replicate (n - length ds) CHR ''0'' @ ds
         else take (length ds - n) ds @ ''.'' @ drop (length ds - n) ds)"

definition log10_above :: "rat \<Rightarrow> int" where
  "log10_above q = (let (n, d) = quotient_of q in int (length (digits_of (nat n))) - int (length (digits_of (nat d))) + 1)"

fun f64_to_string :: "f64 \<Rightarrow> string" where
  "f64_to_string NaN = ''NaN''"
| "f64_to_string (Inf n) = (if n then ''-inf'' else ''inf'')"
| "f64_to_string (Fin q) =
     (if q = 0 then ''0''
      else let (m, e) = shortest_from 20 \<bar>q\<bar> (log10_above \<bar>q\<bar>);
               (m', e') = strip_zeros 20 m e
           in (if q < 0 then ''-'' else []) @ place_point m' e')"

subsection \<open>Small integers are exact\<close>

lemma pow2_neg_mult: "k \<le> 0 \<Longrightarrow> q / pow2 k = q * 2 ^ nat (- k)"
  by (cases "k = 0") (simp_all add: pow2_def)

lemma pow2_pos [simp]: "pow2 k \<noteq> 0"
  by (simp add: pow2_def)

lemma half_even_int [simp]: "half_even (of_int i) = i"
  by (simp add: half_even_def)

lemma log2_floor_int:
  assumes "0 < n"
  shows "log2_floor n 1 = int (floorlog 2 n) - 1"
proof -
  have "floorlog 2 (1::nat) = 1" by (simp add: compute_floorlog)
  moreover have "2 ^ (floorlog 2 n - 1) \<le> n" using floorlog_bounds [of n 2] assms by simp
  moreover have "1 \<le> floorlog 2 n" using assms by (simp add: compute_floorlog)
  ultimately show ?thesis by (simp add: log2_floor_def nat_diff_distrib)
qed

lemma log2_floor_53:
  assumes "0 < n" "n < 2 ^ 53"
  shows "log2_floor n 1 \<le> 52"
proof -
  have "2 ^ (floorlog 2 n - 1) \<le> n" using floorlog_bounds [of n 2] assms by simp
  then have "2 ^ (floorlog 2 n - 1) < (2::nat) ^ 53" using assms(2) by (rule le_less_trans)
  then have "floorlog 2 n - 1 < 53" by (rule power_less_imp_less_exp [rotated]) simp
  then show ?thesis using log2_floor_int [OF assms(1)] by linarith
qed

lemma round_abs_int:
  assumes "0 \<le> i" "i < 2 ^ 53"
  shows "round_abs (of_int i) = Some (of_int i)"
proof (cases "i = 0")
  case False
  define k where "k = max (- 1074) (log2_floor (nat i) 1 - 52)"
  have "k \<le> 0" using assms False log2_floor_53 [of "nat i"] by (simp add: k_def)
  then have "of_int i / pow2 k = (of_int (i * 2 ^ nat (- k)) :: rat)"
    by (simp add: pow2_neg_mult)
  then have "of_int (half_even (of_int i / pow2 k)) * pow2 k = (of_int i :: rat)"
    by (metis half_even_int nonzero_eq_divide_eq pow2_pos)
  moreover have "(of_int i :: rat) < 2 ^ 1024"
  proof -
    have "(of_int i :: rat) < of_int (2 ^ 53)" using assms by (simp only: of_int_less_iff)
    also have "\<dots> \<le> 2 ^ 1024" by simp
    finally show ?thesis .
  qed
  moreover have "quotient_of (of_int i :: rat) = (i, 1)"
    by (simp add: of_int_rat quotient_of_Fract Rat.normalize_def)
  ultimately show ?thesis using False by (simp add: round_abs_def Let_def k_def)
qed (simp add: round_abs_def)

text \<open>An integer of at most 53 bits is a double.\<close>

lemma f64_round_int:
  assumes "\<bar>i\<bar> < 2 ^ 53"
  shows "f64_round (of_int i) = Fin (of_int i)"
proof -
  have "\<bar>of_int i :: rat\<bar> = of_int \<bar>i\<bar>" by simp
  then have "round_abs \<bar>of_int i\<bar> = Some \<bar>of_int i\<bar>"
    using round_abs_int [of "\<bar>i\<bar>"] assms by (simp only: abs_ge_zero)
  then show ?thesis by (simp only: f64_round_def) simp
qed

lemma parse_decimal_digits:
  assumes "list_all is_ascii_digit ds" "ds \<noteq> []"
  shows "parse_decimal ds = Some (of_nat (digits_val ds))"
proof -
  from assms have "take_digits ds = (ds, [])"
    by (simp add: take_digits_def list_all_iff takeWhile_eq_all_conv dropWhile_eq_Nil_conv)
  with assms show ?thesis by (simp add: parse_decimal_def parse_exp_def pow10_def)
qed

text \<open>A string of digits that denotes a number below \<open>2 ^ 53\<close> reads as that number, and a
  leading minus negates it.\<close>

lemma digit_not_special:
  assumes "is_ascii_digit c"
  shows "c \<noteq> CHR ''-''" "c \<noteq> CHR ''+''" "to_ascii_lowercase_char c = c" "c \<noteq> CHR ''i''" "c \<noteq> CHR ''n''"
  using assms by (auto simp: is_ascii_digit_def to_ascii_lowercase_char_def is_ascii_uppercase_def)

lemma parse_f64_digits:
  assumes ds: "list_all is_ascii_digit ds" "ds \<noteq> []" and small: "digits_val ds < 2 ^ 53"
  shows "parse_f64 ds = Some (Fin (of_nat (digits_val ds)))"
    and "parse_f64 (CHR ''-'' # ds) = Some (Fin (- of_nat (digits_val ds)))"
proof -
  obtain c cs where c: "ds = c # cs" using ds by (cases ds) auto
  with ds have d: "is_ascii_digit c" by simp
  have low: "to_ascii_lowercase ds \<noteq> ''inf''" "to_ascii_lowercase ds \<noteq> ''infinity''" "to_ascii_lowercase ds \<noteq> ''nan''"
    using digit_not_special [OF d] by (auto simp: c to_ascii_lowercase_def)
  have r: "f64_round (of_int (int (digits_val ds))) = Fin (of_nat (digits_val ds))"
    "f64_round (of_int (- int (digits_val ds))) = Fin (- of_nat (digits_val ds))"
    using f64_round_int [of "int (digits_val ds)"] f64_round_int [of "- int (digits_val ds)"] small
    by simp_all
  have s: "take_sign ds = (False, ds)" "take_sign (CHR ''-'' # ds) = (True, ds)"
    using digit_not_special [OF d] by (simp_all add: c take_sign_def)
  show "parse_f64 ds = Some (Fin (of_nat (digits_val ds)))"
    "parse_f64 (CHR ''-'' # ds) = Some (Fin (- of_nat (digits_val ds)))"
    using r low by (simp_all add: parse_f64_def s parse_decimal_digits ds)
qed

subsection \<open>Rounding stays between integers\<close>

lemma pow2_add: "pow2 (a + int n) = pow2 a * 2 ^ n"
proof (cases "0 \<le> a")
  case True
  then show ?thesis by (simp add: pow2_def nat_add_distrib power_add)
next
  case False
  show ?thesis
  proof (cases "0 \<le> a + int n")
    case True
    with False have "n = nat (a + int n) + nat (- a)" by simp
    then have "(2::rat) ^ n = 2 ^ nat (a + int n) * 2 ^ nat (- a)" by (metis power_add)
    with True False show ?thesis by (simp add: pow2_def)
  next
    case neg: False
    with False have "nat (- a) = nat (- (a + int n)) + n" by simp
    then have "(2::rat) ^ nat (- a) = 2 ^ nat (- (a + int n)) * 2 ^ n" by (metis power_add)
    with neg False show ?thesis by (simp add: pow2_def)
  qed
qed

lemma pow2_gt0: "0 < pow2 k"
  by (simp add: pow2_def)

lemma log2_floor_le:
  assumes "0 < n" "0 < d"
  shows "pow2 (log2_floor n d) * of_nat d \<le> of_nat n"
proof -
  define l where "l = int (floorlog 2 n) - int (floorlog 2 d)"
  have bounds: "2 ^ (floorlog 2 n - 1) \<le> n" "d < 2 ^ floorlog 2 d" "1 \<le> floorlog 2 n"
    using floorlog_bounds [of n 2] floorlog_bounds [of d 2] assms by (simp_all add: compute_floorlog)
  show ?thesis
  proof (cases "if l \<ge> 0 then n \<ge> d * 2 ^ nat l else n * 2 ^ nat (- l) \<ge> d")
    case True
    then have "pow2 l * of_nat d \<le> of_nat n"
    proof (cases "l \<ge> 0")
      case pos: True
      with True have "of_nat (d * 2 ^ nat l) \<le> (of_nat n :: rat)" by (simp only: of_nat_le_iff if_True)
      with pos show ?thesis by (simp add: pow2_def mult.commute)
    next
      case neg: False
      with True have "of_nat d \<le> (of_nat (n * 2 ^ nat (- l)) :: rat)" by (simp only: of_nat_le_iff if_False)
      with neg show ?thesis by (simp add: pow2_def field_simps)
    qed
    with True show ?thesis by (simp add: log2_floor_def l_def [symmetric] Let_def)
  next
    case False
    have "pow2 (l - 1) * of_nat d \<le> of_nat n"
    proof -
      have "int (floorlog 2 n - 1) = (l - 1) + int (floorlog 2 d)" using bounds(3) by (simp add: l_def)
      then have "pow2 (int (floorlog 2 n - 1)) = pow2 (l - 1) * 2 ^ floorlog 2 d" by (simp only: pow2_add)
      moreover have "pow2 (int (floorlog 2 n - 1)) = 2 ^ (floorlog 2 n - 1)" by (simp add: pow2_def)
      moreover have "(of_nat d :: rat) \<le> 2 ^ floorlog 2 d" using bounds(2) by (metis less_imp_le of_nat_le_iff of_nat_numeral of_nat_power)
      moreover from this have "pow2 (l - 1) * of_nat d \<le> pow2 (l - 1) * 2 ^ floorlog 2 d"
        by (intro mult_left_mono) (simp_all add: pow2_gt0 less_imp_le)
      ultimately have "pow2 (l - 1) * of_nat d \<le> 2 ^ (floorlog 2 n - 1)" by simp
      also have "\<dots> \<le> (of_nat n :: rat)" using bounds(1) by (metis of_nat_le_iff of_nat_numeral of_nat_power)
      finally show ?thesis .
    qed
    with False show ?thesis by (simp add: log2_floor_def l_def [symmetric] Let_def)
  qed
qed

lemma half_even_between: "of_int m \<le> q \<Longrightarrow> m \<le> half_even q" "q \<le> of_int m \<Longrightarrow> half_even q \<le> m"
proof -
  have f: "of_int \<lfloor>q\<rfloor> \<le> q" "q < of_int (\<lfloor>q\<rfloor> + 1)" by linarith+
  show "m \<le> half_even q" if "of_int m \<le> q"
  proof -
    have "m \<le> \<lfloor>q\<rfloor>" using that by (simp add: le_floor_iff)
    then show ?thesis by (auto simp: half_even_def Let_def)
  qed
  show "half_even q \<le> m" if "q \<le> of_int m"
  proof (cases "q = of_int \<lfloor>q\<rfloor>")
    case True
    then have "half_even q = \<lfloor>q\<rfloor>" by (metis half_even_int)
    moreover have "\<lfloor>q\<rfloor> \<le> m" using that by linarith
    ultimately show ?thesis by simp
  next
    case False
    with f(1) that have "(of_int \<lfloor>q\<rfloor> :: rat) < of_int m" by linarith
    then have "\<lfloor>q\<rfloor> + 1 \<le> m" by simp
    then show ?thesis by (auto simp: half_even_def Let_def)
  qed
qed

lemma round_abs_between:
  assumes "0 < q" "q < 2 ^ 53"
  shows "\<exists>v. round_abs q = Some v \<and> (\<forall>m. (of_int m \<le> q \<longrightarrow> of_int m \<le> v) \<and> (q \<le> of_int m \<longrightarrow> v \<le> of_int m))"
proof -
  obtain n d where nd: "quotient_of q = (n, d)" by fastforce
  from quotient_of_div [OF nd] quotient_of_denom_pos [OF nd] have q: "q = of_int n / of_int d" "0 < d" by blast+
  with assms(1) have n: "0 < n" by (simp add: zero_less_divide_iff)
  define k where "k = max (- 1074) (log2_floor (nat n) (nat d) - 52)"
  have "pow2 (log2_floor (nat n) (nat d)) * of_nat (nat d) \<le> of_nat (nat n)" using log2_floor_le [of "nat n" "nat d"] n q(2) by simp
  then have "pow2 (log2_floor (nat n) (nat d)) \<le> q" unfolding q(1) using q(2) n by (simp add: pos_le_divide_eq)
  then have p: "pow2 (log2_floor (nat n) (nat d)) < 2 ^ 53" using assms(2) by simp
  have "log2_floor (nat n) (nat d) \<le> 52"
  proof (rule ccontr)
    define j where "j = nat (log2_floor (nat n) (nat d) - 53)"
    assume "\<not> log2_floor (nat n) (nat d) \<le> 52"
    then have j: "log2_floor (nat n) (nat d) = 53 + int j" by (simp add: j_def)
    have "pow2 53 = 2 ^ 53" by (simp add: pow2_def)
    then have "(2::rat) ^ 53 * 1 \<le> pow2 (53 + int j)" unfolding pow2_add by (intro mult_mono) simp_all
    with p j show False by simp
  qed
  then have k: "k \<le> 0" by (simp add: k_def)
  then have s: "q / pow2 k = q * of_int (2 ^ nat (- k))" "pow2 k = 1 / of_int (2 ^ nat (- k))"
    by (simp add: pow2_neg_mult) (use k in \<open>auto simp: pow2_def\<close>)
  define v where "v = of_int (half_even (q / pow2 k)) * pow2 k"
  have low: "of_int m \<le> v" if "of_int m \<le> q" for m
  proof -
    have "of_int (m * 2 ^ nat (- k)) \<le> q / pow2 k" unfolding s(1) using that by simp
    from half_even_between(1) [OF this] have "(of_int (m * 2 ^ nat (- k)) :: rat) \<le> of_int (half_even (q / pow2 k))" by (simp only: of_int_le_iff)
    then show ?thesis unfolding v_def s(2) by (simp add: field_simps)
  qed
  have high: "v \<le> of_int m" if "q \<le> of_int m" for m
  proof -
    have "q / pow2 k \<le> of_int (m * 2 ^ nat (- k))" unfolding s(1) using that by simp
    from half_even_between(2) [OF this] have "of_int (half_even (q / pow2 k)) \<le> (of_int (m * 2 ^ nat (- k)) :: rat)" by (simp only: of_int_le_iff)
    then show ?thesis unfolding v_def s(2) by (simp add: field_simps)
  qed
  have "q \<le> of_int (2 ^ 53)" using assms(2) by simp
  from high [OF this] have "v < 2 ^ 1024" by (rule le_less_trans) simp
  then have "round_abs q = Some v"
    using assms(1) by (simp add: round_abs_def nd k_def [symmetric] v_def [symmetric] Let_def)
  with low high show ?thesis by blast
qed

end
