(* ===== verification/When_Expr.thy ===== *)
theory When_Expr
  imports F64
begin

text \<open>
  The expression language of \<open>when:\<close>, \<open>until:\<close> and the schedule gates
  (\<open>dagron-core/src/expand.rs\<close>): substitution of \<open>{{ key }}\<close>, its arithmetic, and the
  evaluator \<open>eval_when\<close> with its quote- and bracket-aware splitting.

  A byte offset into a string is a position in the list of its characters: every offset
  the code takes is at an ASCII character. A context (\<open>BTreeMap\<close>) is an association list.
  A \<open>bail!\<close> is \<open>Inl\<close> of its message.
\<close>

type_synonym ctx = "(string \<times> string) list"

subsection \<open>References to upstream outputs\<close>

definition output_ref :: "string \<Rightarrow> string option" where
  "output_ref key =
     (case strip_prefix ''tasks.'' key of
        None \<Rightarrow> None
      | Some k \<Rightarrow> (case strip_suffix ''.output'' k of
          None \<Rightarrow> None
        | Some name \<Rightarrow> if name = [] then None else Some name))"

fun output_refs_from :: "nat \<Rightarrow> string \<Rightarrow> string list \<Rightarrow> string list" where
  "output_refs_from 0 rest refs = refs"
| "output_refs_from (Suc k) rest refs =
     (case split_once ''{{'' rest of
        None \<Rightarrow> refs
      | Some (_, after) \<Rightarrow>
          (case split_once ''}}'' after of
             None \<Rightarrow> refs
           | Some (key, rest') \<Rightarrow>
               output_refs_from k rest'
                 (case output_ref (trim key) of
                    Some name \<Rightarrow> (if name \<in> set refs then refs else refs @ [name])
                  | None \<Rightarrow> refs)))"

text \<open>Every round drops the two braces at least: as many rounds as characters are enough.\<close>

definition when_output_refs :: "string \<Rightarrow> string list" where
  "when_output_refs cond = output_refs_from (length cond) cond []"

definition when_refs_task_outputs :: "string \<Rightarrow> bool" where
  "when_refs_task_outputs cond = (when_output_refs cond \<noteq> [])"

subsection \<open>Substitution\<close>

fun split_whitespace_from :: "string \<Rightarrow> string \<Rightarrow> string list" where
  "split_whitespace_from w [] = (if w = [] then [] else [w])"
| "split_whitespace_from w (c # cs) =
     (if is_whitespace c
      then (if w = [] then split_whitespace_from [] cs else w # split_whitespace_from [] cs)
      else split_whitespace_from (w @ [c]) cs)"

definition split_whitespace :: "string \<Rightarrow> string list" where
  "split_whitespace s = split_whitespace_from [] s"

definition arith_operand :: "ctx \<Rightarrow> string \<Rightarrow> f64 option" where
  "arith_operand ctx t =
     (case Option.bind (map_of ctx t) (\<lambda>v. parse_f64 (trim v)) of
        Some x \<Rightarrow> Some x
      | None \<Rightarrow> parse_f64 t)"

definition i64_min :: int where "i64_min = - (2 ^ 63)"
definition i64_max :: int where "i64_max = 2 ^ 63 - 1"

text \<open>An integral result goes through \<open>i64\<close>, clamped to \<open>[-2^63, 2^63]\<close> and then by the
  saturating cast.\<close>

fun render_number :: "f64 \<Rightarrow> string" where
  "render_number (Fin q) =
     (if \<lfloor>q\<rfloor> = \<lceil>q\<rceil> then int_to_string (max i64_min (min i64_max \<lfloor>q\<rfloor>)) else f64_to_string (Fin q))"
| "render_number x = f64_to_string x"

definition eval_arith :: "string \<Rightarrow> ctx \<Rightarrow> string option" where
  "eval_arith expr ctx =
     (case split_whitespace expr of
        [ta, op, tb] \<Rightarrow>
          (case (arith_operand ctx ta, arith_operand ctx tb) of
             (Some a, Some b) \<Rightarrow>
               map_option render_number
                 (if op = ''+'' then Some (f64_add a b)
                  else if op = ''-'' then Some (f64_sub a b)
                  else if op = ''*'' then Some (f64_mul a b)
                  else if op = ''/'' \<and> b \<noteq> Fin 0 then Some (f64_div a b)
                  else if op = ''%'' \<and> b \<noteq> Fin 0 then Some (f64_rem a b)
                  else None)
           | _ \<Rightarrow> None)
      | _ \<Rightarrow> None)"

definition expand_key :: "ctx \<Rightarrow> string \<Rightarrow> string" where
  "expand_key ctx raw =
     (case map_of ctx (trim raw) of
        Some val \<Rightarrow> val
      | None \<Rightarrow> (case eval_arith (trim raw) ctx of Some val \<Rightarrow> val | None \<Rightarrow> ''{{'' @ raw @ ''}}''))"

function (sequential) substitute_from :: "ctx \<Rightarrow> string \<Rightarrow> string" where
  "substitute_from ctx [] = []"
| "substitute_from ctx (c # s) =
     (if starts_with (c # s) ''{{'' then
        (case split_once ''}}'' (drop 1 s) of
           Some (raw, rest) \<Rightarrow> expand_key ctx raw @ substitute_from ctx rest
         | None \<Rightarrow> c # substitute_from ctx s)
      else c # substitute_from ctx s)"
  by pat_completeness auto
termination
  by (relation "measure (\<lambda>(_, s). length s)")
    (auto dest!: split_once_SomeD dest: arg_cong [where f = length])

definition substitute :: "string \<Rightarrow> ctx \<Rightarrow> string" where
  "substitute s ctx = (if contains s ''{{'' then substitute_from ctx s else s)"

subsection \<open>Splitting outside quotes and brackets\<close>

definition token_boundary_before :: "char option \<Rightarrow> bool" where
  "token_boundary_before prev =
     (case prev of None \<Rightarrow> True | Some c \<Rightarrow> c \<in> {CHR '' '', CHR 0x09, CHR ''['', CHR '',''})"

definition token_boundary_after :: "string \<Rightarrow> bool" where
  "token_boundary_after rest =
     (case rest of [] \<Rightarrow> True | c # _ \<Rightarrow> c \<in> {CHR '' '', CHR 0x09, CHR '']'', CHR '',''})"

text \<open>The offset of the quote that closes a token opened with \<open>q\<close>, in what follows it.\<close>

fun closing_quote :: "char \<Rightarrow> string \<Rightarrow> nat option" where
  "closing_quote q [] = None"
| "closing_quote q (c # cs) =
     (if c = q \<and> token_boundary_after cs then Some 0 else map_option Suc (closing_quote q cs))"

lemma closing_quote_less: "closing_quote q cs = Some j \<Longrightarrow> j < length cs"
  by (induction cs arbitrary: j) (auto split: if_splits)

abbreviation is_quote :: "char \<Rightarrow> bool" where
  "is_quote c \<equiv> c = CHR 0x27 \<or> c = CHR 0x22"

function (sequential) top_scan :: "char option \<Rightarrow> nat \<Rightarrow> string \<Rightarrow> bool list" where
  "top_scan prev depth [] = []"
| "top_scan prev depth (b # cs) =
     (case (if is_quote b \<and> token_boundary_before prev then closing_quote b cs else None) of
        Some j \<Rightarrow> replicate (j + 2) False @ top_scan (Some b) depth (drop (j + 1) cs)
      | None \<Rightarrow>
          (depth = 0) # top_scan (Some b)
            (let d = (if b = CHR ''['' then depth + 1 else depth) in if b = CHR '']'' then d - 1 else d) cs)"
  by pat_completeness auto
termination
  by (relation "measure (\<lambda>(_, _, s). length s)") auto

definition top_level :: "string \<Rightarrow> bool list" where
  "top_level expr = top_scan None 0 expr"

text \<open>
  \<open>split_word\<close>: \<open>piece\<close> is \<open>expr[start..i]\<close>, \<open>prev\<close> the character before the position. An
  occurrence of the word is passed whole whether or not it splits.
\<close>

definition before_ok :: "char option \<Rightarrow> bool" where
  "before_ok prev = (case prev of None \<Rightarrow> False | Some c \<Rightarrow> is_ascii_whitespace c)"

definition after_ok :: "string \<Rightarrow> bool" where
  "after_ok rest = (case rest of [] \<Rightarrow> False | c # _ \<Rightarrow> is_ascii_whitespace c)"

function (sequential) split_scan ::
  "string \<Rightarrow> char option \<Rightarrow> string \<Rightarrow> bool list \<Rightarrow> string \<Rightarrow> string list" where
  "split_scan word prev piece outer [] = [trim piece]"
| "split_scan word prev piece outer (c # cs) =
     (case (if word = [] then None else strip_prefix word (c # cs)) of
        Some rest \<Rightarrow>
          (if before_ok prev \<and> after_ok rest \<and> hd outer
           then trim piece # split_scan word (Some (last word)) [] (drop (length word) outer) rest
           else split_scan word (Some (last word)) (piece @ word) (drop (length word) outer) rest)
      | None \<Rightarrow> split_scan word (Some c) (piece @ [c]) (drop 1 outer) cs)"
  by pat_completeness auto
termination
  by (relation "measure (\<lambda>(_, _, _, _, s). length s)")
    (auto dest!: strip_prefix_SomeD split: if_splits simp: Cons_eq_append_conv)

definition split_word :: "string \<Rightarrow> string \<Rightarrow> string list" where
  "split_word expr word = split_scan word None [] (top_level expr) expr"

lemma length_trim: "length (trim s) \<le> length s"
  by (simp add: trim_def trim_start_def trim_end_def trim_end_matches_def)
    (metis length_dropWhile_le length_rev order_trans)

text \<open>The pieces are no longer than the whole, and shorter than it once it is split.\<close>

lemma split_scan_length:
  assumes "p \<in> set (split_scan word prev piece outer s)"
  shows "length p \<le> length piece + length s
         \<and> (1 < length (split_scan word prev piece outer s) \<longrightarrow> length p < length piece + length s)"
  using assms
proof (induction word prev piece outer s rule: split_scan.induct)
  case (1 word prev piece outer)
  then show ?case by (simp add: length_trim)
next
  case (2 word prev piece outer c cs)
  let ?m = "if word = [] then None else strip_prefix word (c # cs)"
  show ?case
  proof (cases ?m)
    case None
    from "2.IH"(1) [OF None] "2.prems" None show ?thesis by auto
  next
    case (Some rest)
    then have w: "word \<noteq> []" and eq: "c # cs = word @ rest"
      by (auto split: if_splits dest: strip_prefix_SomeD)
    then have len: "Suc (length cs) = length word + length rest" "0 < length word"
      by (metis length_Cons length_append, simp)
    show ?thesis
    proof (cases "before_ok prev \<and> after_ok rest \<and> hd outer")
      case True
      from "2.prems" Some True consider "p = trim piece"
        | "p \<in> set (split_scan word (Some (last word)) [] (drop (length word) outer) rest)"
        by auto
      then show ?thesis
      proof cases
        case 1
        then show ?thesis using length_trim [of piece] len by auto
      next
        case 2
        with "2.IH"(2) [OF Some True 2] have "length p \<le> length rest" by simp
        with len have "length p < length piece + Suc (length cs)" by linarith
        then show ?thesis by simp
      qed
    next
      case False
      have "p \<in> set (split_scan word (Some (last word)) (piece @ word) (drop (length word) outer) rest)"
        using "2.prems" Some False by simp
      from "2.IH"(3) [OF Some False this] Some False len show ?thesis by auto
    qed
  qed
qed

lemma split_word_shorter:
  assumes "p \<in> set (split_word expr word)" "1 < length (split_word expr word)"
  shows "length p < length expr"
  using split_scan_length [OF assms(1) [unfolded split_word_def]] assms(2)
  by (simp add: split_word_def)

subsection \<open>Membership\<close>

text \<open>Two operands are equal as numbers when both read as numbers, else as text.\<close>

definition same_value :: "string \<Rightarrow> string \<Rightarrow> bool" where
  "same_value a b =
     (case (parse_f64 a, parse_f64 b) of (Some x, Some y) \<Rightarrow> f64_eq x y | _ \<Rightarrow> a = b)"

definition unquote_with :: "char \<Rightarrow> string \<Rightarrow> string option" where
  "unquote_with q s =
     (if length s \<ge> 2 \<and> hd s = q \<and> last s = q then Some (butlast (tl s)) else None)"

definition unquote :: "string \<Rightarrow> string" where
  "unquote s =
     (let t = trim s
      in case unquote_with CHR 0x22 t of
           Some u \<Rightarrow> u
         | None \<Rightarrow> (case unquote_with CHR 0x27 t of Some u \<Rightarrow> u | None \<Rightarrow> t))"

fun split_items :: "string \<Rightarrow> bool list \<Rightarrow> string \<Rightarrow> string list" where
  "split_items piece outer [] = [piece]"
| "split_items piece outer (c # cs) =
     (if c = CHR '','' \<and> hd outer
      then piece # split_items [] (tl outer) cs
      else split_items (piece @ [c]) (tl outer) cs)"

fun first_open :: "bool list \<Rightarrow> string \<Rightarrow> nat option" where
  "first_open outer [] = None"
| "first_open outer (c # cs) =
     (if c = CHR ''['' \<and> hd outer then Some 0 else map_option Suc (first_open (tl outer) cs))"

definition membership_head :: "string \<Rightarrow> (string \<times> bool) option" where
  "membership_head h =
     (case strip_suffix '' not in'' h of
        Some l \<Rightarrow> Some (l, True)
      | None \<Rightarrow> (case strip_suffix '' in'' h of Some l \<Rightarrow> Some (l, False) | None \<Rightarrow> None))"

definition eval_membership :: "string \<Rightarrow> bool option" where
  "eval_membership expr =
     (if \<not> ends_with expr '']'' then None
      else case first_open (top_level expr) expr of
             None \<Rightarrow> None
           | Some pos \<Rightarrow>
               (case membership_head (trim_end (take pos expr)) of
                  None \<Rightarrow> None
                | Some (l, negate) \<Rightarrow>
                    (let lhs = trim l;
                         body = butlast (drop (pos + 1) expr);
                         items = filter (\<lambda>s. trim s \<noteq> []) (map unquote (split_items [] (top_level body) body));
                         found = list_ex (same_value lhs) items
                     in Some (found \<noteq> negate))))"

subsection \<open>Comparisons\<close>

definition compare_ops :: "string list" where
  "compare_ops = [''<='', ''>='', ''=='', ''!='', ''<'', ''>'']"

definition compare_num :: "string \<Rightarrow> f64 \<Rightarrow> f64 \<Rightarrow> bool" where
  "compare_num op a b =
     (if op = ''<='' then f64_le a b
      else if op = ''>='' then f64_le b a
      else if op = ''<'' then f64_lt a b
      else if op = ''>'' then f64_lt b a
      else if op = ''=='' then f64_eq a b
      else \<not> f64_eq a b)"

definition squoted :: "string \<Rightarrow> string" where
  "squoted s = [CHR 0x27] @ s @ [CHR 0x27]"

definition compare_at :: "string \<Rightarrow> string \<Rightarrow> string \<Rightarrow> string \<Rightarrow> string + bool" where
  "compare_at expr op l r =
     (let lhs = trim l; rhs = trim r
      in case (parse_f64 lhs, parse_f64 rhs) of
           (Some a, Some b) \<Rightarrow> Inr (compare_num op a b)
         | _ \<Rightarrow>
             if op = ''=='' then Inr (lhs = rhs)
             else if op = ''!='' then Inr (lhs \<noteq> rhs)
             else Inl (''non-numeric operands for '' @ squoted op @ '' in when: '' @ squoted expr))"

fun eval_compare :: "string \<Rightarrow> string list \<Rightarrow> (string + bool) option" where
  "eval_compare expr [] = None"
| "eval_compare expr (op # ops) =
     (case split_once op expr of
        Some (l, r) \<Rightarrow> Some (compare_at expr op l r)
      | None \<Rightarrow> eval_compare expr ops)"

definition eval_leaf :: "string \<Rightarrow> string + bool" where
  "eval_leaf expr =
     (case eval_membership expr of
        Some r \<Rightarrow> Inr r
      | None \<Rightarrow>
          if 1 < length (split_word expr ''in'') \<and> CHR ''['' \<in> set expr
          then Inl (''malformed membership test in when: '' @ squoted expr @ '' (expected `X in [a, b]`)'')
          else (case eval_compare expr compare_ops of
                  Some r \<Rightarrow> r
                | None \<Rightarrow> Inr (expr \<noteq> [] \<and> expr \<noteq> ''false'' \<and> expr \<noteq> ''0'' \<and> expr \<noteq> ''no'')))"

subsection \<open>The evaluator\<close>

text \<open>The loop over the parts of an \<open>or\<close> (stop at true) or an \<open>and\<close> (stop at false): the
  first error, or the first part that decides.\<close>

fun eval_until :: "bool \<Rightarrow> (string \<Rightarrow> string + bool) \<Rightarrow> string list \<Rightarrow> string + bool" where
  "eval_until stop f [] = Inr (\<not> stop)"
| "eval_until stop f (p # ps) =
     (case f p of Inl e \<Rightarrow> Inl e | Inr b \<Rightarrow> if b = stop then Inr stop else eval_until stop f ps)"

lemma eval_until_cong [fundef_cong]:
  "ps = qs \<Longrightarrow> (\<And>p. p \<in> set qs \<Longrightarrow> f p = g p) \<Longrightarrow> stop = stop' \<Longrightarrow> eval_until stop f ps = eval_until stop' g qs"
  by (induction ps arbitrary: qs) (auto split: sum.splits)

function eval_when :: "string \<Rightarrow> string + bool" where
  "eval_when raw =
     (let expr = trim raw; ors = split_word expr ''or''; ands = split_word expr ''and''
      in if 1 < length ors then eval_until True eval_when ors
         else if 1 < length ands then eval_until False eval_when ands
         else eval_leaf expr)"
  by pat_completeness auto
termination
  by (relation "measure length") (auto dest!: split_word_shorter intro: less_le_trans [OF _ length_trim])

declare eval_when.simps [simp del]

end
