(* ===== verification/Advance.thy ===== *)
theory Advance
  imports Contracts When_Expr "HOL-Library.Product_Lexorder" "HOL-Library.Option_ord"
begin

text \<open>
  Lease recovery and the advance of pending tasks (\<open>db/sqlite.rs\<close>: \<open>recover_expired_leases\<close>,
  \<open>advance_ready_tasks\<close>, \<open>advance_default_shaped\<close>, \<open>advance_exotic_once\<close>).

  \<open>when_of\<close> stands for reading the \<open>when\<close> of a stored task spec (\<open>serde_json\<close>); a \<open>clock\<close>
  gives the instants the code reads.
\<close>

subsection \<open>Lease recovery\<close>

definition lease_expired_where :: "instant \<Rightarrow> task_row \<Rightarrow> bool" where
  "lease_expired_where now r =
     (tr_status r = Running
      \<and> (case tr_lease_expires_at r of None \<Rightarrow> False | Some l \<Rightarrow> l < now)
      \<and> tr_stop_requested_at r = None
      \<and> tr_session_id r = None)"

definition lease_expired_set :: "task_row \<Rightarrow> task_row" where
  "lease_expired_set r = r\<lparr>tr_status := Ready, tr_claimed_by := None, tr_lease_expires_at := None\<rparr>"

definition recover_expired_leases :: "instant \<Rightarrow> db \<Rightarrow> db \<times> nat" where
  "recover_expired_leases now db =
     (upd (lease_expired_where now) lease_expired_set db, aff (lease_expired_where now) db)"

subsection \<open>The set-based pass\<close>

text \<open>SQLite's \<open>LIKE\<close> does not tell ASCII letters of either case apart.\<close>

definition mentions_when :: "string \<Rightarrow> bool" where
  "mentions_when input = contains (to_ascii_lowercase input) ([CHR 0x22] @ ''when'' @ [CHR 0x22])"

definition default_shape :: "task_row \<Rightarrow> bool" where
  "default_shape r =
     (tr_status r = Pending \<and> tr_remaining_deps r = 0
      \<and> tr_trigger_rule r = ''all_success'' \<and> \<not> tr_is_approval r
      \<and> (case tr_input r of None \<Rightarrow> True | Some i \<Rightarrow> \<not> mentions_when i))"

definition some_dep_not_succeeded :: "db \<Rightarrow> string \<Rightarrow> bool" where
  "some_dep_not_succeeded db t = list_ex (\<lambda>d. tr_status d \<noteq> Succeeded) (dep_rows db t)"

definition ready_default_where :: "db \<Rightarrow> task_row \<Rightarrow> bool" where
  "ready_default_where db r =
     (default_shape r \<and> tr_fanout_of r = None \<and> \<not> some_dep_not_succeeded db (tr_id r))"

definition skip_default_where :: "db \<Rightarrow> task_row \<Rightarrow> bool" where
  "skip_default_where db r = (default_shape r \<and> some_dep_not_succeeded db (tr_id r))"

definition make_ready :: "instant \<Rightarrow> task_row \<Rightarrow> task_row" where
  "make_ready now r = r\<lparr>tr_status := Ready, tr_scheduled_at := Some now\<rparr>"

definition make_skipped :: "instant \<Rightarrow> task_row \<Rightarrow> task_row" where
  "make_skipped now r = r\<lparr>tr_status := Skipped, tr_finished_at := Some now\<rparr>"

definition advance_default_shaped :: "instant \<Rightarrow> db \<Rightarrow> db \<times> nat" where
  "advance_default_shaped now db =
     (let readied = aff (ready_default_where db) db;
          db1 = upd (ready_default_where db) (make_ready now) db;
          skipped = map tr_id (filter (skip_default_where db1) (task_runs db1));
          db2 = upd (skip_default_where db1) (make_skipped now) db1
      in (decrement_all skipped db2, readied + length skipped))"

subsection \<open>The pass over the other shapes\<close>

definition exotic_candidates :: "db \<Rightarrow> task_row list" where
  "exotic_candidates db =
     sort_key tr_id (filter (\<lambda>r. tr_status r = Pending \<and> tr_remaining_deps r = 0) (task_runs db))"

definition task_output :: "db \<Rightarrow> string \<Rightarrow> string \<Rightarrow> string" where
  "task_output db run name =
     (case find (\<lambda>r. tr_run_id r = run \<and> tr_name r = name) (task_runs db) of
        Some r \<Rightarrow> (case tr_output r of Some out \<Rightarrow> trim out | None \<Rightarrow> [])
      | None \<Rightarrow> [])"

definition when_ctx :: "db \<Rightarrow> string \<Rightarrow> string \<Rightarrow> ctx" where
  "when_ctx db run cond =
     map (\<lambda>name. (''tasks.'' @ name @ ''.output'', task_output db run name)) (when_output_refs cond)"

definition fail_when :: "string \<Rightarrow> instant \<Rightarrow> task_row \<Rightarrow> task_row" where
  "fail_when msg now r = r\<lparr>tr_status := Failed, tr_output := Some msg, tr_finished_at := Some now\<rparr>"

definition park_barrier :: "instant \<Rightarrow> task_row \<Rightarrow> task_row" where
  "park_barrier now r =
     r\<lparr>tr_status := Running, tr_scheduled_at := Some now, tr_claimed_by := None, tr_lease_expires_at := None\<rparr>"

definition await_approval :: "instant \<Rightarrow> task_row \<Rightarrow> task_row" where
  "await_approval now r = r\<lparr>tr_status := AwaitingApproval, tr_scheduled_at := Some now\<rparr>"

text \<open>A transition that ends the task, and what it owes, in one transaction.\<close>

definition end_pending :: "string \<Rightarrow> (task_row \<Rightarrow> task_row) \<Rightarrow> db \<Rightarrow> db \<times> nat" where
  "end_pending t f db =
     (let n = aff (pending_id t) db; db1 = upd (pending_id t) f db
      in (if n > 0 then decrement_dependents t db1 else db1, n))"

definition begin_pending :: "string \<Rightarrow> (task_row \<Rightarrow> task_row) \<Rightarrow> db \<Rightarrow> db \<times> nat" where
  "begin_pending t f db = (upd (pending_id t) f db, aff (pending_id t) db)"

text \<open>What the gate says: \<open>Inl\<close> of the message, or whether the condition holds.\<close>

definition when_gate :: "(string \<Rightarrow> string option) \<Rightarrow> db \<Rightarrow> task_row \<Rightarrow> string + bool" where
  "when_gate when_of db c =
     (case Option.bind (tr_input c) when_of of
        None \<Rightarrow> Inr True
      | Some cond \<Rightarrow>
          (case eval_when (substitute cond (when_ctx db (tr_run_id c) cond)) of
             Inl e \<Rightarrow> Inl (''runtime when '' @ squoted cond @ '' failed to evaluate: '' @ e)
           | Inr b \<Rightarrow> Inr b))"

definition exotic_one ::
  "(string \<Rightarrow> string option) \<Rightarrow> instant \<Rightarrow> task_row \<Rightarrow> db \<Rightarrow> db \<times> nat" where
  "exotic_one when_of now c db =
     (let t = tr_id c; dep_statuses = map (\<lambda>d. task_status_str (tr_status d)) (dep_rows db t)
      in case when_gate when_of db c of
           Inl msg \<Rightarrow> end_pending t (fail_when msg now) db
         | Inr when_pass \<Rightarrow>
             if when_pass \<and> trigger_rule_ready (tr_trigger_rule c) dep_statuses
             then (if tr_fanout_of c \<noteq> None then begin_pending t (park_barrier now) db
                   else if tr_is_approval c then begin_pending t (await_approval now) db
                   else begin_pending t (make_ready now) db)
             else end_pending t (make_skipped now) db)"

fun exotic_loop ::
  "(string \<Rightarrow> string option) \<Rightarrow> (string \<Rightarrow> instant) \<Rightarrow> task_row list \<Rightarrow> db \<Rightarrow> db \<times> nat" where
  "exotic_loop when_of clock [] db = (db, 0)"
| "exotic_loop when_of clock (c # cs) db =
     (let (db1, n) = exotic_one when_of (clock (tr_id c)) c db;
          (db2, m) = exotic_loop when_of clock cs db1
      in (db2, n + m))"

definition advance_exotic_once ::
  "(string \<Rightarrow> string option) \<Rightarrow> (string \<Rightarrow> instant) \<Rightarrow> db \<Rightarrow> db \<times> nat" where
  "advance_exotic_once when_of clock db = exotic_loop when_of clock (exotic_candidates db) db"

subsection \<open>Rounds\<close>

text \<open>
  A round reads the clock once for the set-based pass and once for each other task:
  \<open>clock k (Some id)\<close> with \<open>k\<close> rounds left. Sixty-four rounds at most: what a longer cascade
  leaves is for the next call.
\<close>

fun advance_rounds ::
  "(string \<Rightarrow> string option) \<Rightarrow> (nat \<Rightarrow> string option \<Rightarrow> instant) \<Rightarrow> nat \<Rightarrow> db \<Rightarrow> db \<times> nat" where
  "advance_rounds when_of clock 0 db = (db, 0)"
| "advance_rounds when_of clock (Suc k) db =
     (if \<not> list_ex (\<lambda>r. tr_status r = Pending \<and> tr_remaining_deps r = 0) (task_runs db) then (db, 0)
      else
        (let (db1, a) = advance_default_shaped (clock k None) db;
             (db2, b) = advance_exotic_once when_of (\<lambda>t. clock k (Some t)) db1
         in if a + b = 0 then (db2, 0)
            else (let (db3, m) = advance_rounds when_of clock k db2 in (db3, a + b + m))))"

definition advance_ready_tasks ::
  "(string \<Rightarrow> string option) \<Rightarrow> (nat \<Rightarrow> string option \<Rightarrow> instant) \<Rightarrow> db \<Rightarrow> db \<times> nat" where
  "advance_ready_tasks when_of clock db = advance_rounds when_of clock 64 db"

subsection \<open>The statements meet their contracts\<close>

lemmas advance_stmts =
  lease_expired_where_def lease_expired_set_def ready_default_where_def skip_default_where_def
  default_shape_def make_ready_def make_skipped_def pending_id_def fail_when_def park_barrier_def
  await_approval_def

interpretation lease_stmt: quiet_update "lease_expired_where now" lease_expired_set for now
  by unfold_locales (auto simp: advance_stmts row_ok_def no_park_def has_started_def)

interpretation ready_stmt: still_update "ready_default_where db" "make_ready now" for db now
  by unfold_locales (auto simp: advance_stmts row_ok_def no_park_def has_started_def)

interpretation skip_stmt: ending_update "skip_default_where db" "make_skipped now" for db now
  by unfold_locales (auto simp: advance_stmts row_ok_def no_park_def has_started_def)

text \<open>The set-based pass readies a task of the default rule when every dependency has succeeded.\<close>

lemma ready_default_rule:
  assumes "ready_default_where db r"
  shows "tr_status r = Pending \<and> tr_remaining_deps r \<le> 0 \<and> rule_met db r"
proof -
  have "list_all (\<lambda>d. d = Succeeded) (map tr_status (dep_rows db (tr_id r)))"
    using assms by (simp add: ready_default_where_def some_dep_not_succeeded_def list_all_iff list_ex_iff)
  then have "trigger_rule_ready ''all_success'' (map task_status_str (map tr_status (dep_rows db (tr_id r))))"
    by (simp only: trigger_rule_all_success)
  then have "rule_met db r"
    using assms by (simp add: rule_met_def ready_default_where_def default_shape_def comp_def)
  then show ?thesis using assms by (simp add: ready_default_where_def default_shape_def)
qed

text \<open>The single-task statements, on a task whose counter is down.\<close>

abbreviation pending_free :: "string \<Rightarrow> task_row \<Rightarrow> bool" where
  "pending_free t r \<equiv> pending_id t r \<and> tr_remaining_deps r \<le> 0"

interpretation ready_one: still_update "pending_free t" "make_ready now" for t now
  by unfold_locales (auto simp: advance_stmts row_ok_def no_park_def has_started_def)

interpretation barrier_one: still_update "pending_free t" "park_barrier now" for t now
  by unfold_locales (auto simp: advance_stmts row_ok_def no_park_def has_started_def)

interpretation approval_one: still_update "pending_free t" "await_approval now" for t now
  by unfold_locales (auto simp: advance_stmts row_ok_def no_park_def has_started_def)

interpretation skip_one: ending_update "pending_free t" "make_skipped now" for t now
  by unfold_locales (auto simp: advance_stmts row_ok_def no_park_def has_started_def)

interpretation fail_one: ending_update "pending_free t" "fail_when msg now" for t msg now
  by unfold_locales (auto simp: advance_stmts row_ok_def no_park_def has_started_def)

subsection \<open>The invariant\<close>

lemma recover_from: "inv_from db0 D db \<Longrightarrow> inv_from db0 D (fst (recover_expired_leases now db))"
  by (simp add: recover_expired_leases_def lease_stmt.from_kept)

lemma advance_default_from:
  assumes "inv_from db0 [] db"
  shows "inv_from db0 [] (fst (advance_default_shaped now db))"
proof -
  let ?db1 = "upd (ready_default_where db) (make_ready now) db"
  have "inv_from db0 [] ?db1" using ready_default_rule by (intro ready_stmt.from_begun [OF assms])
  from skip_stmt.from_owed [OF this] show ?thesis
    by (auto simp: advance_default_shaped_def Let_def intro: decrement_all_from)
qed

lemma advance_default_inv: "sched_inv db \<Longrightarrow> sched_inv (fst (advance_default_shaped now db))"
  using advance_default_from [OF inv_from_self] by (simp add: inv_from_def sched_inv_def)

lemma advance_default_exact:
  assumes "tables_ok db" "counter_exact db"
  shows "counter_exact (fst (advance_default_shaped now db))"
proof -
  let ?db1 = "upd (ready_default_where db) (make_ready now) db"
  have "counter_exact_debt [] ?db1" "tables_ok ?db1"
    using assms ready_stmt.exact_kept ready_stmt.tables_kept by (simp_all add: counter_exact_def)
  from skip_stmt.exact_owed [OF this(2,1)] show ?thesis
    by (auto simp: advance_default_shaped_def counter_exact_def Let_def intro: decrement_all_exact)
qed

lemma pending_free_upd:
  assumes "free_to_go db t"
  shows "upd (pending_id t) f db = upd (pending_free t) f db"
    and "aff (pending_id t) db = aff (pending_free t) db"
  using assms
  by (auto simp: upd_def aff_def rows_affected_def free_to_go_def list_all_iff
      intro!: arg_cong [where f = "\<lambda>x. db\<lparr>task_runs := x\<rparr>"] arg_cong [where f = length] update_where_cong filter_cong)

lemma free_ended:
  assumes "tables_ok db"
  shows "map tr_id (filter (pending_free t) (task_runs db)) = (if 0 < aff (pending_free t) db then [t] else [])"
  using selected_key [of tr_id "task_runs db" t "\<lambda>r. tr_status r = Pending \<and> tr_remaining_deps r \<le> 0"] assms
  by (simp add: tables_ok_def aff_def pending_id_def [abs_def])

lemma end_pending_eq:
  assumes "free_to_go db t" "tables_ok db"
  shows "fst (end_pending t f db) =
           decrement_all (map tr_id (filter (pending_free t) (task_runs db))) (upd (pending_free t) f db)"
  using free_ended [OF assms(2), of t] pending_free_upd [OF assms(1)]
  by (simp add: end_pending_def Let_def)

text \<open>What a step of the loop keeps.\<close>

definition loop_inv :: "db \<Rightarrow> db \<Rightarrow> string list \<Rightarrow> db \<Rightarrow> bool" where
  "loop_inv db0 db1 ts db =
     (inv_from db0 [] db \<and> list_all (free_to_go db) ts \<and> (counter_exact db1 \<longrightarrow> counter_exact db) \<and> inv_from db1 [] db)"

context still_update
begin

lemma loop_begun:
  assumes "loop_inv db0 db1 ts db"
    and "\<And>r. r \<in> set (task_runs db) \<Longrightarrow> p r \<Longrightarrow> tr_status r = Pending \<and> tr_remaining_deps r \<le> 0 \<and> rule_met db r"
  shows "loop_inv db0 db1 ts (upd p f db)"
proof -
  have inv: "inv_from db0 [] db" using assms(1) by (simp add: loop_inv_def)
  then have "tables_ok db" by (rule from_tables)
  moreover have "inv_from db1 [] (upd p f db)"
    using assms by (intro from_begun) (simp_all add: loop_inv_def)
  ultimately show ?thesis
    using from_begun [OF inv assms(2)] assms(1) exact_kept free_kept
    by (auto simp: loop_inv_def counter_exact_def list_all_iff)
qed

end

context ending_update
begin

lemma loop_paid:
  assumes "loop_inv db0 db1 ts db"
  shows "loop_inv db0 db1 ts (decrement_all (ended db) (upd p f db))"
proof -
  have inv: "inv_from db0 [] db" and tab: "tables_ok db"
    using assms by (auto simp: loop_inv_def dest: from_tables)
  have "inv_from db0 [] (decrement_all (ended db) (upd p f db))"
    using from_owed [OF inv] by (auto intro: decrement_all_from)
  moreover have "inv_from db1 [] (decrement_all (ended db) (upd p f db))"
    using assms from_owed [of db1 "[]" db] by (auto simp: loop_inv_def intro: decrement_all_from)
  moreover have "counter_exact_debt [] db \<Longrightarrow> counter_exact_debt [] (decrement_all (ended db) (upd p f db))"
    using exact_owed [OF tab] by (auto intro: decrement_all_exact)
  moreover have "free_to_go (decrement_all ds (upd p f db)) t" if "free_to_go db t" for ds t
    using free_kept [OF tab that] by (induction ds rule: rev_induct) (simp_all add: decrement_all_def decrement_free)
  ultimately show ?thesis
    using assms by (auto simp: loop_inv_def counter_exact_def list_all_iff)
qed

end

text \<open>The rule a candidate was read with is the row's, whatever came between.\<close>

lemma candidate_rule:
  assumes "extends db1 db" "distinct (map tr_id (task_runs db1))" "c \<in> set (task_runs db1)"
    and "r \<in> set (task_runs db)" "tr_id r = tr_id c"
  shows "tr_trigger_rule r = tr_trigger_rule c"
proof -
  obtain i where i: "i < length (task_runs db)" "r = task_runs db ! i"
    using assms(4) by (auto simp: in_set_conv_nth)
  have "list_all2 row_ext (task_runs db1) (task_runs db)" using assms(1) by (simp add: extends_def)
  then have e: "row_ext (task_runs db1 ! i) r" "i < length (task_runs db1)"
    using i by (auto simp: list_all2_conv_all_nth)
  then have "tr_id (task_runs db1 ! i) = tr_id c" using assms(5) by (simp add: row_ext_def)
  then have "task_runs db1 ! i = c" using assms(2,3) e(2) distinct_key_eq [of tr_id "task_runs db1"] nth_mem by blast
  with e(1) show ?thesis by (simp add: row_ext_def)
qed

lemma exotic_one_inv:
  assumes inv: "loop_inv db0 db1 ts db" and c: "tr_id c \<in> set ts"
    and db1: "distinct (map tr_id (task_runs db1))" "c \<in> set (task_runs db1)"
  shows "loop_inv db0 db1 ts (fst (exotic_one when_of now c db))"
proof -
  have free: "free_to_go db (tr_id c)" and tab: "tables_ok db"
    using inv c by (auto simp: loop_inv_def list_all_iff dest: from_tables)
  have ext: "extends db1 db" using inv by (simp add: loop_inv_def inv_from_def)
  let ?met = "trigger_rule_ready (tr_trigger_rule c) (map (\<lambda>d. task_status_str (tr_status d)) (dep_rows db (tr_id c)))"
  have rule: "tr_status r = Pending \<and> tr_remaining_deps r \<le> 0 \<and> rule_met db r"
    if "?met" "r \<in> set (task_runs db)" "pending_free (tr_id c) r" for r
    using that candidate_rule [OF ext db1 that(2)] by (simp add: rule_met_def pending_id_def)
  have begun: "loop_inv db0 db1 ts (upd (pending_free (tr_id c)) (make_ready now) db)"
    "loop_inv db0 db1 ts (upd (pending_free (tr_id c)) (park_barrier now) db)"
    "loop_inv db0 db1 ts (upd (pending_free (tr_id c)) (await_approval now) db)" if "?met"
    using rule [OF that]
    by (blast intro: ready_one.loop_begun [OF inv] barrier_one.loop_begun [OF inv] approval_one.loop_begun [OF inv])+
  show ?thesis
    using begun skip_one.loop_paid [OF inv] fail_one.loop_paid [OF inv]
    by (simp add: exotic_one_def Let_def begin_pending_def pending_free_upd [OF free] end_pending_eq [OF free tab]
        split: sum.split)
qed

lemma exotic_loop_inv:
  "loop_inv db0 db1 ts db \<Longrightarrow> tr_id ` set cs \<subseteq> set ts \<Longrightarrow> distinct (map tr_id (task_runs db1)) \<Longrightarrow>
   set cs \<subseteq> set (task_runs db1) \<Longrightarrow> loop_inv db0 db1 ts (fst (exotic_loop when_of clock cs db))"
proof (induction cs arbitrary: db)
  case (Cons c cs)
  have "loop_inv db0 db1 ts (fst (exotic_one when_of (clock (tr_id c)) c db))"
    using Cons.prems by (intro exotic_one_inv) auto
  with Cons.prems Cons.IH [of "fst (exotic_one when_of (clock (tr_id c)) c db)"]
  show ?case by (simp add: Let_def case_prod_unfold)
qed simp

lemma exotic_once_from:
  assumes inv: "inv_from db0 [] db"
  shows "inv_from db0 [] (fst (advance_exotic_once when_of clock db))"
    and "counter_exact db \<Longrightarrow> counter_exact (fst (advance_exotic_once when_of clock db))"
proof -
  let ?ts = "map tr_id (exotic_candidates db)"
  have "free_to_go db t" if "t \<in> set ?ts" for t
  proof -
    from that obtain c where c: "c \<in> set (task_runs db)" "tr_id c = t" "tr_remaining_deps c = 0"
      by (auto simp: exotic_candidates_def)
    have "distinct (map tr_id (task_runs db))"
      using from_tables [OF inv] by (simp add: tables_ok_def)
    then show ?thesis
      using c distinct_key_eq [of tr_id] by (fastforce simp: free_to_go_def list_all_iff pending_id_def)
  qed
  moreover have "inv_from db [] db" using inv by (simp add: inv_from_def)
  ultimately have "loop_inv db0 db ?ts db" using inv by (simp add: loop_inv_def list_all_iff)
  then have "loop_inv db0 db ?ts (fst (advance_exotic_once when_of clock db))"
    unfolding advance_exotic_once_def
    by (rule exotic_loop_inv) (use from_tables [OF inv] in \<open>auto simp: tables_ok_def exotic_candidates_def\<close>)
  then show "inv_from db0 [] (fst (advance_exotic_once when_of clock db))"
    "counter_exact db \<Longrightarrow> counter_exact (fst (advance_exotic_once when_of clock db))"
    by (simp_all add: loop_inv_def)
qed

lemma advance_rounds_from:
  "inv_from db0 [] db \<Longrightarrow> inv_from db0 [] (fst (advance_rounds when_of clock k db))
     \<and> (counter_exact db \<longrightarrow> counter_exact (fst (advance_rounds when_of clock k db)))"
proof (induction k arbitrary: db)
  case (Suc k)
  obtain db1 a where 1: "advance_default_shaped (clock k None) db = (db1, a)" by fastforce
  obtain db2 b where 2: "advance_exotic_once when_of (\<lambda>t. clock k (Some t)) db1 = (db2, b)" by fastforce
  have f1: "inv_from db0 [] db1" "counter_exact db \<longrightarrow> counter_exact db1"
    using advance_default_from [OF Suc.prems] advance_default_exact [OF from_tables [OF Suc.prems]] 1
    by (metis fst_conv, metis fst_conv)
  then have f2: "inv_from db0 [] db2" "counter_exact db \<longrightarrow> counter_exact db2"
    using exotic_once_from [OF f1(1), of when_of "\<lambda>t. clock k (Some t)"] 2 by simp_all
  with Suc.IH [of db2] have "inv_from db0 [] (fst (advance_rounds when_of clock k db2))"
    "counter_exact db \<longrightarrow> counter_exact (fst (advance_rounds when_of clock k db2))"
    by simp_all
  with Suc.prems f2 show ?case
    by (simp add: 1 2 Let_def case_prod_unfold)
qed simp

end
