(* ===== verification/Example_Tables.thy ===== *)
theory Example_Tables
  imports Contracts
begin

text \<open>Small tables for the witnesses: a task row with every optional column empty, and a
  datastore of such rows.\<close>

definition example_task :: "string \<Rightarrow> task_status \<Rightarrow> int \<Rightarrow> task_row" where
  "example_task i s n =
     \<lparr>tr_id = i,
       tr_run_id = ''r'',
       tr_name = i,
       tr_status = s,
       tr_attempt = 0,
       tr_remaining_deps = n,
       tr_input = None,
       tr_output = None,
       tr_claimed_by = None,
       tr_lease_expires_at = None,
       tr_version = 0,
       tr_scheduled_at = None,
       tr_finished_at = None,
       tr_trigger_rule = ''all_success'',
       tr_allow_failure = False,
       tr_is_approval = False,
       tr_approval_timeout_secs = None,
       tr_approval_on_timeout = None,
       tr_runner_class = ''default'',
       tr_gang_id = None,
       tr_gang_size = None,
       tr_priority = 0,
       tr_pool = None,
       tr_cache_hit = False,
       tr_wake_at = None,
       tr_wait_url = None,
       tr_wait_dataset = None,
       tr_wait_dataset_cursor = None,
       tr_next_poll_at = None,
       tr_sub_run_id = None,
       tr_fanout_of = None,
       tr_external_kind = None,
       tr_external_handle = None,
       tr_external_endpoint = None,
       tr_external_epoch = 0,
       tr_external_deadline_at = None,
       tr_external_cancel_attempts = 0,
       tr_fault_class = None,
       tr_fault_detail = None,
       tr_fault_confidence = None,
       tr_decided_by = None,
       tr_decision_comment = None,
       tr_log = None,
       tr_log_fence = None,
       tr_log_gen = None,
       tr_quota_wait_since = None,
       tr_quota_wait_version = None,
       tr_quota_waits = 0,
       tr_quota_wait_detail = None,
       tr_stop_requested_at = None,
       tr_session_id = None,
       tr_attempt_base = 0\<rparr>"

definition example_run :: "string \<Rightarrow> run_row" where
  "example_run i =
     \<lparr>wr_id = i, wr_definition_id = ''d'', wr_status = RunRunning, wr_input = None,
      wr_output = None, wr_created_at = 0, wr_finished_at = None, wr_clock_confidence = None,
      wr_clock_offset_ms = None, wr_clock_source = None, wr_deadline_at = None, wr_result_from = None,
      wr_completion_pending_at = None, wr_start_pending_at = None, wr_stopping_as = None,
      wr_stop_requested_at = None, wr_queued_at = None, wr_admitted_at = None\<rparr>"

definition example_db :: "task_row list \<Rightarrow> (string \<times> string) list \<Rightarrow> db" where
  "example_db rows deps =
     \<lparr>task_runs = rows, task_deps = deps, workflow_runs = [example_run ''r''],
      task_attempts = [], event_outbox = []\<rparr>"

text \<open>Two tasks are over; one free task will be ready, another skipped, and a third waits for
  the skipped one.\<close>

definition fan_in :: db where
  "fan_in =
     example_db
       [example_task ''a'' Succeeded 0, example_task ''b'' Failed 0, example_task ''c'' Pending 0,
        example_task ''d'' Pending 0, example_task ''e'' Pending 1]
       [(''c'', ''a''), (''d'', ''a''), (''d'', ''b''), (''e'', ''d'')]"

lemma fan_in_inv: "sched_inv fan_in"
  by code_simp

lemma fan_in_exact: "counter_exact fan_in"
  by code_simp

text \<open>Three ready tasks, two of them in one pool, and a gang of two in another.\<close>

definition ready_pool :: db where
  "ready_pool =
     example_db
       [(example_task ''a'' Ready 0)\<lparr>tr_pool := Some ''gpu''\<rparr>,
        (example_task ''b'' Ready 0)\<lparr>tr_pool := Some ''gpu'', tr_priority := 2\<rparr>,
        example_task ''c'' Ready 0,
        (example_task ''g0'' Ready 0)\<lparr>tr_gang_id := Some ''g'', tr_gang_size := Some 2, tr_pool := Some ''big''\<rparr>,
        (example_task ''g1'' Ready 0)\<lparr>tr_gang_id := Some ''g'', tr_gang_size := Some 2, tr_pool := Some ''big''\<rparr>]
       []"

lemma ready_pool_ok: "tables_ok ready_pool"
  by code_simp

text \<open>A task some worker runs under a fence, and a pending task behind it.\<close>

definition running_task :: "string \<Rightarrow> string \<Rightarrow> int \<Rightarrow> task_row" where
  "running_task i w v =
     (example_task i Running 0)\<lparr>tr_claimed_by := Some w, tr_version := v, tr_attempt := 1,
       tr_lease_expires_at := Some 100\<rparr>"

definition one_running :: db where
  "one_running =
     example_db [running_task ''a'' ''w'' 3, example_task ''b'' Succeeded 0, example_task ''c'' Pending 1]
       [(''c'', ''a''), (''c'', ''b'')]"

lemma one_running_ok: "tables_ok one_running"
  by code_simp

text \<open>The same, asked to stop.\<close>

definition one_stopping :: db where
  "one_stopping = upd (\<lambda>r. tr_id r = ''a'') (\<lambda>r. r\<lparr>tr_stop_requested_at := Some 5\<rparr>) one_running"

text \<open>A gang of two on two workers, with a task behind it that runs however its dependencies end.\<close>

definition gang_and_publish :: db where
  "gang_and_publish =
     example_db
       [(running_task ''g0'' ''w0'' 1)\<lparr>tr_gang_id := Some ''g'', tr_gang_size := Some 2\<rparr>,
        (running_task ''g1'' ''w1'' 1)\<lparr>tr_gang_id := Some ''g'', tr_gang_size := Some 2\<rparr>,
        (example_task ''publish'' Pending 2)\<lparr>tr_trigger_rule := ''all_done''\<rparr>]
       [(''publish'', ''g0''), (''publish'', ''g1'')]"

end
