(* ===== verification/Advance_Props.thy ===== *)
theory Advance_Props
  imports Advance Example_Tables "HOL-Library.Multiset"
begin

text \<open>
  What the advance of pending tasks does: it keeps the invariant and the exact counter, the
  set-based pass is the per-task pass on the tasks it handles, and no task whose counter is
  down is still pending after a call.
\<close>

subsection \<open>The invariant\<close>

text \<open>C23. An advance keeps the counter of every pending task at least as high as its open
  dependencies, never starts a task before they are all over, and, where the counters were
  exact before, leaves them exact: a skip cascade of any shape counts each dependency down
  once.\<close>

theorem advance_keeps_counters:
  assumes "sched_inv db"
  shows "sched_inv (fst (advance_ready_tasks when_of clock db))
    \<and> (counter_exact db \<longrightarrow> counter_exact (fst (advance_ready_tasks when_of clock db)))"
  using advance_rounds_from [OF inv_from_self [OF assms]]
  by (simp add: advance_ready_tasks_def inv_from_def sched_inv_def)

subsection \<open>A closed form\<close>

definition counted_by :: "nat \<Rightarrow> task_row \<Rightarrow> task_row" where
  "counted_by n r = r\<lparr>tr_remaining_deps := tr_remaining_deps r - int n\<rparr>"

lemma counted_by_simps [simp]:
  "tr_id (counted_by n r) = tr_id r" "tr_status (counted_by n r) = tr_status r"
  "tr_remaining_deps (counted_by n r) = tr_remaining_deps r - int n"
  "counted_by 0 r = r" "counted_by m (counted_by n r) = counted_by (n + m) r"
  by (simp_all add: counted_by_def)

lemma counted_down_by: "counted_down r = counted_by 1 r"
  by (simp add: counted_down_def counted_by_def)

text \<open>Decrements count each pending row down by what the ids owe it, in any order.\<close>

lemma decrement_runs_by:
  "task_runs (decrement_dependents t db) =
     map (\<lambda>r. if tr_status r = Pending then counted_by (debt db [t] (tr_id r)) r else r) (task_runs db)"
  by (simp add: decrement_runs update_where_def counted_down_by debt_Cons)

lemma decrement_all_runs:
  "task_runs (decrement_all ts db) =
     map (\<lambda>r. if tr_status r = Pending then counted_by (debt db ts (tr_id r)) r else r) (task_runs db)"
proof (induction ts arbitrary: db)
  case Nil
  then show ?case by (simp add: map_idI)
next
  case (Cons t ts)
  have "debt (decrement_dependents t db) ts = debt db ts" by (simp add: debt_def fun_eq_iff)
  with Cons show ?case by (simp add: decrement_runs_by debt_Cons)
qed

lemma db_eqI:
  "task_runs a = task_runs (b :: db) \<Longrightarrow> task_deps a = task_deps b \<Longrightarrow> workflow_runs a = workflow_runs b \<Longrightarrow>
   task_attempts a = task_attempts b \<Longrightarrow> event_outbox a = event_outbox b \<Longrightarrow> a = b"
  by simp

text \<open>Everything but the task rows stays.\<close>

definition same_rest :: "db \<Rightarrow> db \<Rightarrow> bool" where
  "same_rest a b = (task_deps a = task_deps b \<and> workflow_runs a = workflow_runs b
                    \<and> task_attempts a = task_attempts b \<and> event_outbox a = event_outbox b)"

lemma same_rest_upd [simp]: "same_rest (upd p f a) b = same_rest a b"
  by (simp add: same_rest_def)

lemma same_rest_decrement [simp]: "same_rest (decrement_dependents t a) b = same_rest a b"
  by (simp add: same_rest_def decrement_dependents_def)

lemma same_rest_decrement_all [simp]: "same_rest (decrement_all ts a) b = same_rest a b"
  by (induction ts arbitrary: a) simp_all

lemma same_rest_refl [simp]: "same_rest a a"
  by (simp add: same_rest_def)

text \<open>A table whose rows are those of \<open>db\<close> changed by \<open>g\<close>, which keeps the ids and the rows
  that have ended, has the dependency rows of \<open>db\<close> where those have ended.\<close>

lemma dep_rows_map:
  assumes rows: "task_runs db' = map g (task_runs db)" and deps: "task_deps db' = task_deps db"
    and ids: "\<And>r. r \<in> set (task_runs db) \<Longrightarrow> tr_id (g r) = tr_id r"
    and over: "\<And>r. r \<in> set (task_runs db) \<Longrightarrow> is_terminal (tr_status r) \<Longrightarrow> g r = r"
    and dep: "open_deps db t = 0"
  shows "dep_rows db' t = dep_rows db t"
proof -
  have "filter (\<lambda>r. tr_id r = i) (map g (task_runs db)) = filter (\<lambda>r. tr_id r = i) (task_runs db)"
    if "i \<in> set (dependency_ids db t)" for i
  proof -
    have "filter (\<lambda>r. tr_id r = i) (map g (task_runs db)) = map g (filter (\<lambda>r. tr_id (g r) = i) (task_runs db))"
      by (simp add: filter_map comp_def)
    also have "filter (\<lambda>r. tr_id (g r) = i) (task_runs db) = filter (\<lambda>r. tr_id r = i) (task_runs db)"
      using ids by (intro filter_cong) simp_all
    also have "map g (filter (\<lambda>r. tr_id r = i) (task_runs db)) = filter (\<lambda>r. tr_id r = i) (task_runs db)"
    proof (rule map_idI)
      fix r assume "r \<in> set (filter (\<lambda>r. tr_id r = i) (task_runs db))"
      then show "g r = r" using that dep over by (auto simp: open_deps_0 set_dep_rows set_dependency_ids)
    qed
    finally show ?thesis .
  qed
  moreover have "dependency_ids db' t = dependency_ids db t" by (simp add: dependency_ids_def deps)
  ultimately show ?thesis by (simp add: dep_rows_def rows cong: map_cong)
qed

lemma distinct_filter_eq: "distinct xs \<Longrightarrow> x \<in> set xs \<Longrightarrow> length (filter (\<lambda>r. r = x) xs) = 1"
  by (induction xs) (auto simp: filter_empty_conv)

definition free_row :: "task_row \<Rightarrow> bool" where
  "free_row r = (tr_status r = Pending \<and> tr_remaining_deps r = 0)"

lemma free_no_open:
  assumes "sched_inv db" "r \<in> set (task_runs db)" "free_row r"
  shows "open_deps db (tr_id r) = 0"
  using assms by (fastforce simp: sched_inv_def sched_inv_debt_def list_all_iff slack_def free_row_def)

lemma free_owes_nothing:
  assumes inv: "sched_inv db" and r: "r \<in> set (task_runs db)" "free_row r"
    and ts: "\<And>t. t \<in> set ts \<Longrightarrow> open_id db t"
  shows "debt db ts (tr_id r) = 0"
proof -
  have "\<not> open_id db t" if "(tr_id r, t) \<in> set (task_deps db)" for t
    using free_no_open [OF inv r] that set_dependency_ids [of t db "tr_id r"]
    by (simp add: open_deps_def filter_empty_conv)
  then show ?thesis using ts by (auto simp: debt_def filter_empty_conv)
qed

lemma made_simps [simp]:
  "tr_id (make_ready now r) = tr_id r" "tr_status (make_ready now r) = Ready"
  "tr_id (make_skipped now r) = tr_id r" "tr_status (make_skipped now r) = Skipped"
  by (simp_all add: make_ready_def make_skipped_def)

text \<open>The rows once the free tasks of \<open>ds\<close> have been dealt with, those of \<open>sk\<close> skipped.\<close>

definition outcome :: "instant \<Rightarrow> db \<Rightarrow> task_row \<Rightarrow> task_row" where
  "outcome now db r =
     (if some_dep_not_succeeded db (tr_id r) then make_skipped now r else make_ready now r)"

definition settled :: "instant \<Rightarrow> db \<Rightarrow> string set \<Rightarrow> string list \<Rightarrow> task_row \<Rightarrow> task_row" where
  "settled now db ds sk r =
     (if free_row r then (if tr_id r \<in> ds then outcome now db r else r)
      else if tr_status r = Pending then counted_by (debt db sk (tr_id r)) r
      else r)"

lemma settled_id [simp]: "tr_id (settled now db ds sk r) = tr_id r"
  by (simp add: settled_def outcome_def make_skipped_def make_ready_def)

lemma settled_over: "is_terminal (tr_status r) \<Longrightarrow> settled now db ds sk r = r"
  by (auto simp: settled_def free_row_def)

lemma settled_none: "settled now db {} [] r = r"
  by (simp add: settled_def)

lemma outcome_not_pending: "tr_status (outcome now db r) \<noteq> Pending"
  by (simp add: outcome_def make_skipped_def make_ready_def)

definition free_ids :: "db \<Rightarrow> string set" where
  "free_ids db = tr_id ` {r \<in> set (task_runs db). free_row r}"

definition skipped_ids :: "db \<Rightarrow> string list" where
  "skipped_ids db = map tr_id (filter (\<lambda>r. free_row r \<and> some_dep_not_succeeded db (tr_id r)) (task_runs db))"

text \<open>All the free tasks are of the default shape: the set-based pass sees each of them.\<close>

definition all_default :: "db \<Rightarrow> bool" where
  "all_default db =
     list_all (\<lambda>r. free_row r \<longrightarrow> default_shape r \<and> tr_fanout_of r = None) (task_runs db)"

lemma default_closed_form:
  assumes inv: "sched_inv db" and shape: "all_default db"
  shows "task_runs (fst (advance_default_shaped now db)) =
           map (settled now db (free_ids db) (skipped_ids db)) (task_runs db)"
    and "snd (advance_default_shaped now db) = length (filter free_row (task_runs db))"
proof -
  let ?rows = "task_runs db"
  define g where "g r = (if ready_default_where db r then make_ready now r else r)" for r
  let ?db1 = "upd (ready_default_where db) (make_ready now) db"
  have rows1: "task_runs ?db1 = map g ?rows" by (simp add: g_def [abs_def] update_where_def)
  have tab: "tables_ok db" using inv by (auto simp: sched_inv_def dest: inv_tables)
  have gid: "tr_id (g r) = tr_id r" for r by (simp add: g_def make_ready_def)
  have gover: "g r = r" if "tr_status r \<noteq> Pending" for r
    using that by (simp add: g_def ready_default_where_def default_shape_def)
  have fd: "default_shape r \<and> tr_fanout_of r = None \<longleftrightarrow> free_row r" if "r \<in> set ?rows" for r
    using that shape by (auto simp: all_default_def list_all_iff default_shape_def free_row_def)
  have dep: "some_dep_not_succeeded ?db1 (tr_id r) = some_dep_not_succeeded db (tr_id r)"
    if "r \<in> set ?rows" "free_row r" for r
  proof -
    have "dep_rows ?db1 (tr_id r) = dep_rows db (tr_id r)"
      using free_no_open [OF inv that] by (intro dep_rows_map [where g = g] rows1) (auto simp: gid intro!: gover)
    then show ?thesis by (simp add: some_dep_not_succeeded_def)
  qed
  have skip: "skip_default_where ?db1 (g r) \<longleftrightarrow> free_row r \<and> some_dep_not_succeeded db (tr_id r)"
    if "r \<in> set ?rows" for r
  proof (cases "free_row r")
    case True
    with that fd [OF that] dep [OF that True] show ?thesis
      by (auto simp: skip_default_where_def g_def ready_default_where_def default_shape_def make_ready_def)
  next
    case False
    with fd [OF that] that show ?thesis
      by (auto simp: skip_default_where_def g_def ready_default_where_def default_shape_def free_row_def)
  qed
  have ids: "map tr_id (filter (skip_default_where ?db1) (task_runs ?db1)) = skipped_ids db"
    unfolding rows1 filter_map comp_def skipped_ids_def map_map
    using skip by (auto simp: gid comp_def intro!: map_cong filter_cong)
  have opens: "open_id db t" if "t \<in> set (skipped_ids db)" for t
    using that open_id_row [OF tab] by (auto simp: skipped_ids_def free_row_def)
  define h where "h r = (if skip_default_where ?db1 (g r) then make_skipped now (g r) else g r)" for r
  have row: "(if tr_status (h r) = Pending then counted_by (debt db (skipped_ids db) (tr_id r)) (h r) else h r)
             = settled now db (free_ids db) (skipped_ids db) r" if r: "r \<in> set ?rows" for r
  proof (cases "free_row r")
    case True
    have "tr_id r \<in> free_ids db" using True r by (auto simp: free_ids_def)
    then show ?thesis
      using True fd [OF r] skip [OF r]
      by (cases "some_dep_not_succeeded db (tr_id r)")
        (simp_all add: settled_def outcome_def g_def ready_default_where_def h_def)
  next
    case False
    then have "\<not> ready_default_where db r" using fd [OF r] by (auto simp: ready_default_where_def)
    with False skip [OF r] show ?thesis by (auto simp: settled_def g_def h_def)
  qed
  have row': "tr_status (h r) = Pending \<longrightarrow> counted_by (debt db (skipped_ids db) (tr_id r)) (h r) = settled now db (free_ids db) (skipped_ids db) r"
    "tr_status (h r) \<noteq> Pending \<longrightarrow> h r = settled now db (free_ids db) (skipped_ids db) r" if "r \<in> set ?rows" for r
    using row [OF that] by (auto split: if_splits)
  let ?db2 = "upd (skip_default_where ?db1) (make_skipped now) ?db1"
  have rows2: "task_runs ?db2 = map h ?rows"
    by (simp only: upd_simps(1) [of "skip_default_where ?db1"] rows1) (simp add: update_where_def h_def)
  have hid: "tr_id (h r) = tr_id r" for r by (simp add: h_def gid make_skipped_def)
  have "task_runs (fst (advance_default_shaped now db)) =
      map (\<lambda>r. if tr_status r = Pending then counted_by (debt db (skipped_ids db) (tr_id r)) r else r) (map h ?rows)"
    by (simp only: advance_default_shaped_def Let_def ids decrement_all_runs rows2 fst_conv upd_edges)
  also have "\<dots> = map (settled now db (free_ids db) (skipped_ids db)) ?rows"
    using row' by (simp add: hid)
  finally show "task_runs (fst (advance_default_shaped now db)) = map (settled now db (free_ids db) (skipped_ids db)) ?rows" .
  have "filter (ready_default_where db) ?rows = filter (\<lambda>r. free_row r \<and> \<not> some_dep_not_succeeded db (tr_id r)) ?rows"
    using fd by (intro filter_cong) (auto simp: ready_default_where_def)
  moreover have "length (filter (\<lambda>r. free_row r \<and> \<not> s r) xs) + length (filter (\<lambda>r. free_row r \<and> s r) xs)
      = length (filter free_row xs)" for s xs
    by (induction xs) auto
  ultimately show "snd (advance_default_shaped now db) = length (filter free_row ?rows)"
    using arg_cong [OF ids, of length]
    by (simp add: advance_default_shaped_def Let_def aff_def rows_affected_def skipped_ids_def comp_def)
qed

text \<open>One step of the per-task pass on a task of the default shape, from a table in closed
  form to the next.\<close>

text \<open>\<open>serde_json\<close> finds a \<open>when\<close> only in a text with the key in it.\<close>

definition when_key_needed :: "(string \<Rightarrow> string option) \<Rightarrow> db \<Rightarrow> bool" where
  "when_key_needed when_of db =
     list_all (\<lambda>r. case tr_input r of None \<Rightarrow> True | Some i \<Rightarrow> when_of i = None \<or> mentions_when i) (task_runs db)"

definition at_stage :: "instant \<Rightarrow> db \<Rightarrow> string set \<Rightarrow> string list \<Rightarrow> db \<Rightarrow> bool" where
  "at_stage now db0 ds sk db =
     (task_runs db = map (settled now db0 ds sk) (task_runs db0) \<and> same_rest db db0
      \<and> (\<forall>t \<in> set sk. open_id db0 t))"

lemma exotic_default_one:
  assumes c: "default_shape c" "tr_fanout_of c = None"
    and w: "case tr_input c of None \<Rightarrow> True | Some i \<Rightarrow> when_of i = None \<or> mentions_when i"
  shows "exotic_one when_of now c db =
           (if some_dep_not_succeeded db (tr_id c) then end_pending (tr_id c) (make_skipped now) db
            else begin_pending (tr_id c) (make_ready now) db)"
proof -
  have "Option.bind (tr_input c) when_of = None"
    using c w by (auto simp: default_shape_def split: option.splits)
  then have gate: "when_gate when_of db c = Inr True" by (simp add: when_gate_def)
  have "trigger_rule_ready (tr_trigger_rule c) (map (\<lambda>d. task_status_str (tr_status d)) (dep_rows db (tr_id c)))
      \<longleftrightarrow> \<not> some_dep_not_succeeded db (tr_id c)"
    using trigger_rule_all_success [of "map tr_status (dep_rows db (tr_id c))"] c
    by (simp add: default_shape_def comp_def some_dep_not_succeeded_def list_all_iff list_ex_iff)
  with c show ?thesis by (simp add: exotic_one_def gate default_shape_def)
qed

lemma stage_step:
  assumes inv0: "sched_inv db0" and shape0: "all_default db0" and key0: "when_key_needed when_of db0"
    and st: "at_stage now db0 ds sk db"
    and c: "c \<in> set (task_runs db0)" "free_row c" "tr_id c \<notin> ds"
  shows "at_stage now db0 (insert (tr_id c) ds)
           (if some_dep_not_succeeded db0 (tr_id c) then tr_id c # sk else sk)
           (fst (exotic_one when_of now c db))"
    and "snd (exotic_one when_of now c db) = 1"
proof -
  let ?t = "tr_id c" and ?S = "settled now db0 ds sk" and ?rows = "task_runs db0"
  have tab0: "tables_ok db0" using inv0 by (auto simp: sched_inv_def dest: inv_tables)
  have rows: "task_runs db = map ?S ?rows" and deps: "task_deps db = task_deps db0"
    and rest: "same_rest db db0"
    using st by (simp_all add: at_stage_def same_rest_def)
  have shape: "default_shape c" "tr_fanout_of c = None"
    using shape0 c by (auto simp: all_default_def list_all_iff)
  have "dep_rows db ?t = dep_rows db0 ?t"
    using free_no_open [OF inv0 c(1,2)] by (intro dep_rows_map [OF rows deps]) (simp_all add: settled_over)
  then have one: "exotic_one when_of now c db =
      (if some_dep_not_succeeded db0 ?t then end_pending ?t (make_skipped now) db else begin_pending ?t (make_ready now) db)"
    using exotic_default_one [OF shape, of when_of now db] key0 c(1)
    by (simp add: some_dep_not_succeeded_def when_key_needed_def list_all_iff)
  have cc: "?S c = c" using c by (simp add: settled_def)
  have pend: "pending_id ?t (?S r) \<longleftrightarrow> r = c" if r: "r \<in> set ?rows" for r
    using r c(1,2) cc tab0 by (auto simp: pending_id_def free_row_def tables_ok_def dest: distinct_key_eq)
  have "filter (pending_id ?t) (task_runs db) = map ?S (filter (\<lambda>r. r = c) ?rows)"
    unfolding rows filter_map comp_def 
    by (rule arg_cong [where f = "map ?S"], rule filter_cong [OF refl]) (simp add: pend)
  moreover have "length (filter (\<lambda>r. r = c) ?rows) = 1"
  proof -
    have "distinct ?rows" using tab0 by (simp add: tables_ok_def distinct_map)
    then show ?thesis using c(1) by (rule distinct_filter_eq)
  qed
  ultimately have n: "aff (pending_id ?t) db = 1" by (simp add: aff_def rows_affected_def)
  show "snd (exotic_one when_of now c db) = 1"
    using n by (simp add: one Let_def end_pending_def begin_pending_def)
  have upd_rows: "task_runs (upd (pending_id ?t) f db) = map (\<lambda>r. if r = c then f c else ?S r) ?rows" for f
    using pend cc by (auto simp: rows update_where_def)
  have opn: "open_id db0 ?t" using c open_id_row [OF tab0 c(1)] by (simp add: free_row_def)
  show "at_stage now db0 (insert ?t ds) (if some_dep_not_succeeded db0 ?t then ?t # sk else sk)
          (fst (exotic_one when_of now c db))"
  proof (cases "some_dep_not_succeeded db0 ?t")
    case True
    have "settled now db0 (insert ?t ds) (?t # sk) r =
        (let q = (if r = c then make_skipped now c else ?S r)
         in if tr_status q = Pending then counted_by (debt db0 [?t] (tr_id q)) q else q)"
      if r: "r \<in> set ?rows" for r
    proof -
      have "debt db0 [?t] (tr_id r) = 0" if "free_row r"
        using free_owes_nothing [OF inv0 r that, of "[?t]"] opn by simp
      moreover have "tr_id r = ?t \<longleftrightarrow> r = c"
        using r c(1) tab0 by (auto simp: tables_ok_def dest: distinct_key_eq)
      ultimately show ?thesis
        using c True outcome_not_pending [of now db0 r]
        by (cases "free_row r"; cases "r = c"; cases "tr_id r \<in> ds")
          (simp_all add: settled_def outcome_def debt_Cons)
    qed
    moreover have "debt (upd (pending_id ?t) (make_skipped now) db) = debt db0"
      by (simp add: debt_def deps fun_eq_iff)
    ultimately have "task_runs (fst (exotic_one when_of now c db)) = map (settled now db0 (insert ?t ds) (?t # sk)) ?rows"
      using True n by (simp add: one end_pending_def Let_def decrement_runs_by upd_rows del: upd_simps(1))
    then show ?thesis
      using True rest st opn n by (simp add: at_stage_def one end_pending_def Let_def)
  next
    case False
    have "settled now db0 (insert ?t ds) sk r = (if r = c then make_ready now c else ?S r)"
      if r: "r \<in> set ?rows" for r
    proof -
      have "r = c" if "tr_id r = ?t"
        using that r c(1) tab0 by (auto simp: tables_ok_def dest: distinct_key_eq)
      then show ?thesis using c False by (auto simp: settled_def outcome_def)
    qed
    then have "task_runs (fst (exotic_one when_of now c db)) = map (settled now db0 (insert ?t ds) sk) ?rows"
      using False by (simp add: one begin_pending_def upd_rows del: upd_simps(1))
    then show ?thesis
      using False rest st by (simp add: at_stage_def one begin_pending_def)
  qed
qed

definition skips_in :: "db \<Rightarrow> task_row list \<Rightarrow> string list" where
  "skips_in db cs = map tr_id (filter (\<lambda>c. some_dep_not_succeeded db (tr_id c)) cs)"

lemma stage_loop:
  assumes inv0: "sched_inv db0" and shape0: "all_default db0" and key0: "when_key_needed when_of db0"
  shows "at_stage now db0 ds sk db \<Longrightarrow> set cs \<subseteq> {c \<in> set (task_runs db0). free_row c} \<Longrightarrow>
    distinct (map tr_id cs) \<Longrightarrow> tr_id ` set cs \<inter> ds = {} \<Longrightarrow>
    at_stage now db0 (tr_id ` set cs \<union> ds) (rev (skips_in db0 cs) @ sk) (fst (exotic_loop when_of (\<lambda>_. now) cs db))
    \<and> snd (exotic_loop when_of (\<lambda>_. now) cs db) = length cs"
proof (induction cs arbitrary: ds sk db)
  case Nil
  then show ?case by (simp add: skips_in_def)
next
  case (Cons c cs)
  let ?one = "exotic_one when_of now c db" and ?sk = "if some_dep_not_succeeded db0 (tr_id c) then tr_id c # sk else sk"
  have c: "c \<in> set (task_runs db0)" "free_row c" "tr_id c \<notin> ds" using Cons.prems by auto
  have "at_stage now db0 (insert (tr_id c) ds) ?sk (fst ?one)" "snd ?one = 1"
    using stage_step [OF inv0 shape0 key0 Cons.prems(1) c] by simp_all
  moreover have "set cs \<subseteq> {c \<in> set (task_runs db0). free_row c}" "distinct (map tr_id cs)"
    "tr_id ` set cs \<inter> insert (tr_id c) ds = {}"
    using Cons.prems by auto
  moreover have "rev (skips_in db0 (c # cs)) @ sk = rev (skips_in db0 cs) @ ?sk" by (simp add: skips_in_def)
  moreover have "tr_id ` set (c # cs) \<union> ds = tr_id ` set cs \<union> insert (tr_id c) ds" by auto
  ultimately show ?case
    using Cons.IH [of "insert (tr_id c) ds" ?sk "fst ?one"] by (simp add: Let_def case_prod_unfold)
qed

lemma debt_mset:
  assumes "mset A = mset B"
  shows "debt db A t = debt db B t"
proof -
  have "size (filter_mset (\<lambda>d. (t, d) \<in> set (task_deps db)) (mset A)) =
      size (filter_mset (\<lambda>d. (t, d) \<in> set (task_deps db)) (mset B))" using assms by simp
  then show ?thesis by (simp add: debt_def flip: mset_filter)
qed

text \<open>C24. The set-based pass is the per-task pass. On a table whose free tasks are all of the
  default shape, one pass of \<open>advance_default_shaped\<close> and one of \<open>advance_exotic_once\<close>, at
  the same instant, leave the same tables and report the same number of transitions: every
  free task is made ready or skipped, and every skip is counted down once at each dependent.
  The expression gate is read from a stored spec only where the text has the key.\<close>

theorem default_pass_is_exotic_pass:
  assumes inv: "sched_inv db" and shape: "all_default db" and key: "when_key_needed when_of db"
  shows "advance_exotic_once when_of (\<lambda>_. now) db = advance_default_shaped now db"
proof -
  let ?cs = "exotic_candidates db" and ?ex = "advance_exotic_once when_of (\<lambda>_. now) db"
    and ?de = "advance_default_shaped now db"
  have tab: "tables_ok db" using inv by (auto simp: sched_inv_def dest: inv_tables)
  have cand: "?cs = sort_key tr_id (filter free_row (task_runs db))"
    by (simp add: exotic_candidates_def free_row_def [abs_def])
  have "at_stage now db {} [] db" by (simp add: at_stage_def settled_none map_idI)
  moreover have "distinct (map tr_id ?cs)"
  proof -
    have "distinct (map tr_id (filter free_row (task_runs db)))"
      using tab by (simp add: tables_ok_def distinct_map_filter)
    moreover have "mset (map tr_id ?cs) = mset (map tr_id (filter free_row (task_runs db)))"
      by (simp add: cand)
    ultimately show ?thesis by (metis mset_eq_imp_distinct_iff)
  qed
  moreover have "set ?cs = {c \<in> set (task_runs db). free_row c}" by (auto simp: cand)
  ultimately have st: "at_stage now db (free_ids db) (rev (skips_in db ?cs)) (fst ?ex)"
    and n: "snd ?ex = length (filter free_row (task_runs db))"
    using stage_loop [OF inv shape key, of now "{}" "[]" db ?cs]
    by (auto simp: advance_exotic_once_def free_ids_def cand)
  have "mset (rev (skips_in db ?cs)) = mset (skipped_ids db)"
    by (simp add: skips_in_def skipped_ids_def cand filter_filter_mset)
  from debt_mset [OF this]
  have "settled now db (free_ids db) (rev (skips_in db ?cs)) = settled now db (free_ids db) (skipped_ids db)"
    by (intro ext) (simp add: settled_def)
  then have "task_runs (fst ?ex) = task_runs (fst ?de)"
    using st unfolding at_stage_def default_closed_form(1) [OF inv shape] by simp
  moreover have "same_rest (fst ?ex) db" "same_rest (fst ?de) db"
    using st by (simp_all add: at_stage_def advance_default_shaped_def Let_def)
  ultimately have "fst ?ex = fst ?de"
    unfolding same_rest_def by (intro db_eqI) (elim conjE, simp only:)+
  with n default_closed_form(2) [OF inv shape, of now] show ?thesis by (metis prod.collapse)
qed

theorem default_pass_is_exotic_pass_witness:
  "advance_exotic_once (\<lambda>_. None) (\<lambda>_. 7) fan_in = advance_default_shaped 7 fan_in"
proof -
  have "all_default fan_in" by code_simp
  moreover have "when_key_needed (\<lambda>_. None) fan_in"
    by (simp add: when_key_needed_def list_all_iff split: option.split)
  ultimately show ?thesis using fan_in_inv by (intro default_pass_is_exotic_pass)
qed

theorem advance_keeps_counters_witness:
  "sched_inv (fst (advance_ready_tasks (\<lambda>_. None) (\<lambda>_ _. 7) fan_in))"
  using advance_keeps_counters [OF fan_in_inv] by simp

subsection \<open>Progress\<close>

definition left :: "string \<Rightarrow> db \<Rightarrow> bool" where
  "left t db = list_all (\<lambda>r. \<not> pending_id t r) (task_runs db)"

definition leaving :: "(task_row \<Rightarrow> task_row) \<Rightarrow> bool" where
  "leaving f = (\<forall>r. tr_id (f r) = tr_id r \<and> tr_status (f r) \<noteq> Pending)"

lemma leaving_made [simp]:
  "leaving (make_ready now)" "leaving (make_skipped now)" "leaving (fail_when msg now)"
  "leaving (park_barrier now)" "leaving (await_approval now)"
  by (simp_all add: leaving_def advance_stmts)

lemma left_upd: "leaving f \<Longrightarrow> left t db \<Longrightarrow> left t (upd p f db)"
  by (auto simp: left_def leaving_def list_all_iff pending_id_def elim!: in_update_whereE split: if_splits)

lemma left_now: "leaving f \<Longrightarrow> left t (upd (pending_id t) f db)"
  by (auto simp: left_def leaving_def list_all_iff pending_id_def elim!: in_update_whereE split: if_splits)

lemma left_decrement: "left t db \<Longrightarrow> left t (decrement_dependents u db)"
  by (auto simp: left_def list_all_iff pending_id_def elim!: decrement_row split: if_splits)

lemma left_decrement_all: "left t db \<Longrightarrow> left t (decrement_all us db)"
  by (induction us arbitrary: db) (simp_all add: left_decrement)

lemma left_end: "leaving f \<Longrightarrow> left t db \<or> t = u \<Longrightarrow> left t (fst (end_pending u f db))"
  by (auto simp: end_pending_def Let_def intro: left_decrement left_upd left_now)

lemma left_begin: "leaving f \<Longrightarrow> left t db \<or> t = u \<Longrightarrow> left t (fst (begin_pending u f db))"
  by (auto simp: begin_pending_def intro: left_upd left_now)

lemma left_exotic_one: "left t db \<or> t = tr_id c \<Longrightarrow> left t (fst (exotic_one when_of now c db))"
  by (simp add: exotic_one_def Let_def left_end left_begin split: sum.split)

lemma left_exotic_loop:
  "left t db \<or> t \<in> tr_id ` set cs \<Longrightarrow> left t (fst (exotic_loop when_of clock cs db))"
proof (induction cs arbitrary: db)
  case (Cons c cs)
  then have "left t (fst (exotic_one when_of (clock (tr_id c)) c db)) \<or> t \<in> tr_id ` set cs"
    using left_exotic_one [of t db c when_of "clock (tr_id c)"] by auto
  from Cons.IH [OF this] show ?case by (simp add: Let_def case_prod_unfold)
qed simp

lemma left_default: "left t db \<Longrightarrow> left t (fst (advance_default_shaped now db))"
  by (simp add: advance_default_shaped_def Let_def left_decrement_all left_upd)

lemma left_rounds: "left t db \<Longrightarrow> left t (fst (advance_rounds when_of clock k db))"
proof (induction k arbitrary: db)
  case (Suc k)
  have "left t (fst (advance_exotic_once when_of (\<lambda>t. clock k (Some t)) (fst (advance_default_shaped (clock k None) db))))"
    unfolding advance_exotic_once_def by (intro left_exotic_loop disjI1 left_default Suc.prems)
  with Suc show ?case by (simp add: Let_def case_prod_unfold)
qed simp

lemma left_after_round:
  assumes r: "r \<in> set (task_runs db)" "free_row r"
    and passed: "left t (fst (advance_exotic_once when_of (\<lambda>t. clock k (Some t)) (fst (advance_default_shaped (clock k None) db))))"
  shows "left t (fst (advance_rounds when_of clock (Suc k) db))"
proof -
  have "list_ex (\<lambda>r. tr_status r = Pending \<and> tr_remaining_deps r = 0) (task_runs db)"
    using r by (auto simp: list_ex_iff free_row_def)
  then show ?thesis using left_rounds [OF passed] passed by (simp add: Let_def case_prod_unfold)
qed

lemma decrement_all_free: "free_to_go db t \<Longrightarrow> free_to_go (decrement_all us db) t"
  by (induction us arbitrary: db) (simp_all add: decrement_free)

text \<open>A free task is a candidate of the second pass unless the first has dealt with it.\<close>

lemma default_then_candidate:
  assumes inv: "sched_inv db" and r: "r \<in> set (task_runs db)" "free_row r"
  shows "left (tr_id r) (fst (advance_default_shaped now db))
    \<or> tr_id r \<in> tr_id ` set (exotic_candidates (fst (advance_default_shaped now db)))"
proof (rule disjCI)
  let ?db1 = "fst (advance_default_shaped now db)" and ?t = "tr_id r"
  have tab: "tables_ok db" using inv by (auto simp: sched_inv_def dest: inv_tables)
  have "free_to_go db ?t"
    using r tab distinct_key_eq [of tr_id "task_runs db"]
    by (fastforce simp: free_to_go_def list_all_iff pending_id_def free_row_def tables_ok_def)
  then have "free_to_go (upd (ready_default_where db) (make_ready now) db) ?t"
    by (rule ready_stmt.free_kept [OF tab])
  then have "free_to_go (upd p (make_skipped now) (upd (ready_default_where db) (make_ready now) db)) ?t"
    if "p = skip_default_where (upd (ready_default_where db) (make_ready now) db)" for p
    unfolding that by (rule skip_stmt.free_kept [OF ready_stmt.tables_kept [OF tab]])
  then have free1: "free_to_go ?db1 ?t"
    by (simp add: advance_default_shaped_def Let_def decrement_all_free)
  assume none: "?t \<notin> tr_id ` set (exotic_candidates ?db1)"
  have inv1: "sched_inv_debt [] ?db1" using advance_default_inv [OF inv] by (simp add: sched_inv_def)
  show "left ?t ?db1"
    unfolding left_def list_all_iff
  proof
    fix q assume q: "q \<in> set (task_runs ?db1)"
    show "\<not> pending_id ?t q"
    proof
      assume p: "pending_id ?t q"
      then have "0 \<le> tr_remaining_deps q" using no_negative_counter [OF inv1 q] by (simp add: pending_id_def)
      moreover have "tr_remaining_deps q \<le> 0" using free1 q p by (simp add: free_to_go_def list_all_iff)
      ultimately have "q \<in> set (exotic_candidates ?db1)"
        using q p by (simp add: exotic_candidates_def pending_id_def)
      then have "tr_id q \<in> tr_id ` set (exotic_candidates ?db1)" by (rule imageI)
      with none p show False by (simp add: pending_id_def)
    qed
  qed
qed

text \<open>C25. No task is left behind: whatever its shape, a task whose counter is down when the
  advance is called has left \<open>pending\<close> when it returns.\<close>

theorem free_task_leaves_pending:
  assumes inv: "sched_inv db"
    and r: "r \<in> set (task_runs db)" "tr_status r = Pending" "tr_remaining_deps r = 0"
    and r': "r' \<in> set (task_runs (fst (advance_ready_tasks when_of clock db)))" "tr_id r' = tr_id r"
  shows "tr_status r' \<noteq> Pending"
proof -
  have free: "free_row r" using r by (simp add: free_row_def)
  have "(64::nat) = Suc 63" by simp
  then have "left (tr_id r) (fst (advance_ready_tasks when_of clock db))"
    unfolding advance_ready_tasks_def
    by (metis left_after_round [OF r(1) free] advance_exotic_once_def left_exotic_loop default_then_candidate [OF inv r(1) free])
  with r' show ?thesis by (auto simp: left_def list_all_iff pending_id_def)
qed

theorem free_task_leaves_pending_witness:
  "list_all (\<lambda>r. tr_status r \<noteq> Pending)
     (filter (\<lambda>r. tr_id r = ''d'') (task_runs (fst (advance_ready_tasks (\<lambda>_. None) (\<lambda>_ _. 7) fan_in))))"
proof -
  have "example_task ''d'' Pending 0 \<in> set (task_runs fan_in)" by (simp add: fan_in_def example_db_def)
  then show ?thesis
    using free_task_leaves_pending [OF fan_in_inv, of "example_task ''d'' Pending 0"]
    by (auto simp: list_all_iff example_task_def)
qed

end
