(* ===== verification/Claim.thy ===== *)
theory Claim
  imports Contracts Example_Tables "HOL-Library.Multiset" "HOL-Library.Product_Lexorder" "HOL-Library.Option_ord"
begin

text \<open>
  How a worker takes ready tasks (\<open>db/sqlite.rs\<close>: \<open>claim_ready\<close>, \<open>claim_ready_classes\<close>,
  \<open>claim_ready_filtered\<close>, \<open>claim_ready_gang\<close>): by runner class, under the caps of the pools,
  each row by a compare-and-swap on its version, a gang all at once.

  \<open>now\<close> is the instant the transaction reads and \<open>lease\<close> the length of a lease in seconds.
  SQL leaves the order of equal sort keys open; the model takes the order of the table.
\<close>

subsection \<open>What may be claimed\<close>

definition class_set :: "string list \<Rightarrow> string" where
  "class_set classes = (if classes = [] then [] else '','' @ join '','' classes @ '','')"

definition class_allowed :: "string \<Rightarrow> task_row \<Rightarrow> bool" where
  "class_allowed cset r = (cset = [] \<or> contains cset ('','' @ tr_runner_class r @ '',''))"

definition is_due :: "instant \<Rightarrow> task_row \<Rightarrow> bool" where
  "is_due now r = (case tr_scheduled_at r of None \<Rightarrow> True | Some s \<Rightarrow> s \<le> now)"

definition pool_open :: "string \<Rightarrow> task_row \<Rightarrow> bool" where
  "pool_open exhausted r =
     (exhausted = [] \<or>
      (case tr_pool r of None \<Rightarrow> True | Some p \<Rightarrow> \<not> contains exhausted ('','' @ p @ '','')))"

text \<open>SQL's \<open>LIMIT\<close>: a negative one is none.\<close>

definition limit_rows :: "int \<Rightarrow> 'a list \<Rightarrow> 'a list" where
  "limit_rows n rows = (if n < 0 then rows else take (nat n) rows)"

definition ready_where :: "instant \<Rightarrow> string \<Rightarrow> string \<Rightarrow> bool \<Rightarrow> task_row \<Rightarrow> bool" where
  "ready_where now cset exhausted exclude_gangs r =
     (tr_status r = Ready \<and> is_due now r \<and> class_allowed cset r \<and> pool_open exhausted r
      \<and> (exclude_gangs \<longrightarrow> tr_gang_id r = None))"

definition ready_candidates :: "instant \<Rightarrow> string \<Rightarrow> int \<Rightarrow> string \<Rightarrow> bool \<Rightarrow> db \<Rightarrow> task_row list" where
  "ready_candidates now cset n exhausted exclude_gangs db =
     limit_rows n
       (sort_key (\<lambda>r. (- tr_priority r, tr_scheduled_at r))
         (filter (ready_where now cset exhausted exclude_gangs) (task_runs db)))"

subsection \<open>Pools\<close>

definition occupies_pool :: "string \<Rightarrow> task_row \<Rightarrow> bool" where
  "occupies_pool p r =
     (tr_status r = Running \<and> tr_pool r = Some p
      \<and> tr_wake_at r = None \<and> tr_wait_url r = None \<and> tr_wait_dataset r = None
      \<and> tr_sub_run_id r = None \<and> tr_fanout_of r = None)"

definition pool_running :: "db \<Rightarrow> string \<Rightarrow> int" where
  "pool_running db p = int (aff (occupies_pool p) db)"

type_synonym pool_caps = "(string \<times> int) list"

definition pool_remaining :: "db \<Rightarrow> string \<times> int \<Rightarrow> int" where
  "pool_remaining db pc = max 0 (snd pc - pool_running db (fst pc))"

definition pool_avail :: "db \<Rightarrow> pool_caps \<Rightarrow> string \<Rightarrow> int option" where
  "pool_avail db caps = map_of (map (\<lambda>pc. (fst pc, pool_remaining db pc)) caps)"

definition exhausted_set :: "db \<Rightarrow> pool_caps \<Rightarrow> string" where
  "exhausted_set db caps =
     (let ex = map fst (filter (\<lambda>pc. pool_remaining db pc = 0) caps)
      in if ex = [] then [] else '','' @ join '','' ex @ '','')"

subsection \<open>The claim\<close>

definition claim_where :: "task_row \<Rightarrow> task_row \<Rightarrow> bool" where
  "claim_where c r = (tr_id r = tr_id c \<and> tr_status r = Ready \<and> tr_version r = tr_version c)"

definition claim_set :: "string \<Rightarrow> instant \<Rightarrow> task_row \<Rightarrow> task_row" where
  "claim_set worker lease_exp r =
     r\<lparr>tr_status := Running, tr_claimed_by := Some worker, tr_lease_expires_at := Some lease_exp,
       tr_attempt := tr_attempt r + 1, tr_log := None, tr_log_fence := None, tr_log_gen := None,
       tr_version := tr_version r + 1, tr_session_id := None\<rparr>"

definition pool_full :: "(string \<Rightarrow> int option) \<Rightarrow> task_row \<Rightarrow> bool" where
  "pool_full avail c =
     (case tr_pool c of None \<Rightarrow> False | Some p \<Rightarrow> (case avail p of None \<Rightarrow> False | Some n \<Rightarrow> n \<le> 0))"

definition take_slot :: "task_row \<Rightarrow> (string \<Rightarrow> int option) \<Rightarrow> string \<Rightarrow> int option" where
  "take_slot c avail =
     (case tr_pool c of
        None \<Rightarrow> avail
      | Some p \<Rightarrow> (case avail p of None \<Rightarrow> avail | Some n \<Rightarrow> avail(p \<mapsto> n - 1)))"

fun claim_loop ::
  "string \<Rightarrow> instant \<Rightarrow> (string \<Rightarrow> int option) \<Rightarrow> task_row list \<Rightarrow> db \<Rightarrow> db \<times> task_row list" where
  "claim_loop worker lease_exp avail [] db = (db, [])"
| "claim_loop worker lease_exp avail (c # cs) db =
     (if pool_full avail c then claim_loop worker lease_exp avail cs db
      else if aff (claim_where c) db > 0 then
        (let (db', claimed) =
               claim_loop worker lease_exp (take_slot c avail) cs (upd (claim_where c) (claim_set worker lease_exp) db)
         in (db', c # claimed))
      else claim_loop worker lease_exp avail cs db)"

definition claim_ready_filtered ::
  "instant \<Rightarrow> int \<Rightarrow> string \<Rightarrow> int \<Rightarrow> string list \<Rightarrow> pool_caps \<Rightarrow> bool \<Rightarrow> db \<Rightarrow> db \<times> task_row list" where
  "claim_ready_filtered now lease worker n classes caps exclude_gangs db =
     claim_loop worker (plus_secs now lease) (pool_avail db caps)
       (ready_candidates now (class_set classes) n (exhausted_set db caps) exclude_gangs db) db"

definition claim_ready_classes ::
  "instant \<Rightarrow> int \<Rightarrow> string \<Rightarrow> int \<Rightarrow> string list \<Rightarrow> pool_caps \<Rightarrow> db \<Rightarrow> db \<times> task_row list" where
  "claim_ready_classes now lease worker n classes caps db =
     claim_ready_filtered now lease worker n classes caps False db"

definition claim_ready_classes_nongang ::
  "instant \<Rightarrow> int \<Rightarrow> string \<Rightarrow> int \<Rightarrow> string list \<Rightarrow> pool_caps \<Rightarrow> db \<Rightarrow> db \<times> task_row list" where
  "claim_ready_classes_nongang now lease worker n classes caps db =
     claim_ready_filtered now lease worker n classes caps True db"

definition claim_ready :: "instant \<Rightarrow> int \<Rightarrow> string \<Rightarrow> int \<Rightarrow> db \<Rightarrow> db \<times> task_row list" where
  "claim_ready now lease worker n db = claim_ready_classes now lease worker n [] [] db"

subsection \<open>Gangs\<close>

type_synonym gang_key = "string \<times> int \<times> string option"

definition gang_eligible :: "instant \<Rightarrow> string \<Rightarrow> task_row \<Rightarrow> bool" where
  "gang_eligible now cset r =
     (tr_status r = Ready \<and> tr_gang_id r \<noteq> None \<and> is_due now r \<and> class_allowed cset r)"

fun gang_key_of :: "task_row \<Rightarrow> gang_key option" where
  "gang_key_of r =
     (case (tr_gang_id r, tr_gang_size r) of (Some g, Some n) \<Rightarrow> Some (g, n, tr_pool r) | _ \<Rightarrow> None)"

definition gang_rows :: "instant \<Rightarrow> string \<Rightarrow> db \<Rightarrow> gang_key \<Rightarrow> task_row list" where
  "gang_rows now cset db k = filter (\<lambda>r. gang_eligible now cset r \<and> gang_key_of r = Some k) (task_runs db)"

text \<open>\<open>MIN\<close> over the times that are not null.\<close>

definition min_scheduled :: "task_row list \<Rightarrow> instant option" where
  "min_scheduled rows =
     (case List.map_filter tr_scheduled_at rows of [] \<Rightarrow> None | t # ts \<Rightarrow> Some (fold min ts t))"

definition max_priority :: "task_row list \<Rightarrow> int" where
  "max_priority rows = (case map tr_priority rows of [] \<Rightarrow> 0 | p # ps \<Rightarrow> fold max ps p)"

definition gang_candidates :: "instant \<Rightarrow> string \<Rightarrow> int \<Rightarrow> db \<Rightarrow> gang_key list" where
  "gang_candidates now cset capacity db =
     sort_key (\<lambda>k. (- max_priority (gang_rows now cset db k), min_scheduled (gang_rows now cset db k)))
       (filter (\<lambda>k. int (length (gang_rows now cset db k)) = fst (snd k) \<and> fst (snd k) \<le> capacity)
         (remdups (List.map_filter gang_key_of (filter (gang_eligible now cset) (task_runs db)))))"

definition gang_seated :: "db \<Rightarrow> pool_caps \<Rightarrow> gang_key \<Rightarrow> bool" where
  "gang_seated db caps k =
     (case snd (snd k) of
        None \<Rightarrow> True
      | Some p \<Rightarrow>
          (case map_of caps p of
             None \<Rightarrow> True
           | Some cap \<Rightarrow> \<not> max 0 (cap - pool_running db p) < fst (snd k)))"

definition gang_where :: "string \<Rightarrow> task_row \<Rightarrow> bool" where
  "gang_where g r = (tr_gang_id r = Some g \<and> tr_status r = Ready)"

text \<open>\<open>RETURNING\<close> gives the rows as updated, but for the attempt and version they had.\<close>

definition claimed_view :: "string \<Rightarrow> instant \<Rightarrow> task_row \<Rightarrow> task_row" where
  "claimed_view worker lease_exp r =
     (claim_set worker lease_exp r)\<lparr>tr_attempt := tr_attempt r, tr_version := tr_version r\<rparr>"

definition claim_ready_gang ::
  "instant \<Rightarrow> int \<Rightarrow> string \<Rightarrow> int \<Rightarrow> string list \<Rightarrow> pool_caps \<Rightarrow> db \<Rightarrow> db \<times> task_row list" where
  "claim_ready_gang now lease worker capacity classes caps db =
     (if capacity < 2 then (db, [])
      else case find (gang_seated db caps) (gang_candidates now (class_set classes) capacity db) of
        None \<Rightarrow> (db, [])
      | Some k \<Rightarrow>
          (upd (gang_where (fst k)) (claim_set worker (plus_secs now lease)) db,
           map (claimed_view worker (plus_secs now lease)) (filter (gang_where (fst k)) (task_runs db))))"

definition oversized_ready_gangs :: "int \<Rightarrow> db \<Rightarrow> (string \<times> int) list" where
  "oversized_ready_gangs max_size db =
     remdups (List.map_filter
       (\<lambda>r. case (tr_gang_id r, tr_gang_size r) of
              (Some g, Some n) \<Rightarrow> if tr_status r = Ready \<and> n > max_size then Some (g, n) else None
            | _ \<Rightarrow> None) (task_runs db))"

subsection \<open>The statements meet their contracts\<close>

lemmas claim_stmts = claim_where_def claim_set_def gang_where_def

interpretation claim_stmt: quiet_update "claim_where c" "claim_set worker lease_exp" for c worker lease_exp
  by unfold_locales (auto simp: claim_stmts row_ok_def no_park_def has_started_def)

interpretation gang_stmt: quiet_update "gang_where g" "claim_set worker lease_exp" for g worker lease_exp
  by unfold_locales (auto simp: claim_stmts row_ok_def no_park_def has_started_def)

lemma claim_loop_from:
  "inv_from db0 D db \<Longrightarrow> inv_from db0 D (fst (claim_loop worker lease_exp avail cs db))"
  by (induction worker lease_exp avail cs db rule: claim_loop.induct)
    (auto simp: Let_def case_prod_unfold claim_stmt.from_kept)

lemma claim_loop_exact:
  "tables_ok db \<Longrightarrow> counter_exact_debt D db \<Longrightarrow>
     counter_exact_debt D (fst (claim_loop worker lease_exp avail cs db))"
  by (induction worker lease_exp avail cs db rule: claim_loop.induct)
    (auto simp: Let_def case_prod_unfold claim_stmt.exact_kept claim_stmt.tables_kept simp del: upd_simps)

lemma claim_filtered_from:
  "inv_from db0 D db \<Longrightarrow> inv_from db0 D (fst (claim_ready_filtered now lease w n cl caps ex db))"
  by (simp add: claim_ready_filtered_def claim_loop_from)

lemma claim_gang_from: "inv_from db0 D db \<Longrightarrow> inv_from db0 D (fst (claim_ready_gang now lease w n cl caps db))"
  by (simp add: claim_ready_gang_def gang_stmt.from_kept split: option.split)

subsection \<open>What a claim does\<close>

lemma claim_set_simps [simp]:
  "tr_id (claim_set w l r) = tr_id r" "tr_status (claim_set w l r) = Running"
  "tr_pool (claim_set w l r) = tr_pool r" "tr_version (claim_set w l r) = tr_version r + 1"
  "tr_attempt (claim_set w l r) = tr_attempt r + 1" "tr_claimed_by (claim_set w l r) = Some w"
  "tr_lease_expires_at (claim_set w l r) = Some l"
  "tr_gang_id (claim_set w l r) = tr_gang_id r"
  by (simp_all add: claim_set_def)

definition claimed_rows :: "string \<Rightarrow> instant \<Rightarrow> string set \<Rightarrow> task_row list \<Rightarrow> task_row list" where
  "claimed_rows w l ids rows = update_where (\<lambda>r. tr_id r \<in> ids) (claim_set w l) rows"

lemma claimed_rows_one:
  assumes dist: "distinct (map tr_id rows)" and c: "c \<in> set rows" "tr_status c = Ready" "tr_id c \<notin> ids"
  shows "update_where (claim_where c) (claim_set w l) (claimed_rows w l ids rows)
           = claimed_rows w l (insert (tr_id c) ids) rows"
    and "0 < rows_affected (claim_where c) (claimed_rows w l ids rows)"
proof -
  have key: "tr_id r = tr_id c \<longleftrightarrow> r = c" if "r \<in> set rows" for r
    using that c dist by (auto dest: distinct_key_eq)
  show "update_where (claim_where c) (claim_set w l) (claimed_rows w l ids rows)
      = claimed_rows w l (insert (tr_id c) ids) rows"
    unfolding claimed_rows_def update_where_def map_map
  proof (rule map_cong [OF refl])
    fix r assume "r \<in> set rows"
    then show "((\<lambda>r. if claim_where c r then claim_set w l r else r) \<circ> (\<lambda>r. if tr_id r \<in> ids then claim_set w l r else r)) r
        = (if tr_id r \<in> insert (tr_id c) ids then claim_set w l r else r)"
      using key c by (cases "r = c"; cases "tr_id r \<in> ids") (simp_all add: claim_where_def)
  qed
  have "claim_where c c" using c by (simp add: claim_where_def)
  moreover have "c \<in> set (claimed_rows w l ids rows)"
    using c by (force simp: claimed_rows_def set_update_where)
  ultimately show "0 < rows_affected (claim_where c) (claimed_rows w l ids rows)"
    by (auto simp: rows_affected_pos)
qed

lemma claim_loop_form:
  assumes dist: "distinct (map tr_id rows)"
  shows "task_runs db = claimed_rows w l ids rows \<Longrightarrow>
    set cs \<subseteq> {c \<in> set rows. tr_status c = Ready} \<Longrightarrow> distinct (map tr_id cs) \<Longrightarrow> tr_id ` set cs \<inter> ids = {} \<Longrightarrow>
    (\<exists>claimed. claim_loop w l avail cs db = (db\<lparr>task_runs := claimed_rows w l (tr_id ` set claimed \<union> ids) rows\<rparr>, claimed)
       \<and> set claimed \<subseteq> set cs \<and> distinct (map tr_id claimed) \<and> length claimed \<le> length cs
       \<and> (avail = Map.empty \<longrightarrow> claimed = cs))"
proof (induction cs arbitrary: db ids avail)
  case Nil
  then show ?case by simp
next
  case (Cons c cs)
  show ?case
  proof (cases "pool_full avail c")
    case True
    have "\<not> pool_full Map.empty c" by (simp add: pool_full_def split: option.split)
    with True have "avail \<noteq> Map.empty" by auto
    moreover have "set cs \<subseteq> {c \<in> set rows. tr_status c = Ready}" "distinct (map tr_id cs)"
      "tr_id ` set cs \<inter> ids = {}"
      using Cons.prems by auto
    from Cons.IH [OF Cons.prems(1) this, of avail] obtain claimed where "claim_loop w l avail cs db =
        (db\<lparr>task_runs := claimed_rows w l (tr_id ` set claimed \<union> ids) rows\<rparr>, claimed)"
      "set claimed \<subseteq> set cs" "distinct (map tr_id claimed)" "length claimed \<le> length cs"
      by blast
    ultimately show ?thesis using True by (intro exI [of _ claimed]) auto
  next
    case False
    have c: "c \<in> set rows" "tr_status c = Ready" "tr_id c \<notin> ids" using Cons.prems by auto
    let ?db1 = "upd (claim_where c) (claim_set w l) db"
    have hit: "0 < aff (claim_where c) db"
      using claimed_rows_one(2) [OF dist c] by (simp add: aff_def Cons.prems(1))
    have rows1: "task_runs ?db1 = claimed_rows w l (insert (tr_id c) ids) rows"
      using claimed_rows_one(1) [OF dist c] by (simp add: Cons.prems(1))
    have "set cs \<subseteq> {c \<in> set rows. tr_status c = Ready}" "distinct (map tr_id cs)"
      "tr_id ` set cs \<inter> insert (tr_id c) ids = {}"
      using Cons.prems by auto
    from Cons.IH [OF rows1 this, of "take_slot c avail"] obtain claimed where IH:
      "claim_loop w l (take_slot c avail) cs ?db1 =
         (?db1\<lparr>task_runs := claimed_rows w l (tr_id ` set claimed \<union> insert (tr_id c) ids) rows\<rparr>, claimed)"
      "set claimed \<subseteq> set cs" "distinct (map tr_id claimed)" "length claimed \<le> length cs"
      "take_slot c avail = Map.empty \<longrightarrow> claimed = cs"
      by blast
    have "take_slot c Map.empty = Map.empty" by (simp add: take_slot_def split: option.split)
    moreover have "tr_id c \<notin> tr_id ` set claimed" using Cons.prems(3) IH(2) by auto
    moreover have "tr_id ` set claimed \<union> insert (tr_id c) ids = tr_id ` set (c # claimed) \<union> ids" by auto
    moreover have "?db1\<lparr>task_runs := x\<rparr> = db\<lparr>task_runs := x\<rparr>" for x by (simp add: upd_def)
    ultimately show ?thesis using False hit IH
      by (intro exI [of _ "c # claimed"]) auto
  qed
qed

lemma set_limit_rows: "set (limit_rows n xs) \<subseteq> set xs"
  by (auto simp: limit_rows_def dest: in_set_takeD)

lemma ready_candidates_props:
  assumes "distinct (map tr_id (task_runs db))"
  shows "set (ready_candidates now cset n exh ex db) \<subseteq> {r \<in> set (task_runs db). ready_where now cset exh ex r}"
    and "distinct (map tr_id (ready_candidates now cset n exh ex db))"
    and "0 \<le> n \<Longrightarrow> int (length (ready_candidates now cset n exh ex db)) \<le> n"
proof -
  let ?f = "filter (ready_where now cset exh ex) (task_runs db)"
  let ?s = "sort_key (\<lambda>r. (- tr_priority r, tr_scheduled_at r)) ?f"
  show "set (ready_candidates now cset n exh ex db) \<subseteq> {r \<in> set (task_runs db). ready_where now cset exh ex r}"
    using set_limit_rows [of n ?s] by (auto simp: ready_candidates_def)
  have "distinct (map tr_id ?f)" using assms by (rule distinct_map_filter)
  moreover have "mset (map tr_id ?s) = mset (map tr_id ?f)" by simp
  ultimately have "distinct (map tr_id ?s)" by (metis mset_eq_imp_distinct_iff)
  then show "distinct (map tr_id (ready_candidates now cset n exh ex db))"
    by (simp add: ready_candidates_def limit_rows_def take_map [symmetric])
  show "0 \<le> n \<Longrightarrow> int (length (ready_candidates now cset n exh ex db)) \<le> n"
    by (simp add: ready_candidates_def limit_rows_def)
qed

lemma claim_filtered_form:
  assumes "distinct (map tr_id (task_runs db))"
  obtains claimed where
    "claim_ready_filtered now lease w n cl caps ex db =
       (db\<lparr>task_runs := claimed_rows w (plus_secs now lease) (tr_id ` set claimed) (task_runs db)\<rparr>, claimed)"
    "set claimed \<subseteq> {r \<in> set (task_runs db). ready_where now (class_set cl) (exhausted_set db caps) ex r}"
    "distinct (map tr_id claimed)" "0 \<le> n \<Longrightarrow> int (length claimed) \<le> n"
    "caps = [] \<Longrightarrow> claimed = ready_candidates now (class_set cl) n (exhausted_set db caps) ex db"
proof -
  let ?cs = "ready_candidates now (class_set cl) n (exhausted_set db caps) ex db"
  have start: "task_runs db = claimed_rows w (plus_secs now lease) {} (task_runs db)"
    by (simp add: claimed_rows_def update_where_none)
  have "set ?cs \<subseteq> {c \<in> set (task_runs db). tr_status c = Ready}"
    using ready_candidates_props(1) [OF assms] by (force simp: ready_where_def)
  from claim_loop_form [OF assms start this ready_candidates_props(2) [OF assms]]
  obtain claimed where c: "claim_loop w (plus_secs now lease) (pool_avail db caps) ?cs db =
      (db\<lparr>task_runs := claimed_rows w (plus_secs now lease) (tr_id ` set claimed) (task_runs db)\<rparr>, claimed)"
    "set claimed \<subseteq> set ?cs" "distinct (map tr_id claimed)" "length claimed \<le> length ?cs"
    "pool_avail db caps = Map.empty \<longrightarrow> claimed = ?cs"
    by (metis Un_empty_right inf_bot_right)
  show thesis
  proof (rule that)
    show "claim_ready_filtered now lease w n cl caps ex db =
       (db\<lparr>task_runs := claimed_rows w (plus_secs now lease) (tr_id ` set claimed) (task_runs db)\<rparr>, claimed)"
      using c(1) by (simp add: claim_ready_filtered_def)
    show "set claimed \<subseteq> {r \<in> set (task_runs db). ready_where now (class_set cl) (exhausted_set db caps) ex r}"
      using c(2) ready_candidates_props(1) [OF assms] by blast
    show "0 \<le> n \<Longrightarrow> int (length claimed) \<le> n"
      using c(4) ready_candidates_props(3) [OF assms, of n now "class_set cl" "exhausted_set db caps" ex] by linarith
    show "caps = [] \<Longrightarrow> claimed = ?cs" using c(5) by (simp add: pool_avail_def)
  qed (rule c(3))
qed

subsection \<open>Properties\<close>

text \<open>C26. A claim hands out only tasks that were ready, due, of a class the worker serves and in
  no exhausted pool, none twice and no more than its limit, and changes nothing but their
  rows: each becomes running under the worker with a fresh lease, one attempt and one version
  later. Without pool caps it takes every candidate: the compare-and-swap never misses inside
  the transaction.\<close>

theorem claim_takes_ready_tasks:
  assumes ok: "tables_ok db"
    and claim: "claim_ready_filtered now lease w n classes caps ex db = (db', claimed)"
  shows "list_all (\<lambda>c. c \<in> set (task_runs db)
             \<and> ready_where now (class_set classes) (exhausted_set db caps) ex c) claimed
    \<and> distinct (map tr_id claimed) \<and> (0 \<le> n \<longrightarrow> int (length claimed) \<le> n)
    \<and> db' = db\<lparr>task_runs := update_where (\<lambda>r. tr_id r \<in> tr_id ` set claimed)
                              (claim_set w (plus_secs now lease)) (task_runs db)\<rparr>
    \<and> (caps = [] \<longrightarrow> claimed = ready_candidates now (class_set classes) n (exhausted_set db caps) ex db)"
proof -
  have d: "distinct (map tr_id (task_runs db))" using ok by (simp add: tables_ok_def)
  show ?thesis
    by (rule claim_filtered_form [OF d, of now lease w n classes caps ex])
      (use claim in \<open>auto simp: claimed_rows_def list_all_iff\<close>)
qed

theorem claim_takes_ready_tasks_witness:
  "map tr_id (snd (claim_ready 10 5 ''w'' 2 ready_pool)) = [''b'', ''a'']
   \<and> fst (claim_ready 10 5 ''w'' 2 ready_pool) =
       ready_pool\<lparr>task_runs := update_where (\<lambda>r. tr_id r \<in> {''a'', ''b''}) (claim_set ''w'' (plus_secs 10 5)) (task_runs ready_pool)\<rparr>"
proof -
  let ?c = "claim_ready_filtered 10 5 ''w'' 2 [] [] False ready_pool"
  have ids: "map tr_id (snd ?c) = [''b'', ''a'']" by code_simp
  then have "tr_id ` set (snd ?c) = {''a'', ''b''}" by (simp only: list.set_map [symmetric] ids) auto
  with ids claim_takes_ready_tasks [OF ready_pool_ok, of 10 5 "''w''" 2 "[]" "[]" False "fst ?c" "snd ?c"]
  show ?thesis by (simp add: claim_ready_def claim_ready_classes_def)
qed

text \<open>C27. Two claims never hand out the same task: whatever workers, classes, caps and limits
  they are made with, what the first one took is not ready for the second.\<close>

theorem claims_are_disjoint:
  assumes ok: "tables_ok db"
    and first: "claim_ready_filtered now lease w n classes caps ex db = (db1, claimed1)"
    and second: "claim_ready_filtered now2 lease2 w2 n2 classes2 caps2 ex2 db1 = (db2, claimed2)"
  shows "tr_id ` set claimed1 \<inter> tr_id ` set claimed2 = {}"
proof -
  have d: "distinct (map tr_id (task_runs db))" using ok by (simp add: tables_ok_def)
  have db1: "task_runs db1 = claimed_rows w (plus_secs now lease) (tr_id ` set claimed1) (task_runs db)"
    by (rule claim_filtered_form [OF d, of now lease w n classes caps ex]) (use first in auto)
  then have "map tr_id (task_runs db1) = map tr_id (task_runs db)"
    by (simp add: claimed_rows_def map_key_update_where)
  with d have d1: "distinct (map tr_id (task_runs db1))" by simp
  have "set claimed2 \<subseteq> {r \<in> set (task_runs db1). tr_status r = Ready}"
    by (rule claim_filtered_form [OF d1, of now2 lease2 w2 n2 classes2 caps2 ex2])
      (use second in \<open>auto simp: ready_where_def\<close>)
  moreover have taken: "tr_status r = Running" if "r \<in> set (task_runs db1)" "tr_id r \<in> tr_id ` set claimed1" for r
    using that by (auto simp: db1 claimed_rows_def elim!: in_update_whereE split: if_splits)
  ultimately have "tr_id r \<notin> tr_id ` set claimed1" if r: "r \<in> set claimed2" for r
  proof -
    have "r \<in> set (task_runs db1)" "tr_status r = Ready"
      using r \<open>set claimed2 \<subseteq> _\<close> by auto
    then show ?thesis using taken [of r] by auto
  qed
  then show ?thesis by (simp only: disjoint_iff) (metis imageE)
qed

theorem claims_are_disjoint_witness:
  "tr_id ` set (snd (claim_ready 10 5 ''w'' 2 ready_pool))
     \<inter> tr_id ` set (snd (claim_ready 11 5 ''v'' 2 (fst (claim_ready 10 5 ''w'' 2 ready_pool)))) = {}"
  using claims_are_disjoint [OF ready_pool_ok, of 10 5 "''w''" 2 "[]" "[]" False _ _ 11 5 "''v''" 2 "[]" "[]" False]
  by (simp add: claim_ready_def claim_ready_classes_def) (metis prod.collapse)

lemma pool_slots:
  "avail p = Some k \<Longrightarrow> 0 \<le> k \<Longrightarrow>
     int (length (filter (\<lambda>c. tr_pool c = Some p) (snd (claim_loop w l avail cs db)))) \<le> k"
proof (induction w l avail cs db arbitrary: k rule: claim_loop.induct)
  case (2 w l avail c cs db)
  show ?case
  proof (cases "\<not> pool_full avail c \<and> 0 < aff (claim_where c) db")
    case True
    then have IH: "take_slot c avail p = Some j \<Longrightarrow> 0 \<le> j \<Longrightarrow>
        int (length (filter (\<lambda>c. tr_pool c = Some p)
          (snd (claim_loop w l (take_slot c avail) cs (upd (claim_where c) (claim_set w l) db))))) \<le> j" for j
      using 2 by simp
    show ?thesis
    proof (cases "tr_pool c = Some p")
      case True': True
      with True "2.prems" have "take_slot c avail p = Some (k - 1)" "1 \<le> k"
        by (auto simp: take_slot_def pool_full_def)
      with IH [of "k - 1"] True True' show ?thesis by (simp add: Let_def case_prod_unfold)
    next
      case False
      with "2.prems" have "take_slot c avail p = Some k"
        by (auto simp: take_slot_def split: option.split)
      with IH [of k] True False "2.prems" show ?thesis by (simp add: Let_def case_prod_unfold)
    qed
  next
    case False
    with 2 show ?thesis by auto
  qed
qed simp

lemma distinct_subset_length:
  assumes "set xs \<subseteq> set ys" "distinct xs"
  shows "length xs \<le> length ys"
proof -
  have "length xs = card (set xs)" using assms(2) by (rule distinct_card [symmetric])
  also have "\<dots> \<le> card (set ys)" using assms(1) by (intro card_mono) auto
  also have "\<dots> \<le> length ys" by (rule card_length)
  finally show ?thesis .
qed

lemma claimed_rows_occupy:
  "length (filter (occupies_pool p) (claimed_rows w l ids rows)) \<le>
     length (filter (occupies_pool p) rows) + length (filter (\<lambda>r. tr_id r \<in> ids \<and> tr_pool r = Some p) rows)"
  by (induction rows) (auto simp: claimed_rows_def update_where_def occupies_pool_def)

text \<open>C28. A claim never raises the number of tasks running in a capped pool above the cap: it is
  at most the cap, or what it was where it already was above it. Parked tasks hold no slot.\<close>

theorem pool_cap_respected:
  assumes ok: "tables_ok db" and keys: "distinct (map fst caps)" and cap: "(p, cap) \<in> set caps"
    and claim: "claim_ready_filtered now lease w n classes caps ex db = (db', claimed)"
  shows "pool_running db' p \<le> max cap (pool_running db p)"
proof -
  let ?rows = "task_runs db" and ?k = "max 0 (cap - pool_running db p)"
  have d: "distinct (map tr_id ?rows)" using ok by (simp add: tables_ok_def)
  have rows': "task_runs db' = claimed_rows w (plus_secs now lease) (tr_id ` set claimed) ?rows"
    by (rule claim_filtered_form [OF d, of now lease w n classes caps ex]) (use claim in simp)
  have sub: "set claimed \<subseteq> set ?rows"
    by (rule claim_filtered_form [OF d, of now lease w n classes caps ex]) (use claim in auto)
  have "distinct (map fst (map (\<lambda>pc. (fst pc, pool_remaining db pc)) caps))"
    using keys by (simp add: comp_def)
  moreover have "(p, ?k) \<in> set (map (\<lambda>pc. (fst pc, pool_remaining db pc)) caps)"
    using cap by (force simp: pool_remaining_def)
  ultimately have "pool_avail db caps p = Some ?k"
    unfolding pool_avail_def by (rule map_of_is_SomeI)
  then have slots: "int (length (filter (\<lambda>c. tr_pool c = Some p) claimed)) \<le> ?k"
    using pool_slots [of "pool_avail db caps" p ?k] claim
    by (metis claim_ready_filtered_def max.cobounded1 snd_conv)
  let ?new = "filter (\<lambda>r. tr_id r \<in> tr_id ` set claimed \<and> tr_pool r = Some p) ?rows"
  have "set ?new \<subseteq> set (filter (\<lambda>c. tr_pool c = Some p) claimed)"
    using sub d by (auto dest: distinct_key_eq)
  moreover have "distinct ?new" using d by (simp add: distinct_map)
  ultimately have "length ?new \<le> length (filter (\<lambda>c. tr_pool c = Some p) claimed)"
    by (rule distinct_subset_length)
  moreover have "pool_running db' p \<le> pool_running db p + int (length ?new)"
    using claimed_rows_occupy [of p w "plus_secs now lease" "tr_id ` set claimed" ?rows]
    unfolding pool_running_def aff_def rows_affected_def rows' by linarith
  ultimately have "pool_running db' p \<le> pool_running db p + ?k" using slots by linarith
  then show ?thesis by simp
qed

theorem pool_cap_respected_witness:
  "pool_running (fst (claim_ready_classes 10 5 ''w'' 5 [] [(''gpu'', 1)] ready_pool)) ''gpu'' \<le> 1"
proof -
  let ?c = "claim_ready_filtered 10 5 ''w'' 5 [] [(''gpu'', 1)] False ready_pool"
  have "pool_running ready_pool ''gpu'' = 0" by code_simp
  with pool_cap_respected [OF ready_pool_ok, of "[(''gpu'', 1)]" "''gpu''" 1 10 5 "''w''" 5 "[]" False "fst ?c" "snd ?c"]
  show ?thesis by (simp add: claim_ready_classes_def)
qed

lemma filter_imp_length: "(\<And>x. P x \<Longrightarrow> Q x) \<Longrightarrow> length (filter P xs) \<le> length (filter Q xs)"
  by (induction xs) (auto intro: le_SucI)

lemma filter_same_length:
  assumes imp: "\<And>x. P x \<Longrightarrow> Q x" and len: "length (filter P xs) = length (filter Q xs)" and x: "x \<in> set xs" "Q x"
  shows "P x"
  using len x
proof (induction xs)
  case (Cons a xs)
  with filter_imp_length [of P Q xs, OF imp] imp [of a] show ?case by (auto split: if_splits)
qed simp

text \<open>A gang has as many rows as its size says.\<close>

definition gangs_whole :: "db \<Rightarrow> bool" where
  "gangs_whole db =
     list_all (\<lambda>r. case gang_key_of r of
                     None \<Rightarrow> True
                   | Some k \<Rightarrow> int (length (filter (\<lambda>q. tr_gang_id q = Some (fst k)) (task_runs db))) = fst (snd k))
       (task_runs db)"

lemma gang_candidate:
  assumes "k \<in> set (gang_candidates now cset capacity db)"
  shows "int (length (gang_rows now cset db k)) = fst (snd k)" "fst (snd k) \<le> capacity"
    "\<exists>r \<in> set (task_runs db). gang_key_of r = Some k"
  using assms by (auto simp: gang_candidates_def map_filter_def)

text \<open>C29. A gang is claimed whole or not at all: what a successful claim returns is every member
  of one gang, each of which was ready, due and of a class the worker serves, no more than the
  worker has slots for and than its pool has left, and all of them start in the one statement
  with the same lease.\<close>

theorem gang_claim_is_whole:
  assumes whole: "gangs_whole db"
    and claim: "claim_ready_gang now lease w capacity classes caps db = (db', claimed)"
    and some: "claimed \<noteq> []"
  shows "\<exists>g size. map tr_id claimed = map tr_id (filter (\<lambda>r. tr_gang_id r = Some g) (task_runs db))
    \<and> int (length claimed) = size \<and> size \<le> capacity
    \<and> list_all (\<lambda>r. tr_gang_id r = Some g \<longrightarrow> gang_eligible now (class_set classes) r) (task_runs db)
    \<and> db' = upd (\<lambda>r. tr_gang_id r = Some g) (claim_set w (plus_secs now lease)) db
    \<and> (\<forall>p cap. list_ex (\<lambda>r. gang_key_of r = Some (g, size, Some p)) (task_runs db) \<longrightarrow> map_of caps p = Some cap
         \<longrightarrow> 2 \<le> size \<longrightarrow> pool_running db p + size \<le> cap)"
proof -
  let ?cset = "class_set classes"
  from claim some obtain k where k: "find (gang_seated db caps) (gang_candidates now ?cset capacity db) = Some k"
    and db': "db' = upd (gang_where (fst k)) (claim_set w (plus_secs now lease)) db"
    and claimed: "claimed = map (claimed_view w (plus_secs now lease)) (filter (gang_where (fst k)) (task_runs db))"
    by (auto simp: claim_ready_gang_def split: if_splits option.splits)
  have cand: "k \<in> set (gang_candidates now ?cset capacity db)" and seat: "gang_seated db caps k"
    using k by (auto simp: find_Some_iff)
  obtain g size p where kk: "k = (g, size, p)" by (cases k) auto
  let ?G = "\<lambda>r. tr_gang_id r = Some g"
  have n: "int (length (filter ?G (task_runs db))) = size"
    using gang_candidate(3) [OF cand] whole by (auto simp: gangs_whole_def list_all_iff kk split: option.splits)
  have sub: "?G r" if "gang_eligible now ?cset r \<and> gang_key_of r = Some k" for r
    using that by (auto simp: kk split: option.splits)
  have "length (filter (\<lambda>r. gang_eligible now ?cset r \<and> gang_key_of r = Some k) (task_runs db))
      = length (filter ?G (task_runs db))"
    using gang_candidate(1) [OF cand] n by (simp add: gang_rows_def kk)
  then have all: "gang_eligible now ?cset r \<and> gang_key_of r = Some k" if "r \<in> set (task_runs db)" "?G r" for r
    using filter_same_length [of "\<lambda>r. gang_eligible now ?cset r \<and> gang_key_of r = Some k" ?G, OF sub _ that] by blast
  then have same: "gang_where g r = ?G r" if "r \<in> set (task_runs db)" for r
    using that by (auto simp: gang_where_def gang_eligible_def)
  then have flt: "filter (gang_where g) (task_runs db) = filter ?G (task_runs db)" by (rule filter_cong [OF refl])
  have "db' = upd ?G (claim_set w (plus_secs now lease)) db"
    using update_where_cong [of "task_runs db" "gang_where g" ?G] same by (simp add: db' kk upd_def)
  moreover have "map tr_id claimed = map tr_id (filter ?G (task_runs db))"
    by (simp add: claimed kk flt claimed_view_def)
  moreover have "list_all (\<lambda>r. ?G r \<longrightarrow> gang_eligible now ?cset r) (task_runs db)"
    using all by (simp add: list_all_iff)
  moreover have "pool_running db q + size \<le> cap"
    if "list_ex (\<lambda>r. gang_key_of r = Some (g, size, Some q)) (task_runs db)" "map_of caps q = Some cap" "2 \<le> size" for q cap
  proof -
    from that(1) obtain r where "r \<in> set (task_runs db)" "gang_key_of r = Some (g, size, Some q)" "?G r"
      by (auto simp: list_ex_iff split: option.splits)
    with all have "p = Some q" by (auto simp: kk)
    with seat that show ?thesis by (simp add: gang_seated_def kk)
  qed
  moreover have "int (length claimed) = size" using n by (simp add: claimed kk flt)
  moreover have "size \<le> capacity" using gang_candidate(2) [OF cand] by (simp add: kk)
  ultimately show ?thesis by blast
qed

theorem gang_claim_is_whole_witness:
  "\<exists>g size. map tr_id (snd (claim_ready_gang 10 5 ''w'' 4 [] [(''big'', 2)] ready_pool))
      = map tr_id (filter (\<lambda>r. tr_gang_id r = Some g) (task_runs ready_pool))
    \<and> int (length (snd (claim_ready_gang 10 5 ''w'' 4 [] [(''big'', 2)] ready_pool))) = size \<and> size \<le> 4"
proof -
  let ?c = "claim_ready_gang 10 5 ''w'' 4 [] [(''big'', 2)] ready_pool"
  have "gangs_whole ready_pool" by code_simp
  moreover have "map tr_id (snd ?c) = [''g0'', ''g1'']" by code_simp
  then have "snd ?c \<noteq> []" by auto
  ultimately show ?thesis
    using gang_claim_is_whole [of ready_pool 10 5 "''w''" 4 "[]" "[(''big'', 2)]" "fst ?c" "snd ?c"] by auto
qed

end
