(* ===== verification/Attempt_Log.thy ===== *)
theory Attempt_Log
  imports Rust_Str
begin

text \<open>
  How much of a superseded attempt's output is kept (\<open>dagron-core/src/attempt_log.rs\<close>): a tail
  of a bounded number of bytes, cut at a character, and a bounded number of attempts.
\<close>

definition default_bytes :: nat where "default_bytes = 4096"
definition default_keep :: nat where "default_keep = 50"
definition max_bytes :: nat where "max_bytes = 64 * 1024"

datatype attempt_end = EndIteration | EndFailed

fun attempt_end_str :: "attempt_end \<Rightarrow> string" where
  "attempt_end_str EndIteration = ''iteration''"
| "attempt_end_str EndFailed = ''failed''"

record policy =
  po_bytes :: nat
  po_keep :: nat

definition policy_default :: policy where
  "policy_default = \<lparr>po_bytes = default_bytes, po_keep = default_keep\<rparr>"

text \<open>\<open>env\<close> is the process environment.\<close>

definition read_knob :: "(string \<Rightarrow> string option) \<Rightarrow> string \<Rightarrow> nat option" where
  "read_knob env key = Option.bind (env key) (\<lambda>v. parse_unsigned 64 (trim v))"

definition policy_from_env :: "(string \<Rightarrow> string option) \<Rightarrow> policy" where
  "policy_from_env env =
     \<lparr>po_bytes = (case read_knob env ''DAGRON_ATTEMPT_LOG_BYTES'' of
                    Some n \<Rightarrow> min n max_bytes | None \<Rightarrow> default_bytes),
      po_keep = (case read_knob env ''DAGRON_ATTEMPT_LOG_KEEP'' of
                   Some n \<Rightarrow> n | None \<Rightarrow> default_keep)\<rparr>"

definition policy_enabled :: "policy \<Rightarrow> bool" where
  "policy_enabled p = (po_bytes p > 0)"

text \<open>The cut at byte \<open>n\<close>, moved forward to the next character.\<close>

fun drop_bytes :: "nat \<Rightarrow> string \<Rightarrow> string" where
  "drop_bytes n [] = []"
| "drop_bytes n (c # cs) = (if n = 0 then c # cs else drop_bytes (n - utf8_width c) cs)"

definition policy_tail :: "policy \<Rightarrow> string \<Rightarrow> string \<times> bool" where
  "policy_tail p output =
     (if str_len output \<le> po_bytes p then (output, False)
      else (drop_bytes (str_len output - po_bytes p) output, True))"

text \<open>\<open>i64::try_from\<close> of the count, and a subtraction that saturates.\<close>

definition evict_below :: "policy \<Rightarrow> int \<Rightarrow> int option" where
  "evict_below p attempt =
     (if po_keep p = 0 then None
      else
        (let keep = min (int (po_keep p)) (2 ^ 63 - 1);
             cutoff = max (- (2 ^ 63)) (attempt - keep)
         in if cutoff \<ge> 1 then Some cutoff else None))"

subsection \<open>Properties\<close>

lemma str_len_simps [simp]: "str_len [] = 0" "str_len (c # cs) = utf8_width c + str_len cs"
  by (simp_all add: str_len_def)

lemma utf8_width_pos [simp]: "0 < utf8_width c"
  by (simp add: utf8_width_def)

lemma drop_bytes_suffix: "\<exists>pre. s = pre @ drop_bytes n s"
proof (induction n s rule: drop_bytes.induct)
  case (2 n c cs)
  then show ?case by (cases "n = 0") (auto intro: exI [of _ "c # _"])
qed simp

lemma drop_bytes_0 [simp]: "drop_bytes 0 s = s"
  by (cases s) simp_all

text \<open>The tail fits what is left, and at most one byte is given up for the cut to fall between
  characters.\<close>

lemma drop_bytes_len:
  "n \<le> str_len s \<Longrightarrow> str_len (drop_bytes n s) \<le> str_len s - n \<and> str_len s - n \<le> str_len (drop_bytes n s) + 1"
proof (induction n s rule: drop_bytes.induct)
  case (2 n c cs)
  have w: "utf8_width c \<le> 2" "0 < utf8_width c" by (simp_all add: utf8_width_def)
  consider "n = 0" | "0 < n" "n \<le> utf8_width c" | "utf8_width c < n" by linarith
  then show ?case
  proof cases
    case 2
    then have "drop_bytes n (c # cs) = cs" by simp
    with 2 w show ?thesis by simp arith
  next
    case 3
    then have "n - utf8_width c \<le> str_len cs" using "2.prems" by simp
    with "2.IH" 3 have IH: "str_len (drop_bytes (n - utf8_width c) cs) \<le> str_len cs - (n - utf8_width c)"
      "str_len cs - (n - utf8_width c) \<le> str_len (drop_bytes (n - utf8_width c) cs) + 1" by simp_all
    moreover have "str_len (c # cs) - n = str_len cs - (n - utf8_width c)" using 3 by simp
    moreover have "drop_bytes n (c # cs) = drop_bytes (n - utf8_width c) cs" using 3 by simp
    ultimately show ?thesis by simp
  qed simp
qed simp

text \<open>What is kept of a superseded attempt is the end of its output, at most the cap long
  and at most one byte short of it where the output is longer, and the flag says exactly
  whether something was dropped.\<close>

theorem attempt_tail_bounded:
  "str_len (fst (policy_tail p out)) \<le> po_bytes p
   \<and> (\<exists>pre. out = pre @ fst (policy_tail p out))
   \<and> snd (policy_tail p out) = (str_len out > po_bytes p)
   \<and> min (str_len out) (po_bytes p) \<le> str_len (fst (policy_tail p out)) + 1
   \<and> snd (policy_tail p out) = (fst (policy_tail p out) \<noteq> out)"
proof (cases "str_len out \<le> po_bytes p")
  case True
  then show ?thesis by (simp add: policy_tail_def)
next
  case False
  let ?t = "drop_bytes (str_len out - po_bytes p) out"
  have "str_len ?t \<le> po_bytes p" "po_bytes p \<le> str_len ?t + 1"
    using drop_bytes_len [of "str_len out - po_bytes p" out] False by simp_all
  moreover from this False have "?t \<noteq> out" by auto
  moreover have "\<exists>pre. out = pre @ ?t" by (rule drop_bytes_suffix)
  ultimately show ?thesis using False by (simp add: policy_tail_def)
qed

end
