(* ===== verification/Quota_Wait.thy ===== *)
theory Quota_Wait
  imports Rust_Str Prelude "HOL-Library.Word"
begin

unbundle bit_operations_syntax

text \<open>
  Quota back-pressure (\<open>dagron-core/src/quota_wait.rs\<close>): when a refused task probes again and
  when it gives up.

  \<open>deadline\<close> stands for chrono's checked addition of seconds to an instant: \<open>None\<close> where the
  sum is not a date.
\<close>

definition retry_base_secs :: int where "retry_base_secs = 5"
definition retry_max_secs :: int where "retry_max_secs = 60"
definition detail_max_chars :: nat where "detail_max_chars = 400"
definition jitter_min_permille :: int where "jitter_min_permille = 750"
definition jitter_max_permille :: int where "jitter_max_permille = 1250"

datatype quota_step =
    Wait (st_since: instant) (st_waits: int) (st_retry_at: instant)
  | GiveUp int int

definition num_seconds :: "int \<Rightarrow> int" where
  "num_seconds d = (if d \<ge> 0 then d div nanos else - ((- d) div nanos))"

definition clamp :: "int \<Rightarrow> int \<Rightarrow> int \<Rightarrow> int" where
  "clamp lo hi x = (if x < lo then lo else if x > hi then hi else x)"

definition quota_delay_ms :: "int \<Rightarrow> int \<Rightarrow> int" where
  "quota_delay_ms prior_waits permille =
     min (retry_base_secs * 2 ^ nat (min prior_waits 6)) retry_max_secs
       * clamp jitter_min_permille jitter_max_permille permille"

definition quota_step_of ::
  "(instant \<Rightarrow> int \<Rightarrow> instant option) \<Rightarrow> instant \<Rightarrow> (instant \<times> int) option \<Rightarrow> int \<Rightarrow> int \<Rightarrow> quota_step" where
  "quota_step_of deadline now prior max_wait_secs permille =
     (let (since, prior_waits0) = (case prior of Some sw \<Rightarrow> sw | None \<Rightarrow> (now, 0));
          prior_waits = max prior_waits0 0;
          waits = min (prior_waits + 1) (2 ^ 63 - 1);
          waited_secs = max (num_seconds (now - since)) 0
      in if waited_secs \<ge> max_wait_secs then GiveUp waits waited_secs
         else
           (let retry_at = now + quota_delay_ms prior_waits permille * 1000000
            in Wait since waits
                 (case deadline since max_wait_secs of None \<Rightarrow> retry_at | Some d \<Rightarrow> min retry_at d)))"

subsection \<open>Jitter\<close>

definition utf8_bytes :: "char \<Rightarrow> nat list" where
  "utf8_bytes c = (if code c < 128 then [code c] else [192 + code c div 64, 128 + code c mod 64])"

definition le_bytes :: "64 word \<Rightarrow> nat list" where
  "le_bytes w = map (\<lambda>k. unat (drop_bit (8 * k) w AND 0xFF)) [0..<8]"

definition fnv_byte :: "64 word \<Rightarrow> nat \<Rightarrow> 64 word" where
  "fnv_byte hash byte = (hash XOR of_nat byte) * 0x00000100000001b3"

definition fnv1a :: "nat list \<Rightarrow> 64 word" where
  "fnv1a bytes = foldl fnv_byte 0xcbf29ce484222325 bytes"

definition jitter_permille :: "string \<Rightarrow> int \<Rightarrow> int" where
  "jitter_permille task_id fence =
     (let hash = fnv1a (concat (map utf8_bytes task_id) @ le_bytes (word_of_int fence));
          span = jitter_max_permille - jitter_min_permille + 1
      in jitter_min_permille + (uint hash mod span))"

definition clip_detail :: "string \<Rightarrow> string" where
  "clip_detail detail = take detail_max_chars (trim detail)"

subsection \<open>Properties\<close>

lemma jitter_bounds: "750 \<le> jitter_permille t f \<and> jitter_permille t f \<le> 1250"
proof -
  have "0 \<le> x mod 501 \<and> x mod 501 < 501" for x :: int by simp
  then show ?thesis
    unfolding jitter_permille_def jitter_min_permille_def jitter_max_permille_def Let_def by (smt (verit))
qed

lemma quota_delay_bounds:
  assumes "0 \<le> w"
  shows "3750 \<le> quota_delay_ms w j \<and> quota_delay_ms w j \<le> 75000"
proof -
  have "1 \<le> (2::int) ^ nat (min w 6)" by simp
  then have "5 \<le> min (5 * (2::int) ^ nat (min w 6)) 60" "min (5 * (2::int) ^ nat (min w 6)) 60 \<le> 60" by simp_all
  moreover have "750 \<le> clamp 750 1250 j" "clamp 750 1250 j \<le> 1250" by (simp_all add: clamp_def)
  ultimately have "5 * 750 \<le> min (5 * (2::int) ^ nat (min w 6)) 60 * clamp 750 1250 j"
    "min (5 * (2::int) ^ nat (min w 6)) 60 * clamp 750 1250 j \<le> 60 * 1250"
    by (intro mult_mono; simp)+
  then show ?thesis
    by (simp add: quota_delay_ms_def retry_base_secs_def retry_max_secs_def jitter_min_permille_def
        jitter_max_permille_def)
qed

text \<open>A refused task probes again later than now and within 75 seconds, never past the end of
  its episode; the episode's beginning is carried forward, its refusals counted, and a refusal at
  or after the episode's end gives up. So an episode of any bound ends: the last probe falls on
  the deadline at the latest.\<close>

theorem quota_episode_bounded:
  assumes chrono: "\<And>s m. deadline s m = Some (plus_secs s m)"
    and prior: "prior = Some (since, w)" "0 \<le> w" "w < 2 ^ 63 - 1" and begun: "since \<le> now"
  shows "(now < plus_secs since m \<longrightarrow>
            (\<exists>t. quota_step_of deadline now prior m j = Wait since (w + 1) t
                 \<and> now < t \<and> t \<le> now + 75 * nanos \<and> t \<le> plus_secs since m))
    \<and> (plus_secs since m \<le> now \<longrightarrow>
         (\<exists>secs. quota_step_of deadline now prior m j = GiveUp (w + 1) secs \<and> m \<le> secs))"
proof -
  let ?d = "quota_delay_ms w j * 1000000"
  have d: "0 < ?d" "?d \<le> 75 * nanos" using quota_delay_bounds [OF prior(2), of j] by auto
  have secs: "max (num_seconds (now - since)) 0 = (now - since) div nanos"
    using begun by (simp add: num_seconds_def pos_imp_zdiv_nonneg_iff)
  have iff: "m \<le> (now - since) div nanos \<longleftrightarrow> plus_secs since m \<le> now"
    using div_mult_mod_eq [of "now - since" nanos] pos_mod_bound [of nanos "now - since"]
      pos_mod_sign [of nanos "now - since"]
    unfolding plus_secs_def by linarith
  show ?thesis
    using d prior secs iff
    by (auto simp: quota_step_of_def Let_def chrono)
qed

theorem quota_episode_bounded_witness:
  "\<exists>t. quota_step_of (\<lambda>s m. Some (plus_secs s m)) (7 * nanos) (Some (0, 2)) 10 1000 = Wait 0 3 t
     \<and> t \<le> 10 * nanos"
  using quota_episode_bounded [of "\<lambda>s m. Some (plus_secs s m)" "Some (0, 2)" 0 2 "7 * nanos" 10 1000]
  by (auto simp: plus_secs_def)

end
