(* ===== verification/Complete.thy ===== *)
theory Complete
  imports Advance Claim Attempt_Log Quota_Wait
begin

text \<open>
  How a task ends or is handed back (\<open>db/sqlite.rs\<close>): completion and failure under a fence,
  approval gates, retries and their attempt log, quota waits, lease renewal, and the stop of a
  run or a gang with its teardown claims, up to the end of the run.

  Parameters: \<open>rfc3339\<close> prints an instant (chrono), \<open>uuid\<close> makes an event id, \<open>payload\<close> writes
  the event's JSON (serde_json), \<open>lease\<close> is \<open>lease_secs()\<close>. \<open>stop_lease()\<close> reads the clock a
  second time; here it is the instant of its transaction.
\<close>

record services =
  sv_rfc3339 :: "instant \<Rightarrow> string"
  sv_uuid :: "string \<Rightarrow> string"
  sv_payload :: "string \<Rightarrow> string \<Rightarrow> string"

subsection \<open>The end of a run\<close>

definition insert_run_completed :: "services \<Rightarrow> string \<Rightarrow> string \<Rightarrow> instant \<Rightarrow> db \<Rightarrow> db" where
  "insert_run_completed sv run status now db =
     db\<lparr>event_outbox := event_outbox db @
          [\<lparr>ev_id = sv_uuid sv run, ev_run_id = run, ev_type = ''run.completed'',
            ev_payload = sv_payload sv run status, ev_status = ''pending'', ev_attempts = 0,
            ev_next_attempt_at = now, ev_created_at = now\<rparr>]\<rparr>"

definition still_stopping :: "db \<Rightarrow> string \<Rightarrow> bool" where
  "still_stopping db run =
     list_ex (\<lambda>r. tr_run_id r = run \<and> tr_status r = Running \<and> tr_stop_requested_at r \<noteq> None) (task_runs db)"

definition finish_stopped_where :: "db \<Rightarrow> string \<Rightarrow> run_row \<Rightarrow> bool" where
  "finish_stopped_where db run w =
     (wr_id w = run \<and> wr_status w = RunRunning \<and> wr_stopping_as w \<noteq> None \<and> \<not> still_stopping db run)"

definition finish_stopped_set :: "instant \<Rightarrow> run_row \<Rightarrow> run_row" where
  "finish_stopped_set now w =
     w\<lparr>wr_status := (case wr_stopping_as w of Some s \<Rightarrow> s | None \<Rightarrow> wr_status w),
       wr_finished_at := Some now, wr_completion_pending_at := None, wr_start_pending_at := None,
       wr_stopping_as := None, wr_stop_requested_at := None\<rparr>"

definition finish_stopped_run :: "services \<Rightarrow> string \<Rightarrow> instant \<Rightarrow> db \<Rightarrow> db \<times> run_status option" where
  "finish_stopped_run sv run now db =
     (let ended = map_option (\<lambda>w. wr_status (finish_stopped_set now w))
                    (find (finish_stopped_where db run) (workflow_runs db));
          db1 = upd_runs (finish_stopped_where db run) (finish_stopped_set now) db
      in (case ended of
            Some s \<Rightarrow> insert_run_completed sv run (run_status_str s) now db1
          | None \<Rightarrow> db1, ended))"

subsection \<open>A claim, held under a fence\<close>

definition held_by :: "string \<Rightarrow> string \<Rightarrow> int \<Rightarrow> task_row \<Rightarrow> bool" where
  "held_by t worker fence r = (tr_id r = t \<and> tr_claimed_by r = Some worker \<and> tr_version r = fence)"

definition held_unstopped :: "string \<Rightarrow> string \<Rightarrow> int \<Rightarrow> task_row \<Rightarrow> bool" where
  "held_unstopped t worker fence r = (held_by t worker fence r \<and> tr_stop_requested_at r = None)"

definition held_stopping :: "string \<Rightarrow> string \<Rightarrow> int \<Rightarrow> task_row \<Rightarrow> bool" where
  "held_stopping t worker fence r =
     (held_by t worker fence r \<and> tr_status r = Running \<and> tr_stop_requested_at r \<noteq> None)"

definition settle_set :: "instant \<Rightarrow> task_row \<Rightarrow> task_row" where
  "settle_set now r =
     r\<lparr>tr_status := Cancelled, tr_finished_at := Some now, tr_claimed_by := None,
       tr_lease_expires_at := None, tr_stop_requested_at := None\<rparr>"

definition settle_stopping ::
  "services \<Rightarrow> string \<Rightarrow> string \<Rightarrow> int \<Rightarrow> instant \<Rightarrow> db \<Rightarrow> db \<times> bool" where
  "settle_stopping sv t worker fence now db =
     (case find (held_stopping t worker fence) (task_runs db) of
        None \<Rightarrow> (db, False)
      | Some r \<Rightarrow>
          (fst (finish_stopped_run sv (tr_run_id r) now
                  (upd (held_stopping t worker fence) (settle_set now) db)), True))"

definition settle_stopped_task ::
  "services \<Rightarrow> instant \<Rightarrow> string \<Rightarrow> string \<Rightarrow> int \<Rightarrow> db \<Rightarrow> db \<times> bool" where
  "settle_stopped_task sv now t worker fence db = settle_stopping sv t worker fence now db"

definition release_stopping_task ::
  "instant \<Rightarrow> string \<Rightarrow> string \<Rightarrow> int \<Rightarrow> int \<Rightarrow> db \<Rightarrow> db \<times> bool" where
  "release_stopping_task now t worker fence retry_secs db =
     (upd (held_stopping t worker fence) (\<lambda>r. r\<lparr>tr_lease_expires_at := Some (plus_secs now retry_secs)\<rparr>) db,
      aff (held_stopping t worker fence) db = 1)"

subsection \<open>Success and failure\<close>

definition succeed_set :: "instant \<Rightarrow> string option \<Rightarrow> bool \<Rightarrow> task_row \<Rightarrow> task_row" where
  "succeed_set now output hit r =
     r\<lparr>tr_status := Succeeded, tr_finished_at := Some now, tr_output := output,
       tr_claimed_by := None, tr_cache_hit := hit\<rparr>"

text \<open>The dependents of a success that are now free and of the default shape are made ready in
  the same transaction.\<close>

definition ready_dependent_where :: "db \<Rightarrow> string \<Rightarrow> task_row \<Rightarrow> bool" where
  "ready_dependent_where db t r = (ready_default_where db r \<and> tr_id r \<in> set (dependent_ids db t))"

definition mark_task_succeeded_inner ::
  "services \<Rightarrow> instant \<Rightarrow> string \<Rightarrow> string \<Rightarrow> int \<Rightarrow> string option \<Rightarrow> bool \<Rightarrow> db \<Rightarrow> db \<times> bool" where
  "mark_task_succeeded_inner sv now t worker fence output hit db =
     (if aff (held_unstopped t worker fence) db = 0
      then (fst (settle_stopping sv t worker fence now db), False)
      else
        (let db1 = decrement_dependents t (upd (held_unstopped t worker fence) (succeed_set now output hit) db)
         in (upd (ready_dependent_where db1 t) (make_ready now) db1, True)))"

definition mark_task_succeeded ::
  "services \<Rightarrow> instant \<Rightarrow> string \<Rightarrow> string \<Rightarrow> int \<Rightarrow> string option \<Rightarrow> db \<Rightarrow> db \<times> bool" where
  "mark_task_succeeded sv now t worker fence output db =
     mark_task_succeeded_inner sv now t worker fence output False db"

definition mark_task_succeeded_cached ::
  "services \<Rightarrow> instant \<Rightarrow> string \<Rightarrow> string \<Rightarrow> int \<Rightarrow> string option \<Rightarrow> db \<Rightarrow> db \<times> bool" where
  "mark_task_succeeded_cached sv now t worker fence output db =
     mark_task_succeeded_inner sv now t worker fence output True db"

definition fail_set :: "instant \<Rightarrow> string option \<Rightarrow> task_row \<Rightarrow> task_row" where
  "fail_set now err r =
     r\<lparr>tr_status := Failed, tr_finished_at := Some now, tr_output := err, tr_claimed_by := None\<rparr>"

definition mark_task_failed ::
  "services \<Rightarrow> instant \<Rightarrow> string \<Rightarrow> string \<Rightarrow> int \<Rightarrow> string option \<Rightarrow> db \<Rightarrow> db \<times> bool" where
  "mark_task_failed sv now t worker fence err db =
     (if aff (held_unstopped t worker fence) db = 0
      then (fst (settle_stopping sv t worker fence now db), False)
      else (decrement_dependents t (upd (held_unstopped t worker fence) (fail_set now err) db), True))"

definition record_task_fault ::
  "string \<Rightarrow> string \<Rightarrow> int \<Rightarrow> fault_class \<Rightarrow> string option \<Rightarrow> confidence \<Rightarrow> db \<Rightarrow> db \<times> bool" where
  "record_task_fault t worker fence c detail conf db =
     (upd (held_by t worker fence)
        (\<lambda>r. r\<lparr>tr_fault_class := Some (fault_as_str c), tr_fault_detail := detail,
               tr_fault_confidence := Some (confidence_as_str conf)\<rparr>) db,
      aff (held_by t worker fence) db > 0)"

definition renew_task_lease ::
  "instant \<Rightarrow> string \<Rightarrow> string \<Rightarrow> int \<Rightarrow> int \<Rightarrow> db \<Rightarrow> db \<times> bool" where
  "renew_task_lease now t worker fence extend_secs db =
     (upd (\<lambda>r. held_by t worker fence r \<and> tr_status r = Running)
        (\<lambda>r. r\<lparr>tr_lease_expires_at := Some (plus_secs now extend_secs)\<rparr>) db,
      aff (\<lambda>r. held_by t worker fence r \<and> tr_status r = Running) db = 1)"

subsection \<open>Approval gates\<close>

definition one_line :: "string \<Rightarrow> string" where
  "one_line s = replace_char CHR 0x0A [CHR 0x5C, CHR ''n''] (replace_char CHR 0x0D [CHR 0x5C, CHR ''r''] s)"

definition approval_log :: "bool \<Rightarrow> string option \<Rightarrow> string option \<Rightarrow> string \<Rightarrow> string" where
  "approval_log approve decided_by comment at_text =
     (let verb = (if approve then ''approved'' else ''rejected'');
          s = verb @ '' by '' @ one_line (case decided_by of Some d \<Rightarrow> d | None \<Rightarrow> ''unknown'') @ '' at '' @ at_text
      in case comment of
           None \<Rightarrow> s
         | Some c \<Rightarrow> if trim c = [] then s else s @ [CHR 0x0A] @ ''comment: '' @ one_line (trim c))"

definition awaiting_where :: "string \<Rightarrow> string \<Rightarrow> task_row \<Rightarrow> bool" where
  "awaiting_where run t r = (tr_id r = t \<and> tr_run_id r = run \<and> tr_status r = AwaitingApproval)"

definition decide_set ::
  "services \<Rightarrow> instant \<Rightarrow> bool \<Rightarrow> string option \<Rightarrow> string option \<Rightarrow> task_row \<Rightarrow> task_row" where
  "decide_set sv now approve decided_by comment r =
     r\<lparr>tr_status := (if approve then Succeeded else Failed), tr_finished_at := Some now,
       tr_output := Some (if approve then ''approved'' else ''rejected''),
       tr_decided_by := decided_by, tr_decision_comment := comment,
       tr_log := Some (approval_log approve decided_by comment (sv_rfc3339 sv now))\<rparr>"

definition resolve_approval ::
  "services \<Rightarrow> instant \<Rightarrow> string \<Rightarrow> string \<Rightarrow> bool \<Rightarrow> string option \<Rightarrow> string option \<Rightarrow> db \<Rightarrow> db \<times> bool" where
  "resolve_approval sv now run t approve decided_by comment db =
     (let db1 = upd (awaiting_where run t) (decide_set sv now approve decided_by comment) db
      in if aff (awaiting_where run t) db = 0 then (db1, False) else (decrement_dependents t db1, True))"

definition approval_deadline :: "task_row \<Rightarrow> instant option" where
  "approval_deadline r =
     (case (tr_scheduled_at r, tr_approval_timeout_secs r) of
        (Some s, Some n) \<Rightarrow> Some (plus_secs s n) | _ \<Rightarrow> None)"

definition timeout_note :: "int \<Rightarrow> bool \<Rightarrow> string" where
  "timeout_note secs approve =
     ''approval_timeout_secs ('' @ int_to_string secs @ ''s) elapsed; defaulted to '' @
     (if approve then ''approve'' else ''reject'')"

fun expire_approvals ::
  "services \<Rightarrow> instant \<Rightarrow> (string \<Rightarrow> instant) \<Rightarrow> task_row list \<Rightarrow> db \<Rightarrow> db \<times> (string \<times> bool \<times> instant) list" where
  "expire_approvals sv now clock [] db = (db, [])"
| "expire_approvals sv now clock (r # rs) db =
     (case (approval_deadline r, tr_approval_timeout_secs r) of
        (Some d, Some secs) \<Rightarrow>
          if now < d then expire_approvals sv now clock rs db
          else
            (let approve = (tr_approval_on_timeout r = Some ''approve'');
                 (db1, won) = resolve_approval sv (clock (tr_id r)) (tr_run_id r) (tr_id r) approve
                                (Some ''timeout'') (Some (timeout_note secs approve)) db;
                 (db2, more) = expire_approvals sv now clock rs db1
             in (db2, if won then (tr_id r, approve, d) # more else more))
      | _ \<Rightarrow> expire_approvals sv now clock rs db)"

definition resolve_expired_approvals ::
  "services \<Rightarrow> instant \<Rightarrow> (string \<Rightarrow> instant) \<Rightarrow> db \<Rightarrow> db \<times> (string \<times> bool \<times> instant) list" where
  "resolve_expired_approvals sv now clock db =
     expire_approvals sv now clock
       (filter (\<lambda>r. tr_status r = AwaitingApproval \<and> tr_approval_timeout_secs r \<noteq> None) (task_runs db)) db"

subsection \<open>Retries and the attempt log\<close>

definition retry_set :: "instant \<Rightarrow> string option \<Rightarrow> task_row \<Rightarrow> task_row" where
  "retry_set retry_at err r =
     r\<lparr>tr_status := Ready, tr_scheduled_at := Some retry_at, tr_claimed_by := None,
       tr_lease_expires_at := None, tr_output := err, tr_fault_class := None,
       tr_fault_detail := None, tr_fault_confidence := None\<rparr>"

text \<open>\<open>INSERT OR REPLACE\<close> on the key (task, attempt), then the rows that fall out of the window.\<close>

definition record_attempt ::
  "policy \<Rightarrow> instant \<Rightarrow> string \<Rightarrow> int \<Rightarrow> attempt_end \<Rightarrow> string option \<Rightarrow> db \<Rightarrow> db" where
  "record_attempt p now t attempt ended output db =
     (if \<not> policy_enabled p then db
      else
        (let row = \<lparr>at_task_id = t, at_attempt = attempt, at_reason = attempt_end_str ended,
                    at_status = None, at_scheduled_at = None,
                    at_output = map_option (\<lambda>out. fst (policy_tail p out)) output,
                    at_truncated = (case output of None \<Rightarrow> False | Some out \<Rightarrow> snd (policy_tail p out)),
                    at_finished_at = now\<rparr>;
             rows = filter (\<lambda>a. \<not> (at_task_id a = t \<and> at_attempt a = attempt)) (task_attempts db) @ [row]
         in db\<lparr>task_attempts :=
                 (case evict_below p attempt of
                    None \<Rightarrow> rows
                  | Some cutoff \<Rightarrow> filter (\<lambda>a. \<not> (at_task_id a = t \<and> at_attempt a \<le> cutoff)) rows)\<rparr>))"

definition retry_task ::
  "services \<Rightarrow> policy \<Rightarrow> instant \<Rightarrow> string \<Rightarrow> string \<Rightarrow> int \<Rightarrow> string option \<Rightarrow> instant \<Rightarrow> attempt_end \<Rightarrow> db \<Rightarrow> db \<times> bool" where
  "retry_task sv p now t worker fence err retry_at ended db =
     (case find (held_unstopped t worker fence) (task_runs db) of
        None \<Rightarrow> (fst (settle_stopping sv t worker fence now db), False)
      | Some r \<Rightarrow>
          (record_attempt p now t (tr_attempt_base r + tr_attempt r) ended err
             (upd (held_unstopped t worker fence) (retry_set retry_at err) db), True))"

subsection \<open>Quota waits\<close>

datatype quota_requeue = Requeued int int int | Expired int int | Stale

definition quota_held :: "string \<Rightarrow> string \<Rightarrow> int \<Rightarrow> task_row \<Rightarrow> bool" where
  "quota_held t worker fence r = (held_unstopped t worker fence r \<and> tr_status r = Running)"

definition quota_set :: "instant \<Rightarrow> int \<Rightarrow> instant \<Rightarrow> string \<Rightarrow> task_row \<Rightarrow> task_row" where
  "quota_set since waits retry_at detail r =
     r\<lparr>tr_status := Ready, tr_scheduled_at := Some retry_at, tr_claimed_by := None,
       tr_lease_expires_at := None, tr_attempt := max (tr_attempt r - 1) 0,
       tr_quota_wait_since := Some since, tr_quota_waits := waits,
       tr_quota_wait_version := Some (tr_version r), tr_quota_wait_detail := Some detail\<rparr>"

definition quota_prior :: "int \<Rightarrow> task_row \<Rightarrow> (instant \<times> int) option" where
  "quota_prior fence r =
     (if tr_quota_wait_version r = Some (fence - 1)
      then map_option (\<lambda>s. (s, tr_quota_waits r)) (tr_quota_wait_since r) else None)"

definition requeue_quota_wait ::
  "services \<Rightarrow> (instant \<Rightarrow> int \<Rightarrow> instant option) \<Rightarrow> instant \<Rightarrow> string \<Rightarrow> string \<Rightarrow> int \<Rightarrow> string \<Rightarrow> int \<Rightarrow> db
     \<Rightarrow> db \<times> quota_requeue" where
  "requeue_quota_wait sv deadline now t worker fence detail max_wait db =
     (case find (quota_held t worker fence) (task_runs db) of
        None \<Rightarrow> (fst (settle_stopping sv t worker fence now db), Stale)
      | Some r \<Rightarrow>
          (case quota_step_of deadline now (quota_prior fence r) max_wait (jitter_permille t fence) of
             GiveUp waits secs \<Rightarrow> (db, Expired waits secs)
           | Wait since waits retry_at \<Rightarrow>
               (upd (quota_held t worker fence) (quota_set since waits retry_at (clip_detail detail)) db,
                Requeued waits (max (num_seconds (now - since)) 0) (max (num_seconds (retry_at - now)) 0))))"

subsection \<open>Stopping a run or a gang\<close>

definition cancel_where :: "string \<Rightarrow> task_row \<Rightarrow> bool" where
  "cancel_where run r =
     (tr_run_id r = run
      \<and> (tr_status r \<in> {Pending, Ready, AwaitingApproval} \<or> tr_status r = Running \<and> tr_claimed_by r = None))"

definition cancel_set :: "instant \<Rightarrow> task_row \<Rightarrow> task_row" where
  "cancel_set now r =
     r\<lparr>tr_status := Cancelled, tr_finished_at := Some now, tr_claimed_by := None, tr_lease_expires_at := None\<rparr>"

definition ask_where :: "string \<Rightarrow> task_row \<Rightarrow> bool" where
  "ask_where run r = (tr_run_id r = run \<and> tr_status r = Running \<and> tr_claimed_by r \<noteq> None)"

definition ask_set :: "instant \<Rightarrow> instant \<Rightarrow> task_row \<Rightarrow> task_row" where
  "ask_set now stop_lease r =
     (if tr_stop_requested_at r = None
      then r\<lparr>tr_lease_expires_at := Some stop_lease, tr_stop_requested_at := Some now\<rparr> else r)"

definition stop_run_tasks :: "int \<Rightarrow> string \<Rightarrow> instant \<Rightarrow> db \<Rightarrow> db \<times> nat \<times> nat" where
  "stop_run_tasks lease run now db =
     (let db1 = upd (cancel_where run) (cancel_set now) db
      in (upd (ask_where run) (ask_set now (plus_secs now lease)) db1,
          aff (cancel_where run) db, aff (ask_where run) db1))"

definition cancel_run_where :: "string \<Rightarrow> run_row \<Rightarrow> bool" where
  "cancel_run_where run w = (wr_id w = run \<and> wr_status w = RunRunning)"

definition cancel_run_set :: "instant \<Rightarrow> run_row \<Rightarrow> run_row" where
  "cancel_run_set now w =
     w\<lparr>wr_stopping_as := Some (case wr_stopping_as w of Some s \<Rightarrow> s | None \<Rightarrow> RunCancelled),
       wr_stop_requested_at := Some (case wr_stop_requested_at w of Some t \<Rightarrow> t | None \<Rightarrow> now),
       wr_start_pending_at := None\<rparr>"

definition cancel_run :: "services \<Rightarrow> int \<Rightarrow> instant \<Rightarrow> string \<Rightarrow> db \<Rightarrow> db \<times> (nat \<times> nat) option" where
  "cancel_run sv lease now run db =
     (if rows_affected (cancel_run_where run) (workflow_runs db) = 0 then (db, None)
      else
        (let (db1, did) = stop_run_tasks lease run now (upd_runs (cancel_run_where run) (cancel_run_set now) db)
         in (fst (finish_stopped_run sv run now db1), Some did)))"

definition overdue_where :: "instant \<Rightarrow> run_row \<Rightarrow> bool" where
  "overdue_where now w =
     (wr_status w = RunRunning \<and> wr_stopping_as w = None
      \<and> (case wr_deadline_at w of None \<Rightarrow> False | Some d \<Rightarrow> d < now)
      \<and> (wr_queued_at w = None \<or> wr_admitted_at w \<noteq> None))"

definition overdue_set :: "instant \<Rightarrow> run_row \<Rightarrow> run_row" where
  "overdue_set now w =
     w\<lparr>wr_stopping_as := Some RunFailed, wr_stop_requested_at := Some now, wr_start_pending_at := None,
       wr_output := Some ''run deadline exceeded (run_timeout_secs)''\<rparr>"

definition stop_and_finish :: "services \<Rightarrow> int \<Rightarrow> instant \<Rightarrow> string \<Rightarrow> db \<Rightarrow> db" where
  "stop_and_finish sv lease now run db =
     fst (finish_stopped_run sv run now (fst (stop_run_tasks lease run now db)))"

definition cancel_overdue_runs :: "services \<Rightarrow> int \<Rightarrow> instant \<Rightarrow> db \<Rightarrow> db \<times> (string \<times> instant option) list" where
  "cancel_overdue_runs sv lease now db =
     (let overdue = filter (overdue_where now) (workflow_runs db);
          db1 = upd_runs (overdue_where now) (overdue_set now) db
      in (fold (stop_and_finish sv lease now) (map wr_id overdue) db1,
          map (\<lambda>w. (wr_id w, wr_deadline_at w)) overdue))"

definition stranded_where :: "db \<Rightarrow> run_row \<Rightarrow> bool" where
  "stranded_where db w =
     (wr_stopping_as w \<noteq> None \<and> wr_status w = RunRunning \<and> \<not> still_stopping db (wr_id w))"

definition clear_request_where :: "string \<Rightarrow> task_row \<Rightarrow> bool" where
  "clear_request_where run r =
     (tr_run_id r = run \<and> tr_status r \<noteq> Running \<and> tr_stop_requested_at r \<noteq> None)"

fun end_stranded :: "services \<Rightarrow> int \<Rightarrow> (string \<Rightarrow> instant) \<Rightarrow> string list \<Rightarrow> db \<Rightarrow> db \<times> nat" where
  "end_stranded sv lease clock [] db = (db, 0)"
| "end_stranded sv lease clock (run # runs) db =
     (let now = clock run;
          db1 = fst (stop_run_tasks lease run now db);
          db2 = upd (clear_request_where run) (\<lambda>r. r\<lparr>tr_stop_requested_at := None\<rparr>) db1;
          (db3, ended) = finish_stopped_run sv run now db2;
          (db4, n) = end_stranded sv lease clock runs db3
      in (db4, (if ended = None then 0 else 1) + n))"

definition end_stopped_runs :: "services \<Rightarrow> int \<Rightarrow> (string \<Rightarrow> instant) \<Rightarrow> db \<Rightarrow> db \<times> nat" where
  "end_stopped_runs sv lease clock db =
     end_stranded sv lease clock (map wr_id (filter (stranded_where db) (workflow_runs db))) db"

text \<open>A gang member failed: its siblings are asked to stop, or cancelled where nobody holds them.\<close>

definition gang_note :: string where
  "gang_note = ''cancelled: gang member failed''"

definition sibling :: "db \<Rightarrow> string \<Rightarrow> task_row \<Rightarrow> bool" where
  "sibling db m r =
     (tr_gang_id r \<noteq> None \<and> Some (tr_gang_id r) = map_option tr_gang_id (row_of tr_id m (task_runs db))
      \<and> tr_id r \<noteq> m)"

definition gang_ask_where :: "db \<Rightarrow> string \<Rightarrow> task_row \<Rightarrow> bool" where
  "gang_ask_where db m r = (sibling db m r \<and> tr_status r = Running \<and> tr_claimed_by r \<noteq> None)"

definition gang_ask_set :: "instant \<Rightarrow> instant \<Rightarrow> task_row \<Rightarrow> task_row" where
  "gang_ask_set now stop_lease r =
     (ask_set now stop_lease r)\<lparr>tr_output := Some (case tr_output r of Some out \<Rightarrow> out | None \<Rightarrow> gang_note)\<rparr>"

definition gang_cancel_where :: "db \<Rightarrow> string \<Rightarrow> task_row \<Rightarrow> bool" where
  "gang_cancel_where db m r =
     (sibling db m r \<and> (tr_status r \<in> {Pending, Ready} \<or> tr_status r = Running \<and> tr_claimed_by r = None))"

definition gang_cancel_set :: "instant \<Rightarrow> task_row \<Rightarrow> task_row" where
  "gang_cancel_set now r =
     r\<lparr>tr_status := Cancelled, tr_claimed_by := None, tr_lease_expires_at := None,
       tr_version := tr_version r + 1, tr_finished_at := Some now,
       tr_output := Some (case tr_output r of Some out \<Rightarrow> out | None \<Rightarrow> gang_note)\<rparr>"

definition cancel_gang_siblings :: "int \<Rightarrow> instant \<Rightarrow> string \<Rightarrow> db \<Rightarrow> db \<times> nat" where
  "cancel_gang_siblings lease now m db =
     (let db1 = upd (gang_ask_where db m) (gang_ask_set now (plus_secs now lease)) db
      in (upd (gang_cancel_where db1 m) (gang_cancel_set now) db1,
          aff (gang_ask_where db m) db + aff (gang_cancel_where db1 m) db1))"

subsection \<open>Teardown claims\<close>

definition teardown_where :: "instant \<Rightarrow> string \<Rightarrow> task_row \<Rightarrow> bool" where
  "teardown_where now cset r =
     (tr_status r = Running \<and> tr_stop_requested_at r \<noteq> None
      \<and> (case tr_lease_expires_at r of None \<Rightarrow> False | Some l \<Rightarrow> l < now)
      \<and> tr_session_id r = None \<and> class_allowed cset r)"

definition teardown_claim_where :: "task_row \<Rightarrow> task_row \<Rightarrow> bool" where
  "teardown_claim_where c r =
     (tr_id r = tr_id c \<and> tr_version r = tr_version c \<and> tr_status r = Running \<and> tr_stop_requested_at r \<noteq> None)"

definition teardown_claim_set :: "string \<Rightarrow> instant \<Rightarrow> task_row \<Rightarrow> task_row" where
  "teardown_claim_set worker lease_exp r =
     r\<lparr>tr_claimed_by := Some worker, tr_lease_expires_at := Some lease_exp, tr_version := tr_version r + 1\<rparr>"

fun teardown_loop :: "string \<Rightarrow> instant \<Rightarrow> task_row list \<Rightarrow> db \<Rightarrow> db \<times> task_row list" where
  "teardown_loop worker lease_exp [] db = (db, [])"
| "teardown_loop worker lease_exp (c # cs) db =
     (let db1 = upd (teardown_claim_where c) (teardown_claim_set worker lease_exp) db;
          (db2, claimed) = teardown_loop worker lease_exp cs db1
      in (db2, if aff (teardown_claim_where c) db > 0 then c # claimed else claimed))"

definition claim_teardowns ::
  "instant \<Rightarrow> int \<Rightarrow> string \<Rightarrow> int \<Rightarrow> string list \<Rightarrow> string list \<Rightarrow> db \<Rightarrow> db \<times> task_row list" where
  "claim_teardowns now lease worker n classes held db =
     teardown_loop worker (plus_secs now lease)
       (take (if n < 0 then 0 else nat n)
         (filter (\<lambda>r. tr_id r \<notin> set held)
           (sort_key tr_lease_expires_at
             (filter (teardown_where now (class_set classes)) (task_runs db))))) db"

definition still_held :: "db \<Rightarrow> string \<Rightarrow> string \<times> int \<Rightarrow> bool" where
  "still_held db worker h =
     (case row_of tr_id (fst h) (task_runs db) of
        None \<Rightarrow> False
      | Some r \<Rightarrow> tr_status r = Running \<and> tr_claimed_by r = Some worker \<and> tr_version r = snd h
                  \<and> tr_stop_requested_at r = None)"

definition tasks_to_stop :: "string \<Rightarrow> (string \<times> int) list \<Rightarrow> db \<Rightarrow> string list" where
  "tasks_to_stop worker held db = map fst (filter (\<lambda>h. \<not> still_held db worker h) held)"

subsection \<open>Ending the runs whose tasks are over\<close>

definition reapable :: "run_row \<Rightarrow> bool" where
  "reapable w = (wr_status w = RunRunning \<and> wr_stopping_as w = None \<and> (wr_queued_at w = None \<or> wr_admitted_at w \<noteq> None))"

definition run_tasks :: "db \<Rightarrow> string \<Rightarrow> task_row list" where
  "run_tasks db run = filter (\<lambda>r. tr_run_id r = run) (task_runs db)"

text \<open>The verdict on a run, from a reading of the tables: \<open>None\<close> while a task is not over.\<close>

definition reap_verdict :: "db \<Rightarrow> string \<Rightarrow> run_status option" where
  "reap_verdict db run =
     (if \<not> list_ex (\<lambda>w. wr_id w = run \<and> reapable w) (workflow_runs db) then None
      else
        (let ts = run_tasks db run;
             total = length ts;
             terminal = length (filter (\<lambda>r. is_terminal (tr_status r)) ts);
             failed = length (filter (\<lambda>r. tr_status r = Failed \<and> \<not> tr_allow_failure r) ts)
         in if terminal < total then None else Some (if failed > 0 then RunFailed else RunSucceeded)))"

definition reap_where :: "string \<Rightarrow> run_row \<Rightarrow> bool" where
  "reap_where run w = (wr_id w = run \<and> wr_status w = RunRunning)"

definition reap_set :: "run_status \<Rightarrow> instant \<Rightarrow> run_row \<Rightarrow> run_row" where
  "reap_set s now w =
     w\<lparr>wr_status := s, wr_finished_at := Some now, wr_completion_pending_at := None, wr_start_pending_at := None\<rparr>"

definition result_set :: "db \<Rightarrow> run_row \<Rightarrow> run_row" where
  "result_set db w =
     w\<lparr>wr_output :=
          (case find (\<lambda>r. tr_run_id r = wr_id w \<and> Some (tr_name r) = wr_result_from w) (task_runs db) of
             Some r \<Rightarrow> tr_output r | None \<Rightarrow> None)\<rparr>"

definition finalize_run :: "services \<Rightarrow> instant \<Rightarrow> string \<times> run_status \<Rightarrow> db \<Rightarrow> db \<times> bool" where
  "finalize_run sv now rs db =
     (let (run, s) = rs
      in if rows_affected (reap_where run) (workflow_runs db) = 0 then (db, False)
         else
           (let db1 = upd_runs (reap_where run) (reap_set s now) db;
                db2 = (if s = RunSucceeded
                       then upd_runs (\<lambda>w. wr_id w = run \<and> wr_result_from w \<noteq> None) (result_set db1) db1 else db1)
            in (insert_run_completed sv run (run_status_str s) now db2, True)))"

fun finalize_all :: "services \<Rightarrow> instant \<Rightarrow> (string \<times> run_status) list \<Rightarrow> db \<Rightarrow> db \<times> (string \<times> run_status) list" where
  "finalize_all sv now [] db = (db, [])"
| "finalize_all sv now (v # vs) db =
     (let (db1, won) = finalize_run sv now v db;
          (db2, rest) = finalize_all sv now vs db1
      in (db2, if won then v # rest else rest))"

text \<open>The verdicts are read before the first run is ended; a run named twice is one entry. The code
  walks them in the order of a hash map; here it is the order of the names.\<close>

definition reap :: "services \<Rightarrow> instant \<Rightarrow> string list \<Rightarrow> db \<Rightarrow> db \<times> (string \<times> run_status) list" where
  "reap sv now runs db =
     finalize_all sv now
       (List.map_filter (\<lambda>run. map_option (Pair run) (reap_verdict db run)) (remdups runs)) db"

subsection \<open>The statements meet their contracts\<close>

lemmas held_defs = held_by_def held_unstopped_def held_stopping_def quota_held_def

lemmas complete_stmts =
  held_defs succeed_set_def fail_set_def settle_set_def awaiting_where_def decide_set_def
  retry_set_def quota_set_def cancel_where_def cancel_set_def ask_where_def ask_set_def
  clear_request_where_def gang_ask_where_def gang_ask_set_def gang_cancel_where_def
  gang_cancel_set_def teardown_claim_where_def teardown_claim_set_def ready_dependent_where_def

interpretation succeed_stmt: ending_update "held_unstopped t w v" "succeed_set now out hit" for t w v now out hit
  by unfold_locales (auto simp: complete_stmts row_ok_def no_park_def has_started_def)

interpretation fail_stmt: ending_update "held_unstopped t w v" "fail_set now err" for t w v now err
  by unfold_locales (auto simp: complete_stmts row_ok_def no_park_def has_started_def)

interpretation settle_stmt: ending_update "held_stopping t w v" "settle_set now" for t w v now
  by unfold_locales (auto simp: complete_stmts row_ok_def no_park_def has_started_def)

interpretation decide_stmt: ending_update "awaiting_where run t" "decide_set sv now ok by_whom why"
  for run t sv now ok by_whom why
  by unfold_locales (auto simp: complete_stmts row_ok_def no_park_def has_started_def split: if_splits)

text \<open>A row nobody holds carries no request to stop, and can be cancelled.\<close>

lemma unheld_row:
  assumes "row_ok r" "tr_status r \<in> {Pending, Ready, AwaitingApproval} \<or> tr_status r = Running \<and> tr_claimed_by r = None"
  shows "tr_claimed_by r = None" "tr_stop_requested_at r = None" "\<not> is_terminal (tr_status r)"
    "can_reach (tr_status r) Cancelled" "tr_sub_run_id r \<noteq> None \<longrightarrow> no_park (r\<lparr>tr_sub_run_id := None\<rparr>)"
  using assms by (cases "tr_status r"; auto simp: row_ok_def)+

lemma cancel_selects:
  "cancel_where run r \<Longrightarrow> tr_status r \<in> {Pending, Ready, AwaitingApproval} \<or> tr_status r = Running \<and> tr_claimed_by r = None"
  "gang_cancel_where db m r \<Longrightarrow> tr_status r \<in> {Pending, Ready, AwaitingApproval} \<or> tr_status r = Running \<and> tr_claimed_by r = None"
  by (auto simp: cancel_where_def gang_cancel_where_def)

lemma cancelled_ok:
  assumes "tr_stop_requested_at r = None" "tr_sub_run_id r \<noteq> None \<longrightarrow> no_park (r\<lparr>tr_sub_run_id := None\<rparr>)"
  shows "row_ok (cancel_set now r)" "row_ok (gang_cancel_set now r)"
  using assms by (auto simp: row_ok_def cancel_set_def gang_cancel_set_def no_park_def)

interpretation cancel_stmt: ending_update "cancel_where run" "cancel_set now" for run now
  by unfold_locales
    (use unheld_row [OF _ cancel_selects(1)] cancelled_ok in \<open>simp_all add: cancel_set_def has_started_def\<close>)

interpretation gang_cancel_stmt: ending_update "gang_cancel_where db m" "gang_cancel_set now" for db m now
  by unfold_locales
    (use unheld_row [OF _ cancel_selects(2)] cancelled_ok in \<open>simp_all add: gang_cancel_set_def has_started_def\<close>)

interpretation release_stmt: quiet_update "held_stopping t w v" "\<lambda>r. r\<lparr>tr_lease_expires_at := l\<rparr>" for t w v l
  by unfold_locales (auto simp: complete_stmts row_ok_def no_park_def has_started_def)

interpretation renew_stmt: quiet_update "\<lambda>r. held_by t w v r \<and> tr_status r = Running" "\<lambda>r. r\<lparr>tr_lease_expires_at := l\<rparr>"
  for t w v l
  by unfold_locales (auto simp: complete_stmts row_ok_def no_park_def has_started_def)

interpretation fault_stmt: quiet_update "held_by t w v"
  "\<lambda>r. r\<lparr>tr_fault_class := a, tr_fault_detail := b, tr_fault_confidence := c\<rparr>" for t w v a b c
  by unfold_locales (auto simp: complete_stmts row_ok_def no_park_def has_started_def)

interpretation ready_dep_stmt: still_update "ready_dependent_where db t" "make_ready now" for db t now
  by unfold_locales (auto simp: complete_stmts advance_stmts row_ok_def no_park_def has_started_def)

interpretation retry_stmt: quiet_update "held_unstopped t w v" "retry_set tm err" for t w v tm err
  by unfold_locales (auto simp: complete_stmts row_ok_def no_park_def has_started_def)

interpretation quota_stmt: quiet_update "quota_held t w v" "quota_set since n tm why" for t w v since n tm why
  by unfold_locales (auto simp: complete_stmts row_ok_def no_park_def has_started_def)

interpretation ask_stmt: quiet_update "ask_where run" "ask_set now l" for run now l
  by unfold_locales (auto simp: complete_stmts row_ok_def no_park_def has_started_def split: if_splits)

interpretation gang_ask_stmt: quiet_update "gang_ask_where db m" "gang_ask_set now l" for db m now l
  by unfold_locales (auto simp: complete_stmts row_ok_def no_park_def has_started_def split: if_splits)

interpretation clear_stmt: quiet_update "clear_request_where run" "\<lambda>r. r\<lparr>tr_stop_requested_at := None\<rparr>" for run
  by unfold_locales (auto simp: complete_stmts row_ok_def no_park_def has_started_def)

interpretation teardown_stmt: quiet_update "teardown_claim_where c" "teardown_claim_set w l" for c w l
  by unfold_locales (auto simp: complete_stmts row_ok_def no_park_def has_started_def)

subsection \<open>The invariant\<close>

lemma insert_completed_from [simp]:
  "inv_from db0 D (insert_run_completed sv run s now db) = inv_from db0 D db"
  "counter_exact_debt D (insert_run_completed sv run s now db) = counter_exact_debt D db"
  "task_runs (insert_run_completed sv run s now db) = task_runs db"
  "workflow_runs (insert_run_completed sv run s now db) = workflow_runs db"
  by (rule from_cong inv_cong | simp add: insert_run_completed_def)+

lemma finish_stopped_from [simp]:
  "inv_from db0 D (fst (finish_stopped_run sv run now db)) = inv_from db0 D db"
  "counter_exact_debt D (fst (finish_stopped_run sv run now db)) = counter_exact_debt D db"
  "task_runs (fst (finish_stopped_run sv run now db)) = task_runs db"
  by (simp_all add: finish_stopped_run_def Let_def split: option.split)

lemma settle_from: "inv_from db0 D db \<Longrightarrow> inv_from db0 D (fst (settle_stopping sv t w v now db))"
  by (simp add: settle_stopping_def settle_stmt.from_forgotten split: option.split)

text \<open>The one row a key selects, and the debt of ending it.\<close>

lemma ended_held:
  assumes "tables_ok db" "aff (held_unstopped t w v) db \<noteq> 0"
  shows "map tr_id (filter (held_unstopped t w v) (task_runs db)) = [t]"
proof -
  have "held_unstopped t w v = (\<lambda>r. tr_id r = t \<and> (tr_claimed_by r = Some w \<and> tr_version r = v \<and> tr_stop_requested_at r = None))"
    by (auto simp: held_defs)
  then show ?thesis
    using selected_key [of tr_id "task_runs db" t "\<lambda>r. tr_claimed_by r = Some w \<and> tr_version r = v \<and> tr_stop_requested_at r = None"]
      assms by (simp add: tables_ok_def aff_def)
qed

lemma ended_awaiting:
  assumes "tables_ok db" "aff (awaiting_where run t) db \<noteq> 0"
  shows "map tr_id (filter (awaiting_where run t) (task_runs db)) = [t]"
  using selected_key [of tr_id "task_runs db" t "\<lambda>r. tr_run_id r = run \<and> tr_status r = AwaitingApproval"] assms
  by (simp add: tables_ok_def aff_def awaiting_where_def [abs_def])

lemma succeed_paid:
  assumes "aff (held_unstopped t w v) db \<noteq> 0"
  shows "inv_from db0 D db \<Longrightarrow> inv_from db0 D (decrement_dependents t (upd (held_unstopped t w v) (succeed_set now out hit) db))"
    and "tables_ok db \<Longrightarrow> counter_exact_debt D db \<Longrightarrow>
           counter_exact_debt D (decrement_dependents t (upd (held_unstopped t w v) (succeed_set now out hit) db))"
  using succeed_stmt.from_owed [of db0 D db t w v now out hit] succeed_stmt.exact_owed [of db D t w v now out hit]
    ended_held [OF _ assms] from_tables [of db0 D db]
  by (auto intro: decrement_from decrement_exact)

lemma fail_paid:
  assumes "aff (held_unstopped t w v) db \<noteq> 0"
  shows "inv_from db0 D db \<Longrightarrow> inv_from db0 D (decrement_dependents t (upd (held_unstopped t w v) (fail_set now err) db))"
    and "tables_ok db \<Longrightarrow> counter_exact_debt D db \<Longrightarrow>
           counter_exact_debt D (decrement_dependents t (upd (held_unstopped t w v) (fail_set now err) db))"
  using fail_stmt.from_owed [of db0 D db t w v now err] fail_stmt.exact_owed [of db D t w v now err]
    ended_held [OF _ assms] from_tables [of db0 D db]
  by (auto intro: decrement_from decrement_exact)

text \<open>The dependents readied with a success are of the default shape, and their rule is met.\<close>

lemma ready_dep_from:
  "inv_from db0 D db \<Longrightarrow> inv_from db0 D (upd (ready_dependent_where db t) (make_ready now) db)"
  by (rule ready_dep_stmt.from_begun) (auto simp: ready_dependent_where_def dest: ready_default_rule)

lemma succeeded_from: "inv_from db0 D db \<Longrightarrow> inv_from db0 D (fst (mark_task_succeeded_inner sv now t w v out hit db))"
  by (simp add: mark_task_succeeded_inner_def Let_def settle_from ready_dep_from succeed_paid)

lemma failed_from: "inv_from db0 D db \<Longrightarrow> inv_from db0 D (fst (mark_task_failed sv now t w v err db))"
  by (simp add: mark_task_failed_def settle_from fail_paid)

lemma decided_paid:
  assumes "aff (awaiting_where run t) db \<noteq> 0"
  shows "inv_from db0 D db \<Longrightarrow> inv_from db0 D (decrement_dependents t (upd (awaiting_where run t) (decide_set sv now ok who why) db))"
    and "tables_ok db \<Longrightarrow> counter_exact_debt D db \<Longrightarrow>
           counter_exact_debt D (decrement_dependents t (upd (awaiting_where run t) (decide_set sv now ok who why) db))"
  using decide_stmt.from_owed [of db0 D db run t sv now ok who why] decide_stmt.exact_owed [of db D run t sv now ok who why]
    ended_awaiting [OF _ assms] from_tables [of db0 D db]
  by (auto intro: decrement_from decrement_exact)

lemma approval_from: "inv_from db0 D db \<Longrightarrow> inv_from db0 D (fst (resolve_approval sv now run t ok who why db))"
  by (simp add: resolve_approval_def Let_def decide_stmt.from_forgotten decided_paid)

lemma expire_from: "inv_from db0 D db \<Longrightarrow> inv_from db0 D (fst (expire_approvals sv now clock rs db))"
  by (induction rs arbitrary: db)
    (auto simp: Let_def case_prod_unfold approval_from split: option.split)

lemma record_attempt_rest [simp]:
  "task_runs (record_attempt p now t a e out db) = task_runs db"
  "task_deps (record_attempt p now t a e out db) = task_deps db"
  by (simp_all add: record_attempt_def Let_def)

lemma retry_from: "inv_from db0 D db \<Longrightarrow> inv_from db0 D (fst (retry_task sv p now t w v err tm e db))"
  by (simp add: retry_task_def settle_from retry_stmt.from_kept split: option.split)
    (metis from_cong record_attempt_rest retry_stmt.from_kept)

lemma quota_from: "inv_from db0 D db \<Longrightarrow> inv_from db0 D (fst (requeue_quota_wait sv dl now t w v why m db))"
  by (simp add: requeue_quota_wait_def settle_from quota_stmt.from_kept
      split: option.split quota_step.split)

lemma lease_ops_from:
  "inv_from db0 D db \<Longrightarrow> inv_from db0 D (fst (renew_task_lease now t w v n db))"
  "inv_from db0 D db \<Longrightarrow> inv_from db0 D (fst (record_task_fault t w v c d k db))"
  "inv_from db0 D db \<Longrightarrow> inv_from db0 D (fst (release_stopping_task now t w v n db))"
  by (simp_all add: renew_task_lease_def record_task_fault_def release_stopping_task_def
      renew_stmt.from_kept fault_stmt.from_kept release_stmt.from_kept)

lemma stop_run_tasks_from: "inv_from db0 D db \<Longrightarrow> inv_from db0 D (fst (stop_run_tasks lease run now db))"
  by (simp add: stop_run_tasks_def Let_def ask_stmt.from_kept cancel_stmt.from_forgotten)

lemma cancel_run_from: "inv_from db0 D db \<Longrightarrow> inv_from db0 D (fst (cancel_run sv lease now run db))"
  by (simp add: cancel_run_def Let_def case_prod_unfold stop_run_tasks_from)

lemma stop_and_finish_from: "inv_from db0 D db \<Longrightarrow> inv_from db0 D (stop_and_finish sv lease now run db)"
  by (simp add: stop_and_finish_def stop_run_tasks_from)

lemma fold_from: "(\<And>x db. inv_from db0 D db \<Longrightarrow> inv_from db0 D (f x db)) \<Longrightarrow> inv_from db0 D db \<Longrightarrow> inv_from db0 D (fold f xs db)"
  by (induction xs arbitrary: db) simp_all

lemma cancel_overdue_from: "inv_from db0 D db \<Longrightarrow> inv_from db0 D (fst (cancel_overdue_runs sv lease now db))"
  by (simp add: cancel_overdue_runs_def Let_def fold_from stop_and_finish_from)

lemma end_stranded_from: "inv_from db0 D db \<Longrightarrow> inv_from db0 D (fst (end_stranded sv lease clock runs db))"
  by (induction runs arbitrary: db)
    (simp_all add: Let_def case_prod_unfold clear_stmt.from_kept stop_run_tasks_from)

lemma gang_siblings_from: "inv_from db0 D db \<Longrightarrow> inv_from db0 D (fst (cancel_gang_siblings lease now m db))"
  by (simp add: cancel_gang_siblings_def Let_def gang_ask_stmt.from_kept gang_cancel_stmt.from_forgotten)

lemma teardown_from: "inv_from db0 D db \<Longrightarrow> inv_from db0 D (fst (teardown_loop w l cs db))"
  by (induction cs arbitrary: db)
    (simp_all add: Let_def case_prod_unfold teardown_stmt.from_kept)

lemma finalize_run_from [simp]:
  "inv_from db0 D (fst (finalize_run sv now v db)) = inv_from db0 D db"
  "counter_exact_debt D (fst (finalize_run sv now v db)) = counter_exact_debt D db"
  "task_runs (fst (finalize_run sv now v db)) = task_runs db"
  by (simp_all add: finalize_run_def Let_def case_prod_unfold)

lemma finalize_all_from [simp]:
  "inv_from db0 D (fst (finalize_all sv now vs db)) = inv_from db0 D db"
  "counter_exact_debt D (fst (finalize_all sv now vs db)) = counter_exact_debt D db"
  by (induction vs arbitrary: db) (simp_all add: Let_def case_prod_unfold)

end
