(* ===== verification/Complete_Props.thy ===== *)
theory Complete_Props
  imports Complete
begin

text \<open>
  What completing, handing back and stopping do: an old fence changes nothing, a success wakes
  its dependents, a stop is final, a cancelled run has nothing left that could start, the attempt
  log is bounded, and a run ends exactly when its tasks are over.
\<close>

lemma unselected:
  assumes "\<not> list_ex q (task_runs db)" "\<And>r. p r \<Longrightarrow> q r"
  shows "aff p db = 0" "find p (task_runs db) = None" "upd p f db = db"
proof -
  have "\<not> p r" if "r \<in> set (task_runs db)" for r using assms that by (auto simp: list_ex_iff)
  then show "aff p db = 0" "find p (task_runs db) = None" "upd p f db = db"
    by (simp_all add: aff_def rows_affected_0 find_None_iff upd_def update_where_none)
qed

subsection \<open>Fences\<close>



subsection \<open>Success wakes its dependents\<close>

text \<open>A success is not left for the next sweep: when it was the last thing a task of the
  default shape waited for, and everything else that task waited for had succeeded, the task is
  ready when the call returns.\<close>

theorem success_readies_dependents:
  assumes ok: "tables_ok db"
    and held: "r \<in> set (task_runs db)" "held_unstopped t w v r"
    and q: "q \<in> set (task_runs db)" "tr_status q = Pending" "tr_remaining_deps q = 1" "(tr_id q, t) \<in> set (task_deps db)"
    and shape: "tr_trigger_rule q = ''all_success''" "\<not> tr_is_approval q" "tr_fanout_of q = None" "tr_input q = None"
    and others: "\<forall>d \<in> set (dep_rows db (tr_id q)). tr_id d \<noteq> t \<longrightarrow> tr_status d = Succeeded"
  shows "\<exists>q' \<in> set (task_runs (fst (mark_task_succeeded_inner sv now t w v out hit db))).
    tr_id q' = tr_id q \<and> tr_status q' = Ready \<and> tr_remaining_deps q' = 0 \<and> tr_scheduled_at q' = Some now"
proof -
  let ?db0 = "upd (held_unstopped t w v) (succeed_set now out hit) db"
  let ?db1 = "decrement_dependents t ?db0"
  have n: "aff (held_unstopped t w v) db \<noteq> 0" using held by (auto simp: aff_def rows_affected_0)
  have key: "r1 = r" if "r1 \<in> set (task_runs db)" "tr_id r1 = t" for r1
    using that held ok by (auto simp: held_defs tables_ok_def dest: distinct_key_eq)
  have run: "tr_status r = Running"
    using tables_ok_row [OF ok held(1)] held(2) by (auto simp: row_ok_def held_defs)
  have q0: "q \<in> set (task_runs ?db0)"
    using q(1,2) run key [OF q(1)] by (force simp: set_update_where held_defs)
  then have q1: "counted_down q \<in> set (task_runs ?db1)"
    using q(2,4) by (force simp: decrement_runs set_update_where)
  have "tr_status d = Succeeded" if d: "d \<in> set (dep_rows ?db1 (tr_id q))" for d
  proof -
    from d have "d \<in> set (task_runs ?db1)" "(tr_id q, tr_id d) \<in> set (task_deps db)"
      by (auto simp: set_dep_rows)
    moreover from this(1) obtain d0 where d0: "d0 \<in> set (task_runs ?db0)" "tr_id d = tr_id d0" "tr_status d = tr_status d0"
      by (rule decrement_row) (simp split: if_splits)
    moreover from d0(1) obtain d1 where d1: "d1 \<in> set (task_runs db)"
      "d0 = (if held_unstopped t w v d1 then succeed_set now out hit d1 else d1)"
      by (auto elim!: in_update_whereE)
    moreover from d1 have "tr_id d0 = tr_id d1" by (simp add: succeed_set_def)
    ultimately have dep: "d1 \<in> set (dep_rows db (tr_id q))" by (simp add: set_dep_rows)
    show ?thesis
    proof (cases "tr_id d1 = t")
      case True
      then have "held_unstopped t w v d1" using key [OF d1(1)] held(2) by simp
      then show ?thesis using d0(3) d1(2) by (simp add: succeed_set_def)
    next
      case False
      then show ?thesis
        using others dep d0(3) d1(2) by (auto simp: succeed_set_def)
    qed
  qed
  then have "ready_dependent_where ?db1 t (counted_down q)"
    using q shape
    by (auto simp: ready_dependent_where_def ready_default_where_def default_shape_def some_dep_not_succeeded_def
        list_ex_iff set_dependent_ids counted_down_def)
  then have "make_ready now (counted_down q) \<in> set (task_runs (fst (mark_task_succeeded_inner sv now t w v out hit db)))"
    using q1 n by (auto simp: mark_task_succeeded_inner_def Let_def set_update_where)
  moreover have "tr_remaining_deps (make_ready now (counted_down q)) = 0" "tr_scheduled_at (make_ready now (counted_down q)) = Some now"
    "tr_id (make_ready now (counted_down q)) = tr_id q" "tr_status (make_ready now (counted_down q)) = Ready"
    using q(3) by (simp_all add: make_ready_def)
  ultimately show ?thesis by blast
qed

definition example_services :: services where
  "example_services = \<lparr>sv_rfc3339 = (\<lambda>t. int_to_string t), sv_uuid = id, sv_payload = (\<lambda>r s. s)\<rparr>"

theorem success_readies_dependents_witness:
  "\<exists>q' \<in> set (task_runs (fst (mark_task_succeeded_inner example_services 9 ''a'' ''w'' 3 None False one_running))).
     tr_id q' = ''c'' \<and> tr_status q' = Ready \<and> tr_remaining_deps q' = 0 \<and> tr_scheduled_at q' = Some 9"
proof -
  let ?r = "running_task ''a'' ''w'' 3" and ?q = "example_task ''c'' Pending 1"
  have "?r \<in> set (task_runs one_running)" "?q \<in> set (task_runs one_running)"
    by (simp_all add: one_running_def example_db_def)
  moreover have "held_unstopped ''a'' ''w'' 3 ?r" "tr_status ?q = Pending" "tr_remaining_deps ?q = 1"
    "(tr_id ?q, ''a'') \<in> set (task_deps one_running)"
    "tr_trigger_rule ?q = ''all_success''" "\<not> tr_is_approval ?q" "tr_fanout_of ?q = None" "tr_input ?q = None"
    "\<forall>d \<in> set (dep_rows one_running (tr_id ?q)). tr_id d \<noteq> ''a'' \<longrightarrow> tr_status d = Succeeded"
    by code_simp+
  ultimately show ?thesis
    using success_readies_dependents [OF one_running_ok, of ?r "''a''" "''w''" 3 ?q example_services 9 None False]
    by (simp add: example_task_def)
qed

subsection \<open>A stop is final\<close>

lemma held_unique:
  assumes "tables_ok db" "r \<in> set (task_runs db)" "held_stopping t w v r"
  shows "find (held_stopping t w v) (task_runs db) = Some r"
    and "list_ex (held_unstopped t w v) (task_runs db) = False"
    and "update_where (held_stopping t w v) f (task_runs db) = update_where (\<lambda>q. tr_id q = t) f (task_runs db)"
proof -
  have key: "q = r" if "q \<in> set (task_runs db)" "tr_id q = t" for q
    using that assms by (auto simp: held_defs tables_ok_def dest: distinct_key_eq)
  then have only: "held_stopping t w v q \<longleftrightarrow> q = r" "tr_id q = t \<longleftrightarrow> q = r" if "q \<in> set (task_runs db)" for q
    using that assms(3) by (auto simp: held_defs)
  have "find (held_stopping t w v) (task_runs db) \<noteq> None"
    using assms(2,3) by (auto simp: find_None_iff)
  then show "find (held_stopping t w v) (task_runs db) = Some r"
    using only(1) by (metis find_Some_iff not_None_eq nth_mem)
  show "list_ex (held_unstopped t w v) (task_runs db) = False"
    using key assms(3) by (auto simp: list_ex_iff held_defs)
  show "update_where (held_stopping t w v) f (task_runs db) = update_where (\<lambda>q. tr_id q = t) f (task_runs db)"
    using only by (intro update_where_cong) simp
qed

text \<open>C31. Once a task is asked to stop, nothing its worker reports can turn the stop into
  something else: success, failure, retry and quota wait all end the row as cancelled, change
  no other row, and say no; the run ends as it was told to when no stop is left open in it.\<close>

theorem stop_is_final:
  assumes "tables_ok db" "r \<in> set (task_runs db)" "held_stopping t w v r"
  shows "mark_task_succeeded_inner sv now t w v out hit db = (fst (settle_stopping sv t w v now db), False)
    \<and> mark_task_failed sv now t w v err db = (fst (settle_stopping sv t w v now db), False)
    \<and> retry_task sv p now t w v err tm e db = (fst (settle_stopping sv t w v now db), False)
    \<and> requeue_quota_wait sv dl now t w v why m db = (fst (settle_stopping sv t w v now db), Stale)
    \<and> task_runs (fst (settle_stopping sv t w v now db)) = update_where (\<lambda>q. tr_id q = t) (settle_set now) (task_runs db)
    \<and> fst (settle_stopping sv t w v now db) =
        fst (finish_stopped_run sv (tr_run_id r) now (upd (\<lambda>q. tr_id q = t) (settle_set now) db))"
proof -
  note one = held_unique [OF assms]
  have no: "\<not> list_ex (held_unstopped t w v) (task_runs db)" using one(2) by simp
  have q: "quota_held t w v x \<Longrightarrow> held_unstopped t w v x" for x by (simp add: held_defs)
  note none = unselected [OF no, of "held_unstopped t w v", OF imp_refl [THEN mp]]
  have settle: "fst (settle_stopping sv t w v now db) =
      fst (finish_stopped_run sv (tr_run_id r) now (upd (\<lambda>q. tr_id q = t) (settle_set now) db))"
    by (simp add: settle_stopping_def one(1) upd_def one(3))
  then show ?thesis
    by (simp add: mark_task_succeeded_inner_def mark_task_failed_def retry_task_def requeue_quota_wait_def
        none unselected(2) [OF no q])
qed

theorem stop_is_final_witness:
  "mark_task_succeeded_inner example_services 9 ''a'' ''w'' 3 None False one_stopping =
     (fst (settle_stopping example_services ''a'' ''w'' 3 9 one_stopping), False)"
proof -
  let ?r = "(running_task ''a'' ''w'' 3)\<lparr>tr_stop_requested_at := Some 5\<rparr>"
  have "tables_ok one_stopping" "?r \<in> set (task_runs one_stopping)" "held_stopping ''a'' ''w'' 3 ?r"
    by code_simp+
  from stop_is_final [OF this, of example_services 9] show ?thesis by simp
qed

subsection \<open>Cancelling a run\<close>

text \<open>What is left of a run's rows after its tasks were told to stop.\<close>

definition stopped_row :: "task_row \<Rightarrow> bool" where
  "stopped_row r =
     (is_terminal (tr_status r)
      \<or> tr_status r = Running \<and> tr_claimed_by r \<noteq> None \<and> tr_stop_requested_at r \<noteq> None)"

lemma stop_run_tasks_rows:
  assumes "r \<in> set (task_runs (fst (stop_run_tasks lease run now db)))" "tr_run_id r = run"
  shows "stopped_row r"
proof -
  from assms(1) obtain r1 r0 where
    r0: "r1 = (if cancel_where run r0 then cancel_set now r0 else r0)"
    and r: "r = (if ask_where run r1 then ask_set now (plus_secs now lease) r1 else r1)"
    by (auto simp: stop_run_tasks_def Let_def elim!: in_update_whereE)
  show ?thesis
  proof (cases "cancel_where run r0")
    case True
    then have "is_terminal (tr_status r)" using r0 r by (simp add: ask_where_def cancel_set_def)
    then show ?thesis by (simp add: stopped_row_def)
  next
    case False
    then have "r1 = r0" "tr_run_id r0 = run" using r0 r assms(2) by (auto simp: ask_set_def split: if_splits)
    then show ?thesis
      using False r by (cases "tr_status r0") (auto simp: stopped_row_def cancel_where_def ask_where_def ask_set_def)
  qed
qed

text \<open>A held row stays held while it is asked to stop.\<close>

definition held_in :: "string \<Rightarrow> task_row \<Rightarrow> bool" where
  "held_in run r = (tr_run_id r = run \<and> tr_status r = Running \<and> tr_claimed_by r \<noteq> None)"

lemma stop_run_tasks_held:
  "list_ex (held_in run) (task_runs (fst (stop_run_tasks lease run now db))) = list_ex (held_in run) (task_runs db)"
proof -
  have "list_ex (held_in run) (update_where (ask_where run) (ask_set now l) xs) = list_ex (held_in run) xs" for l xs
    by (rule list_ex_update_where) (simp add: held_in_def ask_set_def)
  moreover have "list_ex (held_in run) (update_where (cancel_where run) (cancel_set now) xs) = list_ex (held_in run) xs" for xs
    by (induction xs) (auto simp: update_where_def held_in_def cancel_where_def cancel_set_def)
  ultimately show ?thesis by (simp add: stop_run_tasks_def Let_def)
qed

lemma still_stopping_held:
  assumes "\<And>r. r \<in> set (task_runs db) \<Longrightarrow> tr_run_id r = run \<Longrightarrow> stopped_row r"
    and "list_all row_ok (task_runs db)"
  shows "still_stopping db run = list_ex (held_in run) (task_runs db)"
proof -
  have "(tr_run_id r = run \<and> tr_status r = Running \<and> tr_stop_requested_at r \<noteq> None) = held_in run r"
    if "r \<in> set (task_runs db)" for r
    using assms(1) [OF that] assms(2) that
    by (cases "tr_status r") (auto simp: held_in_def stopped_row_def row_ok_def list_all_iff)
  then show ?thesis unfolding still_stopping_def list_ex_iff by auto
qed

text \<open>The end of a run that a single row carries.\<close>

lemma find_key:
  assumes "distinct (map key rs)" "w \<in> set rs" "\<And>x. p x \<Longrightarrow> key x = key w"
  shows "find p rs = (if p w then Some w else None)"
proof -
  have "p x \<longleftrightarrow> x = w \<and> p w" if "x \<in> set rs" for x
    using assms that distinct_key_eq [OF assms(1)] by metis
  then have "find p rs = find (\<lambda>x. x = w \<and> p w) rs" by (intro find_cong) auto
  moreover have "find (\<lambda>x. x = w) rs = Some w" using assms(2) by (induction rs) auto
  ultimately show ?thesis by (cases "p w") (simp_all add: find_None_iff)
qed

text \<open>C32. Cancelling a running run leaves nothing in it that could still start: every task of it
  is over, or is held by a worker and asked to stop. The run itself ends at once, with one
  completion event, exactly when no worker holds a task of it, and otherwise is on its way to
  the same end.\<close>

theorem cancel_run_stops_everything:
  fixes sv :: services and lease :: int and now :: instant
  assumes ok: "tables_ok db" and keys: "distinct (map wr_id (workflow_runs db))"
    and w: "w \<in> set (workflow_runs db)" "wr_id w = run" "wr_status w = RunRunning"
  defines "db' \<equiv> fst (cancel_run sv lease now run db)"
    and "goal \<equiv> (case wr_stopping_as w of Some s \<Rightarrow> s | None \<Rightarrow> RunCancelled)"
  shows "(\<forall>r \<in> set (task_runs db'). tr_run_id r = run \<longrightarrow> stopped_row r)
    \<and> (if list_ex (held_in run) (task_runs db)
       then event_outbox db' = event_outbox db
            \<and> (\<exists>w' \<in> set (workflow_runs db'). wr_id w' = run \<and> wr_status w' = RunRunning \<and> wr_stopping_as w' = Some goal)
       else (\<exists>w' \<in> set (workflow_runs db'). wr_id w' = run \<and> wr_status w' = goal \<and> wr_finished_at w' = Some now)
            \<and> (\<exists>e. event_outbox db' = event_outbox db @ [e] \<and> ev_run_id e = run \<and> ev_type e = ''run.completed''
                   \<and> ev_payload e = sv_payload sv run (run_status_str goal)))"
proof -
  let ?asked = "upd_runs (cancel_run_where run) (cancel_run_set now) db"
  let ?db1 = "fst (stop_run_tasks lease run now ?asked)"
  let ?w1 = "cancel_run_set now w"
  have db': "db' = fst (finish_stopped_run sv run now ?db1)"
    using w by (auto simp: db'_def cancel_run_def Let_def case_prod_unfold rows_affected_0 cancel_run_where_def)
  have tasks: "task_runs db' = task_runs ?db1" by (simp add: db')
  have runs: "workflow_runs ?db1 = update_where (cancel_run_where run) (cancel_run_set now) (workflow_runs db)"
    and outbox: "event_outbox ?db1 = event_outbox db"
    by (simp_all add: stop_run_tasks_def Let_def)
  have w1: "?w1 \<in> set (workflow_runs ?db1)"
    using w by (simp only: runs) (rule updated_in; simp add: cancel_run_where_def)
  have keys1: "distinct (map wr_id (workflow_runs ?db1))"
    using keys by (simp add: runs map_key_update_where cancel_run_set_def)
  have stopped: "stopped_row r" if "r \<in> set (task_runs ?db1)" "tr_run_id r = run" for r
    using that by (rule stop_run_tasks_rows)
  have "tables_ok ?db1"
    using ok ask_stmt.tables_kept cancel_stmt.tables_kept by (simp add: stop_run_tasks_def Let_def)
  then have held: "still_stopping ?db1 run = list_ex (held_in run) (task_runs db)"
    using still_stopping_held [OF stopped] by (simp add: tables_ok_def stop_run_tasks_held)
  have w1_fields: "wr_id ?w1 = run" "wr_status ?w1 = RunRunning" "wr_stopping_as ?w1 = Some goal"
    using w by (simp_all add: cancel_run_set_def goal_def)
  have found: "find (finish_stopped_where ?db1 run) (workflow_runs ?db1) =
      (if list_ex (held_in run) (task_runs db) then None else Some ?w1)"
    using find_key [OF keys1 w1, of "finish_stopped_where ?db1 run"]
    by (simp add: finish_stopped_where_def w1_fields held)
  show ?thesis
  proof (cases "list_ex (held_in run) (task_runs db)")
    case True
    then have "update_where (finish_stopped_where ?db1 run) (finish_stopped_set now) (workflow_runs ?db1) = workflow_runs ?db1"
      by (intro update_where_none) (simp add: finish_stopped_where_def held)
    then have "workflow_runs db' = workflow_runs ?db1" "event_outbox db' = event_outbox db"
      using True outbox by (simp_all add: db' finish_stopped_run_def Let_def found)
    then show ?thesis using True stopped tasks w1 w1_fields by auto
  next
    case False
    have "finish_stopped_where ?db1 run ?w1" using False by (simp add: finish_stopped_where_def w1_fields held)
    then have "finish_stopped_set now ?w1 \<in> set (workflow_runs db')"
      using w1 False by (simp add: db' finish_stopped_run_def Let_def found updated_in)
    moreover have "event_outbox db' = event_outbox db @
        [\<lparr>ev_id = sv_uuid sv run, ev_run_id = run, ev_type = ''run.completed'',
          ev_payload = sv_payload sv run (run_status_str goal), ev_status = ''pending'', ev_attempts = 0,
          ev_next_attempt_at = now, ev_created_at = now\<rparr>]"
      using False outbox w1_fields
      by (simp add: db' finish_stopped_run_def Let_def found insert_run_completed_def finish_stopped_set_def)
    moreover have "wr_id (finish_stopped_set now ?w1) = run" "wr_status (finish_stopped_set now ?w1) = goal"
      "wr_finished_at (finish_stopped_set now ?w1) = Some now"
      using w1_fields by (simp_all add: finish_stopped_set_def)
    ultimately show ?thesis using False stopped tasks by auto
  qed
qed

theorem cancel_run_stops_everything_witness:
  "list_all stopped_row (run_tasks (fst (cancel_run example_services 30 9 ''r'' one_running)) ''r'')"
proof -
  have "distinct (map wr_id (workflow_runs one_running))" "example_run ''r'' \<in> set (workflow_runs one_running)"
    "wr_id (example_run ''r'') = ''r''" "wr_status (example_run ''r'') = RunRunning"
    by (simp_all add: one_running_def example_db_def example_run_def)
  from cancel_run_stops_everything [OF one_running_ok this, of example_services 30 9] show ?thesis
    by (simp add: run_tasks_def list_all_iff)
qed

subsection \<open>Ending finished runs\<close>

lemma finalize_other:
  assumes "run \<noteq> fst v"
  shows "list_ex (reap_where run) (workflow_runs (fst (finalize_run sv now v db))) = list_ex (reap_where run) (workflow_runs db)"
proof -
  have "list_ex (reap_where run) (update_where (\<lambda>w. wr_id w = fst v \<and> q w) f xs) = list_ex (reap_where run) xs"
    if "\<And>w. wr_id (f w) = wr_id w" for q f xs
    using assms that by (induction xs) (auto simp: update_where_def reap_where_def)
  then have "list_ex (reap_where run) (update_where (reap_where (fst v)) (reap_set s now) xs) = list_ex (reap_where run) xs"
    "list_ex (reap_where run) (update_where (\<lambda>w. wr_id w = fst v \<and> wr_result_from w \<noteq> None) (result_set d) xs) = list_ex (reap_where run) xs"
    for s d xs
    by (simp_all add: reap_where_def [of "fst v", abs_def] reap_set_def result_set_def)
  then show ?thesis
    by (simp add: finalize_run_def Let_def case_prod_unfold)
qed

lemma finalize_all_wins:
  assumes "distinct (map fst vs)" "\<And>v. v \<in> set vs \<Longrightarrow> list_ex (reap_where (fst v)) (workflow_runs db)"
  shows "snd (finalize_all sv now vs db) = vs"
  using assms
proof (induction vs arbitrary: db)
  case (Cons v vs)
  have "snd (finalize_run sv now v db)"
    using Cons.prems(2) [of v]
    by (auto simp: finalize_run_def Let_def case_prod_unfold rows_affected_0 list_ex_iff)
  moreover have "list_ex (reap_where (fst u)) (workflow_runs (fst (finalize_run sv now v db)))" if "u \<in> set vs" for u
  proof -
    have "fst u \<noteq> fst v" using Cons.prems(1) that by (auto simp: image_iff)
    then show ?thesis using Cons.prems(2) [of u] that by (simp add: finalize_other)
  qed
  ultimately show ?case
    using Cons by (simp add: Let_def case_prod_unfold)
qed simp

lemma finalize_all_tasks: "task_runs (fst (finalize_all sv now vs db)) = task_runs db"
  by (induction vs arbitrary: db) (simp_all add: Let_def case_prod_unfold)

lemma finalize_events:
  "\<exists>es. event_outbox (fst (finalize_all sv now vs db)) = event_outbox db @ es
     \<and> map (\<lambda>e. (ev_run_id e, ev_payload e)) es =
       map (\<lambda>v. (fst v, sv_payload sv (fst v) (run_status_str (snd v)))) (snd (finalize_all sv now vs db))"
proof (induction vs arbitrary: db)
  case (Cons v vs)
  have "event_outbox (fst (finalize_run sv now v db)) = event_outbox db @
      (if snd (finalize_run sv now v db)
       then [\<lparr>ev_id = sv_uuid sv (fst v), ev_run_id = fst v, ev_type = ''run.completed'',
              ev_payload = sv_payload sv (fst v) (run_status_str (snd v)), ev_status = ''pending'', ev_attempts = 0,
              ev_next_attempt_at = now, ev_created_at = now\<rparr>] else [])"
    by (simp add: finalize_run_def Let_def case_prod_unfold insert_run_completed_def)
  with Cons.IH [of "fst (finalize_run sv now v db)"] show ?case
    by (auto simp: Let_def case_prod_unfold)
qed simp

lemma verdict_iff:
  "reap_verdict db run = Some s \<longleftrightarrow>
     list_ex (\<lambda>w. wr_id w = run \<and> reapable w) (workflow_runs db)
     \<and> (\<forall>r \<in> set (task_runs db). tr_run_id r = run \<longrightarrow> is_terminal (tr_status r))
     \<and> s = (if \<exists>r \<in> set (task_runs db). tr_run_id r = run \<and> tr_status r = Failed \<and> \<not> tr_allow_failure r
            then RunFailed else RunSucceeded)"
proof -
  let ?ts = "run_tasks db run"
  have "length (filter (\<lambda>r. is_terminal (tr_status r)) ?ts) < length ?ts \<longleftrightarrow> \<not> (\<forall>r \<in> set ?ts. is_terminal (tr_status r))"
    by (metis filter_True length_filter_less less_irrefl)
  moreover have "0 < length (filter (\<lambda>r. tr_status r = Failed \<and> \<not> tr_allow_failure r) ?ts) \<longleftrightarrow>
      (\<exists>r \<in> set ?ts. tr_status r = Failed \<and> \<not> tr_allow_failure r)"
    by (auto simp: filter_empty_conv)
  moreover have "set ?ts = {r \<in> set (task_runs db). tr_run_id r = run}" by (simp add: run_tasks_def)
  ultimately show ?thesis by (auto simp: reap_verdict_def Let_def simp del: length_greater_0_conv)
qed


definition failed_run :: db where
  "failed_run = example_db [example_task ''a'' Succeeded 0, example_task ''b'' Failed 0] []"


subsection \<open>What a decision writes\<close>

definition line_free :: "string \<Rightarrow> bool" where
  "line_free s = (CHR 0x0A \<notin> set s \<and> CHR 0x0D \<notin> set s)"

lemma line_free_append [simp]: "line_free (s @ t) = (line_free s \<and> line_free t)"
  by (auto simp: line_free_def)

lemma line_free_Nil [simp]: "line_free []"
  by (simp add: line_free_def)

lemma one_line_free: "line_free (one_line s)"
proof -
  have "set (replace_char a b s) \<subseteq> (set s - {a}) \<union> set b" for a b s
    by (auto simp: replace_char_def split: if_splits)
  then have "CHR 0x0A \<notin> set (one_line s)" "set (one_line s) \<subseteq> set (replace_char CHR 0x0D [CHR 0x5C, CHR ''r''] s) \<union> {CHR 0x5C, CHR ''n''}"
    "CHR 0x0D \<notin> set (replace_char CHR 0x0D [CHR 0x5C, CHR ''r''] s)"
    unfolding one_line_def by fastforce+
  then show ?thesis by (auto simp: line_free_def)
qed

text \<open>The log line of an approval cannot be forged through the names it carries: whatever the
  approver's name and the comment contain, the log is one line that begins with the verdict, and
  at most one more that begins with \<open>comment: \<close>. The timestamp is the only part trusted.\<close>

theorem approval_log_lines:
  assumes "line_free at_text"
  shows "\<exists>l rest. approval_log approve who why at_text = (if approve then ''approved by '' else ''rejected by '') @ l @ rest
    \<and> line_free l
    \<and> (rest = [] \<or> (\<exists>c. rest = [CHR 0x0A] @ ''comment: '' @ c \<and> line_free c \<and> c \<noteq> []))"
proof -
  let ?who = "case who of Some d \<Rightarrow> d | None \<Rightarrow> ''unknown''"
  let ?l = "one_line ?who @ '' at '' @ at_text"
  let ?rest = "case why of None \<Rightarrow> [] | Some c \<Rightarrow> if trim c = [] then [] else [CHR 0x0A] @ ''comment: '' @ one_line (trim c)"
  have "replace_char a (b # bs) s \<noteq> []" if "s \<noteq> []" for a b bs s
    using that by (cases s) (simp_all add: replace_char_def)
  then have ne: "one_line s \<noteq> []" if "s \<noteq> []" for s
    using that unfolding one_line_def by blast
  have "approval_log approve who why at_text = (if approve then ''approved by '' else ''rejected by '') @ ?l @ ?rest"
    by (simp add: approval_log_def Let_def split: option.split)
  moreover have "line_free ?l" using assms by (simp add: one_line_free) (simp add: line_free_def)
  moreover have "?rest = [] \<or> (\<exists>c. ?rest = [CHR 0x0A] @ ''comment: '' @ c \<and> line_free c \<and> c \<noteq> [])"
  proof (cases "\<exists>c. why = Some c \<and> trim c \<noteq> []")
    case True
    then obtain c where "why = Some c" "trim c \<noteq> []" by blast
    then show ?thesis using one_line_free ne by (intro disjI2 exI [of _ "one_line (trim c)"]) simp
  next
    case False
    then show ?thesis by (auto split: option.split)
  qed
  ultimately show ?thesis by blast
qed

theorem approval_log_lines_witness:
  "\<exists>l rest. approval_log True (Some (''eve'' @ [CHR 0x0A] @ ''rejected by bob'')) None ''noon'' = ''approved by '' @ l @ rest
     \<and> line_free l
     \<and> (rest = [] \<or> (\<exists>c. rest = [CHR 0x0A] @ ''comment: '' @ c \<and> line_free c \<and> c \<noteq> []))"
proof -
  have "line_free ''noon''" by (simp add: line_free_def)
  from approval_log_lines [OF this, of True] show ?thesis by simp
qed

subsection \<open>The attempt log\<close>

definition attempts_of :: "string \<Rightarrow> db \<Rightarrow> attempt_row list" where
  "attempts_of t db = filter (\<lambda>a. at_task_id a = t) (task_attempts db)"

lemma card_window:
  assumes "distinct xs" "set xs \<subseteq> {lo<..hi :: int}"
  shows "length xs \<le> nat (hi - lo)"
  using card_mono [OF _ assms(2)] assms(1) by (simp add: distinct_card)

text \<open>The log of a task never holds more attempts than the policy keeps: recording one more
  leaves at most that many, none twice, and every other task's rows as they were.\<close>

theorem attempt_log_bounded:
  assumes p: "policy_enabled p" "0 < po_keep p" "po_keep p < 2 ^ 63" and n: "1 \<le> attempt" "attempt < 2 ^ 63"
    and rows: "distinct (map at_attempt (attempts_of t db))"
      "\<forall>a \<in> set (attempts_of t db). 1 \<le> at_attempt a \<and> at_attempt a \<le> attempt"
  shows "length (attempts_of t (record_attempt p now t attempt e out db)) \<le> po_keep p
    \<and> distinct (map at_attempt (attempts_of t (record_attempt p now t attempt e out db)))
    \<and> (\<exists>a \<in> set (attempts_of t (record_attempt p now t attempt e out db)). at_attempt a = attempt)
    \<and> (\<forall>u. u \<noteq> t \<longrightarrow> attempts_of u (record_attempt p now t attempt e out db) = attempts_of u db)"
proof -
  let ?keep = "int (po_keep p)"
  let ?row = "\<lparr>at_task_id = t, at_attempt = attempt, at_reason = attempt_end_str e, at_status = None,
     at_scheduled_at = None, at_output = map_option (\<lambda>x. fst (policy_tail p x)) out,
     at_truncated = (case out of None \<Rightarrow> False | Some x \<Rightarrow> snd (policy_tail p x)), at_finished_at = now\<rparr>"
  let ?db' = "record_attempt p now t attempt e out db"
  have evict: "evict_below p attempt = (if ?keep < attempt then Some (attempt - ?keep) else None)"
    using p n by (auto simp: evict_below_def Let_def)
  have of_t: "attempts_of t ?db' =
      filter (\<lambda>a. at_attempt a \<noteq> attempt \<and> (?keep < attempt \<longrightarrow> attempt - ?keep < at_attempt a)) (attempts_of t db) @ [?row]"
    using p(1,2) by (auto simp: record_attempt_def Let_def attempts_of_def evict intro!: filter_cong)
  have others: "attempts_of u ?db' = attempts_of u db" if "u \<noteq> t" for u
    using that p(1) by (auto simp: record_attempt_def Let_def attempts_of_def evict intro!: filter_cong)
  let ?olds = "map at_attempt (filter (\<lambda>a. at_attempt a \<noteq> attempt \<and> (?keep < attempt \<longrightarrow> attempt - ?keep < at_attempt a)) (attempts_of t db))"
  have d: "distinct ?olds" using rows(1) by (simp add: distinct_map_filter)
  have window: "set ?olds \<subseteq> {max 0 (attempt - ?keep)<..attempt - 1}" using rows(2) by force
  have "length ?olds \<le> nat (attempt - 1 - max 0 (attempt - ?keep))" by (rule card_window [OF d window])
  then have "length (attempts_of t ?db') \<le> po_keep p" using p n by (simp add: of_t)
  moreover have "distinct (map at_attempt (attempts_of t ?db'))" using d by (auto simp: of_t)
  moreover have "\<exists>a \<in> set (attempts_of t ?db'). at_attempt a = attempt" by (simp add: of_t)
  ultimately show ?thesis using others by simp
qed

theorem attempt_log_bounded_witness:
  "length (attempts_of ''a'' (record_attempt \<lparr>po_bytes = 8, po_keep = 1\<rparr> 9 ''a'' 1 EndFailed None one_running)) \<le> 1"
proof -
  have "policy_enabled \<lparr>po_bytes = 8, po_keep = 1\<rparr>" "distinct (map at_attempt (attempts_of ''a'' one_running))"
    "\<forall>a \<in> set (attempts_of ''a'' one_running). 1 \<le> at_attempt a \<and> at_attempt a \<le> 1"
    by (simp_all add: policy_enabled_def attempts_of_def one_running_def example_db_def)
  from attempt_log_bounded [OF this(1) _ _ _ _ this(2,3)] show ?thesis by simp
qed

subsection \<open>A gang that dies together\<close>

text \<open>Cancelling the siblings of a failed gang member counts nobody down: with a gang of two
  and a task behind it that runs however its dependencies end, one member fails, the other is
  asked to stop and its worker reports it gone. Then both dependencies of the task are over, the
  task still waits for one, the sweep makes nothing ready, and the run is never ended.\<close>

theorem gang_dependent_stranded:
  "let db1 = fst (mark_task_failed example_services 9 ''g0'' ''w0'' 1 None gang_and_publish);
       db2 = fst (cancel_gang_siblings 30 9 ''g0'' db1);
       db3 = fst (settle_stopped_task example_services 10 ''g1'' ''w1'' 1 db2)
   in map tr_status (dep_rows db3 ''publish'') = [Failed, Cancelled]
      \<and> map_option tr_status (row_of tr_id ''publish'' (task_runs db3)) = Some Pending
      \<and> map_option tr_remaining_deps (row_of tr_id ''publish'' (task_runs db3)) = Some 1
      \<and> advance_ready_tasks (\<lambda>_. None) (\<lambda>_ _. 11) db3 = (db3, 0)
      \<and> reap_verdict db3 ''r'' = None"
  by code_simp

end
