(* ===== verification/Repeat.thy ===== *)
theory Repeat
  imports When_Expr
begin

text \<open>
  The loop operator \<open>repeat:\<close> of a task (\<open>RepeatSpec\<close> of crates/dagron-core/src/dag.rs): what
  a finished iteration asks for, and when the next one may start.
\<close>

record repeat_spec =
  re_until :: string
  re_max_iterations :: nat
  re_delay_secs :: nat

datatype repeat_decision = RepeatDone | RepeatAgain nat | RepeatFail string

definition decide :: "repeat_spec \<Rightarrow> string \<Rightarrow> int \<Rightarrow> repeat_decision" where
  "decide rep output iteration =
     (case eval_when (substitute (re_until rep)
              [(''attempt'', int_to_string iteration), (''output'', trim output)]) of
        Inr True \<Rightarrow> RepeatDone
      | Inr False \<Rightarrow>
          if iteration < int (re_max_iterations rep) then RepeatAgain (re_delay_secs rep)
          else RepeatFail (''repeat.until '' @ squoted (re_until rep) @ '' not satisfied after ''
                 @ int_to_string iteration @ '' iterations; last output:'' @ [CHR 0x0A] @ output)
      | Inl e \<Rightarrow> RepeatFail (''repeat.until '' @ squoted (re_until rep) @ '' failed to evaluate: '' @ e))"

definition max_repeat_delay_secs :: nat where
  "max_repeat_delay_secs = 365 * 24 * 60 * 60"

definition delayed_retry_at :: "instant \<Rightarrow> nat \<Rightarrow> instant" where
  "delayed_retry_at now secs = plus_secs now (int (min secs max_repeat_delay_secs))"

end
