(* ===== verification/Park.thy ===== *)
theory Park
  imports Repeat Complete
begin

text \<open>
  Tasks that wait without a worker (\<open>db/sqlite.rs\<close>): a trigger parked on its child run, with the
  loop operator \<open>repeat:\<close> (\<open>dag.rs\<close>), the time, URL and dataset sensors, a job handed to another
  system, and the join of a run-time fan-out. A parked row is \<open>running\<close> with no claim and no
  lease; the sweep that resolves it ends it and counts its dependents down in one transaction.
\<close>

subsection \<open>Ending a row and counting its dependents down\<close>

text \<open>\<open>UPDATE .. WHERE\<close>, and, where it changed a row, the decrement of the dependents.\<close>

definition finish_task :: "string \<Rightarrow> (task_row \<Rightarrow> bool) \<Rightarrow> (task_row \<Rightarrow> task_row) \<Rightarrow> db \<Rightarrow> db \<times> bool" where
  "finish_task t p f db =
     (if aff p db = 0 then (upd p f db, False) else (decrement_dependents t (upd p f db), True))"

text \<open>A sweep works through the rows it read, and reports those it resolved.\<close>

fun sweep :: "('a \<Rightarrow> db \<Rightarrow> db \<times> 'b option) \<Rightarrow> 'a list \<Rightarrow> db \<Rightarrow> db \<times> 'b list" where
  "sweep f [] db = (db, [])"
| "sweep f (x # xs) db =
     (let (db1, y) = f x db;
          (db2, ys) = sweep f xs db1
      in (db2, (case y of None \<Rightarrow> ys | Some z \<Rightarrow> z # ys)))"

definition sweep_batch :: nat where "sweep_batch = 256"

record 'a pass =
  pa_done :: "'a list"
  pa_full :: bool

definition run_pass :: "('a \<Rightarrow> db \<Rightarrow> db \<times> 'b option) \<Rightarrow> 'a list \<Rightarrow> db \<Rightarrow> db \<times> 'b pass" where
  "run_pass f due db =
     (let (db', out) = sweep f due db in (db', \<lparr>pa_done = out, pa_full = (sweep_batch \<le> length due)\<rparr>))"

subsection \<open>Parking\<close>

definition parkable :: "string \<Rightarrow> int \<Rightarrow> task_row \<Rightarrow> bool" where
  "parkable t fence r =
     (tr_id r = t \<and> tr_status r = Running \<and> tr_version r = fence \<and> tr_stop_requested_at r = None)"

definition unclaim :: "task_row \<Rightarrow> task_row" where
  "unclaim r = r\<lparr>tr_claimed_by := None, tr_lease_expires_at := None\<rparr>"

definition park_as :: "(task_row \<Rightarrow> task_row) \<Rightarrow> string \<Rightarrow> int \<Rightarrow> db \<Rightarrow> db \<times> bool" where
  "park_as f t fence db = (upd (parkable t fence) (\<lambda>r. unclaim (f r)) db, aff (parkable t fence) db > 0)"

definition park_subworkflow :: "string \<Rightarrow> int \<Rightarrow> string \<Rightarrow> db \<Rightarrow> db \<times> bool" where
  "park_subworkflow t fence child db = park_as (\<lambda>r. r\<lparr>tr_sub_run_id := Some child\<rparr>) t fence db"

definition release_subworkflow_task :: "string \<Rightarrow> int \<Rightarrow> db \<Rightarrow> db \<times> bool" where
  "release_subworkflow_task t fence db = park_as (\<lambda>r. r\<lparr>tr_status := Ready\<rparr>) t fence db"

definition park_wait :: "string \<Rightarrow> int \<Rightarrow> instant \<Rightarrow> db \<Rightarrow> db \<times> bool" where
  "park_wait t fence wake_at db = park_as (\<lambda>r. r\<lparr>tr_wake_at := Some wake_at\<rparr>) t fence db"

definition park_wait_url :: "string \<Rightarrow> int \<Rightarrow> string \<Rightarrow> instant \<Rightarrow> db \<Rightarrow> db \<times> bool" where
  "park_wait_url t fence url next_poll_at db =
     park_as (\<lambda>r. r\<lparr>tr_wait_url := Some url, tr_next_poll_at := Some next_poll_at\<rparr>) t fence db"

definition park_external ::
  "string \<Rightarrow> int \<Rightarrow> string \<Rightarrow> string \<Rightarrow> string option \<Rightarrow> instant \<Rightarrow> instant option \<Rightarrow> db \<Rightarrow> db \<times> bool" where
  "park_external t fence kind handle endpoint next_poll_at deadline_at db =
     park_as (\<lambda>r. r\<lparr>tr_external_kind := Some kind, tr_external_handle := Some handle,
                    tr_external_endpoint := endpoint, tr_next_poll_at := Some next_poll_at,
                    tr_external_deadline_at := deadline_at\<rparr>) t fence db"

text \<open>The rows of \<open>dataset_events\<close>, as \<open>(id, uri)\<close>.\<close>

type_synonym dataset_events = "(int \<times> string) list"

definition dataset_cursor :: "dataset_events \<Rightarrow> string \<Rightarrow> int" where
  "dataset_cursor events uri =
     (case map fst (filter (\<lambda>e. snd e = uri) events) of [] \<Rightarrow> 0 | i # is \<Rightarrow> fold max is i)"

definition park_wait_dataset :: "dataset_events \<Rightarrow> string \<Rightarrow> int \<Rightarrow> string \<Rightarrow> db \<Rightarrow> db \<times> bool" where
  "park_wait_dataset events t fence uri db =
     park_as (\<lambda>r. r\<lparr>tr_wait_dataset := Some uri, tr_wait_dataset_cursor := Some (dataset_cursor events uri)\<rparr>)
       t fence db"

text \<open>How deep a run sits under the triggers that started it, up to a limit.\<close>

definition sub_run_parent :: "db \<Rightarrow> string \<Rightarrow> string option" where
  "sub_run_parent db run = map_option tr_run_id (find (\<lambda>r. tr_sub_run_id r = Some run) (task_runs db))"

fun depth_walk :: "db \<Rightarrow> nat \<Rightarrow> string \<Rightarrow> nat" where
  "depth_walk db 0 current = 0"
| "depth_walk db (Suc left) current =
     (case sub_run_parent db current of None \<Rightarrow> 0 | Some parent \<Rightarrow> Suc (depth_walk db left parent))"

definition sub_workflow_depth :: "db \<Rightarrow> string \<Rightarrow> int \<Rightarrow> int" where
  "sub_workflow_depth db run limit = int (depth_walk db (nat limit) run)"

subsection \<open>Triggers and their child runs\<close>

definition parked_on :: "string \<Rightarrow> string \<Rightarrow> task_row \<Rightarrow> bool" where
  "parked_on t child r = (tr_id r = t \<and> tr_status r = Running \<and> tr_sub_run_id r = Some child)"

definition resolve_sub_set :: "db \<Rightarrow> instant \<Rightarrow> bool \<Rightarrow> task_row \<Rightarrow> task_row" where
  "resolve_sub_set db now succeeded r =
     r\<lparr>tr_status := (if succeeded then Succeeded else Failed), tr_finished_at := Some now,
       tr_output := Some (case Option.bind (find (\<lambda>w. Some (wr_id w) = tr_sub_run_id r) (workflow_runs db)) wr_output of
                            Some out \<Rightarrow> out
                          | None \<Rightarrow> if succeeded then ''sub-workflow succeeded'' else ''sub-workflow failed'')\<rparr>"

definition resolve_subworkflow :: "instant \<Rightarrow> string \<Rightarrow> string \<Rightarrow> bool \<Rightarrow> db \<Rightarrow> db \<times> bool" where
  "resolve_subworkflow now t child succeeded db =
     finish_task t (parked_on t child) (resolve_sub_set db now succeeded) db"

definition requeue_sub_set :: "instant \<Rightarrow> string option \<Rightarrow> task_row \<Rightarrow> task_row" where
  "requeue_sub_set retry_at output r =
     r\<lparr>tr_status := Ready, tr_scheduled_at := Some retry_at, tr_sub_run_id := None, tr_claimed_by := None,
       tr_lease_expires_at := None, tr_finished_at := None, tr_output := output, tr_version := tr_version r + 1\<rparr>"

definition requeue_parked_subworkflow ::
  "string \<Rightarrow> string \<Rightarrow> string option \<Rightarrow> instant \<Rightarrow> db \<Rightarrow> db \<times> bool" where
  "requeue_parked_subworkflow t child output retry_at db =
     (upd (parked_on t child) (requeue_sub_set retry_at output) db, aff (parked_on t child) db > 0)"

definition fail_sub_set :: "instant \<Rightarrow> string \<Rightarrow> task_row \<Rightarrow> task_row" where
  "fail_sub_set now reason r =
     r\<lparr>tr_status := Failed, tr_finished_at := Some now, tr_output := Some reason, tr_sub_run_id := None\<rparr>"

definition fail_parked_subworkflow :: "instant \<Rightarrow> string \<Rightarrow> string \<Rightarrow> string \<Rightarrow> db \<Rightarrow> db \<times> bool" where
  "fail_parked_subworkflow now t child reason db =
     finish_task t (parked_on t child) (fail_sub_set now reason) db"

definition run_over :: "run_status \<Rightarrow> bool" where
  "run_over s = (s \<in> {RunSucceeded, RunFailed, RunCancelled})"

definition parked_subworkflows :: "db \<Rightarrow> (string \<times> string \<times> run_status \<times> string option) list" where
  "parked_subworkflows db =
     take sweep_batch
       (concat (map (\<lambda>r. map (\<lambda>c. (tr_id r, wr_id c, wr_status c, wr_output c))
                           (filter (\<lambda>c. tr_status r = Running \<and> tr_sub_run_id r = Some (wr_id c) \<and> run_over (wr_status c))
                             (workflow_runs db)))
               (task_runs db)))"

text \<open>\<open>repeat_in\<close> reads the \<open>repeat:\<close> of a stored spec (serde_json); a spec it cannot read has none.\<close>

definition repeat_spec_of :: "(string \<Rightarrow> repeat_spec option) \<Rightarrow> db \<Rightarrow> string \<Rightarrow> repeat_spec option" where
  "repeat_spec_of repeat_in db t = Option.bind (Option.bind (row_of tr_id t (task_runs db)) tr_input) repeat_in"

definition resolve_one ::
  "(string \<Rightarrow> repeat_spec option) \<Rightarrow> (string \<Rightarrow> instant) \<Rightarrow> string \<times> string \<times> run_status \<times> string option
     \<Rightarrow> db \<Rightarrow> db \<times> (string \<times> bool) option" where
  "resolve_one repeat_in clock parked db =
     (let (t, child, status, child_output) = parked;
          now = clock t;
          succeeded = (status = RunSucceeded);
          resolve = (let (db1, won) = resolve_subworkflow now t child succeeded db
                     in (db1, if won then Some (t, succeeded) else None))
      in case (if succeeded then repeat_spec_of repeat_in db t else None) of
           None \<Rightarrow> resolve
         | Some rep \<Rightarrow>
             (let iteration = (case row_of tr_id t (task_runs db) of Some r \<Rightarrow> tr_attempt r | None \<Rightarrow> 1)
              in case decide rep (case child_output of Some out \<Rightarrow> out | None \<Rightarrow> []) iteration of
                   RepeatDone \<Rightarrow> resolve
                 | RepeatAgain delay \<Rightarrow>
                     (fst (requeue_parked_subworkflow t child child_output (delayed_retry_at now delay) db), None)
                 | RepeatFail reason \<Rightarrow>
                     (let (db1, won) = fail_parked_subworkflow now t child reason db
                      in (db1, if won then Some (t, False) else None))))"

definition reconcile_subworkflows ::
  "(string \<Rightarrow> repeat_spec option) \<Rightarrow> (string \<Rightarrow> instant) \<Rightarrow> db \<Rightarrow> db \<times> (string \<times> bool) pass" where
  "reconcile_subworkflows repeat_in clock db = run_pass (resolve_one repeat_in clock) (parked_subworkflows db) db"

subsection \<open>Sensors\<close>

definition due_at :: "instant \<Rightarrow> instant option \<Rightarrow> bool" where
  "due_at now w = (case w of None \<Rightarrow> False | Some x \<Rightarrow> x \<le> now)"

definition wake_where :: "instant \<Rightarrow> string \<Rightarrow> task_row \<Rightarrow> bool" where
  "wake_where now t r = (tr_id r = t \<and> tr_status r = Running \<and> due_at now (tr_wake_at r))"

definition sensor_set :: "instant \<Rightarrow> string \<Rightarrow> task_row \<Rightarrow> task_row" where
  "sensor_set now output r = r\<lparr>tr_status := Succeeded, tr_finished_at := Some now, tr_output := Some output\<rparr>"

definition wake_one :: "instant \<Rightarrow> task_row \<Rightarrow> db \<Rightarrow> db \<times> (string \<times> instant option) option" where
  "wake_one now r db =
     (let (db1, won) = finish_task (tr_id r) (wake_where now (tr_id r)) (sensor_set now ''wait elapsed'') db
      in (db1, if won then Some (tr_id r, tr_wake_at r) else None))"

definition reconcile_waits :: "instant \<Rightarrow> db \<Rightarrow> db \<times> (string \<times> instant option) pass" where
  "reconcile_waits now db =
     run_pass (wake_one now)
       (take sweep_batch
         (sort_key tr_wake_at (filter (\<lambda>r. tr_status r = Running \<and> due_at now (tr_wake_at r)) (task_runs db)))) db"

definition url_where :: "string \<Rightarrow> task_row \<Rightarrow> bool" where
  "url_where t r = (tr_id r = t \<and> tr_status r = Running \<and> tr_wait_url r \<noteq> None)"

definition repoll :: "instant \<Rightarrow> task_row \<Rightarrow> task_row" where
  "repoll next_at r = r\<lparr>tr_next_poll_at := Some next_at\<rparr>"

definition claim_url_where :: "task_row \<Rightarrow> task_row \<Rightarrow> bool" where
  "claim_url_where c r = (url_where (tr_id c) r \<and> tr_next_poll_at c \<noteq> None \<and> tr_next_poll_at r = tr_next_poll_at c)"

definition claim_url_one :: "instant \<Rightarrow> task_row \<Rightarrow> db \<Rightarrow> db \<times> task_row option" where
  "claim_url_one until c db =
     (upd (claim_url_where c) (repoll until) db, if aff (claim_url_where c) db > 0 then Some c else None)"

definition claim_due_url_waits :: "instant \<Rightarrow> int \<Rightarrow> nat \<Rightarrow> db \<Rightarrow> db \<times> task_row list" where
  "claim_due_url_waits now n claim_secs db =
     sweep (claim_url_one (delayed_retry_at now claim_secs))
       (limit_rows n (sort_key tr_next_poll_at
         (filter (\<lambda>r. tr_status r = Running \<and> tr_wait_url r \<noteq> None \<and> due_at now (tr_next_poll_at r)) (task_runs db)))) db"

definition repark_url_wait :: "string \<Rightarrow> instant \<Rightarrow> db \<Rightarrow> db \<times> bool" where
  "repark_url_wait t next_poll_at db = (upd (url_where t) (repoll next_poll_at) db, aff (url_where t) db > 0)"

definition resolve_url_wait :: "instant \<Rightarrow> string \<Rightarrow> db \<Rightarrow> db \<times> bool" where
  "resolve_url_wait now t db = finish_task t (url_where t) (sensor_set now ''wait url ready'') db"

definition dataset_where :: "string \<Rightarrow> task_row \<Rightarrow> bool" where
  "dataset_where t r = (tr_id r = t \<and> tr_status r = Running \<and> tr_wait_dataset r \<noteq> None)"

definition dataset_due :: "dataset_events \<Rightarrow> task_row \<Rightarrow> bool" where
  "dataset_due events r =
     (tr_status r = Running \<and> tr_wait_dataset r \<noteq> None
      \<and> list_ex (\<lambda>e. Some (snd e) = tr_wait_dataset r
                    \<and> (case tr_wait_dataset_cursor r of Some c \<Rightarrow> c | None \<Rightarrow> 0) < fst e) events)"

definition dataset_one :: "instant \<Rightarrow> task_row \<Rightarrow> db \<Rightarrow> db \<times> (string \<times> string option) option" where
  "dataset_one now r db =
     (let (db1, won) = finish_task (tr_id r) (dataset_where (tr_id r)) (sensor_set now ''dataset updated'') db
      in (db1, if won then Some (tr_id r, tr_wait_dataset r) else None))"

definition reconcile_dataset_waits :: "dataset_events \<Rightarrow> instant \<Rightarrow> db \<Rightarrow> db \<times> (string \<times> string option) pass" where
  "reconcile_dataset_waits events now db =
     run_pass (dataset_one now) (take sweep_batch (filter (dataset_due events) (task_runs db))) db"

subsection \<open>Jobs in another system\<close>

definition external_where :: "string \<Rightarrow> string \<Rightarrow> task_row \<Rightarrow> bool" where
  "external_where t handle r = (tr_id r = t \<and> tr_status r = Running \<and> tr_external_handle r = Some handle)"

definition claim_external_where :: "task_row \<Rightarrow> task_row \<Rightarrow> bool" where
  "claim_external_where c r =
     (tr_id r = tr_id c \<and> tr_status r = Running \<and> tr_external_handle c \<noteq> None
      \<and> tr_external_handle r = tr_external_handle c \<and> tr_next_poll_at r = tr_next_poll_at c)"

definition claim_external_one :: "instant \<Rightarrow> task_row \<Rightarrow> db \<Rightarrow> db \<times> task_row option" where
  "claim_external_one until c db =
     (upd (claim_external_where c) (repoll until) db, if aff (claim_external_where c) db > 0 then Some c else None)"

definition external_due :: "instant \<Rightarrow> task_row \<Rightarrow> bool" where
  "external_due now r =
     (tr_status r = Running \<and> tr_external_handle r \<noteq> None
      \<and> (tr_next_poll_at r = None \<or> due_at now (tr_next_poll_at r)))"

definition claim_due_external_polls :: "instant \<Rightarrow> int \<Rightarrow> nat \<Rightarrow> db \<Rightarrow> db \<times> task_row list" where
  "claim_due_external_polls now n claim_secs db =
     sweep (claim_external_one (delayed_retry_at now claim_secs))
       (limit_rows n (sort_key tr_next_poll_at (filter (external_due now) (task_runs db)))) db"

definition repark_external :: "string \<Rightarrow> string \<Rightarrow> instant \<Rightarrow> db \<Rightarrow> db \<times> bool" where
  "repark_external t handle next_poll_at db =
     (upd (external_where t handle) (repoll next_poll_at) db, aff (external_where t handle) db > 0)"

definition resolve_external_set :: "instant \<Rightarrow> string option \<Rightarrow> task_row \<Rightarrow> task_row" where
  "resolve_external_set now output r =
     r\<lparr>tr_status := Succeeded, tr_finished_at := Some now,
       tr_output := (case output of Some out \<Rightarrow> Some out | None \<Rightarrow> tr_output r),
       tr_external_handle := None, tr_next_poll_at := None, tr_external_deadline_at := None\<rparr>"

definition resolve_external :: "instant \<Rightarrow> string \<Rightarrow> string \<Rightarrow> string option \<Rightarrow> db \<Rightarrow> db \<times> bool" where
  "resolve_external now t handle output db =
     finish_task t (external_where t handle) (resolve_external_set now output) db"

definition fail_external_set :: "instant \<Rightarrow> string \<Rightarrow> bool \<Rightarrow> task_row \<Rightarrow> task_row" where
  "fail_external_set now reason keep_handle r =
     r\<lparr>tr_status := Failed, tr_finished_at := Some now, tr_output := Some reason,
       tr_external_handle := (if keep_handle then tr_external_handle r else None),
       tr_next_poll_at := None, tr_external_deadline_at := None, tr_external_epoch := tr_external_epoch r + 1\<rparr>"

definition fail_external_impl :: "instant \<Rightarrow> string \<Rightarrow> string \<Rightarrow> string \<Rightarrow> bool \<Rightarrow> db \<Rightarrow> db \<times> bool" where
  "fail_external_impl now t handle reason keep_handle db =
     finish_task t (external_where t handle) (fail_external_set now reason keep_handle) db"

definition fail_external :: "instant \<Rightarrow> string \<Rightarrow> string \<Rightarrow> string \<Rightarrow> db \<Rightarrow> db \<times> bool" where
  "fail_external now t handle reason db = fail_external_impl now t handle reason False db"

definition fail_external_keep_handle :: "instant \<Rightarrow> string \<Rightarrow> string \<Rightarrow> string \<Rightarrow> db \<Rightarrow> db \<times> bool" where
  "fail_external_keep_handle now t handle reason db = fail_external_impl now t handle reason True db"

text \<open>A row that owes the remote system a teardown: its task is over and its handle is still there.\<close>

definition cancel_due :: "instant \<Rightarrow> task_row \<Rightarrow> bool" where
  "cancel_due now r =
     (tr_external_handle r \<noteq> None \<and> tr_status r \<noteq> Running
      \<and> (tr_next_poll_at r = None \<or> due_at now (tr_next_poll_at r)))"

definition claim_due_external_cancels :: "instant \<Rightarrow> int \<Rightarrow> nat \<Rightarrow> db \<Rightarrow> db \<times> task_row list" where
  "claim_due_external_cancels now n lease_secs db =
     (let rows = limit_rows n (sort_key tr_next_poll_at (filter (cancel_due now) (task_runs db)))
      in (fold (\<lambda>c. upd (\<lambda>r. tr_id r = tr_id c) (repoll (delayed_retry_at now lease_secs))) rows db, rows))"

definition handle_where :: "string \<Rightarrow> string \<Rightarrow> task_row \<Rightarrow> bool" where
  "handle_where t handle r = (tr_id r = t \<and> tr_external_handle r = Some handle)"

definition clear_handle_set :: "task_row \<Rightarrow> task_row" where
  "clear_handle_set r = r\<lparr>tr_external_handle := None, tr_next_poll_at := None, tr_external_deadline_at := None\<rparr>"

definition clear_external_handle :: "string \<Rightarrow> string \<Rightarrow> db \<Rightarrow> db \<times> bool" where
  "clear_external_handle t handle db =
     (upd (handle_where t handle) clear_handle_set db, aff (handle_where t handle) db > 0)"

definition cancel_failure_set :: "instant \<Rightarrow> task_row \<Rightarrow> task_row" where
  "cancel_failure_set next_at r =
     r\<lparr>tr_external_cancel_attempts := tr_external_cancel_attempts r + 1, tr_next_poll_at := Some next_at\<rparr>"

definition record_external_cancel_failure :: "string \<Rightarrow> string \<Rightarrow> instant \<Rightarrow> db \<Rightarrow> db \<times> int" where
  "record_external_cancel_failure t handle next_at db =
     (let db1 = upd (handle_where t handle) (cancel_failure_set next_at) db
      in (db1, case find (handle_where t handle) (task_runs db1) of
                 Some r \<Rightarrow> tr_external_cancel_attempts r | None \<Rightarrow> 0))"

definition release_external_cancel_claim :: "string \<Rightarrow> string \<Rightarrow> instant \<Rightarrow> db \<Rightarrow> db \<times> bool" where
  "release_external_cancel_claim t handle next_at db =
     (upd (handle_where t handle) (repoll next_at) db, aff (handle_where t handle) db > 0)"

definition live_task_ids :: "string list \<Rightarrow> db \<Rightarrow> string set" where
  "live_task_ids ids db =
     set (map tr_id (filter (\<lambda>r. tr_id r \<in> set ids \<and> \<not> is_terminal (tr_status r)) (task_runs db)))"

subsection \<open>The join of a fan-out\<close>

definition barrier_where :: "string \<Rightarrow> task_row \<Rightarrow> bool" where
  "barrier_where t r =
     (tr_id r = t \<and> tr_status r = Running \<and> tr_fanout_of r \<noteq> None \<and> tr_claimed_by r = None)"

definition barrier_set :: "instant \<Rightarrow> bool \<Rightarrow> string \<Rightarrow> task_row \<Rightarrow> task_row" where
  "barrier_set now succeeded output r =
     r\<lparr>tr_status := (if succeeded then Succeeded else Failed), tr_finished_at := Some now, tr_output := Some output\<rparr>"

definition finish_fanout :: "instant \<Rightarrow> string \<Rightarrow> bool \<Rightarrow> string \<Rightarrow> db \<Rightarrow> db \<times> bool" where
  "finish_fanout now t succeeded output db =
     finish_task t (barrier_where t) (barrier_set now succeeded output) db"

subsection \<open>One transaction that ends one task\<close>

text \<open>The contract every resolution meets: its statement ends a task and is guarded by that
  task's key. What follows from it is proved once.\<close>

locale keyed_ending = ending_update p f for p f +
  fixes t :: string
  assumes key: "p r \<Longrightarrow> tr_id r = t"
    and not_pending: "p r \<Longrightarrow> tr_status r \<noteq> Pending"
begin

lemma ended_one:
  assumes "tables_ok db" "aff p db \<noteq> 0"
  shows "map tr_id (filter p (task_runs db)) = [t]"
proof -
  have "p = (\<lambda>r. tr_id r = t \<and> p r)" using key by auto
  then show ?thesis
    using selected_key [of tr_id "task_runs db" t p] assms by (simp add: tables_ok_def aff_def)
qed

lemma finish_from:
  assumes "inv_from db0 D db"
  shows "inv_from db0 D (fst (finish_task t p f db))"
proof (cases "aff p db = 0")
  case True
  then show ?thesis using assms from_forgotten by (simp add: finish_task_def)
next
  case False
  then have "inv_from db0 (t # D) (upd p f db)"
    using from_owed [OF assms] ended_one [OF from_tables [OF assms]] by simp
  then show ?thesis using False by (simp add: finish_task_def decrement_from)
qed

lemma finish_exact:
  assumes "tables_ok db" "counter_exact_debt D db"
  shows "counter_exact_debt D (fst (finish_task t p f db))"
proof (cases "aff p db = 0")
  case True
  then have "upd p f db = db"
    by (simp add: aff_def rows_affected_0 upd_def update_where_none)
  then show ?thesis using assms True by (simp add: finish_task_def)
next
  case False
  then have "counter_exact_debt (t # D) (upd p f db)"
    using exact_owed [OF assms] ended_one [OF assms(1)] by simp
  then show ?thesis
    using False assms(1) tables_kept by (simp add: finish_task_def decrement_exact)
qed

text \<open>The second to resolve a row finds nothing to do, so dependents are counted down once.\<close>

lemma finish_selects_none:
  assumes "tables_ok db"
  shows "aff p (fst (finish_task t p f db)) = 0"
proof -
  have gone: "\<not> p r" if "r \<in> set (task_runs (upd p f db))" for r
  proof
    assume sel: "p r"
    from that obtain q where q: "q \<in> set (task_runs db)" "r = (if p q then f q else q)"
      by (auto elim!: in_update_whereE)
    have "row_ok q" "row_ok r" using tables_ok_row [OF assms q(1)] tables_ok_row [OF tables_kept [OF assms] that] .
    with q sel show False using ends_all [of r] ends_all [of q] by (auto split: if_splits)
  qed
  show ?thesis
  proof (cases "aff p db = 0")
    case True
    then show ?thesis using gone by (simp add: finish_task_def aff_def rows_affected_0)
  next
    case False
    have "\<not> p r" if r: "r \<in> set (task_runs (decrement_dependents t (upd p f db)))" for r
    proof -
      from r obtain q where q: "q \<in> set (task_runs (upd p f db))"
        "r = (if (tr_id q, t) \<in> set (task_deps (upd p f db)) \<and> tr_status q = Pending then counted_down q else q)"
        by (rule decrement_row)
      then show ?thesis using gone [OF q(1)] not_pending [of "counted_down q"] by auto
    qed
    then have "aff p (decrement_dependents t (upd p f db)) = 0" by (simp add: aff_def rows_affected_0)
    then show ?thesis using False by (simp add: finish_task_def)
  qed
qed

end

subsection \<open>The statements meet their contracts\<close>

lemmas park_stmts =
  parked_on_def resolve_sub_set_def requeue_sub_set_def fail_sub_set_def wake_where_def due_at_def
  sensor_set_def url_where_def repoll_def claim_url_where_def dataset_where_def external_where_def
  claim_external_where_def resolve_external_set_def fail_external_set_def handle_where_def
  clear_handle_set_def cancel_failure_set_def barrier_where_def barrier_set_def parkable_def unclaim_def

lemmas row_laws = row_ok_def no_park_def has_started_def

interpretation resolve_sub_stmt: keyed_ending "parked_on t child" "resolve_sub_set db now ok" t for t child db now ok
  by unfold_locales (auto simp: park_stmts row_laws split: if_splits)

interpretation fail_sub_stmt: keyed_ending "parked_on t child" "fail_sub_set now why" t for t child now why
  by unfold_locales (auto simp: park_stmts row_laws)

interpretation wake_stmt: keyed_ending "wake_where now t" "sensor_set now' out" t for now t now' out
  by unfold_locales (auto simp: park_stmts row_laws split: option.splits)

interpretation url_stmt: keyed_ending "url_where t" "sensor_set now out" t for t now out
  by unfold_locales (auto simp: park_stmts row_laws)

interpretation dataset_stmt: keyed_ending "dataset_where t" "sensor_set now out" t for t now out
  by unfold_locales (auto simp: park_stmts row_laws)

interpretation resolve_ext_stmt: keyed_ending "external_where t h" "resolve_external_set now out" t for t h now out
  by unfold_locales (auto simp: park_stmts row_laws)

interpretation fail_ext_stmt: keyed_ending "external_where t h" "fail_external_set now why keep" t for t h now why keep
  by unfold_locales (auto simp: park_stmts row_laws)

interpretation barrier_stmt: keyed_ending "barrier_where t" "barrier_set now ok out" t for t now ok out
  by unfold_locales (auto simp: park_stmts row_laws split: if_splits)

interpretation requeue_sub_stmt: quiet_update "parked_on t child" "requeue_sub_set tm out" for t child tm out
  by unfold_locales (auto simp: park_stmts row_laws)

interpretation repoll_stmt: quiet_update p "repoll tm" for p tm
  by unfold_locales (auto simp: park_stmts row_laws)

interpretation clear_handle_stmt: quiet_update "handle_where t h" clear_handle_set for t h
  by unfold_locales (auto simp: park_stmts row_laws)

interpretation cancel_failure_stmt: quiet_update "handle_where t h" "cancel_failure_set tm" for t h tm
  by unfold_locales (auto simp: park_stmts row_laws)

text \<open>A park is asked for by the engine that holds the claim, once for each claim.\<close>

definition holds_claim :: "string \<Rightarrow> int \<Rightarrow> db \<Rightarrow> bool" where
  "holds_claim t fence db = list_all (\<lambda>r. parkable t fence r \<longrightarrow> tr_claimed_by r \<noteq> None) (task_runs db)"

lemma park_as_held:
  assumes "holds_claim t v db"
  shows "fst (park_as f t v db) = upd (\<lambda>r. parkable t v r \<and> tr_claimed_by r \<noteq> None) (\<lambda>r. unclaim (f r)) db"
proof -
  have "parkable t v r = (parkable t v r \<and> tr_claimed_by r \<noteq> None)" if "r \<in> set (task_runs db)" for r
    using assms that by (auto simp: holds_claim_def list_all_iff)
  then have "update_where (parkable t v) (\<lambda>r. unclaim (f r)) (task_runs db) =
      update_where (\<lambda>r. parkable t v r \<and> tr_claimed_by r \<noteq> None) (\<lambda>r. unclaim (f r)) (task_runs db)"
    by (rule update_where_cong)
  then show ?thesis by (simp add: park_as_def upd_def)
qed

text \<open>What a park writes: one of the columns that say what the row waits for, or none.\<close>

locale park_columns =
  fixes f :: "task_row \<Rightarrow> task_row"
  assumes keys: "tr_id (f r) = tr_id r" "tr_run_id (f r) = tr_run_id r" "tr_remaining_deps (f r) = tr_remaining_deps r"
      "tr_version (f r) = tr_version r" "tr_trigger_rule (f r) = tr_trigger_rule r"
    and stop: "tr_stop_requested_at (f r) = tr_stop_requested_at r"
    and status: "tr_status r = Running \<Longrightarrow> no_park r \<Longrightarrow> tr_status (f r) = Running \<or> tr_status (f r) = Ready \<and> no_park (f r)"
    and one: "no_park r \<Longrightarrow> tr_sub_run_id (f r) \<noteq> None \<Longrightarrow> no_park ((f r)\<lparr>tr_sub_run_id := None\<rparr>)"

sublocale park_columns \<subseteq> quiet_update "\<lambda>r. parkable t v r \<and> tr_claimed_by r \<noteq> None" "\<lambda>r. unclaim (f r)" for t v
proof unfold_locales
  fix r assume sel: "parkable t v r \<and> tr_claimed_by r \<noteq> None" and ok: "row_ok r"
  then have np: "no_park r" and run: "tr_status r = Running" "tr_stop_requested_at r = None"
    by (auto simp: row_ok_def parkable_def)
  show "tr_id (unclaim (f r)) = tr_id r" "tr_remaining_deps (unclaim (f r)) = tr_remaining_deps r"
    "tr_run_id (unclaim (f r)) = tr_run_id r" "tr_version r \<le> tr_version (unclaim (f r))"
    "tr_trigger_rule (unclaim (f r)) = tr_trigger_rule r" "begun (tr_status r)"
    by (simp_all add: unclaim_def keys run)
  show "row_ok (unclaim (f r))"
    using status [OF run(1) np] one [OF np] run(2) stop
    by (auto simp: unclaim_def row_ok_def no_park_def)
  show "is_terminal (tr_status (unclaim (f r))) = is_terminal (tr_status r)"
    "can_reach (tr_status r) (tr_status (unclaim (f r)))"
    "tr_claimed_by (unclaim (f r)) \<noteq> None \<Longrightarrow>
       tr_claimed_by (unclaim (f r)) = tr_claimed_by r \<and> tr_version (unclaim (f r)) = tr_version r
       \<or> tr_version r < tr_version (unclaim (f r))"
    "has_started (tr_status (unclaim (f r))) \<Longrightarrow> has_started (tr_status r) \<or> tr_status r = Pending \<and> tr_remaining_deps r \<le> 0"
    using status [OF run(1) np] run(1) by (auto simp: unclaim_def has_started_def)
qed

context park_columns
begin

lemma park_from:
  "inv_from db0 D db \<Longrightarrow> holds_claim t v db \<Longrightarrow> inv_from db0 D (fst (park_as f t v db))"
  by (simp only: park_as_held from_kept)

lemma park_exact:
  "tables_ok db \<Longrightarrow> holds_claim t v db \<Longrightarrow> counter_exact_debt D db \<Longrightarrow> counter_exact_debt D (fst (park_as f t v db))"
  by (simp only: park_as_held exact_kept)

end

interpretation sub_park: park_columns "\<lambda>r. r\<lparr>tr_sub_run_id := Some child\<rparr>" for child
  by unfold_locales (auto simp: no_park_def)

interpretation release_park: park_columns "\<lambda>r. r\<lparr>tr_status := Ready\<rparr>"
  by unfold_locales (auto simp: no_park_def)

interpretation wait_park: park_columns "\<lambda>r. r\<lparr>tr_wake_at := Some tm\<rparr>" for tm
  by unfold_locales (auto simp: no_park_def)

interpretation url_park: park_columns "\<lambda>r. r\<lparr>tr_wait_url := Some url, tr_next_poll_at := Some tm\<rparr>" for url tm
  by unfold_locales (auto simp: no_park_def)

interpretation external_park: park_columns
  "\<lambda>r. r\<lparr>tr_external_kind := Some kind, tr_external_handle := Some handle, tr_external_endpoint := endpoint,
         tr_next_poll_at := Some tm, tr_external_deadline_at := dl\<rparr>" for kind handle endpoint tm dl
  by unfold_locales (auto simp: no_park_def)

interpretation dataset_park: park_columns "\<lambda>r. r\<lparr>tr_wait_dataset := Some uri, tr_wait_dataset_cursor := Some c\<rparr>" for uri c
  by unfold_locales (auto simp: no_park_def)

subsection \<open>The invariant\<close>

lemma sweep_from:
  "(\<And>x db. inv_from db0 D db \<Longrightarrow> inv_from db0 D (fst (f x db))) \<Longrightarrow> inv_from db0 D db \<Longrightarrow> inv_from db0 D (fst (sweep f xs db))"
  by (induction xs arbitrary: db) (simp_all add: Let_def case_prod_unfold)

lemma run_pass_from:
  "(\<And>x db. inv_from db0 D db \<Longrightarrow> inv_from db0 D (fst (f x db))) \<Longrightarrow> inv_from db0 D db \<Longrightarrow> inv_from db0 D (fst (run_pass f xs db))"
  by (simp add: run_pass_def Let_def case_prod_unfold sweep_from)

lemma resolve_one_from: "inv_from db0 D db \<Longrightarrow> inv_from db0 D (fst (resolve_one repeat_in clock x db))"
  by (simp add: resolve_one_def Let_def case_prod_unfold resolve_subworkflow_def requeue_parked_subworkflow_def
      fail_parked_subworkflow_def resolve_sub_stmt.finish_from requeue_sub_stmt.from_kept fail_sub_stmt.finish_from
      split: option.split repeat_decision.split)

lemma sweeps_from:
  assumes "inv_from db0 D db"
  shows "inv_from db0 D (fst (reconcile_subworkflows repeat_in clock db))"
    and "inv_from db0 D (fst (reconcile_waits now db))"
    and "inv_from db0 D (fst (reconcile_dataset_waits events now db))"
    and "inv_from db0 D (fst (claim_due_url_waits now n secs db))"
    and "inv_from db0 D (fst (claim_due_external_polls now n secs db))"
    and "inv_from db0 D (fst (claim_due_external_cancels now n secs db))"
  unfolding reconcile_subworkflows_def reconcile_waits_def reconcile_dataset_waits_def
    claim_due_url_waits_def claim_due_external_polls_def claim_due_external_cancels_def Let_def fst_conv
  using assms
  by (auto intro!: run_pass_from sweep_from fold_from resolve_one_from
      simp: wake_one_def dataset_one_def claim_url_one_def claim_external_one_def Let_def case_prod_unfold
        wake_stmt.finish_from dataset_stmt.finish_from repoll_stmt.from_kept)

lemma resolutions_from:
  assumes "inv_from db0 D db"
  shows "inv_from db0 D (fst (resolve_subworkflow now t child ok db))"
    and "inv_from db0 D (fst (requeue_parked_subworkflow t child out tm db))"
    and "inv_from db0 D (fst (fail_parked_subworkflow now t child why db))"
    and "inv_from db0 D (fst (repark_url_wait t tm db))"
    and "inv_from db0 D (fst (resolve_url_wait now t db))"
    and "inv_from db0 D (fst (repark_external t h tm db))"
    and "inv_from db0 D (fst (resolve_external now t h out db))"
    and "inv_from db0 D (fst (fail_external_impl now t h why keep db))"
    and "inv_from db0 D (fst (clear_external_handle t h db))"
    and "inv_from db0 D (fst (record_external_cancel_failure t h tm db))"
    and "inv_from db0 D (fst (release_external_cancel_claim t h tm db))"
    and "inv_from db0 D (fst (finish_fanout now t ok why db))"
  using assms
  by (simp_all add: resolve_subworkflow_def requeue_parked_subworkflow_def fail_parked_subworkflow_def
      repark_url_wait_def resolve_url_wait_def repark_external_def resolve_external_def fail_external_impl_def
      clear_external_handle_def record_external_cancel_failure_def release_external_cancel_claim_def finish_fanout_def
      resolve_sub_stmt.finish_from requeue_sub_stmt.from_kept fail_sub_stmt.finish_from repoll_stmt.from_kept
      url_stmt.finish_from resolve_ext_stmt.finish_from fail_ext_stmt.finish_from clear_handle_stmt.from_kept
      cancel_failure_stmt.from_kept barrier_stmt.finish_from Let_def)

lemma parks_from:
  assumes "inv_from db0 D db" "holds_claim t v db"
  shows "inv_from db0 D (fst (park_subworkflow t v child db))"
    and "inv_from db0 D (fst (release_subworkflow_task t v db))"
    and "inv_from db0 D (fst (park_wait t v tm db))"
    and "inv_from db0 D (fst (park_wait_url t v url tm db))"
    and "inv_from db0 D (fst (park_external t v kind h ep tm dl db))"
    and "inv_from db0 D (fst (park_wait_dataset events t v uri db))"
  using assms
  by (simp_all add: park_subworkflow_def release_subworkflow_task_def park_wait_def park_wait_url_def park_external_def
      park_wait_dataset_def sub_park.park_from release_park.park_from wait_park.park_from url_park.park_from
      external_park.park_from dataset_park.park_from)

end
