(* ===== verification/Park_Props.thy ===== *)
theory Park_Props
  imports Park Example_Tables
begin

text \<open>
  What parking promises: a parked row is out of every worker's reach, it is resolved once,
  whoever resolves it, a loop over a child run keeps its dependents blocked until it ends, and
  the depth of nested runs is measured exactly up to its limit.
\<close>

subsection \<open>Out of reach\<close>

text \<open>A parked row (running, held by nobody) needs no worker and is touched by none: lease
  recovery passes over it, a claim does not hand it out, no fence holds it, and a stop of its run
  cancels it at once instead of asking a worker.\<close>

theorem parked_row_left_alone:
  assumes ok: "tables_ok db" and r: "r \<in> set (task_runs db)" "tr_status r = Running" "tr_claimed_by r = None"
  shows "r \<in> set (task_runs (fst (recover_expired_leases now db)))
    \<and> r \<in> set (task_runs (fst (claim_ready_filtered now lease w n classes caps ex db)))
    \<and> (\<forall>t w v. \<not> held_by t w v r)
    \<and> \<not> teardown_where now cset r
    \<and> cancel_where (tr_run_id r) r \<and> \<not> ask_where (tr_run_id r) r"
proof -
  have "tr_lease_expires_at r = None" "tr_stop_requested_at r = None"
    using tables_ok_row [OF ok r(1)] r(2,3) by (auto simp: row_ok_def)
  then have "\<not> lease_expired_where now r" by (simp add: lease_expired_where_def)
  then have "r \<in> set (task_runs (fst (recover_expired_leases now db)))"
    using r(1) by (simp add: recover_expired_leases_def not_updated_in)
  moreover have "r \<in> set (task_runs (fst (claim_loop w l avail cs db)))" for l avail cs
    using r(1)
  proof (induction w l avail cs db rule: claim_loop.induct)
    case (2 worker lease_exp avail c cs db)
    have "\<not> claim_where c r" using r(2) by (simp add: claim_where_def)
    with 2 show ?case by (auto simp: Let_def case_prod_unfold not_updated_in)
  qed simp
  ultimately show ?thesis
    using r \<open>tr_stop_requested_at r = None\<close>
    by (simp add: claim_ready_filtered_def held_by_def teardown_where_def cancel_where_def ask_where_def)
qed

definition parked_trigger :: db where
  "parked_trigger =
     example_db
       [(example_task ''a'' Running 0)\<lparr>tr_sub_run_id := Some ''child'', tr_version := 2\<rparr>,
        example_task ''b'' Pending 1]
       [(''b'', ''a'')]"

lemma parked_trigger_ok: "tables_ok parked_trigger"
  by code_simp

theorem parked_row_left_alone_witness:
  "(example_task ''a'' Running 0)\<lparr>tr_sub_run_id := Some ''child'', tr_version := 2\<rparr>
     \<in> set (task_runs (fst (recover_expired_leases 9 parked_trigger)))"
proof -
  let ?r = "(example_task ''a'' Running 0)\<lparr>tr_sub_run_id := Some ''child'', tr_version := 2\<rparr>"
  have "?r \<in> set (task_runs parked_trigger)" "tr_status ?r = Running" "tr_claimed_by ?r = None"
    by code_simp+
  from parked_row_left_alone [OF parked_trigger_ok this] show ?thesis by blast
qed

subsection \<open>Resolved once\<close>

lemma finish_none: "aff p db = 0 \<Longrightarrow> finish_task t p f db = (db, False)"
  by (simp add: finish_task_def aff_def rows_affected_0 upd_def update_where_none)

lemma upd_none: "aff p db = 0 \<Longrightarrow> upd p f db = db"
  by (simp add: aff_def rows_affected_0 upd_def update_where_none)

lemmas resolved_defs =
  resolve_subworkflow_def fail_parked_subworkflow_def requeue_parked_subworkflow_def resolve_url_wait_def
  resolve_external_def fail_external_impl_def finish_fanout_def

lemma requeue_selects_none: "aff (parked_on t child) (upd (parked_on t child) (requeue_sub_set tm out) db) = 0"
  by (auto simp: aff_def rows_affected_0 parked_on_def requeue_sub_set_def elim!: in_update_whereE split: if_splits)

lemma resolved_once:
  assumes "tables_ok db"
  shows "\<forall>db' \<in> {fst (resolve_subworkflow now t child ok db), fst (fail_parked_subworkflow now t child why db),
               fst (requeue_parked_subworkflow t child out tm db)}.
        resolve_subworkflow now' t child ok' db' = (db', False)
        \<and> fail_parked_subworkflow now' t child why' db' = (db', False)
        \<and> requeue_parked_subworkflow t child out' tm' db' = (db', False)"
    and "\<forall>db' \<in> {fst (resolve_external now t h out db), fst (fail_external_impl now t h why keep db)}.
        resolve_external now' t h out' db' = (db', False) \<and> fail_external_impl now' t h why' keep' db' = (db', False)"
    and "\<forall>db' \<in> {fst (resolve_url_wait now t db)}. resolve_url_wait now' t db' = (db', False)"
    and "\<forall>db' \<in> {fst (finish_fanout now t ok why db)}. finish_fanout now' t ok' why' db' = (db', False)"
proof -
  show "\<forall>db' \<in> {fst (resolve_subworkflow now t child ok db), fst (fail_parked_subworkflow now t child why db),
               fst (requeue_parked_subworkflow t child out tm db)}.
        resolve_subworkflow now' t child ok' db' = (db', False)
        \<and> fail_parked_subworkflow now' t child why' db' = (db', False)
        \<and> requeue_parked_subworkflow t child out' tm' db' = (db', False)"
    using resolve_sub_stmt.finish_selects_none [OF assms] fail_sub_stmt.finish_selects_none [OF assms] requeue_selects_none
    by (simp add: resolved_defs finish_none upd_none)
  show "\<forall>db' \<in> {fst (resolve_external now t h out db), fst (fail_external_impl now t h why keep db)}.
        resolve_external now' t h out' db' = (db', False) \<and> fail_external_impl now' t h why' keep' db' = (db', False)"
    using resolve_ext_stmt.finish_selects_none [OF assms] fail_ext_stmt.finish_selects_none [OF assms]
    by (simp add: resolved_defs finish_none)
  show "\<forall>db' \<in> {fst (resolve_url_wait now t db)}. resolve_url_wait now' t db' = (db', False)"
    using url_stmt.finish_selects_none [OF assms] by (simp add: resolved_defs finish_none)
  show "\<forall>db' \<in> {fst (finish_fanout now t ok why db)}. finish_fanout now' t ok' why' db' = (db', False)"
    using barrier_stmt.finish_selects_none [OF assms] by (simp add: resolved_defs finish_none)
qed

text \<open>A parked task is resolved once. After any resolution under a key (the child run, the
  handle of the remote job, the URL, the join of a fan-out), every later one under the same key,
  with whatever verdict, says no and changes nothing: the dependents are counted down once, and a
  stale sweep cannot turn a success into a failure or start the loop again.\<close>

theorem park_resolved_once:
  assumes "tables_ok db"
  shows "(\<forall>db' \<in> {fst (resolve_subworkflow now t child ok db), fst (fail_parked_subworkflow now t child why db),
               fst (requeue_parked_subworkflow t child out tm db)}.
        resolve_subworkflow now' t child ok' db' = (db', False)
        \<and> fail_parked_subworkflow now' t child why' db' = (db', False)
        \<and> requeue_parked_subworkflow t child out' tm' db' = (db', False))
    \<and> (\<forall>db' \<in> {fst (resolve_external now t h out db), fst (fail_external_impl now t h why keep db)}.
        resolve_external now' t h out' db' = (db', False) \<and> fail_external_impl now' t h why' keep' db' = (db', False))
    \<and> (\<forall>db' \<in> {fst (resolve_url_wait now t db)}. resolve_url_wait now' t db' = (db', False))
    \<and> (\<forall>db' \<in> {fst (finish_fanout now t ok why db)}. finish_fanout now' t ok' why' db' = (db', False))"
  by (intro conjI resolved_once assms)

theorem park_resolved_once_witness:
  "let db' = fst (resolve_subworkflow 9 ''a'' ''child'' True parked_trigger)
   in fail_parked_subworkflow 10 ''a'' ''child'' ''late'' db' = (db', False)"
  using park_resolved_once [OF parked_trigger_ok, of 9 "''a''" "''child''" True] by (simp add: Let_def)

subsection \<open>Loops over a child run\<close>

lemma decide_cases:
  "(decide rep out i = RepeatAgain d \<longrightarrow> i < int (re_max_iterations rep) \<and> d = re_delay_secs rep)
   \<and> (int (re_max_iterations rep) \<le> i \<longrightarrow> decide rep out i = RepeatDone \<or> (\<exists>why. decide rep out i = RepeatFail why))
   \<and> (decide rep out i = RepeatDone \<longleftrightarrow>
        eval_when (substitute (re_until rep) [(''attempt'', int_to_string i), (''output'', trim out)]) = Inr True)"
proof -
  define e where "e = eval_when (substitute (re_until rep) [(''attempt'', int_to_string i), (''output'', trim out)])"
  consider (err) m where "e = Inl m" | (yes) "e = Inr True" | (no) "e = Inr False" by (metis (full_types) sum.exhaust)
  then show ?thesis unfolding decide_def e_def [symmetric] by cases simp_all
qed

text \<open>The loop operator ends: an iteration asks for another one only while the budget lasts
  and the condition is false, waits what the spec says (a year at most), and at the budget the
  task is done or failed. Going round again takes the row off its child, under a new fence, and
  counts nobody down.\<close>

theorem repeat_is_bounded:
  "(decide rep out i = RepeatAgain d \<longrightarrow> i < int (re_max_iterations rep) \<and> d = re_delay_secs rep)
   \<and> (int (re_max_iterations rep) \<le> i \<longrightarrow> decide rep out i = RepeatDone \<or> (\<exists>why. decide rep out i = RepeatFail why))
   \<and> (decide rep out i = RepeatDone \<longleftrightarrow>
        eval_when (substitute (re_until rep) [(''attempt'', int_to_string i), (''output'', trim out)]) = Inr True)
   \<and> now \<le> delayed_retry_at now d \<and> delayed_retry_at now d \<le> plus_secs now (365 * 24 * 60 * 60)
   \<and> map tr_remaining_deps (task_runs (fst (requeue_parked_subworkflow t child o' tm db))) = map tr_remaining_deps (task_runs db)
   \<and> (\<forall>r \<in> set (task_runs (fst (requeue_parked_subworkflow t child o' tm db))). tr_id r = t \<longrightarrow> tr_sub_run_id r = Some child \<longrightarrow> tr_status r \<noteq> Running)"
proof -
  have "now \<le> delayed_retry_at now d" "delayed_retry_at now d \<le> plus_secs now (365 * 24 * 60 * 60)"
    by (simp_all add: delayed_retry_at_def plus_secs_def max_repeat_delay_secs_def)
  moreover have "map tr_remaining_deps (task_runs (fst (requeue_parked_subworkflow t child o' tm db))) = map tr_remaining_deps (task_runs db)"
    by (simp add: requeue_parked_subworkflow_def map_key_update_where requeue_sub_set_def)
  moreover have "tr_status r \<noteq> Running"
    if "r \<in> set (task_runs (fst (requeue_parked_subworkflow t child o' tm db)))" "tr_id r = t" "tr_sub_run_id r = Some child" for r
    using that requeue_selects_none [of t child tm o' db]
    by (auto simp: requeue_parked_subworkflow_def aff_def rows_affected_0 parked_on_def)
  ultimately show ?thesis using decide_cases [of rep out i d] by blast
qed

theorem repeat_is_bounded_witness:
  "decide \<lparr>re_until = ''{{ output }} == done'', re_max_iterations = 2, re_delay_secs = 5\<rparr> ''going'' 1 = RepeatAgain 5
   \<and> 1 < int (re_max_iterations \<lparr>re_until = ''{{ output }} == done'', re_max_iterations = 2, re_delay_secs = 5\<rparr>)"
proof -
  let ?rep = "\<lparr>re_until = ''{{ output }} == done'', re_max_iterations = 2, re_delay_secs = 5\<rparr>"
  have "decide ?rep ''going'' 1 = RepeatAgain 5" by code_simp
  then show ?thesis using repeat_is_bounded [of ?rep "''going''" 1 5] by simp
qed

subsection \<open>How deep a run is nested\<close>

text \<open>The run a chain of triggers reaches after so many steps up.\<close>

fun ancestor :: "db \<Rightarrow> nat \<Rightarrow> string \<Rightarrow> string option" where
  "ancestor db 0 run = Some run"
| "ancestor db (Suc n) run = Option.bind (sub_run_parent db run) (ancestor db n)"

lemma depth_walk_spec:
  "depth_walk db n run \<le> n \<and> (\<forall>k \<le> depth_walk db n run. ancestor db k run \<noteq> None)
   \<and> (depth_walk db n run < n \<longrightarrow> ancestor db (Suc (depth_walk db n run)) run = None)"
proof (induction n arbitrary: run)
  case 0
  then show ?case by simp
next
  case (Suc n)
  show ?case
  proof (cases "sub_run_parent db run")
    case None
    then show ?thesis by simp
  next
    case (Some parent)
    have "ancestor db k run \<noteq> None" if "k \<le> Suc (depth_walk db n parent)" for k
      using that Suc.IH [of parent] Some by (cases k) auto
    then show ?thesis using Suc.IH [of parent] Some by auto
  qed
qed

text \<open>The depth of a run is the number of triggers above it, and never more than the limit,
  whatever the tables hold: the walk takes at most that many steps even where triggers form a
  cycle, and it stops short of the limit only at a run nobody triggered.\<close>

theorem subworkflow_depth_exact:
  "0 \<le> sub_workflow_depth db run limit
   \<and> sub_workflow_depth db run limit \<le> max limit 0
   \<and> ancestor db (nat (sub_workflow_depth db run limit)) run \<noteq> None
   \<and> (sub_workflow_depth db run limit < limit \<longrightarrow> ancestor db (Suc (nat (sub_workflow_depth db run limit))) run = None)"
  using depth_walk_spec [of db "nat limit" run] by (auto simp: sub_workflow_depth_def)

definition cyclic_triggers :: db where
  "cyclic_triggers = example_db [(example_task ''a'' Running 0)\<lparr>tr_sub_run_id := Some ''r''\<rparr>] []"

theorem subworkflow_depth_exact_witness:
  "sub_workflow_depth parked_trigger ''child'' 5 = 1 \<and> ancestor parked_trigger (Suc 1) ''child'' = None
   \<and> sub_workflow_depth cyclic_triggers ''r'' 5 = 5"
proof -
  have "sub_workflow_depth parked_trigger ''child'' 5 = 1" "sub_workflow_depth cyclic_triggers ''r'' 5 = 5"
    by code_simp+
  then show ?thesis using subworkflow_depth_exact [of parked_trigger "''child''" 5] by simp
qed

end
