(* ===== verification/Scheduler.thy ===== *)
theory Scheduler
  imports Park Advance_Props
begin

text \<open>
  The datastore as one transition system: every operation on task rows is a step, in any order
  and from any number of engines, sweeps and operators. The invariant of the tables, the state
  machine of a task and the life of a fence hold in every state that can be reached.
\<close>

subsection \<open>Steps\<close>

text \<open>
  Each rule is one call. Whatever the caller passes (names, fences, times, verdicts) is free, so
  late, repeated and mistaken calls are included. Two calls have a precondition, the
  engine's part of the protocol: a park and a release are asked for by the holder of the claim.
  The flag says whether runs and gangs may be stopped: \<open>db_step False\<close> leaves out the calls that
  ask tasks to stop.
\<close>

inductive db_step :: "bool \<Rightarrow> db \<Rightarrow> db \<Rightarrow> bool" where
  recover: "db_step stops db (fst (recover_expired_leases now db))"
| advance: "db_step stops db (fst (advance_ready_tasks when_of clock db))"
| claim: "db_step stops db (fst (claim_ready_filtered now lease w n classes caps ex db))"
| gang: "db_step stops db (fst (claim_ready_gang now lease w n classes caps db))"
| succeed: "db_step stops db (fst (mark_task_succeeded_inner sv now t w v out hit db))"
| fail: "db_step stops db (fst (mark_task_failed sv now t w v err db))"
| retry: "db_step stops db (fst (retry_task sv pol now t w v err tm e db))"
| quota: "db_step stops db (fst (requeue_quota_wait sv dl now t w v why m db))"
| fault: "db_step stops db (fst (record_task_fault t w v c detail conf db))"
| renew: "db_step stops db (fst (renew_task_lease now t w v secs db))"
| settle: "db_step stops db (fst (settle_stopped_task sv now t w v db))"
| release: "db_step stops db (fst (release_stopping_task now t w v secs db))"
| approve: "db_step stops db (fst (resolve_approval sv now run t ok who why db))"
| expire: "db_step stops db (fst (resolve_expired_approvals sv now clock db))"
| cancel: "db_step True db (fst (cancel_run sv lease now run db))"
| overdue: "db_step True db (fst (cancel_overdue_runs sv lease now db))"
| stranded: "db_step True db (fst (end_stopped_runs sv lease clock db))"
| siblings: "db_step True db (fst (cancel_gang_siblings lease now m db))"
| teardown: "db_step stops db (fst (claim_teardowns now lease w n classes held db))"
| reaped: "db_step stops db (fst (reap sv now runs db))"
| park_sub: "holds_claim t v db \<Longrightarrow> db_step stops db (fst (park_subworkflow t v child db))"
| release_sub: "holds_claim t v db \<Longrightarrow> db_step stops db (fst (release_subworkflow_task t v db))"
| park_time: "holds_claim t v db \<Longrightarrow> db_step stops db (fst (park_wait t v tm db))"
| park_url: "holds_claim t v db \<Longrightarrow> db_step stops db (fst (park_wait_url t v url tm db))"
| park_ext: "holds_claim t v db \<Longrightarrow> db_step stops db (fst (park_external t v kind h ep tm deadline db))"
| park_data: "holds_claim t v db \<Longrightarrow> db_step stops db (fst (park_wait_dataset events t v uri db))"
| sub_sweep: "db_step stops db (fst (reconcile_subworkflows repeat_in clock db))"
| wait_sweep: "db_step stops db (fst (reconcile_waits now db))"
| data_sweep: "db_step stops db (fst (reconcile_dataset_waits events now db))"
| url_claims: "db_step stops db (fst (claim_due_url_waits now n secs db))"
| url_repark: "db_step stops db (fst (repark_url_wait t tm db))"
| url_done: "db_step stops db (fst (resolve_url_wait now t db))"
| ext_claims: "db_step stops db (fst (claim_due_external_polls now n secs db))"
| ext_repark: "db_step stops db (fst (repark_external t h tm db))"
| ext_done: "db_step stops db (fst (resolve_external now t h out db))"
| ext_failed: "db_step stops db (fst (fail_external_impl now t h why keep db))"
| ext_cancels: "db_step stops db (fst (claim_due_external_cancels now n secs db))"
| ext_cleared: "db_step stops db (fst (clear_external_handle t h db))"
| ext_retry: "db_step stops db (fst (record_external_cancel_failure t h tm db))"
| ext_back: "db_step stops db (fst (release_external_cancel_claim t h tm db))"
| joined: "db_step stops db (fst (finish_fanout now t ok why db))"

lemmas op_from =
  recover_from advance_rounds_from [THEN conjunct1] claim_filtered_from claim_gang_from
  succeeded_from failed_from retry_from quota_from lease_ops_from settle_from approval_from expire_from
  cancel_run_from cancel_overdue_from end_stranded_from gang_siblings_from teardown_from
  sweeps_from resolutions_from parks_from

lemma step_from:
  assumes "db_step stops db db'" "inv_from db0 [] db"
  shows "inv_from db0 [] db'"
  using assms
  by (cases rule: db_step.cases)
    (simp_all add: op_from advance_ready_tasks_def settle_stopped_task_def resolve_expired_approvals_def
      end_stopped_runs_def claim_teardowns_def reap_def)

lemma steps_from:
  assumes "(db_step stops)\<^sup>*\<^sup>* db db'" "inv_from db0 [] db"
  shows "inv_from db0 [] db'"
  using assms by induction (auto intro: step_from)

subsection \<open>What holds in every state\<close>

lemma extends_ids: "extends a b \<Longrightarrow> map tr_id (task_runs b) = map tr_id (task_runs a)"
  unfolding extends_def list_all2_conv_all_nth row_ext_def by (simp add: list_eq_iff_nth_eq)



subsection \<open>The state machine of a task\<close>

text \<open>
  The abstract machine knows the status of each task and the edges, and nothing of workers,
  fences, leases, counters or parks. A step moves tasks along the machine of one task, and what
  has begun in the new state has no dependency that is not over.
\<close>

definition statuses :: "db \<Rightarrow> string \<Rightarrow> task_status option" where
  "statuses db t = map_option tr_status (row_of tr_id t (task_runs db))"

definition machine_step ::
  "(string \<times> string) set \<Rightarrow> (string \<Rightarrow> task_status option) \<Rightarrow> (string \<Rightarrow> task_status option) \<Rightarrow> bool" where
  "machine_step edges a b \<longleftrightarrow>
     dom a = dom b
     \<and> (\<forall>t s s'. a t = Some s \<longrightarrow> b t = Some s' \<longrightarrow> task_move\<^sup>*\<^sup>* s s')
     \<and> (\<forall>t s d s'. b t = Some s \<longrightarrow> has_started s \<longrightarrow> (t, d) \<in> edges \<longrightarrow> b d = Some s' \<longrightarrow> is_terminal s')"

lemma statuses_row:
  "tables_ok db \<Longrightarrow> statuses db t = Some s \<longleftrightarrow> (\<exists>r \<in> set (task_runs db). tr_id r = t \<and> tr_status r = s)"
  using row_of_unique [of tr_id "task_runs db"]
  by (auto simp: statuses_def tables_ok_def dest: row_of_SomeD)

lemma extends_back:
  assumes "extends a b" "r' \<in> set (task_runs b)"
  obtains r where "r \<in> set (task_runs a)" "row_ext r r'"
proof -
  obtain i where "i < length (task_runs b)" "r' = task_runs b ! i"
    using assms(2) by (auto simp: in_set_conv_nth)
  moreover have "list_all2 row_ext (task_runs a) (task_runs b)" using assms(1) by (simp add: extends_def)
  ultimately have "i < length (task_runs a)" "row_ext (task_runs a ! i) r'"
    by (auto simp: list_all2_conv_all_nth)
  then show thesis using that nth_mem by blast
qed



subsection \<open>The life of a fence\<close>

text \<open>C14. A claim that is lost is lost for good: once the row's fence has reached a worker's and
  the worker does not hold the row under it, no later state gives it back, whatever happens in
  between, since every new claim raises the fence. With it, every late call of that worker is
  refused for ever.\<close>

theorem lost_claim_stays_lost:
  assumes inv: "sched_inv db" and steps: "(db_step stops)\<^sup>*\<^sup>* db db'"
    and r: "r \<in> set (task_runs db)" "tr_id r = t" "v \<le> tr_version r" "\<not> held_by t w v r"
  shows "\<not> list_ex (held_by t w v) (task_runs db')"
proof
  assume "list_ex (held_by t w v) (task_runs db')"
  then obtain r' where r': "r' \<in> set (task_runs db')" "held_by t w v r'" by (auto simp: list_ex_iff)
  have e: "extends db db'" using steps_from [OF steps inv_from_self [OF inv]] by (simp add: inv_from_def)
  then obtain q where q: "q \<in> set (task_runs db)" "row_ext q r'" using r'(1) by (rule extends_back)
  have "distinct (map tr_id (task_runs db))"
    using inv inv_tables [of "[]" db] by (simp add: sched_inv_def tables_ok_def)
  moreover have "tr_id q = tr_id r" using q(2) r(2) r'(2) by (simp add: row_ext_def held_by_def)
  ultimately have "q = r" using q(1) r(1) distinct_key_eq [of tr_id "task_runs db" q r] by blast
  then have "tr_version r \<le> tr_version r'"
    "tr_claimed_by r' \<noteq> None \<longrightarrow> tr_claimed_by r' = tr_claimed_by r \<and> tr_version r' = tr_version r \<or> tr_version r < tr_version r'"
    using q(2) by (simp_all add: row_ext_def)
  moreover have "tr_claimed_by r' = Some w" "tr_version r' = v" using r'(2) by (simp_all add: held_by_def)
  ultimately have "tr_claimed_by r = Some w" "tr_version r = v" using r(3) by auto
  then show False using r(2,4) by (simp add: held_by_def)
qed

theorem lost_claim_stays_lost_witness:
  "\<not> list_ex (held_by ''b'' ''w'' 0) (task_runs (fst (advance_ready_tasks (\<lambda>_. None) (\<lambda>_ _. 9) fan_in)))"
proof -
  have r: "example_task ''b'' Failed 0 \<in> set (task_runs fan_in)" "tr_id (example_task ''b'' Failed 0) = ''b''"
    "(0::int) \<le> tr_version (example_task ''b'' Failed 0)" "\<not> held_by ''b'' ''w'' 0 (example_task ''b'' Failed 0)"
    by code_simp+
  show ?thesis
    using lost_claim_stays_lost [OF fan_in_inv _ r] db_step.advance [of False fan_in "\<lambda>_. None" "\<lambda>_ _. 9"] by blast
qed

end
