(* ===== verification/Liveness.thy ===== *)
theory Liveness
  imports Scheduler
begin

text \<open>
  Why a run does not hang. While nobody asks a task to stop, every operation keeps the counters
  exact: what ends is counted down once, by the transaction that ends it. With exact counters and
  edges without a cycle, as long as a task waits there is one that runs, is queued or parked, or
  one the next advance moves on.
\<close>

subsection \<open>Nobody is asked to stop\<close>

definition stops :: "db \<Rightarrow> instant option list" where
  "stops db = map tr_stop_requested_at (task_runs db)"

definition no_stops :: "db \<Rightarrow> bool" where
  "no_stops db = list_all (\<lambda>s. s = None) (stops db)"

lemma no_stops_cong: "stops db' = stops db \<Longrightarrow> no_stops db' = no_stops db"
  by (simp add: no_stops_def)

lemma stops_upd:
  assumes "\<And>r. p r \<Longrightarrow> tr_stop_requested_at (f r) = tr_stop_requested_at r"
  shows "stops (upd p f db) = stops db"
  using assms by (simp add: stops_def map_key_update_where)

lemma stops_decrement [simp]: "stops (decrement_dependents t db) = stops db"
  by (simp add: decrement_dependents_def stops_upd)

lemma stops_decrement_all [simp]: "stops (decrement_all ts db) = stops db"
  by (induction ts rule: rev_induct) (simp_all add: decrement_all_def)

lemma no_settle: "no_stops db \<Longrightarrow> settle_stopping sv t w v now db = (db, False)"
  by (auto simp: settle_stopping_def no_stops_def stops_def list_all_iff held_stopping_def find_None_iff split: option.split
      dest!: find_Some_iff [THEN iffD1])

subsection \<open>Calm states\<close>

definition calm :: "db \<Rightarrow> db \<Rightarrow> bool" where
  "calm db0 db = (inv_from db0 [] db \<and> counter_exact db \<and> no_stops db)"

lemma calmD: "calm db0 db \<Longrightarrow> tables_ok db" "calm db0 db \<Longrightarrow> no_stops db" "calm db0 db \<Longrightarrow> inv_from db0 [] db"
  by (auto simp: calm_def dest: from_tables)

lemma calmI:
  "calm db0 db \<Longrightarrow> inv_from db0 [] db' \<Longrightarrow> counter_exact db' \<Longrightarrow> stops db' = stops db \<Longrightarrow> calm db0 db'"
  by (auto simp: calm_def dest: no_stops_cong)

context quiet_update
begin

lemma calm_kept:
  assumes "calm db0 db" "\<And>r. p r \<Longrightarrow> tr_stop_requested_at (f r) = tr_stop_requested_at r"
  shows "calm db0 (upd p f db)"
proof (rule calmI [OF assms(1)])
  show "inv_from db0 [] (upd p f db)" using assms(1) from_kept by (simp add: calm_def)
  show "counter_exact (upd p f db)" using calmD(1) [OF assms(1)] assms(1) exact_kept by (simp add: calm_def counter_exact_def)
  show "stops (upd p f db) = stops db" using assms(2) by (rule stops_upd)
qed

end

lemma calm_ready_dep:
  assumes "calm db0 db"
  shows "calm db0 (upd (ready_dependent_where db t) (make_ready now) db)"
proof (rule calmI [OF assms])
  show "inv_from db0 [] (upd (ready_dependent_where db t) (make_ready now) db)"
    using calmD(3) [OF assms] by (rule ready_dep_from)
  show "counter_exact (upd (ready_dependent_where db t) (make_ready now) db)"
    using calmD(1) [OF assms] assms ready_dep_stmt.exact_kept by (simp add: calm_def counter_exact_def)
  show "stops (upd (ready_dependent_where db t) (make_ready now) db) = stops db"
    by (rule stops_upd) (simp add: make_ready_def)
qed

context keyed_ending
begin

lemma calm_finish:
  assumes "calm db0 db" "\<And>r. p r \<Longrightarrow> tr_stop_requested_at (f r) = tr_stop_requested_at r"
  shows "calm db0 (fst (finish_task t p f db))"
proof (rule calmI [OF assms(1)])
  show "inv_from db0 [] (fst (finish_task t p f db))" using assms(1) finish_from by (simp add: calm_def)
  show "counter_exact (fst (finish_task t p f db))"
    using calmD(1) [OF assms(1)] assms(1) finish_exact by (simp add: calm_def counter_exact_def)
  show "stops (fst (finish_task t p f db)) = stops db" using stops_upd [OF assms(2)] by (simp add: finish_task_def)
qed

end

lemma exotic_one_stops: "stops (fst (exotic_one when_of now c db)) = stops db"
  by (simp add: exotic_one_def Let_def end_pending_def begin_pending_def stops_upd fail_when_def make_skipped_def
      park_barrier_def await_approval_def make_ready_def split: sum.split)

lemma exotic_loop_stops: "stops (fst (exotic_loop when_of clock cs db)) = stops db"
  by (induction cs arbitrary: db) (simp_all add: Let_def case_prod_unfold exotic_one_stops)

lemma advance_stops: "stops (fst (advance_rounds when_of clock k db)) = stops db"
proof (induction k arbitrary: db)
  case (Suc k)
  have "stops (fst (advance_default_shaped now db)) = stops db" for now db
    by (simp add: advance_default_shaped_def Let_def stops_upd make_ready_def make_skipped_def)
  then show ?case
    using Suc.IH by (simp add: Let_def case_prod_unfold advance_exotic_once_def exotic_loop_stops)
qed simp

lemma calm_advance:
  assumes "calm db0 db"
  shows "calm db0 (fst (advance_ready_tasks when_of clock db))"
  unfolding advance_ready_tasks_def
  using assms advance_rounds_from by (intro calmI [OF assms]) (auto simp only: calm_def advance_stops)

lemma claim_set_stops [simp]: "tr_stop_requested_at (claim_set w l r) = tr_stop_requested_at r"
  by (simp add: claim_set_def)

lemma calm_claim_loop: "calm db0 db \<Longrightarrow> calm db0 (fst (claim_loop w l avail cs db))"
  by (induction w l avail cs db rule: claim_loop.induct)
    (simp_all add: Let_def case_prod_unfold claim_stmt.calm_kept claim_set_stops)

lemma calm_sweep:
  "(\<And>x db. calm db0 db \<Longrightarrow> calm db0 (fst (f x db))) \<Longrightarrow> calm db0 db \<Longrightarrow> calm db0 (fst (sweep f xs db))"
  by (induction xs arbitrary: db) (simp_all add: Let_def case_prod_unfold)

lemma calm_fold: "(\<And>x db. calm db0 db \<Longrightarrow> calm db0 (f x db)) \<Longrightarrow> calm db0 db \<Longrightarrow> calm db0 (fold f xs db)"
  by (induction xs arbitrary: db) simp_all

lemma calm_upd_runs [simp]: "calm db0 (upd_runs p f db) = calm db0 db"
  by (simp add: calm_def counter_exact_def no_stops_def stops_def)

lemma calm_cong:
  assumes "task_runs a = task_runs b" "task_deps a = task_deps b"
  shows "calm db0 a = calm db0 b"
  using inv_cong(2) [OF assms] from_cong [OF assms] assms(1) by (simp add: calm_def counter_exact_def no_stops_def stops_def)

subsection \<open>The calls of a worker\<close>

lemma calm_paid:
  assumes "calm db0 db" "inv_from db0 [] (decrement_dependents t db1)" "counter_exact_debt [] (decrement_dependents t db1)" "stops db1 = stops db"
  shows "calm db0 (decrement_dependents t db1)"
  using assms by (intro calmI [OF assms(1)]) (simp_all add: counter_exact_def)

lemma calm_exact: "calm db0 db \<Longrightarrow> counter_exact_debt [] db"
  by (simp add: calm_def counter_exact_def)

lemma calm_succeed:
  assumes "calm db0 db"
  shows "calm db0 (fst (mark_task_succeeded_inner sv now t w v out hit db))"
proof (cases "aff (held_unstopped t w v) db = 0")
  case True
  then show ?thesis using assms by (simp add: mark_task_succeeded_inner_def no_settle calmD)
next
  case False
  let ?db1 = "decrement_dependents t (upd (held_unstopped t w v) (succeed_set now out hit) db)"
  have "calm db0 ?db1"
    using succeed_paid(1) [OF False calmD(3) [OF assms]] succeed_paid(2) [OF False calmD(1) [OF assms] calm_exact [OF assms]]
    by (intro calm_paid [OF assms]) (simp_all add: stops_upd succeed_set_def)
  then show ?thesis
    using False by (simp add: mark_task_succeeded_inner_def Let_def calm_ready_dep)
qed

lemma calm_fail:
  assumes "calm db0 db"
  shows "calm db0 (fst (mark_task_failed sv now t w v err db))"
proof (cases "aff (held_unstopped t w v) db = 0")
  case True
  then show ?thesis using assms by (simp add: mark_task_failed_def no_settle calmD)
next
  case False
  then show ?thesis
    using fail_paid(1) [OF False calmD(3) [OF assms]] fail_paid(2) [OF False calmD(1) [OF assms] calm_exact [OF assms]]
    by (simp add: mark_task_failed_def calm_paid [OF assms] stops_upd fail_set_def)
qed

lemma calm_approval:
  assumes "calm db0 db"
  shows "calm db0 (fst (resolve_approval sv now run t ok who why db))"
proof (cases "aff (awaiting_where run t) db = 0")
  case True
  then have "upd (awaiting_where run t) (decide_set sv now ok who why) db = db"
    by (simp add: aff_def rows_affected_0 upd_def update_where_none)
  then show ?thesis using assms True by (simp add: resolve_approval_def)
next
  case False
  then show ?thesis
    using decided_paid(1) [OF False calmD(3) [OF assms]] decided_paid(2) [OF False calmD(1) [OF assms] calm_exact [OF assms]]
    by (simp add: resolve_approval_def Let_def calm_paid [OF assms] stops_upd decide_set_def)
qed

lemma calm_expire: "calm db0 db \<Longrightarrow> calm db0 (fst (expire_approvals sv now clock rs db))"
  by (induction rs arbitrary: db) (auto simp: Let_def case_prod_unfold calm_approval split: option.split)

lemma calm_retry: "calm db0 db \<Longrightarrow> calm db0 (fst (retry_task sv p now t w v err tm e db))"
  using calm_cong [OF record_attempt_rest]
  by (simp add: retry_task_def no_settle calmD retry_stmt.calm_kept retry_set_def split: option.split)

lemma calm_quota: "calm db0 db \<Longrightarrow> calm db0 (fst (requeue_quota_wait sv dl now t w v why m db))"
  by (simp add: requeue_quota_wait_def no_settle calmD quota_stmt.calm_kept quota_set_def
      split: option.split quota_step.split)

lemma calm_teardown: "calm db0 db \<Longrightarrow> calm db0 (fst (teardown_loop w l cs db))"
  by (induction cs arbitrary: db) (simp_all add: Let_def case_prod_unfold teardown_stmt.calm_kept teardown_claim_set_def)

lemma calm_finalize: "calm db0 (fst (finalize_all sv now vs db)) = calm db0 db"
proof (rule calm_cong)
  show "task_runs (fst (finalize_all sv now vs db)) = task_runs db"
    by (induction vs arbitrary: db) (simp_all add: Let_def case_prod_unfold)
  have "task_deps (fst (finalize_run sv now v db)) = task_deps db" for v db
    by (simp add: finalize_run_def insert_run_completed_def Let_def case_prod_unfold)
  then show "task_deps (fst (finalize_all sv now vs db)) = task_deps db"
    by (induction vs arbitrary: db) (simp_all add: Let_def case_prod_unfold)
qed

lemma calm_lease_ops:
  assumes "calm db0 db"
  shows "calm db0 (fst (recover_expired_leases now db))"
    and "calm db0 (fst (renew_task_lease now t w v secs db))"
    and "calm db0 (fst (record_task_fault t w v c d k db))"
    and "calm db0 (fst (release_stopping_task now t w v secs db))"
    and "calm db0 (fst (claim_ready_gang now lease w n cl caps db))"
  using assms
  by (simp_all add: recover_expired_leases_def renew_task_lease_def record_task_fault_def release_stopping_task_def
      claim_ready_gang_def lease_stmt.calm_kept renew_stmt.calm_kept fault_stmt.calm_kept release_stmt.calm_kept
      gang_stmt.calm_kept lease_expired_set_def claim_set_def split: option.split)

subsection \<open>Parks and sweeps\<close>

context park_columns
begin

lemma calm_park: "calm db0 db \<Longrightarrow> holds_claim t v db \<Longrightarrow> calm db0 (fst (park_as f t v db))"
  unfolding park_as_held by (erule calm_kept) (simp add: unclaim_def stop)

end

lemma calm_parks:
  assumes "calm db0 db" "holds_claim t v db"
  shows "calm db0 (fst (park_subworkflow t v child db))"
    and "calm db0 (fst (release_subworkflow_task t v db))"
    and "calm db0 (fst (park_wait t v tm db))"
    and "calm db0 (fst (park_wait_url t v url tm db))"
    and "calm db0 (fst (park_external t v kind h ep tm dl db))"
    and "calm db0 (fst (park_wait_dataset events t v uri db))"
  using assms
  by (simp_all add: park_subworkflow_def release_subworkflow_task_def park_wait_def park_wait_url_def park_external_def
      park_wait_dataset_def sub_park.calm_park release_park.calm_park wait_park.calm_park url_park.calm_park
      external_park.calm_park dataset_park.calm_park)

lemma park_sets_stops [simp]:
  "tr_stop_requested_at (resolve_sub_set db now ok r) = tr_stop_requested_at r"
  "tr_stop_requested_at (requeue_sub_set tm out r) = tr_stop_requested_at r"
  "tr_stop_requested_at (fail_sub_set now why r) = tr_stop_requested_at r"
  "tr_stop_requested_at (sensor_set now o' r) = tr_stop_requested_at r"
  "tr_stop_requested_at (repoll tm r) = tr_stop_requested_at r"
  "tr_stop_requested_at (resolve_external_set now out r) = tr_stop_requested_at r"
  "tr_stop_requested_at (fail_external_set now why keep r) = tr_stop_requested_at r"
  "tr_stop_requested_at (clear_handle_set r) = tr_stop_requested_at r"
  "tr_stop_requested_at (cancel_failure_set tm r) = tr_stop_requested_at r"
  "tr_stop_requested_at (barrier_set now ok why r) = tr_stop_requested_at r"
  by (simp_all add: park_stmts)

lemma calm_resolve_one: "calm db0 db \<Longrightarrow> calm db0 (fst (resolve_one repeat_in clock x db))"
  by (simp add: resolve_one_def Let_def case_prod_unfold resolve_subworkflow_def requeue_parked_subworkflow_def
      fail_parked_subworkflow_def resolve_sub_stmt.calm_finish requeue_sub_stmt.calm_kept fail_sub_stmt.calm_finish
      split: option.split repeat_decision.split)

lemma calm_sweeps:
  assumes "calm db0 db"
  shows "calm db0 (fst (reconcile_subworkflows repeat_in clock db))"
    and "calm db0 (fst (reconcile_waits now db))"
    and "calm db0 (fst (reconcile_dataset_waits events now db))"
    and "calm db0 (fst (claim_due_url_waits now n secs db))"
    and "calm db0 (fst (claim_due_external_polls now n secs db))"
    and "calm db0 (fst (claim_due_external_cancels now n secs db))"
  unfolding reconcile_subworkflows_def reconcile_waits_def reconcile_dataset_waits_def run_pass_def
    claim_due_url_waits_def claim_due_external_polls_def claim_due_external_cancels_def Let_def case_prod_unfold fst_conv
  using assms
  by (auto intro!: calm_sweep calm_fold calm_resolve_one
      simp: wake_one_def dataset_one_def claim_url_one_def claim_external_one_def Let_def case_prod_unfold
        wake_stmt.calm_finish dataset_stmt.calm_finish repoll_stmt.calm_kept)

lemma calm_resolutions:
  assumes "calm db0 db"
  shows "calm db0 (fst (repark_url_wait t tm db))"
    and "calm db0 (fst (resolve_url_wait now t db))"
    and "calm db0 (fst (repark_external t h tm db))"
    and "calm db0 (fst (resolve_external now t h out db))"
    and "calm db0 (fst (fail_external_impl now t h why keep db))"
    and "calm db0 (fst (clear_external_handle t h db))"
    and "calm db0 (fst (record_external_cancel_failure t h tm db))"
    and "calm db0 (fst (release_external_cancel_claim t h tm db))"
    and "calm db0 (fst (finish_fanout now t ok why db))"
  using assms
  by (simp_all add: repark_url_wait_def resolve_url_wait_def repark_external_def resolve_external_def
      fail_external_impl_def clear_external_handle_def record_external_cancel_failure_def
      release_external_cancel_claim_def finish_fanout_def repoll_stmt.calm_kept url_stmt.calm_finish
      resolve_ext_stmt.calm_finish fail_ext_stmt.calm_finish clear_handle_stmt.calm_kept
      cancel_failure_stmt.calm_kept barrier_stmt.calm_finish Let_def)

subsection \<open>Every step that stops nobody\<close>

lemmas calm_ops =
  calm_lease_ops calm_advance calm_claim_loop calm_succeed calm_fail calm_retry calm_quota calm_approval calm_expire
  calm_teardown calm_finalize calm_parks calm_sweeps calm_resolutions

lemma step_calm:
  assumes "db_step False db db'" "calm db0 db"
  shows "calm db0 db'"
  using assms
  by (cases rule: db_step.cases)
    (simp_all add: calm_ops settle_stopped_task_def no_settle calmD resolve_expired_approvals_def claim_teardowns_def
      reap_def claim_ready_filtered_def)

lemma steps_calm:
  assumes "(db_step False)\<^sup>*\<^sup>* db db'" "calm db0 db"
  shows "calm db0 db'"
  using assms by induction (auto intro: step_calm)

subsection \<open>Something can always happen\<close>

text \<open>A row the next advance moves on, or one that is somebody's turn: queued, running, parked or
  waiting for a decision.\<close>

definition can_go_on :: "task_row \<Rightarrow> bool" where
  "can_go_on r = (tr_status r \<in> {Ready, Running, AwaitingApproval} \<or> tr_status r = Pending \<and> tr_remaining_deps r = 0)"

lemma someone_goes_on:
  assumes ok: "tables_ok db" and exact: "counter_exact db" and acyclic: "acyclic (set (task_deps db))"
    and pending: "r \<in> set (task_runs db)" "tr_status r = Pending"
  shows "\<exists>q \<in> set (task_runs db). can_go_on q"
proof -
  let ?P = "{i. \<exists>q \<in> set (task_runs db). tr_id q = i \<and> tr_status q = Pending}"
  have "wf ((set (task_deps db))\<inverse>)"
    using acyclic by (intro finite_acyclic_wf_converse) simp_all
  moreover have "tr_id r \<in> ?P" using pending by blast
  ultimately obtain i where i: "i \<in> ?P" "\<And>d. (d, i) \<in> (set (task_deps db))\<inverse> \<Longrightarrow> d \<notin> ?P"
    by (rule wfE_min) blast
  from i(1) obtain q where q: "q \<in> set (task_runs db)" "tr_id q = i" "tr_status q = Pending" by blast
  show ?thesis
  proof (cases "\<exists>d \<in> set (dep_rows db i). \<not> is_terminal (tr_status d)")
    case True
    then obtain d where d: "d \<in> set (task_runs db)" "(i, tr_id d) \<in> set (task_deps db)" "\<not> is_terminal (tr_status d)"
      by (auto simp: set_dep_rows)
    then have "tr_status d \<noteq> Pending" using i(2) [of "tr_id d"] by blast
    with d(3) have "can_go_on d" by (cases "tr_status d") (simp_all add: can_go_on_def is_terminal_def)
    then show ?thesis using d(1) by blast
  next
    case False
    then have "open_deps db i = 0" by (auto simp: open_deps_0)
    then have "tr_remaining_deps q = 0"
      using exact q by (auto simp: counter_exact_def counter_exact_debt_def list_all_iff slack_def)
    then show ?thesis using q by (auto simp: can_go_on_def)
  qed
qed

lemma no_hang:
  assumes start: "sched_inv db0" "counter_exact db0" "no_stops db0" "acyclic (set (task_deps db0))"
    and steps: "(db_step False)\<^sup>*\<^sup>* db0 db"
  shows "counter_exact db
    \<and> ((\<exists>r \<in> set (task_runs db). tr_status r = Pending) \<longrightarrow> (\<exists>q \<in> set (task_runs db). can_go_on q))"
proof -
  have "calm db0 db0" using start inv_from_self by (simp add: calm_def)
  with steps have c: "calm db0 db" by (rule steps_calm)
  then have "task_deps db = task_deps db0" by (simp add: calm_def inv_from_def extends_def)
  then have "acyclic (set (task_deps db))" using start(4) by simp
  with c show ?thesis using someone_goes_on [OF calmD(1) [OF c]] by (auto simp: calm_def)
qed



end
