(* ===== verification/Service.thy ===== *)
theory Service
  imports Rust_Str
begin

text \<open>
  The containers a task runs beside (crates/dagron-core/src/service.rs), with the variables
  they and the task are given (\<open>EnvVar\<close> and \<open>SecretRef\<close> of dag.rs). A validator returns the
  first complaint it has, or \<open>None\<close>. Maps that the code keeps in a \<open>BTreeMap\<close> are the
  association lists of their entries in key order, the order in which the code walks them.
\<close>

record secret_ref =
  sr_secret :: string
  sr_optional :: bool

record env_var =
  ev_name :: string
  ev_value :: string
  ev_value_from :: "secret_ref option"

record service_resources =
  svr_requests :: "string btree"
  svr_limits :: "string btree"

datatype ready = Shell string | Exec "string list"

record service_spec =
  sv_name :: string
  sv_image :: string
  sv_args :: "string list"
  sv_env :: "env_var list"
  sv_ready :: "ready option"
  sv_ready_timeout_secs :: "nat option"
  sv_resources :: "service_resources option"
  sv_daemon :: bool

definition max_services :: nat where "max_services = 8"
definition default_ready_timeout_secs :: nat where "default_ready_timeout_secs = 60"
definition max_ready_timeout_secs :: nat where "max_ready_timeout_secs = 600"
definition max_name_len :: nat where "max_name_len = 40"

lemmas service_limits = max_services_def default_ready_timeout_secs_def max_ready_timeout_secs_def max_name_len_def

datatype service_error =
    Bad_service_name string
  | Localhost_name
  | Image_parameter string
  | Bad_image string
  | Bad_variable string string
  | Service_secret string string
  | Variable_twice string string
  | Ready_empty string
  | Ready_no_program string
  | Ready_timeout_alone string
  | Ready_timeout_range string nat
  | Too_many_services nat
  | Service_twice string

fun ready_argv :: "ready \<Rightarrow> string list" where
  "ready_argv (Shell line) = [''sh'', ''-c'', line]"
| "ready_argv (Exec argv) = argv"

fun ready_filled :: "(string \<Rightarrow> string) \<Rightarrow> ready \<Rightarrow> ready" where
  "ready_filled fill (Shell line) = Shell (fill line)"
| "ready_filled fill (Exec argv) = Exec (map fill argv)"

definition check_name :: "string \<Rightarrow> service_error option" where
  "check_name name =
     first_err
      [guard
        (\<not> ((case name of
               [] \<Rightarrow> False
             | c # cs \<Rightarrow> is_ascii_lowercase c
                 \<and> list_all (\<lambda>c. is_ascii_lowercase c \<or> is_ascii_digit c \<or> c = CHR ''-'') cs)
            \<and> \<not> ends_with name ''-''
            \<and> str_len name \<le> max_name_len))
        (Bad_service_name name),
       guard (name = ''localhost'') Localhost_name]"

definition check_image :: "string \<Rightarrow> service_error option" where
  "check_image img =
     first_err
      [guard (contains img ''{{'') (Image_parameter img),
       guard (img = [] \<or> str_len img > 512 \<or> list_ex (\<lambda>c. is_whitespace c \<or> is_control c) img)
        (Bad_image img)]"

definition is_ascii_alphabetic :: "char \<Rightarrow> bool" where
  "is_ascii_alphabetic c = (is_ascii_lowercase c \<or> is_ascii_uppercase c)"

definition is_variable :: "string \<Rightarrow> bool" where
  "is_variable name =
     (case name of
        [] \<Rightarrow> False
      | c # cs \<Rightarrow> (is_ascii_alphabetic c \<or> c = CHR ''_'')
          \<and> list_all (\<lambda>c. is_ascii_alphanumeric c \<or> c = CHR ''_'') cs)"

definition ready_timeout :: "service_spec \<Rightarrow> nat" where
  "ready_timeout s = (case sv_ready_timeout_secs s of None \<Rightarrow> default_ready_timeout_secs | Some n \<Rightarrow> n)"

definition service_filled :: "(string \<Rightarrow> string) \<Rightarrow> service_spec \<Rightarrow> service_spec" where
  "service_filled fill s =
     s\<lparr>sv_image := fill (sv_image s),
       sv_args := map fill (sv_args s),
       sv_env := map (\<lambda>e. e\<lparr>ev_value := fill (ev_value e)\<rparr>) (sv_env s),
       sv_ready := map_option (ready_filled fill) (sv_ready s)\<rparr>"

definition ready_refusal :: "service_spec \<Rightarrow> service_error option" where
  "ready_refusal s =
     (case sv_ready s of
        Some (Shell line) \<Rightarrow> guard (trim line = []) (Ready_empty (sv_name s))
      | Some (Exec argv) \<Rightarrow> guard (case argv of [] \<Rightarrow> True | program # _ \<Rightarrow> trim program = []) (Ready_no_program (sv_name s))
      | None \<Rightarrow> guard (sv_ready_timeout_secs s \<noteq> None) (Ready_timeout_alone (sv_name s)))"

definition validate_service :: "service_spec \<Rightarrow> service_error option" where
  "validate_service s =
     first_err
      [check_name (sv_name s),
       check_image (sv_image s),
       guard_seen
         (\<lambda>var. first_err
            [guard (\<not> is_variable (ev_name var)) (Bad_variable (sv_name s) (ev_name var)),
             guard (ev_value_from var \<noteq> None) (Service_secret (sv_name s) (ev_name var))])
         ev_name (\<lambda>var. Variable_twice (sv_name s) (ev_name var)) [] (sv_env s),
       ready_refusal s,
       guard_opt (\<lambda>secs. guard (\<not> (1 \<le> secs \<and> secs \<le> max_ready_timeout_secs)) (Ready_timeout_range (sv_name s) secs))
         (sv_ready_timeout_secs s)]"

definition validate_services :: "service_spec list \<Rightarrow> service_error option" where
  "validate_services services =
     first_err
      [guard (length services > max_services) (Too_many_services (length services)),
       guard_seen validate_service sv_name (\<lambda>s. Service_twice (sv_name s)) [] services]"

text \<open>The first service of a task that an engine without containers refuses.\<close>

definition not_run_locally :: "service_spec list \<Rightarrow> string option" where
  "not_run_locally services = (case services of [] \<Rightarrow> None | s # _ \<Rightarrow> Some (sv_name s))"

subsection \<open>What an accepted list of services is\<close>

definition service_name_ok :: "string \<Rightarrow> bool" where
  "service_name_ok n = (n \<noteq> [] \<and> length n \<le> 40 \<and> is_ascii_lowercase (hd n) \<and> last n \<noteq> CHR ''-''
     \<and> list_all (\<lambda>c. is_ascii_lowercase c \<or> is_ascii_digit c \<or> c = CHR ''-'') n \<and> n \<noteq> ''localhost'')"

definition services_ok :: "service_spec list \<Rightarrow> bool" where
  "services_ok ss = (length ss \<le> 8 \<and> distinct (map sv_name ss)
     \<and> list_all (\<lambda>s. service_name_ok (sv_name s)
          \<and> \<not> contains (sv_image s) ''{{''
          \<and> distinct (map ev_name (sv_env s))
          \<and> list_all (\<lambda>v. is_variable (ev_name v) \<and> ev_value_from v = None) (sv_env s)
          \<and> (sv_ready s \<noteq> None \<longrightarrow> ready_argv (the (sv_ready s)) \<noteq> [])
          \<and> 1 \<le> ready_timeout s \<and> ready_timeout s \<le> 600) ss)"

lemma ascii_width: "is_ascii_lowercase c \<or> is_ascii_digit c \<or> c = CHR ''-'' \<Longrightarrow> utf8_width c = 1"
  by (auto simp: is_ascii_lowercase_def is_ascii_digit_def utf8_width_def)

lemma str_len_ascii: "list_all (\<lambda>c. utf8_width c = 1) s \<Longrightarrow> str_len s = length s"
  by (induction s) (auto simp: str_len_def)

lemma str_len_ge: "length s \<le> str_len s"
  by (induction s) (auto simp: str_len_def utf8_width_def)

lemma check_name_ok: "check_name n = None \<Longrightarrow> service_name_ok n"
proof (cases n)
  case (Cons c cs)
  moreover assume a: "check_name n = None"
  moreover have "last n \<noteq> CHR ''-''"
  proof
    assume l: "last n = CHR ''-''"
    with Cons have "n = butlast n @ ''-''" by (metis append_butlast_last_id list.distinct(1))
    then have "ends_with n ''-''" unfolding ends_with_iff by blast
    with a show False by (simp add: check_name_def guard_simps)
  qed
  ultimately show ?thesis using str_len_ge [of n]
    by (simp add: check_name_def guard_simps service_name_ok_def service_limits)
qed (simp add: check_name_def guard_simps)

lemma validate_services_ok: "validate_services ss = None \<Longrightarrow> services_ok ss"
proof -
  assume a: "validate_services ss = None"
  have each: "service_name_ok (sv_name s) \<and> \<not> contains (sv_image s) ''{{'' \<and> distinct (map ev_name (sv_env s))
      \<and> list_all (\<lambda>v. is_variable (ev_name v) \<and> ev_value_from v = None) (sv_env s)
      \<and> (sv_ready s \<noteq> None \<longrightarrow> ready_argv (the (sv_ready s)) \<noteq> [])
      \<and> 1 \<le> ready_timeout s \<and> ready_timeout s \<le> 600" if s: "s \<in> set ss" for s
  proof -
    have v: "validate_service s = None" using a s by (auto simp: validate_services_def guard_simps)
    then have n: "service_name_ok (sv_name s)" by (auto simp: validate_service_def guard_simps intro: check_name_ok)
    have r: "sv_ready s \<noteq> None \<longrightarrow> ready_argv (the (sv_ready s)) \<noteq> []"
      using v by (auto simp: validate_service_def ready_refusal_def guard_simps split: option.splits ready.splits list.splits)
    have t: "1 \<le> ready_timeout s \<and> ready_timeout s \<le> 600"
      using v by (auto simp: validate_service_def guard_simps ready_timeout_def service_limits split: option.splits)
    show ?thesis using v n r t
      by (auto simp: validate_service_def guard_simps check_image_def list_all_iff)
  qed
  then show ?thesis using a
    by (auto simp: validate_services_def guard_simps services_ok_def list_all_iff service_limits)
qed

lemma service_filled_keeps:
  "sv_name (service_filled f s) = sv_name s
   \<and> map ev_name (sv_env (service_filled f s)) = map ev_name (sv_env s)
   \<and> map ev_value_from (sv_env (service_filled f s)) = map ev_value_from (sv_env s)"
  by (simp add: service_filled_def)

end
