(* ===== verification/Workspace.thy ===== *)
theory Workspace
  imports Service
begin

text \<open>
  What a task's working directory is filled with (crates/dagron-core/src/workspace.rs): the
  checkout, the caches, the actions and the size, and the two credentials a task may be given
  beside it (crates/dagron-core/src/oidc.rs and forge_token.rs). A validator returns the first
  complaint it has, or \<open>None\<close>.
\<close>

record action_spec =
  as_repository :: string
  as_git_ref :: string
  as_path :: string
  as_credential :: bool

record path_cache_spec =
  pc_prefix :: string
  pc_key_files :: "string list"
  pc_paths :: "string list"
  pc_restore_from :: "string option"

record checkout_spec =
  co_repository :: string
  co_commit :: string
  co_depth :: "nat option"
  co_patched :: bool

record workspace_spec =
  ws_size :: "string option"
  ws_checkout :: "checkout_spec option"
  ws_cache :: "path_cache_spec list"
  ws_actions :: "action_spec list"
  ws_tools :: "string list"

definition max_actions :: nat where "max_actions = 32"
definition tools :: "string list" where "tools = [''node'']"
definition max_caches :: nat where "max_caches = 8"
definition max_cache_paths :: nat where "max_cache_paths = 16"
definition max_cache_key_files :: nat where "max_cache_key_files = 32"

datatype workspace_error =
    Repo_parameter string
  | Repo_not_https string
  | Repo_space string
  | Repo_user string
  | Repo_no_host string
  | Repo_no_path string
  | Commit_parameter string
  | Bad_commit string
  | Bad_ref string
  | Bad_action_path string
  | Bad_prefix string
  | No_cache_paths string
  | Too_many_cache_paths string nat
  | Too_many_key_files string nat
  | Cache_length string
  | Cache_parameter string string
  | Cache_control string string
  | Cache_climbs string string
  | Key_file_outside string string
  | Bad_restore_from string string
  | Too_many_caches nat
  | Cache_twice string
  | Unknown_tool string
  | Tool_twice string
  | Too_many_actions nat
  | Actions_overlap string string
  | Size_zero string
  | Bad_size string

subsection \<open>Repositories, commits and refs\<close>

definition is_ascii_hexdigit :: "char \<Rightarrow> bool" where
  "is_ascii_hexdigit c = (is_ascii_digit c \<or> (97 \<le> code c \<and> code c \<le> 102) \<or> (65 \<le> code c \<and> code c \<le> 70))"

definition is_port :: "string \<Rightarrow> bool" where
  "is_port p = (p \<noteq> [] \<and> str_len p \<le> 5 \<and> list_all is_ascii_digit p
     \<and> (case parse_u32 p of None \<Rightarrow> False | Some n \<Rightarrow> 1 \<le> n \<and> n \<le> 65535))"

definition host_ok :: "string \<Rightarrow> bool" where
  "host_ok authority =
     (case strip_prefix ''['' authority of
        Some v6 \<Rightarrow> (case split_once '']'' v6 of
            None \<Rightarrow> False
          | Some (addr, after) \<Rightarrow> addr \<noteq> []
              \<and> list_all (\<lambda>c. is_ascii_hexdigit c \<or> c = CHR '':'' \<or> c = CHR ''.'') addr
              \<and> (after = [] \<or> (case strip_prefix '':'' after of None \<Rightarrow> False | Some p \<Rightarrow> is_port p)))
      | None \<Rightarrow>
          (let (host, port) = (case split_once '':'' authority of Some (h, p) \<Rightarrow> (h, Some p) | None \<Rightarrow> (authority, None))
           in host \<noteq> []
              \<and> list_all (\<lambda>c. is_ascii_alphanumeric c \<or> c = CHR ''.'' \<or> c = CHR ''-'') host
              \<and> (case port of None \<Rightarrow> True | Some p \<Rightarrow> is_port p)))"

definition repo_rest_refusal :: "string \<Rightarrow> string \<Rightarrow> workspace_error option" where
  "repo_rest_refusal url rest =
     (let (authority, path) = (case split_once ''/'' rest of Some q \<Rightarrow> q | None \<Rightarrow> (rest, []))
      in first_err
          [guard (list_ex (\<lambda>c. is_whitespace c \<or> is_control c) url) (Repo_space url),
           guard (contains authority ''@'') (Repo_user url),
           guard (\<not> host_ok authority) (Repo_no_host url),
           guard (path = [] \<or> list_ex (\<lambda>c. c = CHR ''?'' \<or> c = CHR ''#'' \<or> c = CHR 0x5C) path
                  \<or> list_ex (\<lambda>seg. seg = ''..'') (split_char (CHR ''/'') path)) (Repo_no_path url)])"

definition check_repository :: "string \<Rightarrow> workspace_error option" where
  "check_repository url =
     (if contains url ''{{'' then Some (Repo_parameter url)
      else case strip_prefix ''https://'' url of
        Some rest \<Rightarrow> repo_rest_refusal url rest
      | None \<Rightarrow> (case strip_prefix ''http://'' url of
            Some rest \<Rightarrow> repo_rest_refusal url rest
          | None \<Rightarrow> Some (Repo_not_https url)))"

definition check_commit :: "string \<Rightarrow> workspace_error option" where
  "check_commit cid =
     first_err
      [guard (contains cid ''{{'') (Commit_parameter cid),
       guard (\<not> ((str_len cid = 40 \<or> str_len cid = 64)
              \<and> list_all (\<lambda>c. is_ascii_digit c \<or> (97 \<le> code c \<and> code c \<le> 102)) cid)) (Bad_commit cid)]"

definition check_ref :: "string \<Rightarrow> workspace_error option" where
  "check_ref name =
     guard
      (\<not> (name \<noteq> [] \<and> str_len name \<le> 255
          \<and> list_all (\<lambda>c. is_ascii_alphanumeric c \<or> c \<in> set ''._-/'') name)
       \<or> starts_with name ''-'' \<or> starts_with name ''/'' \<or> starts_with name ''.''
       \<or> ends_with name ''/'' \<or> ends_with name ''.''
       \<or> ends_with name ''.lock''
       \<or> contains name ''..'' \<or> contains name ''//'' \<or> contains name ''/.'')
      (Bad_ref name)"

subsection \<open>The blocks of a workspace\<close>

definition named_part :: "string \<Rightarrow> bool" where
  "named_part part = (part \<noteq> [] \<and> part \<noteq> ''.'' \<and> part \<noteq> ''..''
     \<and> list_all (\<lambda>c. is_ascii_alphanumeric c \<or> c \<in> set ''._-%'') part)"

definition validate_action :: "action_spec \<Rightarrow> workspace_error option" where
  "validate_action a =
     first_err
      [check_repository (as_repository a),
       check_ref (as_git_ref a),
       guard (as_path a = [] \<or> str_len (as_path a) > 512
              \<or> \<not> list_all named_part (split_char (CHR ''/'') (as_path a))) (Bad_action_path (as_path a))]"

definition plain_value :: "string \<Rightarrow> string \<Rightarrow> workspace_error option" where
  "plain_value p v =
     first_err
      [guard (v = [] \<or> str_len v > 1024) (Cache_length p),
       guard (contains v ''{{'') (Cache_parameter p v),
       guard (list_ex is_control v) (Cache_control p v)]"

definition climbs :: "string \<Rightarrow> bool" where
  "climbs path = list_ex (\<lambda>c. c = ''..'') (split_char (CHR ''/'') path)"

definition validate_cache :: "path_cache_spec \<Rightarrow> workspace_error option" where
  "validate_cache c =
     (let p = pc_prefix c
      in first_err
          [guard (p = [] \<or> str_len p > 64 \<or> \<not> list_all (\<lambda>x. is_ascii_alphanumeric x \<or> x \<in> set ''._-'') p) (Bad_prefix p),
           guard (pc_paths c = []) (No_cache_paths p),
           guard (length (pc_paths c) > max_cache_paths) (Too_many_cache_paths p (length (pc_paths c))),
           guard (length (pc_key_files c) > max_cache_key_files) (Too_many_key_files p (length (pc_key_files c))),
           guard_all (\<lambda>path. first_err [plain_value p path, guard (climbs path) (Cache_climbs p path)]) (pc_paths c),
           guard_all (\<lambda>f. first_err [plain_value p f, guard (starts_with f ''/'' \<or> climbs f) (Key_file_outside p f)]) (pc_key_files c),
           guard_opt (\<lambda>from. guard (str_len from > 255 \<or> contains from ''{{'' \<or> list_ex (\<lambda>x. is_control x \<or> is_whitespace x) from)
                         (Bad_restore_from p from)) (pc_restore_from c)])"

definition validate_checkout :: "checkout_spec \<Rightarrow> workspace_error option" where
  "validate_checkout c = first_err [check_repository (co_repository c), check_commit (co_commit c)]"

definition within :: "string \<Rightarrow> string \<Rightarrow> bool" where
  "within a b = (a = b \<or> starts_with a (b @ ''/''))"

fun validate_actions :: "action_spec list \<Rightarrow> action_spec list \<Rightarrow> workspace_error option" where
  "validate_actions before [] = None"
| "validate_actions before (a # rest) =
     (case validate_action a of
        Some e \<Rightarrow> Some e
      | None \<Rightarrow>
          (case find (\<lambda>o'. within (as_path a) (as_path o') \<or> within (as_path o') (as_path a)) before of
             Some other \<Rightarrow> Some (Actions_overlap (as_path other) (as_path a))
           | None \<Rightarrow> validate_actions (before @ [a]) rest))"

subsection \<open>Sizes\<close>

definition quantity_units :: "(string \<times> nat) list" where
  "quantity_units =
     [('''', 1), (''Ki'', 2 ^ 10), (''Mi'', 2 ^ 20), (''Gi'', 2 ^ 30), (''Ti'', 2 ^ 40), (''Pi'', 2 ^ 50), (''Ei'', 2 ^ 60),
      (''k'', 10 ^ 3), (''M'', 10 ^ 6), (''G'', 10 ^ 9), (''T'', 10 ^ 12), (''P'', 10 ^ 15), (''E'', 10 ^ 18)]"

abbreviation parse_u128 :: "string \<Rightarrow> nat option" where
  "parse_u128 \<equiv> parse_unsigned 128"

definition checked_u128 :: "nat \<Rightarrow> nat option" where
  "checked_u128 n = (if n < 2 ^ 128 then Some n else None)"

definition parse_part :: "string \<Rightarrow> nat option" where
  "parse_part s = (if s = [] then Some 0 else parse_u128 s)"

definition div_ceil :: "nat \<Rightarrow> nat \<Rightarrow> nat" where
  "div_ceil a b = (if a mod b = 0 then a div b else a div b + 1)"

definition quantity_bytes :: "string \<Rightarrow> nat option" where
  "quantity_bytes raw =
     (let number = takeWhile (\<lambda>c. is_ascii_digit c \<or> c = CHR ''.'') raw;
          suffix = dropWhile (\<lambda>c. is_ascii_digit c \<or> c = CHR ''.'') raw
      in case map_of quantity_units suffix of
           None \<Rightarrow> None
         | Some multiplier \<Rightarrow>
             (let (whole, fraction) = (case split_once ''.'' number of Some q \<Rightarrow> q | None \<Rightarrow> (number, []))
              in if (whole = [] \<and> fraction = []) \<or> contains fraction ''.'' then None
                 else if str_len fraction > 18 then None
                 else
                   (let scale = 10 ^ str_len fraction
                    in Option.bind (parse_part whole) (\<lambda>w.
                       Option.bind (checked_u128 (w * scale)) (\<lambda>ws.
                       Option.bind (parse_part fraction) (\<lambda>f.
                       Option.bind (checked_u128 (ws + f)) (\<lambda>scaled.
                       Option.bind (checked_u128 (scaled * multiplier)) (\<lambda>bytes.
                         Some (div_ceil bytes scale)))))))))"

definition size_bytes :: "workspace_spec \<Rightarrow> nat option" where
  "size_bytes ws = Option.bind (ws_size ws) quantity_bytes"

fun validate_tools :: "string list \<Rightarrow> string list \<Rightarrow> workspace_error option" where
  "validate_tools before [] = None"
| "validate_tools before (t # rest) =
     (if t \<notin> set tools then Some (Unknown_tool t)
      else if t \<in> set before then Some (Tool_twice t)
      else validate_tools (before @ [t]) rest)"

definition size_refusal :: "string \<Rightarrow> workspace_error option" where
  "size_refusal sz =
     (case quantity_bytes sz of
        None \<Rightarrow> Some (Bad_size sz)
      | Some n \<Rightarrow> guard (n = 0) (Size_zero sz))"

definition validate_workspace :: "workspace_spec \<Rightarrow> workspace_error option" where
  "validate_workspace ws =
     first_err
      [guard_opt validate_checkout (ws_checkout ws),
       guard (length (ws_cache ws) > max_caches) (Too_many_caches (length (ws_cache ws))),
       guard_seen validate_cache pc_prefix (\<lambda>c. Cache_twice (pc_prefix c)) [] (ws_cache ws),
       validate_tools [] (ws_tools ws),
       guard (length (ws_actions ws) > max_actions) (Too_many_actions (length (ws_actions ws))),
       validate_actions [] (ws_actions ws),
       guard_opt size_refusal (ws_size ws)]"

subsection \<open>A task's identity and its token for the forge\<close>

definition max_audiences :: nat where "max_audiences = 8"

record task_identity =
  oidc_audience :: "string list"

datatype identity_error = No_audience | Too_many_audiences nat | Bad_audience string

definition validate_identity :: "task_identity \<Rightarrow> identity_error option" where
  "validate_identity i =
     (let audiences = oidc_audience i
      in first_err
          [guard (audiences = []) No_audience,
           guard (length audiences > max_audiences) (Too_many_audiences (length audiences)),
           guard_all
             (\<lambda>a. guard (a = [] \<or> str_len a > 256 \<or> contains a ''{{'' \<or> list_ex (\<lambda>c. is_whitespace c \<or> is_control c) a)
                (Bad_audience a)) audiences])"

definition first_audience :: "task_identity \<Rightarrow> string" where
  "first_audience i = (case oidc_audience i of [] \<Rightarrow> [] | a # _ \<Rightarrow> a)"

definition permissions :: "string list" where
  "permissions =
     [''actions'', ''checks'', ''contents'', ''deployments'', ''discussions'', ''issues'', ''metadata'',
      ''pages'', ''pull_requests'', ''security_events'', ''statuses'']"

record forge_token_spec =
  ft_permissions :: "string btree"

datatype forge_error = No_permissions | Unknown_permission string | Bad_level string string

definition validate_forge_token :: "forge_token_spec \<Rightarrow> forge_error option" where
  "validate_forge_token t =
     first_err
      [guard (ft_permissions t = []) No_permissions,
       guard_all
         (\<lambda>(name, level). first_err
            [guard (name \<notin> set permissions) (Unknown_permission name),
             guard (level \<noteq> ''read'' \<and> level \<noteq> ''write'') (Bad_level name level)])
         (ft_permissions t)]"

subsection \<open>What an accepted workspace is\<close>

text \<open>No cached path and no key file leaves its root by \<open>..\<close>, a key file is relative, an
  action's path is made of plain names, no action is fetched into another's directory, and
  what is checked out is a full commit id.\<close>

definition apart :: "string \<Rightarrow> string \<Rightarrow> bool" where
  "apart a b = (\<not> within a b \<and> \<not> within b a)"

fun pairwise_apart :: "string list \<Rightarrow> bool" where
  "pairwise_apart [] = True"
| "pairwise_apart (p # ps) = (list_all (apart p) ps \<and> pairwise_apart ps)"

definition workspace_ok :: "workspace_spec \<Rightarrow> bool" where
  "workspace_ok ws =
     (list_all (\<lambda>c. list_all (\<lambda>p. \<not> climbs p) (pc_paths c)
          \<and> list_all (\<lambda>f. \<not> starts_with f ''/'' \<and> \<not> climbs f) (pc_key_files c)) (ws_cache ws)
      \<and> distinct (map pc_prefix (ws_cache ws))
      \<and> list_all (\<lambda>a. list_all named_part (split_char (CHR ''/'') (as_path a))) (ws_actions ws)
      \<and> pairwise_apart (map as_path (ws_actions ws))
      \<and> (case ws_checkout ws of None \<Rightarrow> True | Some c \<Rightarrow> length (co_commit c) = 40 \<or> length (co_commit c) = 64)
      \<and> (case ws_size ws of None \<Rightarrow> True | Some s \<Rightarrow> (case quantity_bytes s of None \<Rightarrow> False | Some n \<Rightarrow> 0 < n)))"

lemma pairwise_apart_append:
  "pairwise_apart (ps @ qs) \<longleftrightarrow> pairwise_apart ps \<and> pairwise_apart qs \<and> list_all (\<lambda>p. list_all (apart p) qs) ps"
  by (induction ps) auto

lemma validate_actions_ok:
  "validate_actions before as = None \<Longrightarrow> pairwise_apart (map as_path before) \<Longrightarrow>
     pairwise_apart (map as_path (before @ as)) \<and> list_all (\<lambda>a. validate_action a = None) as"
proof (induction before as rule: validate_actions.induct)
  case (2 before a rest)
  from "2.prems"(1) have v: "validate_action a = None"
    and f: "find (\<lambda>o'. within (as_path a) (as_path o') \<or> within (as_path o') (as_path a)) before = None"
    and r: "validate_actions (before @ [a]) rest = None"
    by (auto split: option.splits)
  have "pairwise_apart (map as_path (before @ [a]))"
    using "2.prems"(2) f by (auto simp: pairwise_apart_append find_None_iff list_all_iff apart_def)
  with "2.IH" [OF v f r] v show ?case by simp
qed simp

lemma commit_length: "check_commit c = None \<Longrightarrow> length c = 40 \<or> length c = 64"
proof -
  assume a: "check_commit c = None"
  then have "list_all (\<lambda>x. utf8_width x = 1) c"
    by (auto simp: check_commit_def guard_simps list_all_iff is_ascii_digit_def utf8_width_def)
  from str_len_ascii [OF this] a show ?thesis by (auto simp: check_commit_def guard_simps)
qed

lemma validate_workspace_ok: "validate_workspace ws = None \<Longrightarrow> workspace_ok ws"
proof -
  assume a: "validate_workspace ws = None"
  have caches: "list_all (\<lambda>c. list_all (\<lambda>p. \<not> climbs p) (pc_paths c)
      \<and> list_all (\<lambda>f. \<not> starts_with f ''/'' \<and> \<not> climbs f) (pc_key_files c)) (ws_cache ws)
      \<and> distinct (map pc_prefix (ws_cache ws))"
    using a by (auto simp: validate_workspace_def guard_simps validate_cache_def Let_def list_all_iff)
  have "validate_actions [] (ws_actions ws) = None"
    using a by (simp add: validate_workspace_def guard_simps)
  from validate_actions_ok [OF this] have acts: "pairwise_apart (map as_path (ws_actions ws))
      \<and> list_all (\<lambda>a. list_all named_part (split_char (CHR ''/'') (as_path a))) (ws_actions ws)"
    by (auto simp: list_all_iff validate_action_def guard_simps)
  have commit: "case ws_checkout ws of None \<Rightarrow> True | Some c \<Rightarrow> length (co_commit c) = 40 \<or> length (co_commit c) = 64"
    using a by (auto simp: validate_workspace_def validate_checkout_def guard_simps dest: commit_length split: option.splits)
  have sized: "case ws_size ws of None \<Rightarrow> True | Some s \<Rightarrow> (case quantity_bytes s of None \<Rightarrow> False | Some n \<Rightarrow> 0 < n)"
    using a by (cases "ws_size ws"; cases "quantity_bytes (the (ws_size ws))")
      (simp_all add: validate_workspace_def size_refusal_def guard_simps)
  show ?thesis using caches acts commit sized by (simp add: workspace_ok_def)
qed

text \<open>
  A size is the exact product of its number and its unit, rounded up to a whole byte: with
  \<open>w.f\<close> the number and \<open>k\<close> the digits of \<open>f\<close>, the bytes are the least integer that is not
  below \<open>(w 10\<^sup>k + f) m / 10\<^sup>k\<close>.
\<close>

lemma div_ceil_bounds: "0 < b \<Longrightarrow> a \<le> b * div_ceil a b \<and> b * div_ceil a b < a + b"
proof -
  assume b: "0 < b"
  show ?thesis
  proof (cases "a mod b = 0")
    case True
    with b show ?thesis by (auto simp: div_ceil_def)
  next
    case False
    have "b * (a div b) + a mod b = a" "a mod b < b" using b by simp_all
    with False have "a \<le> b + b * (a div b)" "b * (a div b) < a" by linarith+
    with False show ?thesis by (simp add: div_ceil_def algebra_simps)
  qed
qed

lemma div_ceil_le: "0 < b \<Longrightarrow> div_ceil a b \<le> a"
proof -
  assume b: "0 < b"
  have "a div b \<le> a" by simp
  moreover have "a mod b \<noteq> 0 \<Longrightarrow> a div b + 1 \<le> a"
  proof -
    assume m: "a mod b \<noteq> 0"
    have "a = b * (a div b) + a mod b" by simp
    moreover have "a div b \<le> b * (a div b)" using b by simp
    ultimately show ?thesis using m by linarith
  qed
  ultimately show ?thesis by (auto simp: div_ceil_def)
qed

end
