(* ===== verification/Isolation.thy ===== *)
theory Isolation
  imports Workspace
begin

text \<open>
  The sandbox a task asks for and the floor its operator holds it to
  (crates/dagron-core/src/isolation.rs), with the two refusals that rest on it: a privileged
  task (privileged.rs) and a Docker daemon beside a task (docker_daemon.rs). An error text is
  reduced to the constructor that names its branch and what it quotes.
\<close>

subsection \<open>Data\<close>

datatype seccomp = Unconfined | RuntimeDefault

datatype network = NetDefault | NetAllow string | NetNone

datatype executor_kind = Local | Docker | Kubernetes

record enforcer =
  en_kind :: executor_kind
  en_network_policy :: bool
  en_allowlists :: "string list"

record isolation_spec =
  iso_runtime_class :: "string option"
  iso_seccomp :: "seccomp option"
  iso_read_only_root_fs :: "bool option"
  iso_no_new_privileges :: "bool option"
  iso_drop_all_capabilities :: "bool option"
  iso_run_as_non_root :: "bool option"
  iso_run_as_user :: "int option"
  iso_service_account_token :: "bool option"
  iso_network :: "network option"

record tightened =
  ti_field :: string
  ti_requested :: string
  ti_applied :: string

datatype isolation_error =
    Bad_allowlist_name string
  | Bad_network string
  | Runtime_class_length nat
  | Bad_runtime_class string
  | Run_as_root
  | Negative_user int
  | Non_root_contradiction
  | Not_enforceable executor_kind "string list"
  | Floor_no_value string
  | Floor_not_bool string string
  | Floor_bad_seccomp string
  | Floor_bad_user string
  | Floor_unknown_key string
  | Proxy_not_http string
  | Proxy_user string
  | Proxy_no_port string
  | Bad_proxy string

definition from_kind :: "executor_kind \<Rightarrow> enforcer" where
  "from_kind kind = \<lparr>en_kind = kind, en_network_policy = False, en_allowlists = []\<rparr>"

definition executor_kind_parse :: "string \<Rightarrow> executor_kind option" where
  "executor_kind_parse raw =
     (let s = to_ascii_lowercase (trim raw)
      in if s = ''local'' then Some Local
         else if s = ''docker'' then Some Docker
         else if s \<in> set [''k8s'', ''kube'', ''kubernetes''] then Some Kubernetes
         else None)"

fun executor_label :: "executor_kind \<Rightarrow> string" where
  "executor_label Local = ''local''"
| "executor_label Docker = ''docker''"
| "executor_label Kubernetes = ''k8s''"

subsection \<open>Networks and allowlists\<close>

definition allowlist_name_max :: nat where "allowlist_name_max = 57"

definition valid_allowlist_name :: "string \<Rightarrow> isolation_error option" where
  "valid_allowlist_name name =
     guard
      (\<not> (name \<noteq> [] \<and> str_len name \<le> allowlist_name_max
          \<and> list_all (\<lambda>c. is_ascii_lowercase c \<or> is_ascii_digit c \<or> c = CHR ''-'') name
          \<and> \<not> starts_with name ''-'' \<and> \<not> ends_with name ''-''))
      (Bad_allowlist_name name)"

fun allowlists_from :: "string list \<Rightarrow> string list \<Rightarrow> isolation_error + string list" where
  "allowlists_from names [] = Inr names"
| "allowlists_from names (n # ns) =
     (case valid_allowlist_name n of
        Some e \<Rightarrow> Inl e
      | None \<Rightarrow> allowlists_from (if n \<in> set names then names else names @ [n]) ns)"

definition parse_allowlists :: "string \<Rightarrow> isolation_error + string list" where
  "parse_allowlists raw = allowlists_from [] (filter (\<lambda>n. n \<noteq> []) (map trim (split_char (CHR '','') raw)))"

definition allowlist_object_name :: "string \<Rightarrow> string" where
  "allowlist_object_name name = ''dagron-task-allow-'' @ name"

text \<open>\<open>rsplit_once\<close>: at the last occurrence of a character.\<close>

definition rsplit_once :: "char \<Rightarrow> string \<Rightarrow> (string \<times> string) option" where
  "rsplit_once c s = map_option (\<lambda>(b, a). (rev a, rev b)) (split_once [c] (rev s))"

definition proxy_host_ok :: "string \<Rightarrow> bool" where
  "proxy_host_ok host =
     (case Option.bind (strip_prefix ''['' host) (strip_suffix '']'') of
        Some v6 \<Rightarrow> v6 \<noteq> [] \<and> list_all (\<lambda>c. is_ascii_hexdigit c \<or> c = CHR '':'' \<or> c = CHR ''.'') v6
      | None \<Rightarrow> host \<noteq> [] \<and> list_all (\<lambda>c. is_ascii_alphanumeric c \<or> c = CHR ''.'' \<or> c = CHR ''-'') host)"

definition parse_allowlist_proxy :: "string \<Rightarrow> isolation_error + string" where
  "parse_allowlist_proxy raw0 =
     (let raw = trim raw0
      in case (case strip_prefix ''http://'' raw of Some r \<Rightarrow> Some r | None \<Rightarrow> strip_prefix ''https://'' raw) of
           None \<Rightarrow> Inl (Proxy_not_http raw)
         | Some rest \<Rightarrow>
             (let authority = (case strip_suffix ''/'' rest of Some a \<Rightarrow> a | None \<Rightarrow> rest)
              in if contains authority ''@'' then Inl (Proxy_user raw)
                 else case rsplit_once (CHR '':'') authority of
                   None \<Rightarrow> Inl (Proxy_no_port raw)
                 | Some (host, port) \<Rightarrow>
                     if \<not> proxy_host_ok host \<or> (case parse_unsigned 16 port of None \<Rightarrow> True | Some p \<Rightarrow> p = 0)
                     then Inl (Bad_proxy raw)
                     else Inr (trim_end_matches (\<lambda>c. c = CHR ''/'') raw)))"

definition proxy_env :: "string \<Rightarrow> string list \<Rightarrow> (string \<times> string) list" where
  "proxy_env proxy local =
     (let no_proxy = join '','' ([''localhost'', ''127.0.0.1'', ''::1''] @ local)
      in map (\<lambda>name. (name, proxy)) [''HTTP_PROXY'', ''HTTPS_PROXY'', ''http_proxy'', ''https_proxy'']
         @ map (\<lambda>name. (name, no_proxy)) [''NO_PROXY'', ''no_proxy''])"

fun network_label :: "network \<Rightarrow> string" where
  "network_label NetDefault = ''default''"
| "network_label (NetAllow name) = ''allow:'' @ name"
| "network_label NetNone = ''none''"

definition network_parse :: "string \<Rightarrow> isolation_error + network" where
  "network_parse raw =
     (if raw = ''default'' then Inr NetDefault
      else if raw = ''none'' then Inr NetNone
      else case strip_prefix ''allow:'' raw of
        Some name \<Rightarrow> (case valid_allowlist_name name of Some e \<Rightarrow> Inl e | None \<Rightarrow> Inr (NetAllow name))
      | None \<Rightarrow> Inl (Bad_network raw))"

subsection \<open>The envelope\<close>

definition iso_default :: isolation_spec where
  "iso_default =
     \<lparr>iso_runtime_class = None, iso_seccomp = None, iso_read_only_root_fs = None, iso_no_new_privileges = None,
      iso_drop_all_capabilities = None, iso_run_as_non_root = None, iso_run_as_user = None,
      iso_service_account_token = None, iso_network = None\<rparr>"

definition hardened :: isolation_spec where
  "hardened =
     \<lparr>iso_runtime_class = None, iso_seccomp = Some RuntimeDefault, iso_read_only_root_fs = Some True,
      iso_no_new_privileges = Some True, iso_drop_all_capabilities = Some True, iso_run_as_non_root = Some True,
      iso_run_as_user = None, iso_service_account_token = Some False, iso_network = None\<rparr>"

definition valid_label :: "string \<Rightarrow> bool" where
  "valid_label label =
     (label \<noteq> [] \<and> str_len label \<le> 63
      \<and> list_all (\<lambda>c. is_ascii_lowercase c \<or> is_ascii_digit c \<or> c = CHR ''-'') label
      \<and> \<not> starts_with label ''-'' \<and> \<not> ends_with label ''-'')"

definition validate_isolation :: "isolation_spec \<Rightarrow> isolation_error option" where
  "validate_isolation ispec =
     first_err
      [guard_opt
         (\<lambda>rc. first_err
            [guard (rc = [] \<or> str_len rc > 253) (Runtime_class_length (str_len rc)),
             guard (\<not> list_all valid_label (split_char (CHR ''.'') rc)) (Bad_runtime_class rc)])
         (iso_runtime_class ispec),
       guard_opt (\<lambda>u. first_err [guard (u = 0) Run_as_root, guard (u < 0) (Negative_user u)]) (iso_run_as_user ispec),
       guard (iso_run_as_non_root ispec = Some True \<and> iso_run_as_user ispec = Some 0) Non_root_contradiction,
       (case iso_network ispec of Some (NetAllow name) \<Rightarrow> valid_allowlist_name name | _ \<Rightarrow> None)]"

definition bool_to_string :: "bool \<Rightarrow> string" where
  "bool_to_string b = (if b then ''true'' else ''false'')"

definition or_unset :: "string option \<Rightarrow> string" where
  "or_unset v = (case v of Some s \<Rightarrow> s | None \<Rightarrow> ''unset'')"

definition stronger_bool ::
  "string \<Rightarrow> bool option \<Rightarrow> bool option \<Rightarrow> bool \<Rightarrow> tightened list \<Rightarrow> bool option \<times> tightened list" where
  "stronger_bool field requested floor strong notes =
     (case floor of
        None \<Rightarrow> (requested, notes)
      | Some f \<Rightarrow>
          if f \<noteq> strong then (requested, notes)
          else if requested = Some strong then (requested, notes)
          else (Some strong,
            notes @ [\<lparr>ti_field = field, ti_requested = or_unset (map_option bool_to_string requested),
                      ti_applied = bool_to_string strong\<rparr>]))"

fun seccomp_debug :: "seccomp \<Rightarrow> string" where
  "seccomp_debug Unconfined = ''Unconfined''"
| "seccomp_debug RuntimeDefault = ''RuntimeDefault''"

text \<open>The derived \<open>Ord\<close>: \<open>Unconfined < RuntimeDefault\<close>.\<close>

fun seccomp_less :: "seccomp \<Rightarrow> seccomp \<Rightarrow> bool" where
  "seccomp_less Unconfined RuntimeDefault = True"
| "seccomp_less _ _ = False"

definition raised_network :: "network option \<Rightarrow> network option \<Rightarrow> network option" where
  "raised_network floor asked =
     (case floor of
        Some NetNone \<Rightarrow> if asked \<noteq> Some NetNone then Some NetNone else None
      | Some (NetAllow pinned) \<Rightarrow>
          (case asked of
             Some NetNone \<Rightarrow> None
           | Some (NetAllow named) \<Rightarrow> if named = pinned then None else Some (NetAllow pinned)
           | _ \<Rightarrow> Some (NetAllow pinned))
      | _ \<Rightarrow> None)"

definition floor_seccomp :: "isolation_spec \<Rightarrow> isolation_spec \<Rightarrow> seccomp option \<times> tightened list" where
  "floor_seccomp req floor =
     (case iso_seccomp floor of
        None \<Rightarrow> (iso_seccomp req, [])
      | Some f \<Rightarrow>
          if f = Unconfined then (iso_seccomp req, [])
          else if (case iso_seccomp req of None \<Rightarrow> True | Some r \<Rightarrow> seccomp_less r f)
          then (Some f, [\<lparr>ti_field = ''seccomp'', ti_requested = or_unset (map_option seccomp_debug (iso_seccomp req)),
                          ti_applied = seccomp_debug f\<rparr>])
          else (iso_seccomp req, []))"

definition apply_floor :: "isolation_spec \<Rightarrow> isolation_spec \<Rightarrow> isolation_spec \<times> tightened list" where
  "apply_floor req floor =
     (let (sec, n0) = floor_seccomp req floor;
          (rofs, n1) = stronger_bool ''read_only_root_fs'' (iso_read_only_root_fs req) (iso_read_only_root_fs floor) True n0;
          (nnp, n2) = stronger_bool ''no_new_privileges'' (iso_no_new_privileges req) (iso_no_new_privileges floor) True n1;
          (caps, n3) = stronger_bool ''drop_all_capabilities'' (iso_drop_all_capabilities req) (iso_drop_all_capabilities floor) True n2;
          (nonroot, n4) = stronger_bool ''run_as_non_root'' (iso_run_as_non_root req) (iso_run_as_non_root floor) True n3;
          (token, n5) = stronger_bool ''service_account_token'' (iso_service_account_token req) (iso_service_account_token floor) False n4;
          (net, n6) = (case raised_network (iso_network floor) (iso_network req) of
             None \<Rightarrow> (iso_network req, n5)
           | Some applied \<Rightarrow> (Some applied,
               n5 @ [\<lparr>ti_field = ''network'', ti_requested = or_unset (map_option network_label (iso_network req)),
                      ti_applied = network_label applied\<rparr>]));
          (user, n7) = (case iso_run_as_user floor of
             None \<Rightarrow> (iso_run_as_user req, n6)
           | Some f \<Rightarrow> if iso_run_as_user req = None
               then (Some f, n6 @ [\<lparr>ti_field = ''run_as_user'', ti_requested = ''unset'', ti_applied = int_to_string f\<rparr>])
               else (iso_run_as_user req, n6));
          (rc, n8) = (case iso_runtime_class floor of
             None \<Rightarrow> (iso_runtime_class req, n7)
           | Some f \<Rightarrow> if iso_runtime_class req \<noteq> Some f
               then (Some f, n7 @ [\<lparr>ti_field = ''runtime_class'', ti_requested = or_unset (iso_runtime_class req), ti_applied = f\<rparr>])
               else (iso_runtime_class req, n7))
      in (\<lparr>iso_runtime_class = rc, iso_seccomp = sec, iso_read_only_root_fs = rofs, iso_no_new_privileges = nnp,
           iso_drop_all_capabilities = caps, iso_run_as_non_root = nonroot, iso_run_as_user = user,
           iso_service_account_token = token, iso_network = net\<rparr>, n8))"

subsection \<open>What an executor can deliver\<close>

definition unmet :: "bool \<Rightarrow> string \<Rightarrow> string list" where
  "unmet c field = (if c then [field] else [])"

definition enforceable_by :: "isolation_spec \<Rightarrow> enforcer \<Rightarrow> string list" where
  "enforceable_by ispec ex =
     (case en_kind ex of
        Kubernetes \<Rightarrow>
          unmet (\<not> (case iso_network ispec of
                       Some NetNone \<Rightarrow> en_network_policy ex
                     | Some (NetAllow name) \<Rightarrow> en_network_policy ex \<and> name \<in> set (en_allowlists ex)
                     | _ \<Rightarrow> True)) ''network''
      | Docker \<Rightarrow>
          unmet (iso_runtime_class ispec \<noteq> None) ''runtime_class''
          @ unmet (case iso_network ispec of Some (NetAllow name) \<Rightarrow> name \<notin> set (en_allowlists ex) | _ \<Rightarrow> False) ''network''
      | Local \<Rightarrow>
          unmet (iso_runtime_class ispec \<noteq> None) ''runtime_class''
          @ unmet (iso_seccomp ispec = Some RuntimeDefault) ''seccomp''
          @ unmet (iso_read_only_root_fs ispec = Some True) ''read_only_root_fs''
          @ unmet (iso_no_new_privileges ispec = Some True) ''no_new_privileges''
          @ unmet (iso_drop_all_capabilities ispec = Some True) ''drop_all_capabilities''
          @ unmet (iso_run_as_non_root ispec = Some True) ''run_as_non_root''
          @ unmet (iso_run_as_user ispec \<noteq> None) ''run_as_user''
          @ unmet (iso_service_account_token ispec = Some False) ''service_account_token''
          @ unmet (case iso_network ispec of Some NetNone \<Rightarrow> True | Some (NetAllow _) \<Rightarrow> True | _ \<Rightarrow> False) ''network'')"

definition require_enforceable_by :: "isolation_spec \<Rightarrow> enforcer \<Rightarrow> isolation_error option" where
  "require_enforceable_by ispec ex =
     guard (enforceable_by ispec ex \<noteq> []) (Not_enforceable (en_kind ex) (enforceable_by ispec ex))"

subsection \<open>Printing and reading an envelope\<close>

text \<open>The entries of \<open>canonical\<close>, in the order of their keys.\<close>

definition entry :: "string \<Rightarrow> string option \<Rightarrow> string list" where
  "entry k v = (case v of None \<Rightarrow> [] | Some s \<Rightarrow> [k @ ''='' @ s])"

fun seccomp_name :: "seccomp \<Rightarrow> string" where
  "seccomp_name Unconfined = ''unconfined''"
| "seccomp_name RuntimeDefault = ''runtime_default''"

definition canonical_entries :: "isolation_spec \<Rightarrow> string list" where
  "canonical_entries ispec =
     entry ''drop_all_capabilities'' (map_option bool_to_string (iso_drop_all_capabilities ispec))
     @ entry ''network'' (map_option network_label (iso_network ispec))
     @ entry ''no_new_privileges'' (map_option bool_to_string (iso_no_new_privileges ispec))
     @ entry ''read_only_root_fs'' (map_option bool_to_string (iso_read_only_root_fs ispec))
     @ entry ''run_as_non_root'' (map_option bool_to_string (iso_run_as_non_root ispec))
     @ entry ''run_as_user'' (map_option int_to_string (iso_run_as_user ispec))
     @ entry ''runtime_class'' (iso_runtime_class ispec)
     @ entry ''seccomp'' (map_option seccomp_name (iso_seccomp ispec))
     @ entry ''service_account_token'' (map_option bool_to_string (iso_service_account_token ispec))"

definition canonical :: "isolation_spec \<Rightarrow> string" where
  "canonical ispec = join [CHR 0x0A] (canonical_entries ispec)"

fun split_on :: "(char \<Rightarrow> bool) \<Rightarrow> string \<Rightarrow> string list" where
  "split_on p [] = [[]]"
| "split_on p (c # cs) =
     (if p c then [] # split_on p cs
      else (case split_on p cs of [] \<Rightarrow> [[c]] | x # xs \<Rightarrow> (c # x) # xs))"

definition as_bool :: "string \<Rightarrow> string \<Rightarrow> isolation_error + bool" where
  "as_bool key value =
     (if value \<in> set [''true'', ''1'', ''yes'', ''on''] then Inr True
      else if value \<in> set [''false'', ''0'', ''no'', ''off''] then Inr False
      else Inl (Floor_not_bool key value))"

fun map_ok :: "('a \<Rightarrow> 'b) \<Rightarrow> 'e + 'a \<Rightarrow> 'e + 'b" where
  "map_ok f (Inl e) = Inl e"
| "map_ok f (Inr x) = Inr (f x)"

lemma map_ok_Inr: "map_ok f r = Inr x \<longleftrightarrow> (\<exists>y. r = Inr y \<and> x = f y)"
  by (cases r) auto

definition floor_entry :: "isolation_spec \<Rightarrow> string \<Rightarrow> string \<Rightarrow> isolation_error + isolation_spec" where
  "floor_entry out key value =
     (if key = ''runtime_class'' then Inr (out\<lparr>iso_runtime_class := Some value\<rparr>)
      else if key = ''seccomp'' then
        (if value = ''runtime_default'' then Inr (out\<lparr>iso_seccomp := Some RuntimeDefault\<rparr>)
         else if value = ''unconfined'' then Inr (out\<lparr>iso_seccomp := Some Unconfined\<rparr>)
         else Inl (Floor_bad_seccomp value))
      else if key = ''read_only_root_fs'' then map_ok (\<lambda>b. out\<lparr>iso_read_only_root_fs := Some b\<rparr>) (as_bool key value)
      else if key = ''no_new_privileges'' then map_ok (\<lambda>b. out\<lparr>iso_no_new_privileges := Some b\<rparr>) (as_bool key value)
      else if key = ''drop_all_capabilities'' then map_ok (\<lambda>b. out\<lparr>iso_drop_all_capabilities := Some b\<rparr>) (as_bool key value)
      else if key = ''run_as_non_root'' then map_ok (\<lambda>b. out\<lparr>iso_run_as_non_root := Some b\<rparr>) (as_bool key value)
      else if key = ''run_as_user'' then
        (case parse_i64 value of None \<Rightarrow> Inl (Floor_bad_user value) | Some u \<Rightarrow> Inr (out\<lparr>iso_run_as_user := Some u\<rparr>))
      else if key = ''service_account_token'' then map_ok (\<lambda>b. out\<lparr>iso_service_account_token := Some b\<rparr>) (as_bool key value)
      else if key = ''network'' then map_ok (\<lambda>n. out\<lparr>iso_network := Some n\<rparr>) (network_parse value)
      else Inl (Floor_unknown_key key))"

fun floor_entries :: "isolation_spec \<Rightarrow> string list \<Rightarrow> isolation_error + isolation_spec" where
  "floor_entries out [] = Inr out"
| "floor_entries out (e # es) =
     (case split_once ''='' e of
        None \<Rightarrow> Inl (Floor_no_value e)
      | Some (key, value) \<Rightarrow>
          (case floor_entry out (trim key) (trim value) of
             Inl err \<Rightarrow> Inl err
           | Inr out' \<Rightarrow> floor_entries out' es))"

definition parse_floor :: "string \<Rightarrow> isolation_error + isolation_spec" where
  "parse_floor raw0 =
     (let raw = trim raw0
      in if eq_ignore_ascii_case raw ''hardened'' then Inr hardened
         else case floor_entries iso_default
                     (filter (\<lambda>s. s \<noteq> []) (map trim (split_on (\<lambda>c. c = CHR '','' \<or> c = CHR 0x0A) raw))) of
           Inl e \<Rightarrow> Inl e
         | Inr out \<Rightarrow> (case validate_isolation out of Some e \<Rightarrow> Inl e | None \<Rightarrow> Inr out))"

subsection \<open>Privileged tasks and Docker daemons\<close>

datatype privileged_refusal =
    Own_processes
  | Every_class
  | Default_class
  | Also_untrusted
  | Floor_holds string
  | Not_allowed
  | Task_held_to string

definition privileged_allowed :: "string option \<Rightarrow> string + bool" where
  "privileged_allowed raw =
     (let s = (case raw of None \<Rightarrow> [] | Some r \<Rightarrow> trim r)
      in if s = [] \<or> s = ''off'' then Inr False else if s = ''allow'' then Inr True else Inl s)"

definition contradicted :: "isolation_spec \<Rightarrow> string option" where
  "contradicted ispec =
     first_err
      [guard (iso_drop_all_capabilities ispec = Some True) ''drop_all_capabilities'',
       guard (iso_no_new_privileges ispec = Some True) ''no_new_privileges'',
       guard (iso_runtime_class ispec \<noteq> None) ''a runtime_class'',
       guard (iso_seccomp ispec = Some RuntimeDefault) ''seccomp: runtime_default'']"

definition default_runner_class :: string where
  "default_runner_class = ''default''"

definition engine_refusal ::
  "executor_kind \<Rightarrow> string list \<Rightarrow> bool \<Rightarrow> isolation_spec option \<Rightarrow> privileged_refusal option" where
  "engine_refusal executor classes runs_untrusted floor =
     first_err
      [guard (executor = Local) Own_processes,
       guard (classes = []) Every_class,
       guard (list_ex (\<lambda>c. c = default_runner_class) classes) Default_class,
       guard runs_untrusted Also_untrusted,
       map_option Floor_holds (Option.bind floor contradicted)]"

definition task_refusal :: "bool \<Rightarrow> isolation_spec option \<Rightarrow> privileged_refusal option" where
  "task_refusal allowed ispec =
     (if \<not> allowed then Some Not_allowed else map_option Task_held_to (Option.bind ispec contradicted))"

datatype daemon_error = Runtime_not_offered string | Bad_runtime string | Not_sysbox string | Daemon_image service_error | Bad_gate string

definition daemon_runtime :: "string option \<Rightarrow> bool \<Rightarrow> daemon_error + string option" where
  "daemon_runtime value offered =
     (let name = (case value of None \<Rightarrow> [] | Some v \<Rightarrow> trim v)
      in if name = [] then Inr None
         else if \<not> offered then Inl (Runtime_not_offered name)
         else if \<not> (str_len name \<le> 64 \<and> list_all (\<lambda>c. is_ascii_alphanumeric c \<or> c \<in> set ''-_.'') name) then Inl (Bad_runtime name)
         else if \<not> starts_with name ''sysbox'' then Inl (Not_sysbox name)
         else Inr (Some name))"

definition daemon_default_image :: string where
  "daemon_default_image = ''docker.io/library/docker:27-dind''"

definition daemon_own_paths :: "string list" where
  "daemon_own_paths = [''/var/run'', ''/run'', ''/var/lib/docker'']"

definition daemon_owns :: "string \<Rightarrow> bool" where
  "daemon_owns target0 =
     (let target = trim_end_matches (\<lambda>c. c = CHR ''/'') target0
      in list_ex (\<lambda>own. target = own \<or> starts_with target (own @ ''/'')) daemon_own_paths)"

definition daemon_offered :: "string option \<Rightarrow> string option \<Rightarrow> daemon_error + string option" where
  "daemon_offered gate img0 =
     (let g = (case gate of None \<Rightarrow> [] | Some s \<Rightarrow> trim s)
      in if g = [] then Inr None
         else if g = ''dind'' then
           (let img = (case map_option trim img0 of Some (c # cs) \<Rightarrow> c # cs | _ \<Rightarrow> daemon_default_image)
            in case check_image img of Some e \<Rightarrow> Inl (Daemon_image e) | None \<Rightarrow> Inr (Some img))
         else Inl (Bad_gate g))"

datatype daemon_refusal_kind = No_daemon_offered | Tasks_are_pods | Tasks_are_processes

fun daemon_refusal :: "executor_kind \<Rightarrow> string option \<Rightarrow> daemon_refusal_kind option" where
  "daemon_refusal Docker offered = (if offered \<noteq> None then None else Some No_daemon_offered)"
| "daemon_refusal Kubernetes offered = Some Tasks_are_pods"
| "daemon_refusal Local offered = Some Tasks_are_processes"

definition daemon_name :: string where "daemon_name = ''docker''"

definition daemon_service :: "string \<Rightarrow> service_spec" where
  "daemon_service img =
     \<lparr>sv_name = daemon_name, sv_image = img,
      sv_args = [''dockerd'', ''--host=unix:///var/run/docker.sock'', ''--host='' @ ''tcp://127.0.0.1:2375'', ''--tls=false''],
      sv_env = [], sv_ready = Some (Exec [''docker'', ''info'']), sv_ready_timeout_secs = Some 120,
      sv_resources = None, sv_daemon = True\<rparr>"

end
