(* ===== verification/Isolation_Props.thy ===== *)
theory Isolation_Props
  imports Isolation
begin

text \<open>
  What the operator's floor guarantees, that an executor never drops what it cannot deliver,
  and that an envelope is read back from its canonical rendering.
\<close>

subsection \<open>The floor\<close>

definition holds_floor :: "isolation_spec \<Rightarrow> isolation_spec \<Rightarrow> bool" where
  "holds_floor out floor =
     ((iso_seccomp floor = Some RuntimeDefault \<longrightarrow> iso_seccomp out = Some RuntimeDefault)
      \<and> (iso_read_only_root_fs floor = Some True \<longrightarrow> iso_read_only_root_fs out = Some True)
      \<and> (iso_no_new_privileges floor = Some True \<longrightarrow> iso_no_new_privileges out = Some True)
      \<and> (iso_drop_all_capabilities floor = Some True \<longrightarrow> iso_drop_all_capabilities out = Some True)
      \<and> (iso_run_as_non_root floor = Some True \<longrightarrow> iso_run_as_non_root out = Some True)
      \<and> (iso_service_account_token floor = Some False \<longrightarrow> iso_service_account_token out = Some False)
      \<and> (iso_run_as_user floor \<noteq> None \<longrightarrow> iso_run_as_user out \<noteq> None)
      \<and> (iso_runtime_class floor \<noteq> None \<longrightarrow> iso_runtime_class out = iso_runtime_class floor)
      \<and> (case iso_network floor of
           Some NetNone \<Rightarrow> iso_network out = Some NetNone
         | Some (NetAllow p) \<Rightarrow> iso_network out = Some NetNone \<or> iso_network out = Some (NetAllow p)
         | _ \<Rightarrow> True))"

text \<open>What the task itself hardened stays hardened.\<close>

definition keeps_hardening :: "isolation_spec \<Rightarrow> isolation_spec \<Rightarrow> bool" where
  "keeps_hardening out req =
     ((iso_seccomp req = Some RuntimeDefault \<longrightarrow> iso_seccomp out = Some RuntimeDefault)
      \<and> (iso_read_only_root_fs req = Some True \<longrightarrow> iso_read_only_root_fs out = Some True)
      \<and> (iso_no_new_privileges req = Some True \<longrightarrow> iso_no_new_privileges out = Some True)
      \<and> (iso_drop_all_capabilities req = Some True \<longrightarrow> iso_drop_all_capabilities out = Some True)
      \<and> (iso_run_as_non_root req = Some True \<longrightarrow> iso_run_as_non_root out = Some True)
      \<and> (iso_service_account_token req = Some False \<longrightarrow> iso_service_account_token out = Some False)
      \<and> (iso_run_as_user req \<noteq> None \<longrightarrow> iso_run_as_user out = iso_run_as_user req)
      \<and> (iso_network req = Some NetNone \<longrightarrow> iso_network out = Some NetNone))"

text \<open>One field at a time: what it becomes, and when a note is written.\<close>

definition bool_floor :: "bool \<Rightarrow> bool option \<Rightarrow> bool option \<Rightarrow> bool option" where
  "bool_floor strong req floor = (if floor = Some strong then Some strong else req)"

lemma stronger_bool_fst: "fst (stronger_bool k r f strong ns) = bool_floor strong r f"
  by (auto simp: stronger_bool_def bool_floor_def split: option.splits)

lemma stronger_bool_snd:
  "snd (stronger_bool k r f strong ns) = [] \<longleftrightarrow> ns = [] \<and> bool_floor strong r f = r"
  by (auto simp: stronger_bool_def bool_floor_def split: option.splits)

lemma seccomp_less_iff: "seccomp_less a b \<longleftrightarrow> a = Unconfined \<and> b = RuntimeDefault"
  by (cases a; cases b) simp_all

lemma seccomp_not [simp]: "a \<noteq> Unconfined \<longleftrightarrow> a = RuntimeDefault" "a \<noteq> RuntimeDefault \<longleftrightarrow> a = Unconfined"
  by (cases a; simp)+

lemma floor_seccomp_fst:
  "fst (floor_seccomp r f) = (if iso_seccomp f = Some RuntimeDefault then Some RuntimeDefault else iso_seccomp r)"
  by (auto simp: floor_seccomp_def seccomp_less_iff split: option.splits)

lemma floor_seccomp_snd: "snd (floor_seccomp r f) = [] \<longleftrightarrow> fst (floor_seccomp r f) = iso_seccomp r"
  by (auto simp: floor_seccomp_def seccomp_less_iff split: option.splits)

definition net_floor :: "network option \<Rightarrow> network option \<Rightarrow> network option" where
  "net_floor asked floor = (case raised_network floor asked of None \<Rightarrow> asked | Some n \<Rightarrow> Some n)"

lemma raised_network_None: "raised_network f r = None \<longleftrightarrow> net_floor r f = r"
  by (auto simp: net_floor_def raised_network_def split: option.splits network.splits if_splits)

definition floored :: "isolation_spec \<Rightarrow> isolation_spec \<Rightarrow> isolation_spec" where
  "floored r f =
     \<lparr>iso_runtime_class = (if iso_runtime_class f = None then iso_runtime_class r else iso_runtime_class f),
      iso_seccomp = (if iso_seccomp f = Some RuntimeDefault then Some RuntimeDefault else iso_seccomp r),
      iso_read_only_root_fs = bool_floor True (iso_read_only_root_fs r) (iso_read_only_root_fs f),
      iso_no_new_privileges = bool_floor True (iso_no_new_privileges r) (iso_no_new_privileges f),
      iso_drop_all_capabilities = bool_floor True (iso_drop_all_capabilities r) (iso_drop_all_capabilities f),
      iso_run_as_non_root = bool_floor True (iso_run_as_non_root r) (iso_run_as_non_root f),
      iso_run_as_user = (if iso_run_as_user r = None then iso_run_as_user f else iso_run_as_user r),
      iso_service_account_token = bool_floor False (iso_service_account_token r) (iso_service_account_token f),
      iso_network = net_floor (iso_network r) (iso_network f)\<rparr>"

lemma apply_floor_fst: "fst (apply_floor r f) = floored r f"
  by (simp add: apply_floor_def floored_def Let_def case_prod_unfold stronger_bool_fst floor_seccomp_fst net_floor_def
      split: option.split)

lemma apply_floor_snd: "snd (apply_floor r f) = [] \<longleftrightarrow> floored r f = r"
proof -
  have net: "snd (case raised_network (iso_network f) (iso_network r) of
      None \<Rightarrow> (iso_network r, ns) | Some a \<Rightarrow> (Some a, ns @ [t a])) = [] \<longleftrightarrow> ns = [] \<and> net_floor (iso_network r) (iso_network f) = iso_network r"
    for ns and t :: "network \<Rightarrow> tightened"
    by (auto simp: raised_network_None [symmetric] split: option.split)
  have user: "snd (case iso_run_as_user f of
      None \<Rightarrow> (iso_run_as_user r, ns) | Some a \<Rightarrow> if iso_run_as_user r = None then (Some a, ns @ [t a]) else (iso_run_as_user r, ns)) = []
      \<longleftrightarrow> ns = [] \<and> (if iso_run_as_user r = None then iso_run_as_user f else iso_run_as_user r) = iso_run_as_user r"
    for ns and t :: "int \<Rightarrow> tightened"
    by (auto split: option.split)
  have rc: "snd (case iso_runtime_class f of
      None \<Rightarrow> (iso_runtime_class r, ns) | Some a \<Rightarrow> if iso_runtime_class r \<noteq> Some a then (Some a, ns @ [t a]) else (iso_runtime_class r, ns)) = []
      \<longleftrightarrow> ns = [] \<and> (if iso_runtime_class f = None then iso_runtime_class r else iso_runtime_class f) = iso_runtime_class r"
    for ns and t :: "string \<Rightarrow> tightened"
    by (auto split: option.split)
  have eq: "floored r f = r \<longleftrightarrow>
     (if iso_runtime_class f = None then iso_runtime_class r else iso_runtime_class f) = iso_runtime_class r
     \<and> (if iso_seccomp f = Some RuntimeDefault then Some RuntimeDefault else iso_seccomp r) = iso_seccomp r
     \<and> bool_floor True (iso_read_only_root_fs r) (iso_read_only_root_fs f) = iso_read_only_root_fs r
     \<and> bool_floor True (iso_no_new_privileges r) (iso_no_new_privileges f) = iso_no_new_privileges r
     \<and> bool_floor True (iso_drop_all_capabilities r) (iso_drop_all_capabilities f) = iso_drop_all_capabilities r
     \<and> bool_floor True (iso_run_as_non_root r) (iso_run_as_non_root f) = iso_run_as_non_root r
     \<and> (if iso_run_as_user r = None then iso_run_as_user f else iso_run_as_user r) = iso_run_as_user r
     \<and> bool_floor False (iso_service_account_token r) (iso_service_account_token f) = iso_service_account_token r
     \<and> net_floor (iso_network r) (iso_network f) = iso_network r"
    by (cases r) (simp add: floored_def)
  show ?thesis
    unfolding apply_floor_def Let_def case_prod_unfold snd_conv rc user net stronger_bool_snd floor_seccomp_snd floor_seccomp_fst eq
    by blast
qed

lemma net_floor_twice: "net_floor (net_floor r f) f = net_floor r f"
  by (auto simp: net_floor_def raised_network_def split: option.splits network.splits if_splits)

lemma floored_sel:
  "iso_runtime_class (floored r f) = (if iso_runtime_class f = None then iso_runtime_class r else iso_runtime_class f)"
  "iso_seccomp (floored r f) = (if iso_seccomp f = Some RuntimeDefault then Some RuntimeDefault else iso_seccomp r)"
  "iso_read_only_root_fs (floored r f) = bool_floor True (iso_read_only_root_fs r) (iso_read_only_root_fs f)"
  "iso_no_new_privileges (floored r f) = bool_floor True (iso_no_new_privileges r) (iso_no_new_privileges f)"
  "iso_drop_all_capabilities (floored r f) = bool_floor True (iso_drop_all_capabilities r) (iso_drop_all_capabilities f)"
  "iso_run_as_non_root (floored r f) = bool_floor True (iso_run_as_non_root r) (iso_run_as_non_root f)"
  "iso_run_as_user (floored r f) = (if iso_run_as_user r = None then iso_run_as_user f else iso_run_as_user r)"
  "iso_service_account_token (floored r f) = bool_floor False (iso_service_account_token r) (iso_service_account_token f)"
  "iso_network (floored r f) = net_floor (iso_network r) (iso_network f)"
  unfolding floored_def by simp_all

lemma floored_twice: "floored (floored r f) f = floored r f"
  by (rule isolation_spec.equality) (simp_all add: floored_sel bool_floor_def net_floor_twice)

lemma net_floor_holds: fixes f r :: "network option" shows
  "case f of Some NetNone \<Rightarrow> net_floor r f = Some NetNone
   | Some (NetAllow p) \<Rightarrow> net_floor r f = Some NetNone \<or> net_floor r f = Some (NetAllow p) | _ \<Rightarrow> True"
  by (cases f) (auto simp: net_floor_def raised_network_def split: network.split option.split)

lemma net_floor_keeps: "net_floor (Some NetNone) f = Some NetNone"
  by (auto simp: net_floor_def raised_network_def split: option.split network.split)

lemma floored_holds: "holds_floor (floored r f) f"
  using net_floor_holds [where f = "iso_network f" and r = "iso_network r"]
  unfolding holds_floor_def floored_sel(9) by (simp add: floored_sel bool_floor_def)

lemma floored_keeps: "keeps_hardening (floored r f) r"
  by (simp add: keeps_hardening_def floored_sel bool_floor_def net_floor_keeps)


subsection \<open>No envelope is dropped\<close>

definition demands :: "isolation_spec \<Rightarrow> bool" where
  "demands f =
     (iso_seccomp f = Some RuntimeDefault \<or> iso_read_only_root_fs f = Some True \<or> iso_no_new_privileges f = Some True
      \<or> iso_drop_all_capabilities f = Some True \<or> iso_run_as_non_root f = Some True
      \<or> iso_service_account_token f = Some False \<or> iso_run_as_user f \<noteq> None \<or> iso_runtime_class f \<noteq> None
      \<or> (case iso_network f of Some NetDefault \<Rightarrow> False | None \<Rightarrow> False | _ \<Rightarrow> True))"

lemma local_accepts_iff: "enforceable_by s (from_kind Local) = [] \<longleftrightarrow> \<not> demands s"
  by (simp add: enforceable_by_def from_kind_def demands_def unmet_def split: option.split network.split)

lemma floor_demands: "holds_floor out f \<Longrightarrow> demands f \<Longrightarrow> demands out"
  unfolding demands_def holds_floor_def by (cases "iso_network f") (auto split: network.splits)

text \<open>An engine that runs tasks as its own processes can deliver no isolation, and says so: as
  soon as the operator's floor demands anything, it refuses every task, whatever the task's
  own envelope is.
\<close>

theorem local_executor_refuses_isolation:
  assumes "demands floor"
  shows "require_enforceable_by (fst (apply_floor req floor)) (from_kind Local) \<noteq> None"
proof -
  have "demands (floored req floor)" using floor_demands [OF floored_holds assms] .
  then show ?thesis
    by (simp add: require_enforceable_by_def guard_def local_accepts_iff apply_floor_fst)
qed

theorem local_executor_refuses_isolation_witness:
  "demands hardened \<and> require_enforceable_by (fst (apply_floor iso_default hardened)) (from_kind Local) \<noteq> None"
proof -
  have "demands hardened" by (simp add: demands_def hardened_def)
  with local_executor_refuses_isolation [OF this, of iso_default] show ?thesis by simp
qed

subsection \<open>Reading back what \<open>canonical\<close> prints\<close>

definition clean :: "char \<Rightarrow> bool" where
  "clean c = (\<not> is_whitespace c \<and> c \<noteq> CHR '','')"

definition clean_str :: "string \<Rightarrow> bool" where
  "clean_str s = (s \<noteq> [] \<and> list_all clean s)"

lemma clean_newline: "clean c \<Longrightarrow> c \<noteq> CHR 0x0A"
  by (auto simp: clean_def is_whitespace_def)

lemma trim_clean_ends: "s = [] \<or> (clean (hd s) \<and> clean (last s)) \<Longrightarrow> trim s = s"
  by (rule trim_ends) (auto simp: clean_def)

lemma trim_clean: "clean_str s \<Longrightarrow> trim s = s"
  by (rule trim_clean_ends) (auto simp: clean_str_def list_all_iff)

lemma split_on_free: "list_all (\<lambda>c. \<not> p c) s \<Longrightarrow> split_on p s = [s]"
  by (induction s) auto

lemma split_on_append: "list_all (\<lambda>c. \<not> p c) s \<Longrightarrow> p sep \<Longrightarrow> split_on p (s @ sep # t) = s # split_on p t"
  by (induction s) auto

lemma split_on_join:
  "es \<noteq> [] \<Longrightarrow> list_all (list_all (\<lambda>c. \<not> p c)) es \<Longrightarrow> p sep \<Longrightarrow> split_on p (join [sep] es) = es"
  by (induction es rule: induct_list012) (simp_all add: split_on_free split_on_append)

lemma join_hd: "es \<noteq> [] \<Longrightarrow> hd es \<noteq> [] \<Longrightarrow> hd (join sep es) = hd (hd es)"
  by (induction es rule: induct_list012) auto

lemma join_last: "es \<noteq> [] \<Longrightarrow> list_all (\<lambda>e. e \<noteq> []) es \<Longrightarrow> join sep es \<noteq> [] \<and> last (join sep es) = last (last es)"
  by (induction es rule: induct_list012) auto

lemma trim_join_clean: "list_all clean_str es \<Longrightarrow> trim (join [CHR 0x0A] es) = join [CHR 0x0A] es"
proof (cases "es = []")
  case False
  assume es: "list_all clean_str es"
  then have ne: "list_all (\<lambda>e. e \<noteq> []) es" by (auto simp: list_all_iff clean_str_def)
  have "clean (hd (hd es))" "clean (last (last es))"
    using es hd_in_set [OF False] last_in_set [OF False] by (metis clean_str_def hd_in_set last_in_set list_all_iff)+
  moreover have "hd (join [CHR 0x0A] es) = hd (hd es)"
    using False ne by (auto simp: list_all_iff intro!: join_hd)
  ultimately show ?thesis using join_last [OF False ne] by (intro trim_clean_ends) simp
qed simp

lemma split_once_eq: "CHR ''='' \<notin> set k \<Longrightarrow> split_once ''='' (k @ CHR ''='' # v) = Some (k, v)"
  by (induction k) auto

text \<open>The values that are printed are clean, and are read as what they were.\<close>

lemma clean_ascii: "is_ascii_lowercase c \<or> is_ascii_digit c \<or> c = CHR ''-'' \<or> c = CHR ''.'' \<or> c = CHR '':'' \<Longrightarrow> clean c"
  by (auto simp: clean_def is_whitespace_def is_ascii_lowercase_def is_ascii_digit_def Let_def)

lemma clean_bool [simp]: "clean_str (bool_to_string b)"
  by (simp add: bool_to_string_def clean_str_def clean_def is_whitespace_def)

lemma as_bool_print [simp]: "as_bool k (bool_to_string b) = Inr b"
  by (simp add: as_bool_def bool_to_string_def)

lemma clean_seccomp [simp]: "clean_str (seccomp_name c)"
  by (cases c) (simp_all add: clean_str_def clean_def is_whitespace_def)

lemma clean_label: "valid_allowlist_name n = None \<Longrightarrow> clean_str (network_label (NetAllow n))"
  by (auto simp: valid_allowlist_name_def clean_str_def list_all_iff clean_def is_whitespace_def
      is_ascii_lowercase_def is_ascii_digit_def Let_def)

lemma network_print:
  "(case net of NetAllow n \<Rightarrow> valid_allowlist_name n | _ \<Rightarrow> None) = None \<Longrightarrow>
     clean_str (network_label net) \<and> network_parse (network_label net) = Inr net"
  using clean_label by (cases net) (simp_all add: network_parse_def del: network_label.simps(2),
    simp_all add: clean_str_def clean_def is_whitespace_def network_parse_def)

lemma split_char_cover: "c \<in> set s \<Longrightarrow> c = sep \<or> (\<exists>p \<in> set (split_char sep s). c \<in> set p)"
proof (induction sep s rule: split_char.induct)
  case (2 sep d ds)
  then show ?case by (cases "split_char sep ds") auto
qed simp

lemma clean_runtime_class:
  assumes "rc \<noteq> []" "list_all valid_label (split_char (CHR ''.'') rc)"
  shows "clean_str rc"
proof -
  have "clean c" if c: "c \<in> set rc" for c
    using split_char_cover [OF c, of "CHR ''.''"] assms(2)
    by (auto simp: list_all_iff valid_label_def intro: clean_ascii)
  with assms(1) show ?thesis by (simp add: clean_str_def list_all_iff)
qed

lemma user_print:
  assumes "0 < u" "u < 2 ^ 63"
  shows "clean_str (int_to_string u) \<and> parse_i64 (int_to_string u) = Some u"
proof -
  let ?d = "digits_of (nat u)"
  have d: "int_to_string u = ?d" using assms by (simp add: int_to_string_def)
  have cl: "clean_str ?d" using digits_of_ok [of "nat u"] by (auto simp: clean_str_def list_all_iff intro: clean_ascii)
  have "strip_prefix ''-'' ?d = None"
  proof (cases ?d)
    case (Cons c cs)
    then have "is_ascii_digit c" using digits_of_no_sign [of c "nat u"] by simp
    then have "c \<noteq> CHR ''-''" by (auto simp: is_ascii_digit_def)
    with Cons show ?thesis by auto
  qed simp
  moreover have "parse_unsigned 63 ?d = Some (nat u)" using assms by (intro parse_unsigned_digits_of) simp
  ultimately show ?thesis using assms cl by (simp add: d parse_i64_def)
qed

text \<open>Reading one entry sets its field.\<close>

definition floor_keys :: "string list" where
  "floor_keys =
     [''drop_all_capabilities'', ''network'', ''no_new_privileges'', ''read_only_root_fs'', ''run_as_non_root'',
      ''run_as_user'', ''runtime_class'', ''seccomp'', ''service_account_token'']"

lemma floor_keys_clean: "list_all (\<lambda>k. clean_str k \<and> CHR ''='' \<notin> set k) floor_keys"
  by code_simp

lemma read_entry:
  assumes "k \<in> set floor_keys" and "\<And>x. v = Some x \<Longrightarrow> clean_str (f x) \<and> floor_entry out k (f x) = Inr (u (Some x))"
    and "u None = out"
  shows "floor_entries out (entry k (map_option f v) @ rest) = floor_entries (u v) rest"
proof -
  from assms(1) floor_keys_clean have "clean_str k" "CHR ''='' \<notin> set k" by (auto simp: list_all_iff)
  with assms(2,3) show ?thesis by (cases v) (simp_all add: entry_def split_once_eq trim_clean)
qed

lemma in_floor_keys [simp]:
  "''drop_all_capabilities'' \<in> set floor_keys"
  "''network'' \<in> set floor_keys"
  "''no_new_privileges'' \<in> set floor_keys"
  "''read_only_root_fs'' \<in> set floor_keys"
  "''run_as_non_root'' \<in> set floor_keys"
  "''run_as_user'' \<in> set floor_keys"
  "''runtime_class'' \<in> set floor_keys"
  "''seccomp'' \<in> set floor_keys"
  "''service_account_token'' \<in> set floor_keys"
  by (simp_all add: floor_keys_def)

lemma floor_entry_keys:
  "floor_entry out ''drop_all_capabilities'' x = map_ok (\<lambda>b. out\<lparr>iso_drop_all_capabilities := Some b\<rparr>) (as_bool ''drop_all_capabilities'' x)"
  "floor_entry out ''network'' x = map_ok (\<lambda>n. out\<lparr>iso_network := Some n\<rparr>) (network_parse x)"
  "floor_entry out ''no_new_privileges'' x = map_ok (\<lambda>b. out\<lparr>iso_no_new_privileges := Some b\<rparr>) (as_bool ''no_new_privileges'' x)"
  "floor_entry out ''read_only_root_fs'' x = map_ok (\<lambda>b. out\<lparr>iso_read_only_root_fs := Some b\<rparr>) (as_bool ''read_only_root_fs'' x)"
  "floor_entry out ''run_as_non_root'' x = map_ok (\<lambda>b. out\<lparr>iso_run_as_non_root := Some b\<rparr>) (as_bool ''run_as_non_root'' x)"
  "floor_entry out ''run_as_user'' x = (case parse_i64 x of None \<Rightarrow> Inl (Floor_bad_user x) | Some u \<Rightarrow> Inr (out\<lparr>iso_run_as_user := Some u\<rparr>))"
  "floor_entry out ''runtime_class'' x = Inr (out\<lparr>iso_runtime_class := Some x\<rparr>)"
  "floor_entry out ''seccomp'' (seccomp_name c) = Inr (out\<lparr>iso_seccomp := Some c\<rparr>)"
  "floor_entry out ''service_account_token'' x = map_ok (\<lambda>b. out\<lparr>iso_service_account_token := Some b\<rparr>) (as_bool ''service_account_token'' x)"
  by (simp_all add: floor_entry_def, cases c, simp_all)

definition fits_i64 :: "isolation_spec \<Rightarrow> bool" where
  "fits_i64 s = (case iso_run_as_user s of None \<Rightarrow> True | Some u \<Rightarrow> u < 2 ^ 63)"

lemma printed_values:
  assumes "validate_isolation s = None" "fits_i64 s"
  shows "iso_runtime_class s = Some rc \<Longrightarrow> clean_str rc"
    and "iso_run_as_user s = Some u \<Longrightarrow> clean_str (int_to_string u) \<and> parse_i64 (int_to_string u) = Some u"
    and "iso_network s = Some net \<Longrightarrow> clean_str (network_label net) \<and> network_parse (network_label net) = Inr net"
proof -
  assume "iso_runtime_class s = Some rc"
  with assms(1) show "clean_str rc" by (intro clean_runtime_class) (simp_all add: validate_isolation_def guard_simps)
next
  assume u: "iso_run_as_user s = Some u"
  with assms(1) have "u \<noteq> 0 \<and> \<not> u < 0" by (simp add: validate_isolation_def guard_simps)
  moreover have "u < 2 ^ 63" using assms(2) u by (simp add: fits_i64_def)
  ultimately show "clean_str (int_to_string u) \<and> parse_i64 (int_to_string u) = Some u" by (intro user_print) auto
next
  assume "iso_network s = Some net"
  with assms(1) have "(case net of NetAllow n \<Rightarrow> valid_allowlist_name n | _ \<Rightarrow> None) = None"
    by (simp add: validate_isolation_def guard_simps split: network.splits)
  then show "clean_str (network_label net) \<and> network_parse (network_label net) = Inr net" by (rule network_print)
qed

lemma clean_entry:
  assumes "k \<in> set floor_keys" and "\<And>x. v = Some x \<Longrightarrow> clean_str x"
  shows "list_all clean_str (entry k v)"
proof -
  from assms(1) floor_keys_clean have "clean_str k" by (auto simp: list_all_iff)
  moreover have "clean (CHR ''='')" by (simp add: clean_def is_whitespace_def)
  ultimately show ?thesis using assms(2) by (cases v) (auto simp: entry_def clean_str_def)
qed

lemma canonical_entries_clean:
  assumes "validate_isolation s = None" "fits_i64 s"
  shows "list_all clean_str (canonical_entries s)"
  unfolding canonical_entries_def using printed_values [OF assms]
  by (auto simp only: list_all_append intro!: clean_entry) auto

lemma read_drop_all_capabilities:
  "iso_drop_all_capabilities out = None \<Longrightarrow>
     floor_entries out (entry ''drop_all_capabilities'' (map_option bool_to_string v) @ rest) = floor_entries (out\<lparr>iso_drop_all_capabilities := v\<rparr>) rest"
  by (rule read_entry [where u = "\<lambda>v. out\<lparr>iso_drop_all_capabilities := v\<rparr>"]; cases out; simp add: floor_entry_keys)

lemma read_no_new_privileges:
  "iso_no_new_privileges out = None \<Longrightarrow>
     floor_entries out (entry ''no_new_privileges'' (map_option bool_to_string v) @ rest) = floor_entries (out\<lparr>iso_no_new_privileges := v\<rparr>) rest"
  by (rule read_entry [where u = "\<lambda>v. out\<lparr>iso_no_new_privileges := v\<rparr>"]; cases out; simp add: floor_entry_keys)

lemma read_read_only_root_fs:
  "iso_read_only_root_fs out = None \<Longrightarrow>
     floor_entries out (entry ''read_only_root_fs'' (map_option bool_to_string v) @ rest) = floor_entries (out\<lparr>iso_read_only_root_fs := v\<rparr>) rest"
  by (rule read_entry [where u = "\<lambda>v. out\<lparr>iso_read_only_root_fs := v\<rparr>"]; cases out; simp add: floor_entry_keys)

lemma read_run_as_non_root:
  "iso_run_as_non_root out = None \<Longrightarrow>
     floor_entries out (entry ''run_as_non_root'' (map_option bool_to_string v) @ rest) = floor_entries (out\<lparr>iso_run_as_non_root := v\<rparr>) rest"
  by (rule read_entry [where u = "\<lambda>v. out\<lparr>iso_run_as_non_root := v\<rparr>"]; cases out; simp add: floor_entry_keys)

lemma read_service_account_token:
  "iso_service_account_token out = None \<Longrightarrow>
     floor_entries out (entry ''service_account_token'' (map_option bool_to_string v) @ rest) = floor_entries (out\<lparr>iso_service_account_token := v\<rparr>) rest"
  by (rule read_entry [where u = "\<lambda>v. out\<lparr>iso_service_account_token := v\<rparr>"]; cases out; simp add: floor_entry_keys)

lemma read_seccomp:
  "iso_seccomp out = None \<Longrightarrow>
     floor_entries out (entry ''seccomp'' (map_option seccomp_name v) @ rest) = floor_entries (out\<lparr>iso_seccomp := v\<rparr>) rest"
  by (rule read_entry [where u = "\<lambda>v. out\<lparr>iso_seccomp := v\<rparr>"]; cases out; simp add: floor_entry_keys)

lemma read_runtime_class:
  "iso_runtime_class out = None \<Longrightarrow> (\<And>x. v = Some x \<Longrightarrow> clean_str x) \<Longrightarrow>
     floor_entries out (entry ''runtime_class'' v @ rest) = floor_entries (out\<lparr>iso_runtime_class := v\<rparr>) rest"
  by (rule read_entry [where u = "\<lambda>v. out\<lparr>iso_runtime_class := v\<rparr>" and f = "\<lambda>x. x" and v = v, unfolded option.map_ident];
      cases out; simp add: floor_entry_keys)

lemma read_run_as_user:
  "iso_run_as_user out = None \<Longrightarrow> (\<And>x. v = Some x \<Longrightarrow> clean_str (int_to_string x) \<and> parse_i64 (int_to_string x) = Some x) \<Longrightarrow>
     floor_entries out (entry ''run_as_user'' (map_option int_to_string v) @ rest) = floor_entries (out\<lparr>iso_run_as_user := v\<rparr>) rest"
  by (rule read_entry [where u = "\<lambda>v. out\<lparr>iso_run_as_user := v\<rparr>"]; cases out; simp add: floor_entry_keys)

lemma read_network:
  "iso_network out = None \<Longrightarrow> (\<And>x. v = Some x \<Longrightarrow> clean_str (network_label x) \<and> network_parse (network_label x) = Inr x) \<Longrightarrow>
     floor_entries out (entry ''network'' (map_option network_label v) @ rest) = floor_entries (out\<lparr>iso_network := v\<rparr>) rest"
  by (rule read_entry [where u = "\<lambda>v. out\<lparr>iso_network := v\<rparr>"]; cases out; simp add: floor_entry_keys)

lemma floor_entries_canonical:
  assumes "validate_isolation s = None" "fits_i64 s"
  shows "floor_entries iso_default (canonical_entries s) = Inr s"
proof -
  have "floor_entries iso_default (canonical_entries s @ []) = Inr s"
    unfolding canonical_entries_def append_assoc
    by (simp only: read_drop_all_capabilities read_no_new_privileges read_read_only_root_fs read_run_as_non_root
        read_service_account_token read_seccomp read_runtime_class read_run_as_user read_network
        printed_values [OF assms] floor_entries.simps iso_default_def isolation_spec.simps) simp
  then show ?thesis by simp
qed

lemma trimmed_clean: "list_all clean_str es \<Longrightarrow> filter (\<lambda>e. e \<noteq> []) (map trim es) = es"
  by (induction es) (auto simp: trim_clean clean_str_def)

lemma canonical_not_preset: "\<not> eq_ignore_ascii_case (canonical s) ''hardened''"
proof
  assume a: "eq_ignore_ascii_case (canonical s) ''hardened''"
  have lower: "CHR ''='' \<in> set t \<Longrightarrow> CHR ''='' \<in> set (to_ascii_lowercase t)" for t
    by (force simp: to_ascii_lowercase_def to_ascii_lowercase_char_def is_ascii_uppercase_def)
  have "CHR ''='' \<notin> set (canonical s)"
    using a lower [of "canonical s"] by (auto simp: eq_ignore_ascii_case_def to_ascii_lowercase_def to_ascii_lowercase_char_def is_ascii_uppercase_def)
  moreover have "e \<in> set (canonical_entries s) \<Longrightarrow> CHR ''='' \<in> set e" for e
    by (auto simp: canonical_entries_def entry_def split: option.splits)
  moreover have "canonical_entries s = e # es \<Longrightarrow> set e \<subseteq> set (canonical s)" for e es
    by (cases es) (auto simp: canonical_def)
  ultimately have "canonical_entries s = []" by (cases "canonical_entries s") auto
  with a show False by (simp add: canonical_def eq_ignore_ascii_case_def to_ascii_lowercase_def)
qed

text \<open>The floor an operator writes is the floor that is in force: every envelope that
  validates is read back, field by field, from its canonical rendering, so two different
  envelopes are never rendered alike and an attested envelope can be used as a floor.
\<close>

theorem floor_reads_canonical:
  assumes "validate_isolation s = None" "fits_i64 s"
  shows "parse_floor (canonical s) = Inr s"
proof -
  let ?es = "canonical_entries s" and ?p = "\<lambda>c. c = CHR '','' \<or> c = CHR 0x0A"
  have cl: "list_all clean_str ?es" using assms by (rule canonical_entries_clean)
  have es: "filter (\<lambda>e. e \<noteq> []) (map trim ?es) = ?es" using cl by (rule trimmed_clean)
  have entries: "filter (\<lambda>e. e \<noteq> []) (map trim (split_on ?p (canonical s))) = ?es"
  proof (cases "?es = []")
    case False
    have "clean c \<Longrightarrow> \<not> ?p c" for c using clean_newline [of c] by (auto simp: clean_def)
    then have "list_all (list_all (\<lambda>c. \<not> ?p c)) ?es" using cl unfolding list_all_iff clean_str_def by blast
    then have "split_on ?p (canonical s) = ?es" unfolding canonical_def using False by (intro split_on_join) auto
    with es show ?thesis by simp
  qed (simp add: canonical_def)
  have "\<not> eq_ignore_ascii_case (canonical s) ''hardened''" by (rule canonical_not_preset)
  moreover have "trim (canonical s) = canonical s" unfolding canonical_def using cl by (rule trim_join_clean)
  ultimately show ?thesis using entries floor_entries_canonical [OF assms] assms(1) by (simp add: parse_floor_def)
qed

theorem floor_reads_canonical_witness:
  "validate_isolation hardened = None \<and> fits_i64 hardened \<and> parse_floor (canonical hardened) = Inr hardened"
proof -
  have "validate_isolation hardened = None" "fits_i64 hardened"
    by (simp_all add: validate_isolation_def hardened_def fits_i64_def guard_simps)
  with floor_reads_canonical [OF this] show ?thesis by simp
qed

end
