(* ===== verification/Json_Pred.thy ===== *)
theory Json_Pred
  imports Rust_Str
begin

text \<open>
  The predicates a deferred task's status document is judged by
  (crates/dagron-core/src/jsonpred.rs): dotted paths, their three comparisons, and how a
  predicate is read. A JSON number is kept as the text \<open>serde_json\<close> prints for it, which is all
  the code looks at; an object is the list of its members.
\<close>

datatype json =
    JNull
  | JBool bool
  | JNumber string
  | JString string
  | JArray "json list"
  | JObject "(string \<times> json) list"

datatype pred_error =
    Empty_path
  | Empty_segment nat
  | Empty_predicate
  | In_no_list string
  | In_empty
  | No_right_value string
  | Not_a_predicate string

subsection \<open>Paths\<close>

fun position :: "('a \<Rightarrow> bool) \<Rightarrow> 'a list \<Rightarrow> nat option" where
  "position p [] = None"
| "position p (x # xs) = (if p x then Some 0 else map_option Suc (position p xs))"

definition path_parse :: "string \<Rightarrow> pred_error + string list" where
  "path_parse raw0 =
     (let raw = trim raw0
      in if raw = [] then Inl Empty_path
         else
           (let segs = map trim (split_char (CHR ''.'') raw)
            in case position (\<lambda>s. s = []) segs of
                 Some i \<Rightarrow> Inl (Empty_segment (i + 1))
               | None \<Rightarrow> Inr segs))"

definition seg_get :: "json \<Rightarrow> string \<Rightarrow> json option" where
  "seg_get cur seg =
     (case cur of
        JObject m \<Rightarrow> map_of m seg
      | JArray items \<Rightarrow> (case parse_unsigned 64 seg of
            None \<Rightarrow> None
          | Some i \<Rightarrow> if i < length items then Some (items ! i) else None)
      | _ \<Rightarrow> None)"

fun path_get :: "string list \<Rightarrow> json \<Rightarrow> json option" where
  "path_get [] cur = Some cur"
| "path_get (seg # segs) cur = Option.bind (seg_get cur seg) (path_get segs)"

subsection \<open>Predicates\<close>

datatype predicate =
    Eq "string list" string
  | Ne "string list" string
  | In "string list" "string list"

definition quote_chars :: "char list" where
  "quote_chars = [CHR 0x22, CHR 0x27]"

definition quoted_with :: "char \<Rightarrow> string \<Rightarrow> bool" where
  "quoted_with q s = (2 \<le> str_len s \<and> starts_with s [q] \<and> ends_with s [q])"

definition pred_unquote :: "string \<Rightarrow> string" where
  "pred_unquote s0 =
     (let s = trim s0
      in case find (\<lambda>q. quoted_with q s) quote_chars of
           Some _ \<Rightarrow> butlast (tl s)
         | None \<Rightarrow> s)"

text \<open>\<open>split_once_kw(raw, "in")\<close>: the first occurrence of the word with blanks on both sides;
  a search goes on after the one before it.\<close>

lemma split_once_shorter: "split_once pat s = Some (a, b) \<Longrightarrow> pat \<noteq> [] \<Longrightarrow> length b < length s"
  by (drule split_once_SomeD) auto

function split_once_in :: "string \<Rightarrow> string \<Rightarrow> (string \<times> string) option" where
  "split_once_in before rest =
     (case split_once ''in'' rest of
        None \<Rightarrow> None
      | Some (a, b) \<Rightarrow>
          (let prefix = before @ a
           in if prefix \<noteq> [] \<and> is_ascii_whitespace (last prefix) \<and> b \<noteq> [] \<and> is_ascii_whitespace (hd b)
              then Some (prefix, b)
              else split_once_in (prefix @ ''in'') b))"
  by pat_completeness auto

termination split_once_in
  by (relation "measure (\<lambda>(b, r). length r)") (auto dest: split_once_shorter)

declare split_once_in.simps [simp del]

definition build_predicate :: "(string list \<Rightarrow> predicate) \<Rightarrow> string \<Rightarrow> pred_error + predicate" where
  "build_predicate f lhs = (case path_parse lhs of Inl e \<Rightarrow> Inl e | Inr p \<Rightarrow> Inr (f p))"

definition parse_in :: "string \<Rightarrow> string \<Rightarrow> pred_error + predicate" where
  "parse_in lhs rhs0 =
     (let rhs = trim rhs0
      in case Option.bind (strip_prefix ''['' rhs) (strip_suffix '']'') of
           None \<Rightarrow> Inl (In_no_list rhs)
         | Some inner \<Rightarrow>
             (let values = filter (\<lambda>v. v \<noteq> []) (map (\<lambda>v. pred_unquote (trim v)) (split_char (CHR '','') inner))
              in if values = [] then Inl In_empty else build_predicate (\<lambda>p. In p values) lhs))"

definition parse_compare :: "string \<Rightarrow> (string list \<Rightarrow> string \<Rightarrow> predicate) \<Rightarrow> string \<times> string \<Rightarrow> pred_error + predicate" where
  "parse_compare oper mk q =
     (case q of (lhs, rhs) \<Rightarrow>
        (let v = pred_unquote (trim rhs)
         in if v = [] then Inl (No_right_value oper) else build_predicate (\<lambda>p. mk p v) lhs))"

definition predicate_parse :: "string \<Rightarrow> pred_error + predicate" where
  "predicate_parse raw0 =
     (let raw = trim raw0
      in if raw = [] then Inl Empty_predicate
         else case split_once_in [] raw of
           Some (lhs, rhs) \<Rightarrow> parse_in lhs rhs
         | None \<Rightarrow>
             (case split_once ''=='' raw of
                Some q \<Rightarrow> parse_compare ''=='' Eq q
              | None \<Rightarrow>
                  (case split_once ''!='' raw of
                     Some q \<Rightarrow> parse_compare ''!='' Ne q
                   | None \<Rightarrow> Inl (Not_a_predicate raw))))"

fun predicate_path :: "predicate \<Rightarrow> string list" where
  "predicate_path (Eq p v) = p"
| "predicate_path (Ne p v) = p"
| "predicate_path (In p vs) = p"

fun scalar :: "json \<Rightarrow> string option" where
  "scalar (JString s) = Some s"
| "scalar (JNumber n) = Some n"
| "scalar (JBool b) = Some (if b then ''true'' else ''false'')"
| "scalar JNull = Some ''null''"
| "scalar (JObject m) = None"
| "scalar (JArray xs) = None"

fun actual_ok :: "predicate \<Rightarrow> string option \<Rightarrow> bool" where
  "actual_ok (Eq p v) a = (a = Some v)"
| "actual_ok (Ne p v) a = (case a of None \<Rightarrow> False | Some x \<Rightarrow> x \<noteq> v)"
| "actual_ok (In p vs) a = (case a of None \<Rightarrow> False | Some x \<Rightarrow> x \<in> set vs)"

definition predicate_eval :: "predicate \<Rightarrow> json \<Rightarrow> bool" where
  "predicate_eval p doc =
     (case path_get (predicate_path p) doc of
        None \<Rightarrow> False
      | Some found \<Rightarrow> actual_ok p (scalar found))"

text \<open>
  A field that is absent, or is no scalar, satisfies no predicate, \<open>!=\<close> included; on one that
  is a scalar \<open>==\<close> and \<open>!=\<close> are complementary and \<open>in\<close> is a disjunction of \<open>==\<close>.
\<close>

definition reads :: "string list \<Rightarrow> json \<Rightarrow> string option" where
  "reads p doc = Option.bind (path_get p doc) scalar"

lemma predicate_eval_reads: "predicate_eval p doc = actual_ok p (reads (predicate_path p) doc)"
  by (cases p) (auto simp: predicate_eval_def reads_def split: option.splits bind_splits)

lemma absent_satisfies_nothing: "reads (predicate_path p) doc = None \<Longrightarrow> \<not> predicate_eval p doc"
  by (cases p) (simp_all add: predicate_eval_reads)

lemma eq_ne_complementary: "reads p doc \<noteq> None \<Longrightarrow> predicate_eval (Ne p v) doc = (\<not> predicate_eval (Eq p v) doc)"
  by (auto simp: predicate_eval_reads)

lemma in_is_some_eq: "predicate_eval (In p vs) doc \<longleftrightarrow> (\<exists>v \<in> set vs. predicate_eval (Eq p v) doc)"
  by (auto simp: predicate_eval_reads split: option.splits)

lemma parsed_path_nonempty: "path_parse raw = Inr segs \<Longrightarrow> segs \<noteq> [] \<and> [] \<notin> set segs"
proof -
  assume a: "path_parse raw = Inr segs"
  have pos: "position P xs = None \<longleftrightarrow> (\<forall>x \<in> set xs. \<not> P x)" for P :: "string \<Rightarrow> bool" and xs
    by (induction xs) auto
  show ?thesis using a by (fastforce simp: path_parse_def Let_def pos split: if_splits option.splits)
qed

end
