(* ===== verification/Dag_Spec.thy ===== *)
theory Dag_Spec
  imports Isolation Json_Pred Fault Models Repeat
begin

text \<open>
  The workflow a user writes (crates/dagron-core/src/dag.rs): the structs a specification is
  read into, field by field, and the validators of single values. Unsigned integers are
  naturals, \<open>i64\<close> is \<open>int\<close>; a number that has been read fits its width.
\<close>

subsection \<open>The blocks of a task\<close>

record gang_spec =
  gang_size :: nat

record gang_member =
  gm_id :: string
  gm_rank :: nat
  gm_size :: nat

record defer_http_cancel =
  dhc_url :: string
  dhc_method :: "string option"
  dhc_body :: "string option"

record defer_http_spec =
  dh_url :: string
  dh_headers :: "env_var list"
  dh_succeed_when :: string
  dh_fail_when :: "string option"
  dh_error_from :: "string option"
  dh_cancel :: "defer_http_cancel option"

record defer_spec =
  def_kind :: string
  def_poll_secs :: nat
  def_cost :: "nat option"
  def_max_wait_secs :: "nat option"
  def_http :: "defer_http_spec option"
  def_connection :: "string option"

record wait_spec =
  wait_for :: "string option"
  wait_until :: "string option"
  wait_url :: "string option"
  wait_dataset :: "string option"

record cache_spec =
  cache_key :: string
  cache_max_age_secs :: "nat option"

datatype image_pull_policy = IfNotPresent | Always | Never

datatype read = Status | LastLine

record env_from =
  ef_name :: string
  ef_task :: string
  ef_read :: read

record gpu_request =
  gpu_count :: nat
  gpu_resource :: "string option"

record resource_requirements =
  rr_requests :: "string btree"
  rr_limits :: "string btree"
  rr_gpu :: "gpu_request option"

record task_spec =
  ts_name :: string
  ts_command :: "string list"
  ts_depends_on :: "string list"
  ts_input :: "json option"
  ts_template :: "string option"
  ts_arguments :: "string btree"
  ts_with_items :: "json list option"
  ts_with_param :: "string option"
  ts_with_output_of :: "string option"
  ts_when :: "string option"
  ts_instance_key :: "string option"
  ts_trigger_rule :: "string option"
  ts_hook :: "string option"
  ts_allow_failure :: bool
  ts_task_type :: "string option"
  ts_workflow :: "string option"
  ts_wait :: "wait_spec option"
  ts_approval_timeout_secs :: "nat option"
  ts_approval_on_timeout :: "string option"
  ts_approval_message :: "string option"
  ts_approval_show :: "string list"
  ts_binds :: "string list"
  ts_approvers :: "string list"
  ts_not_triggerer :: bool
  ts_max_attempts :: nat
  ts_retry_delay_secs :: nat
  ts_retry_max_delay_secs :: "nat option"
  ts_retry_on_timeout :: "bool option"
  ts_retry_budgets :: "nat btree"
  ts_timeout_secs :: "nat option"
  ts_docker_image :: "string option"
  ts_image_pull_policy :: "image_pull_policy option"
  ts_env :: "env_var list"
  ts_environment :: "string option"
  ts_resources :: "resource_requirements option"
  ts_service_account :: "string option"
  ts_runner_class :: "string option"
  ts_priority :: int
  ts_pool :: "string option"
  ts_cache :: "cache_spec option"
  ts_repeat :: "repeat_spec option"
  ts_defer :: "defer_spec option"
  ts_produces :: "string list"
  ts_gang :: "gang_spec option"
  ts_gang_member :: "gang_member option"
  ts_isolation :: "isolation_spec option"
  ts_workspace :: "workspace_spec option"
  ts_services :: "service_spec list"
  ts_env_from :: "env_from list"
  ts_identity :: "task_identity option"
  ts_forge_token :: "forge_token_spec option"
  ts_docker_daemon :: bool
  ts_privileged :: bool
  ts_tokens :: "nat option"
  ts_artifact_api :: bool

subsection \<open>The specification of a workflow\<close>

record deadline_spec =
  dl_within :: string

record run_budget =
  rb_tasks :: "nat option"
  rb_external_cost :: "nat option"
  rb_external_cost_attribution :: bool
  rb_tokens :: "nat option"

record param_rule =
  pr_required :: bool
  pr_choices :: "string list"
  pr_pattern :: "string option"
  pr_description :: "string option"

datatype when_full = Refuse | Queue | Supersede

record template_spec =
  tp_name :: string
  tp_parameters :: "string btree"
  tp_tasks :: "task_spec list"

record task_defaults =
  td_max_attempts :: "nat option"
  td_retry_delay_secs :: "nat option"
  td_retry_max_delay_secs :: "nat option"
  td_retry_on_timeout :: "bool option"
  td_retry_budgets :: "nat btree"
  td_timeout_secs :: "nat option"
  td_docker_image :: "string option"
  td_image_pull_policy :: "image_pull_policy option"
  td_runner_class :: "string option"
  td_priority :: "int option"
  td_pool :: "string option"
  td_env :: "env_var list"

record git_notify =
  gn_provider :: string
  gn_repo :: string
  gn_sha :: string
  gn_context :: "string option"
  gn_target_url :: "string option"
  gn_description :: "string option"

record webhook_notify =
  wn_url :: string
  wn_on :: "string list"

record slack_notify =
  sn_webhook_url :: string
  sn_on :: "string list"

record notify_spec =
  ns_git :: "git_notify option"
  ns_webhook :: "webhook_notify option"
  ns_slack :: "slack_notify option"

record dag_spec =
  ds_name :: string
  ds_parameters :: "string btree"
  ds_param_schema :: "param_rule btree"
  ds_concurrency_key :: "string option"
  ds_templates :: "template_spec list"
  ds_uses :: "string list"
  ds_tags :: "string list"
  ds_run_timeout_secs :: "nat option"
  ds_max_active_runs :: "nat option"
  ds_when_full :: "when_full option"
  ds_budget :: "run_budget option"
  ds_deadline :: "deadline_spec option"
  ds_notify :: "notify_spec option"
  ds_result_from :: "string option"
  ds_runner_class :: "string option"
  ds_environment :: "string option"
  ds_task_defaults :: "task_defaults option"
  ds_on_datasets :: "string list"
  ds_datasets_mode :: "string option"
  ds_tasks :: "task_spec list"

subsection \<open>Validators of single values\<close>

datatype value_error =
    Bad_approver string
  | Bad_approval_show string
  | Runner_class_length nat
  | Runner_class_chars string
  | Runner_class_reserved
  | Tag_length nat
  | Tag_chars string
  | Pool_length nat
  | Pool_chars string
  | Dataset_length nat
  | Dataset_chars string
  | Empty_duration
  | Bad_duration string
  | Zero_duration string
  | Duration_too_large string
  | Pool_entry_no_colon string
  | Pool_entry_name value_error
  | Pool_entry_slots string
  | Pool_entry_no_slot string
  | Pool_entry_twice string

definition hook_kinds :: "string list" where "hook_kinds = [''on_exit'', ''on_failure'']"
definition task_kinds :: "string list" where "task_kinds = [''task'', ''approval'', ''workflow'', ''wait'']"
definition approval_timeout_actions :: "string list" where "approval_timeout_actions = [''approve'', ''reject'']"
definition approval_text_max :: nat where "approval_text_max = 2000"
definition approval_show_max :: nat where "approval_show_max = 16"
definition approvers_max :: nat where "approvers_max = 64"
definition max_env_from :: nat where "max_env_from = 256"
definition tokens_most :: nat where "tokens_most = 2 ^ 48"
definition cancel_methods :: "string list" where "cancel_methods = [''DELETE'', ''POST'', ''PUT'', ''PATCH'']"
definition default_gpu_resource :: string where "default_gpu_resource = ''nvidia.com/gpu''"
definition handle_prefix :: string where "handle_prefix = ''dagron::handle=''"

definition is_approval :: "task_spec \<Rightarrow> bool" where "is_approval t = (ts_task_type t = Some ''approval'')"
definition is_workflow :: "task_spec \<Rightarrow> bool" where "is_workflow t = (ts_task_type t = Some ''workflow'')"
definition is_wait :: "task_spec \<Rightarrow> bool" where "is_wait t = (ts_task_type t = Some ''wait'')"

definition cancel_method :: "defer_http_cancel \<Rightarrow> string" where
  "cancel_method c = (case dhc_method c of None \<Rightarrow> ''DELETE'' | Some m \<Rightarrow> to_ascii_uppercase (trim m))"

text \<open>The handle a submit command prints: the last line that carries one.\<close>

definition parse_handle :: "string \<Rightarrow> string option" where
  "parse_handle output =
     (case List.find (\<lambda>l. strip_prefix handle_prefix (trim l) \<noteq> None) (rev (lines output)) of
        None \<Rightarrow> None
      | Some l \<Rightarrow>
          (let h = trim (the (strip_prefix handle_prefix (trim l))) in if h \<noteq> [] then Some h else None))"

definition last_line :: "string \<Rightarrow> string" where
  "last_line output =
     (case List.find (\<lambda>line. trim line \<noteq> []) (map (trim_end_matches (\<lambda>c. c = CHR 0x0D)) (rev (lines output))) of
        None \<Rightarrow> []
      | Some l \<Rightarrow> l)"

definition pull_policy_as_str :: "image_pull_policy \<Rightarrow> string" where
  "pull_policy_as_str p = (case p of IfNotPresent \<Rightarrow> ''if_not_present'' | Always \<Rightarrow> ''always'' | Never \<Rightarrow> ''never'')"

definition pull_policy_as_kubernetes :: "image_pull_policy \<Rightarrow> string" where
  "pull_policy_as_kubernetes p = (case p of IfNotPresent \<Rightarrow> ''IfNotPresent'' | Always \<Rightarrow> ''Always'' | Never \<Rightarrow> ''Never'')"

text \<open>\<open>entry(key).or_insert_with(..)\<close> on a map kept in key order.\<close>

fun insert_missing :: "string \<Rightarrow> 'v \<Rightarrow> 'v btree \<Rightarrow> 'v btree" where
  "insert_missing k v [] = [(k, v)]"
| "insert_missing k v ((k', v') # m) =
     (if k = k' then (k', v') # m
      else if k < k' then (k, v) # (k', v') # m
      else (k', v') # insert_missing k v m)"

definition effective_limits :: "resource_requirements \<Rightarrow> string btree" where
  "effective_limits r =
     (case rr_gpu r of
        None \<Rightarrow> rr_limits r
      | Some gpu \<Rightarrow>
          insert_missing (case gpu_resource gpu of None \<Rightarrow> default_gpu_resource | Some k \<Rightarrow> k)
            (digits_of (gpu_count gpu)) (rr_limits r))"

definition validate_approver :: "string \<Rightarrow> value_error option" where
  "validate_approver e =
     (let name = (case strip_prefix ''group:'' e of Some n \<Rightarrow> n | None \<Rightarrow> e)
      in guard (name = [] \<or> length e > 254 \<or> list_ex (\<lambda>c. is_whitespace c \<or> is_control c) e) (Bad_approver e))"

definition approver_permits :: "string list \<Rightarrow> string \<Rightarrow> string \<Rightarrow> string list \<Rightarrow> bool" where
  "approver_permits approvers email sub groups =
     (approvers = []
      \<or> list_ex
          (\<lambda>a. case strip_prefix ''group:'' a of
             Some g \<Rightarrow> list_ex (\<lambda>x. eq_ignore_ascii_case x g) groups
           | None \<Rightarrow> (email \<noteq> [] \<and> eq_ignore_ascii_case a email) \<or> (sub \<noteq> [] \<and> eq_ignore_ascii_case a sub))
          approvers)"

definition show_part_ok :: "string \<Rightarrow> bool" where
  "show_part_ok s = (s \<noteq> [] \<and> s \<noteq> ''.'' \<and> s \<noteq> ''..'' \<and> \<not> contains s [CHR 0x5C] \<and> \<not> list_ex is_control s)"

definition validate_approval_show :: "string \<Rightarrow> value_error option" where
  "validate_approval_show e =
     (case split_char (CHR ''/'') e of
        [t, n] \<Rightarrow> guard (\<not> (show_part_ok t \<and> show_part_ok n)) (Bad_approval_show e)
      | _ \<Rightarrow> Some (Bad_approval_show e))"

definition label_char :: "char \<Rightarrow> bool" where
  "label_char c = (is_ascii_lowercase c \<or> is_ascii_digit c \<or> c = CHR ''-'' \<or> c = CHR ''_'')"

definition validate_runner_class :: "string \<Rightarrow> value_error option" where
  "validate_runner_class name =
     first_err
      [guard (name = [] \<or> str_len name > 64) (Runner_class_length (str_len name)),
       guard (\<not> list_all label_char name) (Runner_class_chars name),
       guard (name = ''other'') Runner_class_reserved]"

definition validate_tag :: "string \<Rightarrow> value_error option" where
  "validate_tag tag =
     first_err
      [guard (tag = [] \<or> str_len tag > 64) (Tag_length (str_len tag)),
       guard (\<not> list_all (\<lambda>c. is_ascii_alphanumeric c \<or> c \<in> set ''-_.'') tag) (Tag_chars tag)]"

definition validate_pool :: "string \<Rightarrow> value_error option" where
  "validate_pool name =
     first_err
      [guard (name = [] \<or> str_len name > 64) (Pool_length (str_len name)),
       guard (\<not> list_all label_char name) (Pool_chars name)]"

definition validate_dataset_uri :: "string \<Rightarrow> value_error option" where
  "validate_dataset_uri uri =
     first_err
      [guard (uri = [] \<or> str_len uri > 512) (Dataset_length (str_len uri)),
       guard (list_ex (\<lambda>c. is_whitespace c \<or> is_control c) uri) (Dataset_chars uri)]"

text \<open>The slots of each pool, as the operator's \<open>POOLS\<close> lists them; the map is built in the
  order of the entries.\<close>

fun parse_pool_entries :: "(string \<times> int) list \<Rightarrow> string list \<Rightarrow> value_error + (string \<times> int) list" where
  "parse_pool_entries m [] = Inr m"
| "parse_pool_entries m (e # es) =
     (case split_once '':'' e of
        None \<Rightarrow> Inl (Pool_entry_no_colon e)
      | Some (name0, slots0) \<Rightarrow>
          (let name = trim name0
           in case validate_pool name of
                Some err \<Rightarrow> Inl (Pool_entry_name err)
              | None \<Rightarrow>
                  (case parse_i64 (trim slots0) of
                     None \<Rightarrow> Inl (Pool_entry_slots name)
                   | Some slots \<Rightarrow>
                       if slots < 1 then Inl (Pool_entry_no_slot name)
                       else if map_of m name \<noteq> None then Inl (Pool_entry_twice name)
                       else parse_pool_entries (m @ [(name, slots)]) es)))"

definition parse_pools :: "string \<Rightarrow> value_error + (string \<times> int) list" where
  "parse_pools raw = parse_pool_entries [] (filter (\<lambda>s. s \<noteq> []) (map trim (split_char (CHR '','') raw)))"

definition duration_unit :: "char \<Rightarrow> nat option" where
  "duration_unit c =
     (if c = CHR ''s'' then Some 1 else if c = CHR ''m'' then Some 60
      else if c = CHR ''h'' then Some 3600 else if c = CHR ''d'' then Some 86400 else None)"

definition parse_duration_secs :: "string \<Rightarrow> value_error + nat" where
  "parse_duration_secs s0 =
     (let s = trim s0
      in if s = [] then Inl Empty_duration
         else
           (let (num, mult) = (case duration_unit (last s) of Some m \<Rightarrow> (butlast s, m) | None \<Rightarrow> (s, 1))
            in case parse_u64 (trim num) of
                 None \<Rightarrow> Inl (Bad_duration s)
               | Some n \<Rightarrow>
                   if n = 0 then Inl (Zero_duration s)
                   else if n * mult < 2 ^ 64 then Inr (n * mult)
                   else Inl (Duration_too_large s)))"

fun when_full_as_str :: "when_full \<Rightarrow> string" where
  "when_full_as_str Refuse = ''refuse''"
| "when_full_as_str Queue = ''queue''"
| "when_full_as_str Supersede = ''supersede''"

definition when_full_waits :: "when_full \<Rightarrow> bool" where
  "when_full_waits w = (w \<noteq> Refuse)"

text \<open>\<open>max_waiting_runs\<close>, given the value of \<open>DAGRON_MAX_WAITING_RUNS\<close>.\<close>

definition max_waiting_runs :: "string option \<Rightarrow> int" where
  "max_waiting_runs var = max 1 (case Option.bind var (\<lambda>v. parse_i64 (trim v)) of Some n \<Rightarrow> n | None \<Rightarrow> 100)"

end
