(* ===== verification/Dag_Graph.thy ===== *)
theory Dag_Graph
  imports Dag_Spec
begin

text \<open>
  Building the graph of a workflow (\<open>DagSpec::check_params\<close> and \<open>DagGraph::from_spec\<close> of
  crates/dagron-core/src/dag.rs): every check of the code, in its order, block by block. The
  first complaint is the answer; a specification without one becomes a graph.

  What the code takes from other packages is the record \<open>dag_env\<close>: whether chrono reads a text
  as an RFC-3339 instant, whether the regex crate compiles a pattern and matches a value, and
  petgraph's \<open>is_cyclic_directed\<close>; \<open>env_enterprise\<close> is the build's feature of that name.
\<close>

record dag_env =
  env_rfc3339 :: "string \<Rightarrow> bool"
  env_regex_compiles :: "string \<Rightarrow> bool"
  env_regex_matches :: "string \<Rightarrow> string \<Rightarrow> bool"
  env_is_cyclic :: "string list \<Rightarrow> (string \<times> string) list \<Rightarrow> bool"
  env_enterprise :: bool

subsection \<open>Parameters\<close>

datatype param_error =
    Not_declared string
  | No_rule string
  | Choice_twice string string
  | Empty_choice string
  | Bad_pattern string
  | Param_required string
  | Not_a_choice string
  | No_match string
  | Bad_pattern_late string

definition compile_param_pattern :: "string \<Rightarrow> string" where
  "compile_param_pattern p = [CHR 0x5C, CHR ''A''] @ ''(?:'' @ p @ '')'' @ [CHR 0x5C, CHR ''z'']"

definition rule_check :: "dag_env \<Rightarrow> string \<Rightarrow> param_rule \<Rightarrow> string \<Rightarrow> bool \<Rightarrow> param_error option" where
  "rule_check env name r v enforce_required =
     (if v = [] then guard (pr_required r \<and> enforce_required) (Param_required name)
      else first_err
        [guard (pr_choices r \<noteq> [] \<and> \<not> list_ex (\<lambda>c. c = v) (pr_choices r)) (Not_a_choice name),
         guard_opt
           (\<lambda>p. first_err
              [guard (\<not> env_regex_compiles env (compile_param_pattern p)) (Bad_pattern_late name),
               guard (\<not> env_regex_matches env (compile_param_pattern p) v) (No_match name)])
           (pr_pattern r)])"

definition param_refusal :: "dag_env \<Rightarrow> dag_spec \<Rightarrow> bool \<Rightarrow> string \<times> param_rule \<Rightarrow> param_error option" where
  "param_refusal env spec enforce_required p =
     (case p of (name, r) \<Rightarrow>
        first_err
         [guard (map_of (ds_parameters spec) name = None) (Not_declared name),
          guard (pr_choices r = [] \<and> pr_pattern r = None \<and> \<not> pr_required r \<and> pr_description r = None) (No_rule name),
          guard_seen (\<lambda>_. None) (\<lambda>c. c) (\<lambda>c. Choice_twice name c) [] (pr_choices r),
          guard (list_ex (\<lambda>c. c = []) (pr_choices r)) (Empty_choice name),
          guard_opt (\<lambda>pat. guard (\<not> env_regex_compiles env (compile_param_pattern pat)) (Bad_pattern name)) (pr_pattern r),
          rule_check env name r (case map_of (ds_parameters spec) name of Some v \<Rightarrow> v | None \<Rightarrow> []) enforce_required])"

definition check_params :: "dag_env \<Rightarrow> dag_spec \<Rightarrow> bool \<Rightarrow> param_error option" where
  "check_params env spec enforce_required = guard_all (param_refusal env spec enforce_required) (ds_param_schema spec)"

subsection \<open>Errors\<close>

datatype env_from_error =
    Too_many_env_from nat
  | Env_from_name string
  | Env_from_twice string
  | Env_from_fan_out string string nat
  | Env_from_no_dep string string

datatype shape_error =
    Bad_fault_class string
  | No_attempts
  | Bad_trigger_rule string
  | Bad_hook string
  | Bad_type string
  | Bad_timeout_action string
  | Approval_hook

datatype approval_error =
    Approval_text_only
  | Approval_text_long
  | Approval_show_many nat
  | Approval_show_bad value_error
  | Binds_only
  | Binds_many nat
  | Binds_bad value_error
  | Approvers_only
  | Approvers_many nat
  | Approver_bad value_error

datatype trigger_error =
    Workflow_unnamed
  | Workflow_command
  | Workflow_hook
  | Workflow_only
  | Wait_not_one
  | Wait_for_bad value_error
  | Wait_until_bad
  | Wait_url_bad
  | Wait_dataset_bad value_error
  | Wait_missing
  | Wait_command
  | Wait_hook
  | Wait_only

datatype command_error =
    Command_only string
  | Workspace_bad workspace_error
  | Tokens_zero
  | Tokens_large nat
  | Identity_bad identity_error
  | Forge_no_checkout
  | Forge_bad forge_error
  | Services_bad service_error
  | Daemon_service_name
  | Daemon_services_full nat
  | Env_from_bad env_from_error
  | Produces_bad value_error
  | Produces_twice string

datatype placement_error =
    Runner_class_bad value_error
  | Pool_bad value_error
  | Cache_key_empty
  | Isolation_bad isolation_error
  | Gpu_zero
  | Gpu_resource_empty

datatype gang_error =
    Gang_small nat
  | Gang_retries
  | Gang_combined
  | Gang_trigger
  | Gang_result

datatype repeat_error =
    Repeat_until_empty
  | Repeat_zero
  | Repeat_delay nat
  | Repeat_type

datatype defer_error =
    Defer_kind_empty
  | Defer_poll_zero
  | Defer_poll_large nat
  | Defer_max_wait nat
  | Defer_repeat
  | Defer_type
  | Defer_gang
  | Defer_url_empty
  | Defer_url_bad
  | Defer_header_name
  | Defer_cancel_url
  | Defer_cancel_method string
  | Defer_predicate string pred_error
  | Defer_connection

datatype task_error =
    Shape_error shape_error
  | Approval_error approval_error
  | Trigger_error trigger_error
  | Command_error command_error
  | Placement_error placement_error
  | Gang_error gang_error
  | Repeat_error repeat_error
  | Defer_error defer_error
  | Arguments_no_callee
  | Template_left string
  | No_command

datatype run_error =
    Timeout_zero
  | Key_empty
  | Key_parameter string
  | Key_long
  | Key_no_cap
  | When_full_no_cap
  | Supersede_cap nat

datatype budget_error =
    Budget_tasks_zero
  | Task_budget_exceeded nat nat
  | Budget_cost_zero
  | External_budget_exceeded nat nat nat
  | Attribution_gated
  | Budget_tokens_zero
  | Budget_tokens_large nat
  | Token_budget_gated
  | Task_over_token_budget string nat nat

datatype label_error =
    Deadline_bad value_error
  | Dag_runner_class value_error
  | Tag_bad value_error
  | On_datasets_bad value_error
  | On_datasets_twice string
  | Datasets_mode_bad string
  | Datasets_mode_alone

datatype dag_error =
    Run_error run_error
  | Budget_error budget_error
  | Label_error label_error
  | Duplicate_task string
  | Task_error string task_error
  | Unknown_dependency string string
  | Depends_on_hook string string
  | Cycle
  | When_no_dep string string
  | Fan_out_unknown string string
  | Fan_out_no_dep string string
  | Fan_out_self string
  | Result_unknown string
  | Result_hook string

subsection \<open>The run as a whole\<close>

definition member_count :: "task_spec \<Rightarrow> nat" where
  "member_count t = (case ts_gang t of None \<Rightarrow> 1 | Some g \<Rightarrow> gang_size g)"

definition run_refusal :: "dag_spec \<Rightarrow> run_error option" where
  "run_refusal spec =
     first_err
      [guard (ds_run_timeout_secs spec = Some 0) Timeout_zero,
       guard_opt
         (\<lambda>key. first_err
            [guard (trim key = []) Key_empty,
             guard (contains key ''{{'') (Key_parameter key),
             guard (str_len key > 200) Key_long,
             guard (ds_max_active_runs spec \<in> {None, Some 0}) Key_no_cap])
         (ds_concurrency_key spec),
       guard_opt
         (\<lambda>wf. (let cap = (case ds_max_active_runs spec of None \<Rightarrow> 0 | Some n \<Rightarrow> n)
                in first_err
                    [guard (cap = 0) When_full_no_cap,
                     guard (wf = Supersede \<and> cap \<noteq> 1) (Supersede_cap cap)]))
         (ds_when_full spec)]"

definition sat_u64 :: "nat \<Rightarrow> nat" where
  "sat_u64 n = min n (2 ^ 64 - 1)"

text \<open>What the deferred tasks may cost, and how many rows they are.\<close>

definition external_plan :: "task_spec list \<Rightarrow> nat \<times> nat" where
  "external_plan ts =
     fold (\<lambda>t (cost, n).
        (let rows = member_count t;
             unit = (case ts_defer t of None \<Rightarrow> 1 | Some d \<Rightarrow> (case def_cost d of None \<Rightarrow> 1 | Some c \<Rightarrow> c))
         in (sat_u64 (cost + sat_u64 (unit * rows)), n + rows)))
      (filter (\<lambda>t. ts_defer t \<noteq> None) ts) (0, 0)"

definition task_budget_refusal :: "dag_spec \<Rightarrow> run_budget \<Rightarrow> budget_error option" where
  "task_budget_refusal spec b =
     (case rb_tasks b of
        None \<Rightarrow> None
      | Some m \<Rightarrow>
          (let planned = sum_list (map member_count (ds_tasks spec))
           in first_err [guard (m = 0) Budget_tasks_zero, guard (planned > m) (Task_budget_exceeded m planned)]))"

definition cost_budget_refusal :: "dag_spec \<Rightarrow> run_budget \<Rightarrow> budget_error option" where
  "cost_budget_refusal spec b =
     (case rb_external_cost b of
        None \<Rightarrow> None
      | Some m \<Rightarrow>
          (let (planned, deferred) = external_plan (ds_tasks spec)
           in first_err [guard (m = 0) Budget_cost_zero, guard (planned > m) (External_budget_exceeded m planned deferred)]))"

definition token_budget_refusal :: "dag_env \<Rightarrow> dag_spec \<Rightarrow> run_budget \<Rightarrow> budget_error option" where
  "token_budget_refusal env spec b =
     (case rb_tokens b of
        None \<Rightarrow> None
      | Some m \<Rightarrow>
          first_err
           [guard (m = 0) Budget_tokens_zero,
            guard (m > tokens_most) (Budget_tokens_large m),
            guard (\<not> env_enterprise env) Token_budget_gated,
            (case List.find (\<lambda>t. case ts_tokens t of None \<Rightarrow> False | Some n \<Rightarrow> n > m) (ds_tasks spec) of
               None \<Rightarrow> None
             | Some t \<Rightarrow> Some (Task_over_token_budget (ts_name t) (case ts_tokens t of None \<Rightarrow> 0 | Some n \<Rightarrow> n) m))])"

definition budget_refusal :: "dag_env \<Rightarrow> dag_spec \<Rightarrow> run_budget \<Rightarrow> budget_error option" where
  "budget_refusal env spec b =
     first_err
      [task_budget_refusal spec b,
       cost_budget_refusal spec b,
       guard (\<not> env_enterprise env \<and> rb_external_cost_attribution b) Attribution_gated,
       token_budget_refusal env spec b]"

definition left_err :: "'e + 'a \<Rightarrow> 'e option" where
  "left_err r = (case r of Inl e \<Rightarrow> Some e | Inr _ \<Rightarrow> None)"

definition labels_refusal :: "dag_spec \<Rightarrow> label_error option" where
  "labels_refusal spec =
     first_err
      [guard_opt (\<lambda>d. map_option Deadline_bad (left_err (parse_duration_secs (dl_within d)))) (ds_deadline spec),
       guard_opt (\<lambda>c. map_option Dag_runner_class (validate_runner_class c)) (ds_runner_class spec),
       guard_all (\<lambda>t. map_option Tag_bad (validate_tag t)) (ds_tags spec),
       guard_seen (\<lambda>u. map_option On_datasets_bad (validate_dataset_uri u)) (\<lambda>u. u) On_datasets_twice [] (ds_on_datasets spec),
       guard_opt
         (\<lambda>mode. first_err
            [guard (mode \<notin> set [''any'', ''all'']) (Datasets_mode_bad mode),
             guard (ds_on_datasets spec = []) Datasets_mode_alone])
         (ds_datasets_mode spec)]"

subsection \<open>One task\<close>

definition retry_refusal :: "task_spec \<Rightarrow> shape_error option" where
  "retry_refusal t =
     first_err
      [guard_all (\<lambda>(key, _). guard (key \<noteq> fault_as_str (fault_parse key)) (Bad_fault_class key)) (ts_retry_budgets t),
       guard (ts_max_attempts t = 0) No_attempts]"

definition shape_refusal :: "task_spec \<Rightarrow> shape_error option" where
  "shape_refusal t =
     first_err
      [guard_opt (\<lambda>r. guard (r \<notin> set trigger_rules) (Bad_trigger_rule r)) (ts_trigger_rule t),
       guard_opt (\<lambda>h. guard (h \<notin> set hook_kinds) (Bad_hook h)) (ts_hook t),
       guard_opt (\<lambda>k. guard (k \<notin> set task_kinds) (Bad_type k)) (ts_task_type t),
       guard_opt (\<lambda>a. guard (a \<notin> set approval_timeout_actions) (Bad_timeout_action a)) (ts_approval_on_timeout t),
       guard (is_approval t \<and> ts_hook t \<noteq> None) Approval_hook]"

definition approval_refusal :: "task_spec \<Rightarrow> approval_error option" where
  "approval_refusal t =
     first_err
      [guard (\<not> is_approval t \<and> (ts_approval_message t \<noteq> None \<or> ts_approval_show t \<noteq> [])) Approval_text_only,
       guard_opt (\<lambda>m. guard (length m > approval_text_max) Approval_text_long) (ts_approval_message t),
       guard (length (ts_approval_show t) > approval_show_max) (Approval_show_many (length (ts_approval_show t))),
       guard_all (\<lambda>e. map_option Approval_show_bad (validate_approval_show e)) (ts_approval_show t),
       guard (\<not> is_approval t \<and> ts_binds t \<noteq> []) Binds_only,
       guard (length (ts_binds t) > approval_show_max) (Binds_many (length (ts_binds t))),
       guard_all (\<lambda>e. map_option Binds_bad (validate_approval_show e)) (ts_binds t),
       guard (\<not> is_approval t \<and> (ts_approvers t \<noteq> [] \<or> ts_not_triggerer t)) Approvers_only,
       guard (length (ts_approvers t) > approvers_max) (Approvers_many (length (ts_approvers t))),
       guard_all (\<lambda>e. map_option Approver_bad (validate_approver e)) (ts_approvers t)]"

definition workflow_refusal :: "task_spec \<Rightarrow> trigger_error option" where
  "workflow_refusal t =
     (if is_workflow t then
        first_err
         [guard (case ts_workflow t of None \<Rightarrow> True | Some w \<Rightarrow> trim w = []) Workflow_unnamed,
          guard (ts_command t \<noteq> []) Workflow_command,
          guard (ts_hook t \<noteq> None) Workflow_hook]
      else guard (ts_workflow t \<noteq> None) Workflow_only)"

definition http_url :: "string \<Rightarrow> bool" where
  "http_url url = (starts_with url ''http://'' \<or> starts_with url ''https://'')"

definition wait_block_refusal :: "dag_env \<Rightarrow> wait_spec \<Rightarrow> trigger_error option" where
  "wait_block_refusal env w =
     first_err
      [guard (length (filter (\<lambda>v. v \<noteq> None) [wait_for w, wait_until w, wait_url w, wait_dataset w]) \<noteq> 1) Wait_not_one,
       guard_opt (\<lambda>f. map_option Wait_for_bad (left_err (parse_duration_secs f))) (wait_for w),
       guard_opt (\<lambda>u. guard (\<not> env_rfc3339 env u) Wait_until_bad) (wait_until w),
       guard_opt (\<lambda>url. guard (\<not> http_url (trim url)) Wait_url_bad) (wait_url w),
       guard_opt (\<lambda>d. map_option Wait_dataset_bad (validate_dataset_uri d)) (wait_dataset w)]"

definition wait_refusal :: "dag_env \<Rightarrow> task_spec \<Rightarrow> trigger_error option" where
  "wait_refusal env t =
     (if is_wait t then
        first_err
         [(case ts_wait t of Some w \<Rightarrow> wait_block_refusal env w | None \<Rightarrow> Some Wait_missing),
          guard (ts_command t \<noteq> []) Wait_command,
          guard (ts_hook t \<noteq> None) Wait_hook]
      else guard (ts_wait t \<noteq> None) Wait_only)"

text \<open>\<open>task.is_approval() || task.is_workflow() || task.is_wait()\<close>\<close>

definition no_command_kind :: "task_spec \<Rightarrow> bool" where
  "no_command_kind t = (is_approval t \<or> is_workflow t \<or> is_wait t)"

definition grants_refusal :: "task_spec \<Rightarrow> command_error option" where
  "grants_refusal t =
     first_err
      [guard_opt
         (\<lambda>ws. first_err
            [guard (no_command_kind t) (Command_only ''workspace''),
             map_option Workspace_bad (validate_workspace ws)])
         (ts_workspace t),
       guard_opt
         (\<lambda>n. first_err
            [guard (no_command_kind t) (Command_only ''tokens''),
             guard (n = 0) Tokens_zero,
             guard (n > tokens_most) (Tokens_large n)])
         (ts_tokens t),
       guard (ts_artifact_api t \<and> no_command_kind t) (Command_only ''artifact_api''),
       guard_opt
         (\<lambda>i. first_err
            [guard (no_command_kind t) (Command_only ''identity''),
             map_option Identity_bad (validate_identity i)])
         (ts_identity t),
       guard_opt
         (\<lambda>k. first_err
            [guard (no_command_kind t) (Command_only ''forge_token''),
             guard (Option.bind (ts_workspace t) ws_checkout = None) Forge_no_checkout,
             map_option Forge_bad (validate_forge_token k)])
         (ts_forge_token t)]"

definition beside_refusal :: "task_spec \<Rightarrow> command_error option" where
  "beside_refusal t =
     first_err
      [(if ts_services t \<noteq> [] then
          first_err
           [guard (no_command_kind t) (Command_only ''services''),
            map_option Services_bad (validate_services (ts_services t))]
        else None),
       (if ts_docker_daemon t then
          first_err
           [guard (no_command_kind t) (Command_only ''docker_daemon''),
            guard (list_ex (\<lambda>s. sv_name s = daemon_name) (ts_services t)) Daemon_service_name,
            guard (length (ts_services t) \<ge> max_services) (Daemon_services_full (length (ts_services t)))]
        else None),
       guard (ts_privileged t \<and> no_command_kind t) (Command_only ''privileged'')]"

fun env_from_entries :: "task_spec \<Rightarrow> string list \<Rightarrow> env_from list \<Rightarrow> env_from_error option" where
  "env_from_entries t seen [] = None"
| "env_from_entries t seen (f # fs) =
     (if \<not> is_variable (ef_name f) then Some (Env_from_name (ef_name f))
      else if ef_name f \<in> set seen \<or> list_ex (\<lambda>e. ev_name e = ef_name f) (ts_env t) then Some (Env_from_twice (ef_name f))
      else if ef_task f \<notin> set (ts_depends_on t) then
        (let became = filter (\<lambda>dep. starts_with dep (ef_task f @ ''.'')) (ts_depends_on t)
         in if became \<noteq> [] then Some (Env_from_fan_out (ef_name f) (ef_task f) (length became))
            else Some (Env_from_no_dep (ef_name f) (ef_task f)))
      else env_from_entries t (ef_name f # seen) fs)"

definition env_from_refusal :: "task_spec \<Rightarrow> env_from_error option" where
  "env_from_refusal t =
     (if length (ts_env_from t) > max_env_from then Some (Too_many_env_from (length (ts_env_from t)))
      else env_from_entries t [] (ts_env_from t))"

definition inputs_refusal :: "task_spec \<Rightarrow> command_error option" where
  "inputs_refusal t =
     first_err
      [(if ts_env_from t \<noteq> [] then
          first_err
           [guard (no_command_kind t) (Command_only ''env_from''),
            map_option Env_from_bad (env_from_refusal t)]
        else None),
       (if ts_produces t \<noteq> [] then
          first_err
           [guard (no_command_kind t) (Command_only ''produces''),
            guard_seen (\<lambda>u. map_option Produces_bad (validate_dataset_uri u)) (\<lambda>u. u) Produces_twice [] (ts_produces t)]
        else None)]"

definition placement_refusal :: "task_spec \<Rightarrow> placement_error option" where
  "placement_refusal t =
     first_err
      [guard_opt (\<lambda>c. map_option Runner_class_bad (validate_runner_class c)) (ts_runner_class t),
       guard_opt (\<lambda>p. map_option Pool_bad (validate_pool p)) (ts_pool t),
       guard_opt (\<lambda>c. guard (trim (cache_key c) = []) Cache_key_empty) (ts_cache t),
       guard_opt (\<lambda>i. map_option Isolation_bad (validate_isolation i)) (ts_isolation t),
       guard_opt
         (\<lambda>g. first_err
            [guard (gpu_count g = 0) Gpu_zero,
             guard (case gpu_resource g of None \<Rightarrow> False | Some r \<Rightarrow> trim r = []) Gpu_resource_empty])
         (Option.bind (ts_resources t) rr_gpu)]"

definition gang_refusal :: "dag_spec \<Rightarrow> task_spec \<Rightarrow> gang_error option" where
  "gang_refusal spec t =
     guard_opt
      (\<lambda>g. first_err
         [guard (gang_size g < 2) (Gang_small (gang_size g)),
          guard (ts_max_attempts t > 1) Gang_retries,
          guard (ts_repeat t \<noteq> None \<or> is_approval t \<or> ts_template t \<noteq> None) Gang_combined,
          guard (is_workflow t \<or> is_wait t) Gang_trigger,
          guard (ds_result_from spec = Some (ts_name t)) Gang_result])
      (ts_gang t)"

definition repeat_refusal :: "task_spec \<Rightarrow> repeat_error option" where
  "repeat_refusal t =
     guard_opt
      (\<lambda>r. first_err
         [guard (trim (re_until r) = []) Repeat_until_empty,
          guard (re_max_iterations r = 0) Repeat_zero,
          guard (re_delay_secs r > max_repeat_delay_secs) (Repeat_delay (re_delay_secs r)),
          guard (ts_task_type t \<notin> {None, Some ''task'', Some ''workflow''}) Repeat_type])
      (ts_repeat t)"

definition defer_http_refusal :: "defer_http_spec \<Rightarrow> defer_error option" where
  "defer_http_refusal h =
     first_err
      [guard (trim (dh_url h) = []) Defer_url_empty,
       guard (\<not> http_url (trim (dh_url h))) Defer_url_bad,
       guard_all (\<lambda>v. guard (trim (ev_name v) = []) Defer_header_name) (dh_headers h),
       guard_opt
         (\<lambda>c. first_err
            [guard (\<not> http_url (trim (dhc_url c))) Defer_cancel_url,
             guard (cancel_method c \<notin> set cancel_methods) (Defer_cancel_method (cancel_method c))])
         (dh_cancel h),
       map_option (Defer_predicate ''succeed_when'') (left_err (predicate_parse (dh_succeed_when h))),
       guard_opt (\<lambda>f. map_option (Defer_predicate ''fail_when'') (left_err (predicate_parse f))) (dh_fail_when h),
       guard_opt (\<lambda>e. map_option (Defer_predicate ''error_from'') (left_err (path_parse e))) (dh_error_from h)]"

definition defer_refusal :: "dag_env \<Rightarrow> task_spec \<Rightarrow> defer_error option" where
  "defer_refusal env t =
     guard_opt
      (\<lambda>d. first_err
         [guard (trim (def_kind d) = []) Defer_kind_empty,
          guard (def_poll_secs d = 0) Defer_poll_zero,
          guard (def_poll_secs d > max_repeat_delay_secs) (Defer_poll_large (def_poll_secs d)),
          guard_opt (\<lambda>m. guard (m < def_poll_secs d) (Defer_max_wait m)) (def_max_wait_secs d),
          guard (ts_repeat t \<noteq> None) Defer_repeat,
          guard (ts_task_type t \<notin> {None, Some ''task''}) Defer_type,
          guard (ts_gang t \<noteq> None) Defer_gang,
          guard_opt defer_http_refusal (def_http d),
          guard (\<not> env_enterprise env \<and> def_connection d \<noteq> None) Defer_connection])
      (ts_defer t)"

definition task_error_of :: "dag_env \<Rightarrow> dag_spec \<Rightarrow> task_spec \<Rightarrow> task_error option" where
  "task_error_of env spec t =
     first_err
      [map_option Shape_error (retry_refusal t),
       map_option Shape_error (shape_refusal t),
       map_option Approval_error (approval_refusal t),
       map_option Trigger_error (workflow_refusal t),
       map_option Trigger_error (wait_refusal env t),
       map_option Command_error (grants_refusal t),
       map_option Command_error (beside_refusal t),
       map_option Command_error (inputs_refusal t),
       map_option Placement_error (placement_refusal t),
       map_option Gang_error (gang_refusal spec t),
       map_option Repeat_error (repeat_refusal t),
       map_option Defer_error (defer_refusal env t),
       guard (ts_arguments t \<noteq> [] \<and> \<not> is_workflow t) Arguments_no_callee,
       (case ts_template t of None \<Rightarrow> None | Some p \<Rightarrow> Some (Template_left p)),
       guard (ts_command t = [] \<and> \<not> is_approval t \<and> \<not> is_workflow t \<and> \<not> is_wait t) No_command]"

subsection \<open>The graph\<close>

text \<open>The loop over the tasks: \<open>seen\<close> is \<open>node_index\<close>, whose keys are the names so far.\<close>

fun check_tasks :: "dag_env \<Rightarrow> dag_spec \<Rightarrow> string list \<Rightarrow> task_spec list \<Rightarrow> dag_error option" where
  "check_tasks env spec seen [] = None"
| "check_tasks env spec seen (t # ts) =
     (if ts_name t \<in> set seen then Some (Duplicate_task (ts_name t))
      else case task_error_of env spec t of
        Some e \<Rightarrow> Some (Task_error (ts_name t) e)
      | None \<Rightarrow> check_tasks env spec (ts_name t # seen) ts)"

definition dedup_depends_on :: "dag_spec \<Rightarrow> dag_spec" where
  "dedup_depends_on spec =
     spec\<lparr>ds_tasks := map (\<lambda>t. t\<lparr>ts_depends_on := rev (remdups (rev (ts_depends_on t)))\<rparr>) (ds_tasks spec)\<rparr>"

definition task_names :: "dag_spec \<Rightarrow> string list" where
  "task_names spec = map ts_name (ds_tasks spec)"

definition hook_names :: "dag_spec \<Rightarrow> string list" where
  "hook_names spec = map ts_name (filter (\<lambda>t. ts_hook t \<noteq> None) (ds_tasks spec))"

definition dep_refusal :: "dag_spec \<Rightarrow> task_spec \<Rightarrow> dag_error option" where
  "dep_refusal spec t =
     guard_all
      (\<lambda>dep. first_err
         [guard (dep \<notin> set (task_names spec)) (Unknown_dependency (ts_name t) dep),
          guard (dep \<in> set (hook_names spec)) (Depends_on_hook (ts_name t) dep)])
      (ts_depends_on t)"

definition graph_edges :: "dag_spec \<Rightarrow> (string \<times> string) list" where
  "graph_edges spec = concat (map (\<lambda>t. map (\<lambda>dep. (dep, ts_name t)) (ts_depends_on t)) (ds_tasks spec))"

definition when_refusal :: "task_spec \<Rightarrow> dag_error option" where
  "when_refusal t =
     guard_opt
      (\<lambda>cond. guard_all (\<lambda>r. guard (r \<notin> set (ts_depends_on t)) (When_no_dep (ts_name t) r)) (when_output_refs cond))
      (ts_when t)"

definition fanout_producer_rows :: "string \<Rightarrow> string list \<Rightarrow> string list" where
  "fanout_producer_rows producer depends_on =
     (if producer \<in> set depends_on then [producer]
      else filter (\<lambda>d. starts_with d (producer @ ''.'')) depends_on)"

definition fanout_refusal :: "dag_spec \<Rightarrow> task_spec \<Rightarrow> dag_error option" where
  "fanout_refusal spec t =
     guard_opt
      (\<lambda>producer.
         if fanout_producer_rows producer (ts_depends_on t) = [] then
           (if \<not> (producer \<in> set (task_names spec) \<or> list_ex (\<lambda>k. starts_with k (producer @ ''.'')) (task_names spec))
            then Some (Fan_out_unknown (ts_name t) producer)
            else Some (Fan_out_no_dep (ts_name t) producer))
         else guard (producer = ts_name t) (Fan_out_self (ts_name t)))
      (ts_with_output_of t)"

definition result_refusal :: "dag_spec \<Rightarrow> dag_error option" where
  "result_refusal spec =
     guard_opt
      (\<lambda>rf. first_err
         [guard (rf \<notin> set (task_names spec)) (Result_unknown rf),
          guard (rf \<in> set (hook_names spec)) (Result_hook rf)])
      (ds_result_from spec)"

record dag_graph =
  dg_spec :: dag_spec
  dg_parameters :: "string btree"
  dg_nodes :: "string list"
  dg_edges :: "(string \<times> string) list"

definition spec_refusal :: "dag_env \<Rightarrow> dag_spec \<Rightarrow> dag_error option" where
  "spec_refusal env spec =
     first_err
      [map_option Run_error (run_refusal spec),
       guard_opt (\<lambda>b. map_option Budget_error (budget_refusal env spec b)) (ds_budget spec),
       map_option Label_error (labels_refusal spec),
       check_tasks env spec [] (ds_tasks spec),
       guard_all (dep_refusal spec) (ds_tasks spec),
       guard (env_is_cyclic env (task_names spec) (graph_edges spec)) Cycle,
       guard_all when_refusal (ds_tasks spec),
       guard_all (fanout_refusal spec) (ds_tasks spec),
       result_refusal spec]"

definition from_spec :: "dag_env \<Rightarrow> dag_spec \<Rightarrow> dag_error + dag_graph" where
  "from_spec env spec0 =
     (let spec = dedup_depends_on spec0
      in case spec_refusal env spec of
           Some e \<Rightarrow> Inl e
         | None \<Rightarrow> Inr \<lparr>dg_spec = spec, dg_parameters = [], dg_nodes = task_names spec, dg_edges = graph_edges spec\<rparr>)"

text \<open>\<open>dep_count\<close>: the edges into a node. The code indexes the map of nodes with the name, and
  panics on one that is not there.\<close>

definition dep_count :: "dag_graph \<Rightarrow> string \<Rightarrow> nat option" where
  "dep_count g name =
     (if name \<in> set (dg_nodes g) then Some (length (filter (\<lambda>e. snd e = name) (dg_edges g))) else None)"

definition task_spec_of :: "dag_graph \<Rightarrow> string \<Rightarrow> task_spec option" where
  "task_spec_of g name = List.find (\<lambda>t. ts_name t = name) (ds_tasks (dg_spec g))"

definition task_row_count :: "dag_graph \<Rightarrow> nat" where
  "task_row_count g = sum_list (map member_count (ds_tasks (dg_spec g)))"

end
