(* ===== verification/Dag_Props.thy ===== *)
theory Dag_Props
  imports Dag_Graph
begin

text \<open>
  What an accepted workflow is: names and dependencies that exist, no cycle, tasks whose blocks
  fit together; and that a refusal for one of these reasons is right.
\<close>

subsection \<open>A well-formed workflow\<close>

definition task_ok :: "dag_spec \<Rightarrow> task_spec \<Rightarrow> bool" where
  "task_ok spec t =
     (distinct (ts_depends_on t)
      \<and> list_all (\<lambda>d. d \<in> set (task_names spec) \<and> d \<notin> set (hook_names spec)) (ts_depends_on t)
      \<and> 1 \<le> ts_max_attempts t
      \<and> (case ts_task_type t of None \<Rightarrow> True | Some k \<Rightarrow> k \<in> set task_kinds)
      \<and> (case ts_trigger_rule t of None \<Rightarrow> True | Some r \<Rightarrow> r \<in> set trigger_rules)
      \<and> (ts_command t = [] \<longrightarrow> no_command_kind t)
      \<and> (is_workflow t \<or> is_wait t \<longrightarrow> ts_command t = [] \<and> ts_hook t = None)
      \<and> ts_template t = None
      \<and> (case ts_gang t of None \<Rightarrow> True
          | Some g \<Rightarrow> 2 \<le> gang_size g \<and> ts_max_attempts t = 1 \<and> ts_repeat t = None \<and> ts_defer t = None \<and> \<not> no_command_kind t)
      \<and> (case ts_when t of None \<Rightarrow> True | Some c \<Rightarrow> list_all (\<lambda>r. r \<in> set (ts_depends_on t)) (when_output_refs c))
      \<and> (case ts_with_output_of t of None \<Rightarrow> True | Some p \<Rightarrow> fanout_producer_rows p (ts_depends_on t) \<noteq> [] \<and> p \<noteq> ts_name t)
      \<and> services_ok (ts_services t @ (if ts_docker_daemon t then [daemon_service daemon_default_image] else []))
      \<and> (case ts_workspace t of None \<Rightarrow> True | Some ws \<Rightarrow> workspace_ok ws)
      \<and> (case ts_isolation t of None \<Rightarrow> True | Some i \<Rightarrow> validate_isolation i = None))"

definition spec_ok :: "dag_spec \<Rightarrow> bool" where
  "spec_ok spec =
     (distinct (task_names spec)
      \<and> acyclic (set (graph_edges spec))
      \<and> list_all (task_ok spec) (ds_tasks spec)
      \<and> (case ds_result_from spec of None \<Rightarrow> True
          | Some r \<Rightarrow> list_ex (\<lambda>t. ts_name t = r \<and> ts_hook t = None \<and> ts_gang t = None) (ds_tasks spec))
      \<and> (case Option.bind (ds_budget spec) rb_tasks of None \<Rightarrow> True
          | Some m \<Rightarrow> sum_list (map member_count (ds_tasks spec)) \<le> m))"

text \<open>What petgraph documents of \<open>is_cyclic_directed\<close>.\<close>

definition finds_cycles :: "dag_env \<Rightarrow> bool" where
  "finds_cycles env = (\<forall>nodes edges. env_is_cyclic env nodes edges \<longleftrightarrow> \<not> acyclic (set edges))"

subsection \<open>What each block leaves\<close>

lemma check_tasks_None:
  "check_tasks env spec seen ts = None \<longleftrightarrow>
     (\<forall>t \<in> set ts. task_error_of env spec t = None \<and> ts_name t \<notin> set seen) \<and> distinct (map ts_name ts)"
proof (induction ts arbitrary: seen)
  case (Cons t ts)
  show ?case
  proof (cases "task_error_of env spec t")
    case None
    with Cons.IH [of "ts_name t # seen"] show ?thesis by (auto simp: image_iff)
  qed simp
qed simp

lemma spec_refusal_None:
  assumes "spec_refusal env spec = None"
  shows "run_refusal spec = None" "guard_opt (budget_refusal env spec) (ds_budget spec) = None" "labels_refusal spec = None"
    "check_tasks env spec [] (ds_tasks spec) = None" "\<forall>t \<in> set (ds_tasks spec). dep_refusal spec t = None"
    "\<not> env_is_cyclic env (task_names spec) (graph_edges spec)"
    "\<forall>t \<in> set (ds_tasks spec). when_refusal t = None" "\<forall>t \<in> set (ds_tasks spec). fanout_refusal spec t = None"
    "result_refusal spec = None"
  using assms by (simp_all add: spec_refusal_def guard_simps)

lemma task_error_None:
  assumes "task_error_of env spec t = None"
  shows "retry_refusal t = None" "shape_refusal t = None" "approval_refusal t = None" "workflow_refusal t = None"
    "wait_refusal env t = None" "grants_refusal t = None" "beside_refusal t = None" "inputs_refusal t = None"
    "placement_refusal t = None" "gang_refusal spec t = None" "repeat_refusal t = None" "defer_refusal env t = None"
    "ts_template t = None" "ts_command t = [] \<Longrightarrow> no_command_kind t"
  using assms by (simp_all add: task_error_of_def guard_simps no_command_kind_def split: option.splits)

lemma kinds_exclusive: "is_approval t \<Longrightarrow> \<not> is_workflow t \<and> \<not> is_wait t" "is_workflow t \<Longrightarrow> \<not> is_wait t"
  by (simp_all add: is_approval_def is_workflow_def is_wait_def)

lemma shape_ok:
  assumes "task_error_of env spec t = None"
  shows "1 \<le> ts_max_attempts t"
    "case ts_task_type t of None \<Rightarrow> True | Some k \<Rightarrow> k \<in> set task_kinds"
    "case ts_trigger_rule t of None \<Rightarrow> True | Some r \<Rightarrow> r \<in> set trigger_rules"
    "is_workflow t \<or> is_wait t \<Longrightarrow> ts_command t = [] \<and> ts_hook t = None"
proof -
  note b = task_error_None [OF assms]
  show "1 \<le> ts_max_attempts t" using b(1) by (simp add: retry_refusal_def guard_simps)
  show "case ts_task_type t of None \<Rightarrow> True | Some k \<Rightarrow> k \<in> set task_kinds"
    using b(2) by (simp add: shape_refusal_def guard_simps split: option.split)
  show "case ts_trigger_rule t of None \<Rightarrow> True | Some r \<Rightarrow> r \<in> set trigger_rules"
    using b(2) by (simp add: shape_refusal_def guard_simps split: option.split)
  show "is_workflow t \<or> is_wait t \<Longrightarrow> ts_command t = [] \<and> ts_hook t = None"
    using b(4,5) by (auto simp: workflow_refusal_def wait_refusal_def guard_simps split: if_splits)
qed

lemma gang_ok:
  assumes "task_error_of env spec t = None" "ts_gang t = Some g"
  shows "2 \<le> gang_size g \<and> ts_max_attempts t = 1 \<and> ts_repeat t = None \<and> ts_defer t = None \<and> \<not> no_command_kind t"
    and "ds_result_from spec \<noteq> Some (ts_name t)"
proof -
  note b = task_error_None [OF assms(1)]
  have "ts_defer t = None" using b(12) assms(2) by (cases "ts_defer t") (simp_all add: defer_refusal_def guard_simps)
  moreover have "1 \<le> ts_max_attempts t" by (rule shape_ok(1) [OF assms(1)])
  ultimately show "2 \<le> gang_size g \<and> ts_max_attempts t = 1 \<and> ts_repeat t = None \<and> ts_defer t = None \<and> \<not> no_command_kind t"
    using b(10) assms(2) by (simp add: gang_refusal_def guard_simps no_command_kind_def)
  show "ds_result_from spec \<noteq> Some (ts_name t)" using b(10) assms(2) by (simp add: gang_refusal_def guard_simps)
qed

lemma daemon_service_ok: "services_ok [daemon_service daemon_default_image]"
  by code_simp

lemma beside_ok:
  assumes "task_error_of env spec t = None"
  shows "services_ok (ts_services t @ (if ts_docker_daemon t then [daemon_service daemon_default_image] else []))"
proof -
  note b = task_error_None(7) [OF assms]
  have s: "services_ok (ts_services t)"
  proof (cases "ts_services t = []")
    case False
    with b show ?thesis by (intro validate_services_ok) (simp add: beside_refusal_def guard_simps split: if_splits)
  qed (simp add: services_ok_def)
  show ?thesis
  proof (cases "ts_docker_daemon t")
    case True
    with b have "daemon_name \<notin> sv_name ` set (ts_services t)" "length (ts_services t) < 8"
      by (auto simp: beside_refusal_def guard_simps list_ex_iff max_services_def split: if_splits)
    moreover have "sv_name (daemon_service daemon_default_image) = daemon_name" by (simp add: daemon_service_def)
    ultimately show ?thesis using True s daemon_service_ok by (simp add: services_ok_def)
  qed (use s in simp)
qed

lemma deps_ok:
  assumes "dep_refusal spec t = None"
  shows "list_all (\<lambda>d. d \<in> set (task_names spec) \<and> d \<notin> set (hook_names spec)) (ts_depends_on t)"
  using assms by (auto simp: dep_refusal_def guard_simps list_all_iff)

lemma when_ok:
  "when_refusal t = None \<Longrightarrow> case ts_when t of None \<Rightarrow> True | Some c \<Rightarrow> list_all (\<lambda>r. r \<in> set (ts_depends_on t)) (when_output_refs c)"
  by (auto simp: when_refusal_def guard_simps list_all_iff split: option.split)

lemma fanout_ok:
  "fanout_refusal spec t = None \<Longrightarrow>
     case ts_with_output_of t of None \<Rightarrow> True | Some p \<Rightarrow> fanout_producer_rows p (ts_depends_on t) \<noteq> [] \<and> p \<noteq> ts_name t"
  by (cases "ts_with_output_of t") (simp_all add: fanout_refusal_def split: if_splits)

lemma placed_ok:
  assumes "task_error_of env spec t = None"
  shows "case ts_workspace t of None \<Rightarrow> True | Some ws \<Rightarrow> workspace_ok ws"
    "case ts_isolation t of None \<Rightarrow> True | Some i \<Rightarrow> validate_isolation i = None"
proof -
  note b = task_error_None [OF assms]
  show "case ts_workspace t of None \<Rightarrow> True | Some ws \<Rightarrow> workspace_ok ws"
    using b(6) by (cases "ts_workspace t") (simp_all add: grants_refusal_def guard_simps validate_workspace_ok)
  show "case ts_isolation t of None \<Rightarrow> True | Some i \<Rightarrow> validate_isolation i = None"
    using b(9) by (cases "ts_isolation t") (simp_all add: placement_refusal_def guard_simps)
qed

lemma accepted_task_ok:
  assumes "spec_refusal env spec = None" "t \<in> set (ds_tasks spec)" "distinct (ts_depends_on t)"
  shows "task_ok spec t"
proof -
  note r = spec_refusal_None [OF assms(1)]
  have e: "task_error_of env spec t = None" using r(4) assms(2) by (simp add: check_tasks_None)
  have g: "case ts_gang t of None \<Rightarrow> True
      | Some g \<Rightarrow> 2 \<le> gang_size g \<and> ts_max_attempts t = 1 \<and> ts_repeat t = None \<and> ts_defer t = None \<and> \<not> no_command_kind t"
    using gang_ok(1) [OF e] by (cases "ts_gang t") simp_all
  show ?thesis unfolding task_ok_def
    using assms(3) deps_ok shape_ok [OF e] task_error_None(13,14) [OF e] g when_ok fanout_ok beside_ok [OF e] placed_ok [OF e] r(5,7,8) assms(2)
    by (intro conjI) blast+
qed

subsection \<open>Counting the edges of a node\<close>

lemma edges_into:
  assumes "distinct (map ts_name ts)" "t \<in> set ts"
  shows "length (filter (\<lambda>e. snd e = ts_name t) (concat (map (\<lambda>u. map (\<lambda>d. (d, ts_name u)) (ts_depends_on u)) ts)))
     = length (ts_depends_on t)"
  using assms
proof (induction ts)
  case (Cons u us)
  have none: "filter (\<lambda>e. snd e = ts_name t) (concat (map (\<lambda>u. map (\<lambda>d. (d, ts_name u)) (ts_depends_on u)) us)) = []"
    if "t = u" using Cons.prems(1) that by (auto simp: filter_empty_conv image_iff)
  show ?case
  proof (cases "t = u")
    case True
    then have "filter (\<lambda>e. snd e = ts_name t) (map (\<lambda>d. (d, ts_name u)) (ts_depends_on u)) = map (\<lambda>d. (d, ts_name u)) (ts_depends_on u)"
      by (simp add: filter_map o_def)
    with none True show ?thesis by simp
  next
    case False
    with Cons.prems have "t \<in> set us" "ts_name u \<noteq> ts_name t" by (auto simp: image_iff)
    with Cons show ?thesis by (simp add: filter_map o_def)
  qed
qed simp

lemma dedup_names: "task_names (dedup_depends_on spec) = task_names spec"
  by (simp add: task_names_def dedup_depends_on_def o_def)

lemma dedup_distinct: "t \<in> set (ds_tasks (dedup_depends_on spec)) \<Longrightarrow> distinct (ts_depends_on t)"
  by (auto simp: dedup_depends_on_def)

lemma from_spec_accepted:
  assumes "from_spec env spec = Inr g"
  shows "dg_spec g = dedup_depends_on spec" "spec_refusal env (dg_spec g) = None"
    "dg_nodes g = task_names (dg_spec g)" "dg_edges g = graph_edges (dg_spec g)"
  using assms by (auto simp: from_spec_def Let_def split: option.splits)

lemma accepted_result_ok:
  assumes "spec_refusal env spec = None"
  shows "case ds_result_from spec of None \<Rightarrow> True
     | Some r \<Rightarrow> list_ex (\<lambda>t. ts_name t = r \<and> ts_hook t = None \<and> ts_gang t = None) (ds_tasks spec)"
proof (cases "ds_result_from spec")
  case (Some r)
  note n = spec_refusal_None [OF assms]
  from n(9) Some obtain t where t: "t \<in> set (ds_tasks spec)" "ts_name t = r" "r \<notin> set (hook_names spec)"
    by (auto simp: result_refusal_def guard_simps task_names_def)
  then have "ts_hook t = None" by (auto simp: hook_names_def)
  moreover have "task_error_of env spec t = None" using n(4) t(1) by (simp add: check_tasks_None)
  then have "ts_gang t = None" using gang_ok(2) [of env spec t] Some t(2) by (cases "ts_gang t") auto
  ultimately show ?thesis using Some t by (auto simp: list_ex_iff)
qed simp

lemma accepted_spec_ok:
  assumes "finds_cycles env" "from_spec env spec = Inr g"
  shows "spec_ok (dg_spec g)"
proof -
  note f = from_spec_accepted [OF assms(2)] and n = spec_refusal_None [OF from_spec_accepted(2) [OF assms(2)]]
  have "distinct (task_names (dg_spec g))" using n(4) by (simp add: check_tasks_None task_names_def)
  moreover have "acyclic (set (graph_edges (dg_spec g)))" using n(6) assms(1) by (simp add: finds_cycles_def)
  moreover have "list_all (task_ok (dg_spec g)) (ds_tasks (dg_spec g))"
    using accepted_task_ok [OF f(2)] dedup_distinct f(1) by (auto simp: list_all_iff)
  moreover have "case Option.bind (ds_budget (dg_spec g)) rb_tasks of None \<Rightarrow> True
      | Some m \<Rightarrow> sum_list (map member_count (ds_tasks (dg_spec g))) \<le> m"
    using n(2) by (auto simp: budget_refusal_def task_budget_refusal_def guard_simps Let_def split: option.splits bind_splits)
  ultimately show ?thesis using accepted_result_ok [OF f(2)] by (simp add: spec_ok_def)
qed

subsection \<open>Example workflows\<close>

definition plain_task :: "string \<Rightarrow> string list \<Rightarrow> task_spec" where
  "plain_task name deps =
     \<lparr>ts_name = name, ts_command = [''true''], ts_depends_on = deps, ts_input = None, ts_template = None, ts_arguments = [],
      ts_with_items = None, ts_with_param = None, ts_with_output_of = None, ts_when = None, ts_instance_key = None,
      ts_trigger_rule = None, ts_hook = None, ts_allow_failure = False, ts_task_type = None, ts_workflow = None,
      ts_wait = None, ts_approval_timeout_secs = None, ts_approval_on_timeout = None, ts_approval_message = None,
      ts_approval_show = [], ts_binds = [], ts_approvers = [], ts_not_triggerer = False, ts_max_attempts = 1,
      ts_retry_delay_secs = 0, ts_retry_max_delay_secs = None, ts_retry_on_timeout = None, ts_retry_budgets = [],
      ts_timeout_secs = None, ts_docker_image = None, ts_image_pull_policy = None, ts_env = [], ts_environment = None,
      ts_resources = None, ts_service_account = None, ts_runner_class = None, ts_priority = 0, ts_pool = None,
      ts_cache = None, ts_repeat = None, ts_defer = None, ts_produces = [], ts_gang = None, ts_gang_member = None,
      ts_isolation = None, ts_workspace = None, ts_services = [], ts_env_from = [], ts_identity = None,
      ts_forge_token = None, ts_docker_daemon = False, ts_privileged = False, ts_tokens = None, ts_artifact_api = False\<rparr>"

definition plain_dag :: "task_spec list \<Rightarrow> dag_spec" where
  "plain_dag tasks =
     \<lparr>ds_name = ''example'', ds_parameters = [], ds_param_schema = [], ds_concurrency_key = None, ds_templates = [],
      ds_uses = [], ds_tags = [], ds_run_timeout_secs = None, ds_max_active_runs = None, ds_when_full = None,
      ds_budget = None, ds_deadline = None, ds_notify = None, ds_result_from = None, ds_runner_class = None,
      ds_environment = None, ds_task_defaults = None, ds_on_datasets = [], ds_datasets_mode = None, ds_tasks = tasks\<rparr>"

definition plain_env :: dag_env where
  "plain_env =
     \<lparr>env_rfc3339 = (\<lambda>_. True), env_regex_compiles = (\<lambda>_. True), env_regex_matches = (\<lambda>_ _. True),
      env_is_cyclic = (\<lambda>_ es. \<not> acyclic (set es)), env_enterprise = False\<rparr>"

definition diamond :: dag_spec where
  "diamond = plain_dag
     [plain_task ''a'' [], (plain_task ''b'' [''a'', ''a''])\<lparr>ts_gang := Some \<lparr>gang_size = 2\<rparr>\<rparr>, plain_task ''c'' [''a''],
      (plain_task ''d'' [''b'', ''c''])\<lparr>ts_trigger_rule := Some ''all_done''\<rparr>]"

lemma plain_env_finds_cycles: "finds_cycles plain_env"
  by (simp add: finds_cycles_def plain_env_def)

lemma diamond_accepted: "list_all (\<lambda>r. case r of Inl e \<Rightarrow> False | Inr g \<Rightarrow> dg_nodes g = [''a'', ''b'', ''c'', ''d'']) [from_spec plain_env diamond]"
  by code_simp



subsection \<open>Refusals\<close>

text \<open>What a complaint says of the workflow.\<close>

fun real_complaint :: "dag_env \<Rightarrow> dag_spec \<Rightarrow> dag_error \<Rightarrow> bool" where
  "real_complaint env spec (Run_error e) = (run_refusal spec = Some e)"
| "real_complaint env spec (Budget_error e) = (\<exists>b. ds_budget spec = Some b \<and> budget_refusal env spec b = Some e)"
| "real_complaint env spec (Label_error e) = (labels_refusal spec = Some e)"
| "real_complaint env spec (Duplicate_task n) = (\<not> distinct (task_names spec) \<and> n \<in> set (task_names spec))"
| "real_complaint env spec (Task_error n e) = (\<exists>t \<in> set (ds_tasks spec). ts_name t = n \<and> task_error_of env spec t = Some e)"
| "real_complaint env spec (Unknown_dependency n d) =
     (\<exists>t \<in> set (ds_tasks spec). ts_name t = n \<and> d \<in> set (ts_depends_on t) \<and> d \<notin> set (task_names spec))"
| "real_complaint env spec (Depends_on_hook n d) =
     (\<exists>t \<in> set (ds_tasks spec). ts_name t = n \<and> d \<in> set (ts_depends_on t) \<and> (\<exists>h \<in> set (ds_tasks spec). ts_name h = d \<and> ts_hook h \<noteq> None))"
| "real_complaint env spec Cycle = (\<not> acyclic (set (graph_edges spec)))"
| "real_complaint env spec (When_no_dep n r) =
     (\<exists>t \<in> set (ds_tasks spec). ts_name t = n \<and> r \<notin> set (ts_depends_on t)
        \<and> (\<exists>c. ts_when t = Some c \<and> r \<in> set (when_output_refs c)))"
| "real_complaint env spec (Fan_out_unknown n p) =
     (p \<notin> set (task_names spec) \<and> (\<exists>t \<in> set (ds_tasks spec). ts_name t = n \<and> ts_with_output_of t = Some p))"
| "real_complaint env spec (Fan_out_no_dep n p) =
     (\<exists>t \<in> set (ds_tasks spec). ts_name t = n \<and> ts_with_output_of t = Some p \<and> p \<notin> set (ts_depends_on t))"
| "real_complaint env spec (Fan_out_self n) = (\<exists>t \<in> set (ds_tasks spec). ts_name t = n \<and> ts_with_output_of t = Some n)"
| "real_complaint env spec (Result_unknown r) = (ds_result_from spec = Some r \<and> r \<notin> set (task_names spec))"
| "real_complaint env spec (Result_hook r) =
     (ds_result_from spec = Some r \<and> (\<exists>h \<in> set (ds_tasks spec). ts_name h = r \<and> ts_hook h \<noteq> None))"

lemma guard_all_Some: "guard_all f xs = Some e \<Longrightarrow> \<exists>x \<in> set xs. f x = Some e"
  by (induction xs) (auto split: option.splits)

lemma guard_opt_Some: "guard_opt f v = Some e \<Longrightarrow> \<exists>x. v = Some x \<and> f x = Some e"
  by (cases v) auto

lemma check_tasks_real:
  assumes "check_tasks env spec seen ts = Some e" "ds_tasks spec = us @ ts" "set seen = ts_name ` set us"
  shows "real_complaint env spec e"
  using assms
proof (induction ts arbitrary: seen us)
  case (Cons t ts)
  show ?case
  proof (cases "ts_name t \<in> set seen")
    case True
    with Cons.prems show ?thesis by (auto simp: task_names_def)
  next
    case False
    show ?thesis
    proof (cases "task_error_of env spec t")
      case None
      with False Cons.prems Cons.IH [of "ts_name t # seen" "us @ [t]"] show ?thesis by simp
    next
      case (Some x)
      with False Cons.prems show ?thesis by auto
    qed
  qed
qed simp

lemma fanout_real: "fanout_refusal spec t = Some e \<Longrightarrow> t \<in> set (ds_tasks spec) \<Longrightarrow> real_complaint env spec e"
  by (cases "ts_with_output_of t") (auto simp: fanout_refusal_def fanout_producer_rows_def guard_Some split: if_splits)

lemma dep_real:
  assumes "dep_refusal spec t = Some e" "t \<in> set (ds_tasks spec)"
  shows "real_complaint env spec e"
proof -
  from guard_all_Some [OF assms(1) [unfolded dep_refusal_def]] obtain d where
    "d \<in> set (ts_depends_on t)"
    "first_err [guard (d \<notin> set (task_names spec)) (Unknown_dependency (ts_name t) d),
                guard (d \<in> set (hook_names spec)) (Depends_on_hook (ts_name t) d)] = Some e" by blast
  with assms(2) show ?thesis
    by (auto simp: first_err_Cons guard_Some hook_names_def split: option.splits)
qed

lemma when_real: "when_refusal t = Some e \<Longrightarrow> t \<in> set (ds_tasks spec) \<Longrightarrow> real_complaint env spec e"
  unfolding when_refusal_def by (drule guard_opt_Some) (fastforce simp: guard_Some dest!: guard_all_Some)

lemma result_real: "result_refusal spec = Some e \<Longrightarrow> real_complaint env spec e"
  unfolding result_refusal_def
  by (drule guard_opt_Some) (fastforce simp: first_err_Cons guard_Some hook_names_def split: option.splits)

text \<open>A workflow is refused for a fault it has: the first complaint names a task of the workflow
  (or the workflow itself) for which it is true, a cycle is reported only where there is one,
  and an unknown dependency, a dependency on a hook, a repeated name or an unread output only
  where the specification has it.
\<close>

theorem refusal_is_real:
  assumes "finds_cycles env" "from_spec env spec = Inl e"
  shows "real_complaint env (dedup_depends_on spec) e"
proof -
  let ?s = "dedup_depends_on spec"
  from assms(2) have s: "spec_refusal env ?s = Some e" by (auto simp: from_spec_def Let_def split: option.splits)
  then consider (run) "map_option Run_error (run_refusal ?s) = Some e"
    | (budget) "guard_opt (\<lambda>b. map_option Budget_error (budget_refusal env ?s b)) (ds_budget ?s) = Some e"
    | (label) "map_option Label_error (labels_refusal ?s) = Some e"
    | (tasks) "check_tasks env ?s [] (ds_tasks ?s) = Some e"
    | (deps) "guard_all (dep_refusal ?s) (ds_tasks ?s) = Some e"
    | (cycle) "env_is_cyclic env (task_names ?s) (graph_edges ?s)" "e = Cycle"
    | (cond) "guard_all when_refusal (ds_tasks ?s) = Some e"
    | (fan) "guard_all (fanout_refusal ?s) (ds_tasks ?s) = Some e"
    | (result) "result_refusal ?s = Some e"
    unfolding spec_refusal_def by (auto simp: first_err_Cons guard_Some split: option.splits)
  then show ?thesis
  proof cases
    case budget
    then show ?thesis by (auto dest!: guard_opt_Some)
  next
    case tasks
    then show ?thesis by (rule check_tasks_real) auto
  next
    case deps
    then show ?thesis by (auto dest!: guard_all_Some intro: dep_real)
  next
    case cycle
    with assms(1) show ?thesis by (simp add: finds_cycles_def)
  next
    case cond
    then show ?thesis by (auto dest!: guard_all_Some intro: when_real)
  next
    case fan
    then show ?thesis by (auto dest!: guard_all_Some intro: fanout_real)
  qed (auto intro: result_real)
qed

definition two_in_a_circle :: dag_spec where
  "two_in_a_circle = plain_dag [plain_task ''a'' [''b''], plain_task ''b'' [''a'']]"

lemma circle_refused: "from_spec plain_env two_in_a_circle = Inl Cycle"
proof -
  have "spec_refusal plain_env (dedup_depends_on two_in_a_circle) = Some Cycle" by code_simp
  then show ?thesis by (simp add: from_spec_def)
qed

theorem refusal_is_real_witness: "\<not> acyclic (set (graph_edges (dedup_depends_on two_in_a_circle)))"
  using refusal_is_real [OF plain_env_finds_cycles circle_refused] by simp

end
