(* ===== verification/Create_Run.thy ===== *)
theory Create_Run
  imports Dag_Props Liveness
begin

text \<open>
  A run is made (\<open>create_run_full\<close> of crates/dagron-core/src/db/sqlite.rs): one row of
  \<open>workflow_runs\<close>, one row of \<open>task_runs\<close> per task or per member of a gang, and one edge per
  pair of a row and a row it depends on, in one transaction. \<open>u k\<close> is the \<open>k\<close>-th UUID the
  transaction draws, \<open>to_json\<close> is \<open>serde_json::to_string\<close> of a task, and \<open>after now s\<close> is chrono's
  \<open>now + TimeDelta::seconds(s)\<close>, \<open>None\<close> where that panics. The graph is the one the checks of
  the run's trust (\<open>confine\<close>, \<open>protected\<close>) have let through.
\<close>

type_synonym uuids = "nat \<Rightarrow> string"

datatype create_error =
    Run_duplicate_task string
  | Run_unknown_dependency string string
  | Unique_task_name
  | Unique_edge
  | Max_active_runs_reached nat int int
  | Time_overflow

subsection \<open>Whether there is room\<close>

text \<open>\<open>active\<close> and \<open>waiting\<close> are \<open>runs_in_flight\<close>, \<open>max_waiting\<close> is \<open>max_waiting_runs()\<close>. The
  answer is whether the new run waits.\<close>

definition room_for :: "dag_spec \<Rightarrow> int \<Rightarrow> int \<Rightarrow> int \<Rightarrow> create_error + bool" where
  "room_for spec active waiting max_waiting =
     (case ds_max_active_runs spec of
        None \<Rightarrow> Inr False
      | Some m \<Rightarrow>
          if m > 0 then
            (let wf = (case ds_when_full spec of None \<Rightarrow> Refuse | Some w \<Rightarrow> w)
             in if active \<ge> int m then
                  if \<not> when_full_waits wf \<or> waiting \<ge> max_waiting
                  then Inl (Max_active_runs_reached m active (if when_full_waits wf then waiting else 0))
                  else Inr True
                else Inr False)
          else Inr False)"

subsection \<open>The rows\<close>

definition as_i64 :: "nat \<Rightarrow> int" where
  "as_i64 n = (if n < 2 ^ 63 then int n else int n - 2 ^ 64)"

text \<open>The rows a task depends on: one per dependency, or one per member where it is a gang.\<close>

definition dep_rows_planned :: "dag_graph \<Rightarrow> task_spec \<Rightarrow> nat" where
  "dep_rows_planned g t =
     sum_list (map (\<lambda>d. case Option.bind (task_spec_of g d) ts_gang of None \<Rightarrow> 1 | Some k \<Rightarrow> gang_size k) (ts_depends_on t))"

text \<open>The loop over the tasks: the gang's id where there is one, then an id per row.\<close>

fun assign :: "uuids \<Rightarrow> nat \<Rightarrow> task_spec list \<Rightarrow> (task_spec \<times> string option \<times> string list) list" where
  "assign u n [] = []"
| "assign u n (t # ts) =
     (let (gid, n1) = (case ts_gang t of None \<Rightarrow> (None, n) | Some _ \<Rightarrow> (Some (u n), n + 1));
          ids = map (\<lambda>i. u (n1 + i)) [0..<member_count t]
      in (t, gid, ids) # assign u (n1 + member_count t) ts)"

definition member_spec :: "string option \<Rightarrow> nat \<Rightarrow> task_spec \<Rightarrow> task_spec" where
  "member_spec gid rank t =
     (case (gid, ts_gang t) of
        (Some i, Some g) \<Rightarrow>
          t\<lparr>ts_name := ts_name t @ ''.'' @ digits_of rank,
            ts_gang_member := Some \<lparr>gm_id = i, gm_rank = rank, gm_size = gang_size g\<rparr>\<rparr>
      | _ \<Rightarrow> t)"

definition task_row_of ::
  "(task_spec \<Rightarrow> string) \<Rightarrow> dag_graph \<Rightarrow> string \<Rightarrow> instant \<Rightarrow> int \<Rightarrow> task_spec \<Rightarrow> string option \<Rightarrow> nat \<times> string \<Rightarrow> task_row" where
  "task_row_of to_json g run_id now held t gid p =
     (case p of (rank, i) \<Rightarrow>
        \<lparr>tr_id = i,
         tr_run_id = run_id,
         tr_name = ts_name (member_spec gid rank t),
         tr_status = Pending,
         tr_attempt = 0,
         tr_remaining_deps = int (dep_rows_planned g t) + held,
         tr_input = Some (to_json (member_spec gid rank t)),
         tr_output = None,
         tr_claimed_by = None,
         tr_lease_expires_at = None,
         tr_version = 0,
         tr_scheduled_at = Some now,
         tr_finished_at = None,
         tr_trigger_rule = (case ts_trigger_rule t of Some r \<Rightarrow> r | None \<Rightarrow> default_trigger_rule),
         tr_allow_failure = ts_allow_failure t,
         tr_is_approval = is_approval t,
         tr_approval_timeout_secs = map_option as_i64 (ts_approval_timeout_secs t),
         tr_approval_on_timeout = ts_approval_on_timeout t,
         tr_runner_class = (case ts_runner_class t of Some c \<Rightarrow> c
             | None \<Rightarrow> (case ds_runner_class (dg_spec g) of Some c \<Rightarrow> c | None \<Rightarrow> default_runner_class)),
         tr_gang_id = gid,
         tr_gang_size = map_option (\<lambda>k. int (gang_size k)) (ts_gang t),
         tr_priority = ts_priority t,
         tr_pool = ts_pool t,
         tr_cache_hit = False,
         tr_wake_at = None,
         tr_wait_url = None,
         tr_wait_dataset = None,
         tr_wait_dataset_cursor = None,
         tr_next_poll_at = None,
         tr_sub_run_id = None,
         tr_fanout_of = ts_with_output_of t,
         tr_external_kind = None,
         tr_external_handle = None,
         tr_external_endpoint = None,
         tr_external_epoch = 0,
         tr_external_deadline_at = None,
         tr_external_cancel_attempts = 0,
         tr_fault_class = None,
         tr_fault_detail = None,
         tr_fault_confidence = None,
         tr_decided_by = None,
         tr_decision_comment = None,
         tr_log = None,
         tr_log_fence = None,
         tr_log_gen = None,
         tr_quota_wait_since = None,
         tr_quota_wait_version = None,
         tr_quota_waits = 0,
         tr_quota_wait_detail = None,
         tr_stop_requested_at = None,
         tr_session_id = None,
         tr_attempt_base = 0\<rparr>)"

definition rows_of :: "(task_spec \<Rightarrow> string) \<Rightarrow> dag_graph \<Rightarrow> string \<Rightarrow> instant \<Rightarrow> int \<Rightarrow>
    (task_spec \<times> string option \<times> string list) list \<Rightarrow> task_row list" where
  "rows_of to_json g run_id now held slots =
     concat (map (\<lambda>(t, gid, ids). map (task_row_of to_json g run_id now held t gid) (enumerate 0 ids)) slots)"

definition task_ids :: "(task_spec \<times> string option \<times> string list) list \<Rightarrow> (string \<times> string list) list" where
  "task_ids slots = map (\<lambda>(t, gid, ids). (ts_name t, ids)) slots"

subsection \<open>The edges\<close>

text \<open>Every row of a task depends on every row of each task it names.\<close>

fun edges_of :: "(string \<times> string list) list \<Rightarrow> task_spec list \<Rightarrow> create_error + (string \<times> string) list" where
  "edges_of ids [] = Inr []"
| "edges_of ids (t # ts) =
     (case List.find (\<lambda>d. map_of ids d = None) (ts_depends_on t) of
        Some d \<Rightarrow> Inl (Run_unknown_dependency (ts_name t) d)
      | None \<Rightarrow>
          map_ok (\<lambda>es.
             concat (map (\<lambda>d. concat (map (\<lambda>dependent. map (\<lambda>dependency. (dependent, dependency)) (the (map_of ids d)))
                                          (case map_of ids (ts_name t) of None \<Rightarrow> [] | Some xs \<Rightarrow> xs)))
                         (ts_depends_on t)) @ es)
           (edges_of ids ts))"

subsection \<open>The transaction\<close>

definition run_row_of :: "dag_graph \<Rightarrow> string \<Rightarrow> string \<Rightarrow> instant \<Rightarrow> instant option \<Rightarrow> bool \<Rightarrow>
    string \<Rightarrow> int option \<Rightarrow> string option \<Rightarrow> run_row" where
  "run_row_of g run_id def_id now deadline_at waits confidence offset source =
     \<lparr>wr_id = run_id, wr_definition_id = def_id, wr_status = RunRunning, wr_input = None, wr_output = None,
      wr_created_at = now, wr_finished_at = None, wr_clock_confidence = Some confidence,
      wr_clock_offset_ms = offset, wr_clock_source = source, wr_deadline_at = deadline_at,
      wr_result_from = ds_result_from (dg_spec g), wr_completion_pending_at = None,
      wr_start_pending_at = (if Option.bind (ds_notify (dg_spec g)) ns_git \<noteq> None then Some now else None),
      wr_stopping_as = None, wr_stop_requested_at = None,
      wr_queued_at = (if waits then Some now else None), wr_admitted_at = None\<rparr>"

record create_env =
  ce_to_json :: "task_spec \<Rightarrow> string"
  ce_uuid :: uuids
  ce_after :: "instant \<Rightarrow> nat \<Rightarrow> instant option"
  ce_confidence :: string
  ce_offset :: "int option"
  ce_source :: "string option"

definition i64_cap :: "nat \<Rightarrow> nat" where
  "i64_cap n = min n (2 ^ 63 - 1)"

text \<open>The two deadlines, computed before the transaction begins: the inner option is \<open>None\<close>
  where the workflow names none, the outer one where the addition panics.\<close>

definition run_deadline :: "create_env \<Rightarrow> dag_spec \<Rightarrow> instant \<Rightarrow> instant option option" where
  "run_deadline ce spec now =
     (case ds_run_timeout_secs spec of
        None \<Rightarrow> Some None
      | Some s \<Rightarrow> map_option Some (ce_after ce now (i64_cap s)))"

definition alert_deadline :: "create_env \<Rightarrow> dag_spec \<Rightarrow> instant \<Rightarrow> instant option option" where
  "alert_deadline ce spec now =
     (case ds_deadline spec of
        None \<Rightarrow> Some None
      | Some d \<Rightarrow> (case parse_duration_secs (dl_within d) of
            Inl _ \<Rightarrow> Some None
          | Inr s \<Rightarrow> map_option Some (ce_after ce now (i64_cap s))))"

definition create_run_rows ::
  "create_env \<Rightarrow> dag_graph \<Rightarrow> instant \<Rightarrow> instant option \<Rightarrow> bool \<Rightarrow> db \<Rightarrow> create_error + db \<times> string" where
  "create_run_rows ce g now deadline_at waits db =
     (let u = ce_uuid ce;
          run_id = u 1;
          tasks = ds_tasks (dg_spec g);
          slots = assign u 2 tasks;
          rows = rows_of (ce_to_json ce) g run_id now (if waits then 1 else 0) slots;
          run = run_row_of g run_id (u 0) now deadline_at waits (ce_confidence ce) (ce_offset ce) (ce_source ce)
      in case guard_seen (\<lambda>_. None) ts_name (\<lambda>t. Run_duplicate_task (ts_name t)) [] tasks of
           Some e \<Rightarrow> Inl e
         | None \<Rightarrow>
             if \<not> distinct (map tr_name rows) then Inl Unique_task_name
             else case edges_of (task_ids slots) tasks of
               Inl e \<Rightarrow> Inl e
             | Inr es \<Rightarrow>
                 if \<not> distinct es then Inl Unique_edge
                 else Inr (db\<lparr>task_runs := task_runs db @ rows, task_deps := task_deps db @ es,
                              workflow_runs := workflow_runs db @ [run]\<rparr>, run_id))"

definition create_run :: "create_env \<Rightarrow> dag_graph \<Rightarrow> instant \<Rightarrow> int \<Rightarrow> int \<Rightarrow> int \<Rightarrow> db \<Rightarrow> create_error + db \<times> string" where
  "create_run ce g now active waiting max_waiting db =
     (case (run_deadline ce (dg_spec g) now, alert_deadline ce (dg_spec g) now) of
        (Some deadline_at, Some _) \<Rightarrow>
          (case room_for (dg_spec g) active waiting max_waiting of
             Inl e \<Rightarrow> Inl e
           | Inr waits \<Rightarrow> create_run_rows ce g now deadline_at waits db)
      | _ \<Rightarrow> Inl Time_overflow)"

end
