(* ===== verification/Create_Props.thy ===== *)
theory Create_Props
  imports Create_Run
begin

text \<open>
  The rows of a new run satisfy the scheduler's invariant, their counters are exact, and their
  edges follow the graph the workflow was accepted with; so the run of an accepted workflow
  never hangs.
\<close>

subsection \<open>Adding a closed set of rows\<close>

definition fresh_part :: "db \<Rightarrow> task_row list \<Rightarrow> (string \<times> string) list \<Rightarrow> int \<Rightarrow> bool" where
  "fresh_part db rows es h =
     (distinct (map tr_id rows) \<and> tr_id ` set rows \<inter> tr_id ` set (task_runs db) = {}
      \<and> distinct es \<and> set es \<subseteq> tr_id ` set rows \<times> tr_id ` set rows \<and> 0 \<le> h
      \<and> list_all (\<lambda>r. row_ok r \<and> tr_status r = Pending
           \<and> tr_remaining_deps r = int (length (filter (\<lambda>e. fst e = tr_id r) es)) + h) rows)"

definition with_rows :: "db \<Rightarrow> task_row list \<Rightarrow> (string \<times> string) list \<Rightarrow> run_row list \<Rightarrow> db" where
  "with_rows db rows es runs =
     db\<lparr>task_runs := task_runs db @ rows, task_deps := task_deps db @ es, workflow_runs := workflow_runs db @ runs\<rparr>"

lemma with_rows_sel [simp]:
  "task_runs (with_rows db rows es runs) = task_runs db @ rows"
  "task_deps (with_rows db rows es runs) = task_deps db @ es"
  by (simp_all add: with_rows_def)

lemma old_edges: "tables_ok db \<Longrightarrow> (a, b) \<in> set (task_deps db) \<Longrightarrow> a \<in> tr_id ` set (task_runs db) \<and> b \<in> tr_id ` set (task_runs db)"
  by (fastforce simp: tables_ok_def list_all_iff)

lemma fresh_partD:
  assumes "fresh_part db rows es h"
  shows "i \<in> tr_id ` set rows \<Longrightarrow> i \<notin> tr_id ` set (task_runs db)"
    and "(a, b) \<in> set es \<Longrightarrow> a \<in> tr_id ` set rows" "(a, b) \<in> set es \<Longrightarrow> b \<in> tr_id ` set rows"
    and "r \<in> set rows \<Longrightarrow> row_ok r" "r \<in> set rows \<Longrightarrow> tr_status r = Pending"
    and "r \<in> set rows \<Longrightarrow> tr_remaining_deps r = int (length (filter (\<lambda>e. fst e = tr_id r) es)) + h"
    and "distinct (map tr_id rows)" "distinct es" "0 \<le> h"
  using assms unfolding fresh_part_def list_all_iff by blast+

lemma filter_first_empty: "(\<And>b. (i, b) \<notin> set es) \<Longrightarrow> filter (\<lambda>e. fst e = i) es = []"
  by (auto simp: filter_empty_conv)

lemma old_open_deps:
  assumes "fresh_part db rows es h" "tables_ok db" "i \<in> tr_id ` set (task_runs db)"
  shows "open_deps (with_rows db rows es runs) i = open_deps db i"
proof -
  have none: "filter (\<lambda>e. fst e = i) es = []"
    using fresh_partD(1,2) [OF assms(1)] assms(3) by (intro filter_first_empty) blast
  have op: "open_id (with_rows db rows es runs) d = open_id db d" if d: "d \<in> set (dependency_ids db i)" for d
  proof -
    have "d \<in> tr_id ` set (task_runs db)" using d old_edges [OF assms(2)] by (auto simp: set_dependency_ids)
    then have "\<not> list_ex (\<lambda>r. tr_id r = d \<and> \<not> is_terminal (tr_status r)) rows"
      using fresh_partD(1) [OF assms(1)] by (auto simp: list_ex_iff)
    then show ?thesis by (simp add: open_id_def)
  qed
  have "dependency_ids (with_rows db rows es runs) i = dependency_ids db i"
    using none by (simp add: dependency_ids_def)
  then show ?thesis unfolding open_deps_def using op by (metis (no_types, lifting) filter_cong)
qed

lemma new_open_deps:
  assumes "fresh_part db rows es h" "tables_ok db" "i \<in> tr_id ` set rows"
  shows "open_deps (with_rows db rows es runs) i = length (filter (\<lambda>e. fst e = i) es)"
proof -
  have none: "filter (\<lambda>e. fst e = i) (task_deps db) = []"
    using fresh_partD(1) [OF assms(1,3)] old_edges [OF assms(2)] by (intro filter_first_empty) blast
  have "open_id (with_rows db rows es runs) d" if "(x, d) \<in> set es" for x d
  proof -
    from fresh_partD(3) [OF assms(1) that] fresh_partD(5) [OF assms(1)]
    obtain r where "r \<in> set rows" "tr_id r = d" "tr_status r = Pending" by blast
    then show ?thesis by (auto simp: open_id_def list_ex_iff)
  qed
  then have "filter (open_id (with_rows db rows es runs)) (map snd (filter (\<lambda>e. fst e = i) es)) = map snd (filter (\<lambda>e. fst e = i) es)"
    by (intro filter_True) auto
  then show ?thesis using none by (simp add: open_deps_def dependency_ids_def)
qed

lemma with_rows_tables:
  assumes "fresh_part db rows es h" "tables_ok db"
  shows "tables_ok (with_rows db rows es runs)"
proof -
  have "set es \<inter> set (task_deps db) = {}"
  proof -
    have "e \<notin> set (task_deps db)" if "e \<in> set es" for e
      using fresh_partD(1) [OF assms(1) fresh_partD(2) [OF assms(1), of "fst e" "snd e"]] old_edges [OF assms(2), of "fst e" "snd e"] that
      by auto
    then show ?thesis by blast
  qed
  moreover have "tr_id ` set (task_runs db) \<inter> tr_id ` set rows = {}" using fresh_partD(1) [OF assms(1)] by blast
  moreover have "fst e \<in> tr_id ` set rows \<and> snd e \<in> tr_id ` set rows" if "e \<in> set es" for e
    using fresh_partD(2,3) [OF assms(1), of "fst e" "snd e"] that by simp
  ultimately show ?thesis using assms(2) fresh_partD(4,7,8) [OF assms(1)]
    by (simp add: tables_ok_def list_all_iff Int_commute ball_Un image_Un)
qed

text \<open>The dependencies of an old row are the old rows they were.\<close>

lemma old_rule_met:
  assumes "fresh_part db rows es h" "tables_ok db" "r \<in> set (task_runs db)"
  shows "rule_met (with_rows db rows es runs) r = rule_met db r"
proof -
  have "filter (\<lambda>e. fst e = tr_id r) es = []"
    using fresh_partD(1,2) [OF assms(1)] assms(3) by (intro filter_first_empty) blast
  then have ids: "dependency_ids (with_rows db rows es runs) (tr_id r) = dependency_ids db (tr_id r)"
    by (simp add: dependency_ids_def)
  have "filter (\<lambda>q. tr_id q = d) rows = []" if "d \<in> set (dependency_ids db (tr_id r))" for d
    using that old_edges [OF assms(2)] fresh_partD(1) [OF assms(1)] by (auto simp: set_dependency_ids filter_empty_conv)
  then have "dep_rows (with_rows db rows es runs) (tr_id r) = dep_rows db (tr_id r)"
    by (simp add: dep_rows_def ids cong: map_cong)
  then show ?thesis by (simp add: rule_met_def)
qed

lemma with_rows_inv:
  assumes fp: "fresh_part db rows es h" and inv: "sched_inv db"
  shows "sched_inv (with_rows db rows es runs)"
proof -
  let ?db = "with_rows db rows es runs"
  have tab: "tables_ok db" using inv by (simp add: sched_inv_def sched_inv_debt_def)
  have old: "open_deps ?db (tr_id r) = open_deps db (tr_id r)" if "r \<in> set (task_runs db)" for r
    using old_open_deps [OF fp tab] that by simp
  have new: "tr_status r = Pending \<and> slack ?db [] r = h \<and> 0 \<le> h" if r: "r \<in> set rows" for r
    using fresh_partD(5,6,9) [OF fp] r new_open_deps [OF fp tab, of "tr_id r"] by (simp add: slack_def debt_def)
  have "tables_ok ?db" by (rule with_rows_tables [OF fp tab])
  moreover have "list_all (\<lambda>r. tr_status r = Pending \<longrightarrow> 0 \<le> slack ?db [] r) (task_runs ?db)"
  proof -
    have "0 \<le> slack ?db [] r" if "r \<in> set (task_runs db)" "tr_status r = Pending" for r
      using inv old [OF that(1)] that by (simp add: sched_inv_def sched_inv_debt_def list_all_iff slack_def debt_def)
    with new show ?thesis by (auto simp: list_all_iff)
  qed
  moreover have "list_all (\<lambda>r. has_started (tr_status r) \<longrightarrow> open_deps ?db (tr_id r) = 0) (task_runs ?db)"
    using inv old new by (auto simp: sched_inv_def sched_inv_debt_def list_all_iff has_started_def)
  moreover have "list_all (\<lambda>r. begun (tr_status r) \<longrightarrow> rule_met ?db r) (task_runs ?db)"
    using inv old_rule_met [OF fp tab] new by (auto simp: sched_inv_def sched_inv_debt_def list_all_iff)
  ultimately show ?thesis by (simp add: sched_inv_def sched_inv_debt_def)
qed

lemma with_rows_exact:
  assumes fp: "fresh_part db rows es 0" and tab: "tables_ok db" and exact: "counter_exact db"
  shows "counter_exact (with_rows db rows es runs)"
proof -
  let ?db = "with_rows db rows es runs"
  have old: "open_deps ?db (tr_id r) = open_deps db (tr_id r)" if "r \<in> set (task_runs db)" for r
    using old_open_deps [OF fp tab] that by simp
  have new: "slack ?db [] r = 0" if r: "r \<in> set rows" for r
    using fresh_partD(6) [OF fp] r new_open_deps [OF fp tab, of "tr_id r"] by (simp add: slack_def debt_def)
  show ?thesis using exact old new 
    by (simp add: counter_exact_def counter_exact_debt_def list_all_iff slack_def debt_def ball_Un)
qed

lemma trancl_disjoint_union:
  assumes "(x, y) \<in> (A \<union> B)\<^sup>+" "Field A \<inter> Field B = {}"
  shows "(x, y) \<in> A\<^sup>+ \<or> (x, y) \<in> B\<^sup>+"
  using assms(1)
proof (induction rule: trancl_induct)
  case (step y z)
  have "y \<in> Field A" if "(x, y) \<in> A\<^sup>+" using that by (metis FieldI2 trancl.cases)
  moreover have "y \<in> Field B" if "(x, y) \<in> B\<^sup>+" using that by (metis FieldI2 trancl.cases)
  ultimately show ?case using step assms(2) by (metis FieldI1 UnE disjoint_iff trancl_into_trancl)
qed auto

lemma acyclic_disjoint_union:
  "Field A \<inter> Field B = {} \<Longrightarrow> acyclic A \<Longrightarrow> acyclic B \<Longrightarrow> acyclic (A \<union> B)"
  unfolding acyclic_def by (metis trancl_disjoint_union)

lemma acyclic_image:
  assumes "acyclic s" "\<And>a b. (a, b) \<in> r \<Longrightarrow> (f b, f a) \<in> s"
  shows "acyclic r"
proof -
  have "(f y, f x) \<in> s\<^sup>+" if "(x, y) \<in> r\<^sup>+" for x y
    using that by (induction rule: trancl_induct) (auto intro: assms(2) trancl_into_trancl2)
  with assms(1) show ?thesis unfolding acyclic_def by blast
qed

lemma with_rows_acyclic:
  assumes "fresh_part db rows es h" "tables_ok db" "acyclic (set (task_deps db))" "acyclic (set es)"
  shows "acyclic (set (task_deps (with_rows db rows es runs)))"
proof -
  have "Field (set (task_deps db)) \<subseteq> tr_id ` set (task_runs db)"
    using old_edges [OF assms(2)] by (auto simp: Field_def)
  moreover have "Field (set es) \<subseteq> tr_id ` set rows" using fresh_partD(2,3) [OF assms(1)] by (auto simp: Field_def)
  ultimately have "Field (set (task_deps db)) \<inter> Field (set es) = {}" using fresh_partD(1) [OF assms(1)] by blast
  then show ?thesis using acyclic_disjoint_union assms(3,4) by simp
qed

subsection \<open>The rows and edges of the plan\<close>

abbreviation slot_ids :: "task_spec \<times> string option \<times> string list \<Rightarrow> string list" where
  "slot_ids s \<equiv> snd (snd s)"

definition all_ids :: "(task_spec \<times> string option \<times> string list) list \<Rightarrow> string list" where
  "all_ids slots = concat (map slot_ids slots)"

lemma assign_tasks [simp]: "map fst (assign u n ts) = ts"
  by (induction ts arbitrary: n) (auto simp: Let_def split: option.splits)

lemma assign_count: "s \<in> set (assign u n ts) \<Longrightarrow> length (slot_ids s) = member_count (fst s)"
  by (induction ts arbitrary: n) (auto simp: Let_def split: option.splits)

lemma assign_gang: "s \<in> set (assign u n ts) \<Longrightarrow> fst (snd s) = None \<longleftrightarrow> ts_gang (fst s) = None"
  by (induction ts arbitrary: n) (auto simp: Let_def split: option.splits)

lemma all_ids_drawn:
  assumes "inj u"
  shows "distinct (all_ids (assign u n ts)) \<and> set (all_ids (assign u n ts)) \<subseteq> u ` {n..}"
proof (induction ts arbitrary: n)
  case (Cons t ts)
  define n1 where "n1 = snd (case ts_gang t of None \<Rightarrow> (None, n) | Some _ \<Rightarrow> (Some (u n), n + 1))"
  let ?ids = "map (\<lambda>i. u (n1 + i)) [0..<member_count t]" and ?rest = "all_ids (assign u (n1 + member_count t) ts)"
  have eq: "all_ids (assign u n (t # ts)) = ?ids @ ?rest"
    by (simp add: all_ids_def n1_def Let_def case_prod_unfold)
  have n: "n \<le> n1" by (simp add: n1_def split: option.split)
  have "distinct ?ids" by (auto simp: distinct_map inj_on_def) (metis add_left_cancel assms injD)
  moreover have "set ?ids \<subseteq> u ` {n1..<n1 + member_count t}" by auto
  moreover have "u ` {n1..<n1 + member_count t} \<inter> u ` {n1 + member_count t..} = {}"
    unfolding image_Int [OF assms, symmetric] by auto
  moreover have "u ` {n1..<n1 + member_count t} \<subseteq> u ` {n..}" "u ` {n1 + member_count t..} \<subseteq> u ` {n..}"
    using n by auto
  ultimately show ?case unfolding eq using Cons.IH [of "n1 + member_count t"] by (simp only: distinct_append set_append) blast
qed (simp add: all_ids_def)

lemma rows_of_ids: "map tr_id (rows_of tj g run now h slots) = all_ids slots"
proof -
  have "map tr_id (map (task_row_of tj g run now h t gid) (enumerate 0 ids)) = ids" for t gid ids
    by (simp add: task_row_of_def case_prod_unfold o_def)
  then show ?thesis by (simp add: rows_of_def all_ids_def map_concat o_def case_prod_unfold)
qed

lemma rows_of_cases:
  assumes "r \<in> set (rows_of tj g run now h slots)"
  obtains s rank where "s \<in> set slots" "tr_id r \<in> set (slot_ids s)"
    "r = task_row_of tj g run now h (fst s) (fst (snd s)) (rank, tr_id r)"
proof -
  from assms obtain s p where s: "s \<in> set slots" "p \<in> set (enumerate 0 (slot_ids s))"
    "r = task_row_of tj g run now h (fst s) (fst (snd s)) p"
    by (auto simp: rows_of_def case_prod_unfold)
  moreover have "tr_id r = snd p" by (simp add: s(3) task_row_of_def case_prod_unfold)
  moreover have "snd p \<in> set (slot_ids s)" using s(2) by (metis map_snd_enumerate nth_mem in_set_conv_nth length_map nth_map)
  ultimately show ?thesis using that [of s "fst p"] by simp
qed

lemma new_row_facts [simp]:
  "row_ok (task_row_of tj g run now h t gid p)" "tr_status (task_row_of tj g run now h t gid p) = Pending"
  "tr_remaining_deps (task_row_of tj g run now h t gid p) = int (dep_rows_planned g t) + h"
  "tr_stop_requested_at (task_row_of tj g run now h t gid p) = None"
  by (simp_all add: task_row_of_def row_ok_def no_park_def case_prod_unfold)

lemma new_row_run [simp]: "tr_run_id (task_row_of tj g run now h t gid p) = run"
  by (simp add: task_row_of_def case_prod_unfold)

lemma task_ids_lookup:
  assumes "distinct (map (ts_name \<circ> fst) slots)" "s \<in> set slots"
  shows "map_of (task_ids slots) (ts_name (fst s)) = Some (slot_ids s)"
proof -
  have "map fst (task_ids slots) = map (ts_name \<circ> fst) slots" by (simp add: task_ids_def case_prod_unfold o_def)
  with assms(1) have "distinct (map fst (task_ids slots))" by simp
  moreover have "(ts_name (fst s), slot_ids s) \<in> set (task_ids slots)"
    using assms(2) by (force simp: task_ids_def case_prod_unfold)
  ultimately show ?thesis by simp
qed

definition ids_of :: "(string \<times> string list) list \<Rightarrow> string \<Rightarrow> string list" where
  "ids_of ids name = (case map_of ids name of None \<Rightarrow> [] | Some xs \<Rightarrow> xs)"

lemma edges_of_set:
  assumes "edges_of ids ts = Inr es"
  shows "set es = {(a, b). \<exists>t \<in> set ts. \<exists>d \<in> set (ts_depends_on t). a \<in> set (ids_of ids (ts_name t)) \<and> b \<in> set (ids_of ids d)}"
  using assms
proof (induction ts arbitrary: es)
  case (Cons t ts)
  from Cons.prems obtain es' where nf: "List.find (\<lambda>d. map_of ids d = None) (ts_depends_on t) = None"
    and es': "edges_of ids ts = Inr es'"
    and es: "es = concat (map (\<lambda>d. concat (map (\<lambda>x. map (\<lambda>y. (x, y)) (the (map_of ids d))) (ids_of ids (ts_name t)))) (ts_depends_on t)) @ es'"
    by (cases "edges_of ids ts") (auto simp: ids_of_def split: option.splits)
  have the: "the (map_of ids d) = ids_of ids d" if "d \<in> set (ts_depends_on t)" for d
    using nf that by (auto simp: find_None_iff ids_of_def)
  have "set es = (\<Union>d \<in> set (ts_depends_on t). set (ids_of ids (ts_name t)) \<times> set (ids_of ids d)) \<union> set es'"
    unfolding es using the by (auto simp: image_iff)
  with Cons.IH [OF es'] show ?case by auto
qed simp

lemma edges_of_total:
  assumes "\<And>t d. t \<in> set ts \<Longrightarrow> d \<in> set (ts_depends_on t) \<Longrightarrow> map_of ids d \<noteq> None"
  shows "\<exists>es. edges_of ids ts = Inr es"
  using assms
proof (induction ts)
  case (Cons t ts)
  then obtain es where "edges_of ids ts = Inr es" by auto
  moreover have "List.find (\<lambda>d. map_of ids d = None) (ts_depends_on t) = None"
    using Cons.prems by (auto simp: find_None_iff)
  ultimately show ?case by simp
qed simp

subsection \<open>The plan of an accepted workflow\<close>

lemma disjoint_parts:
  "distinct (concat (map f xs)) \<Longrightarrow> x \<in> set xs \<Longrightarrow> y \<in> set xs \<Longrightarrow> x \<noteq> y \<Longrightarrow> set (f x) \<inter> set (f y) = {}"
  by (induction xs) auto

definition fresh_uuids :: "uuids \<Rightarrow> db \<Rightarrow> bool" where
  "fresh_uuids u db = (inj u \<and> range u \<inter> tr_id ` set (task_runs db) = {})"

text \<open>What the proofs below use of a plan: the slots of the tasks of a well-formed workflow.\<close>

definition is_plan ::
  "dag_graph \<Rightarrow> uuids \<Rightarrow> (task_spec \<times> string option \<times> string list) list \<Rightarrow> (string \<times> string) list \<Rightarrow> bool" where
  "is_plan g u slots es =
     (spec_ok (dg_spec g) \<and> inj u \<and> slots = assign u 2 (ds_tasks (dg_spec g))
      \<and> edges_of (task_ids slots) (ds_tasks (dg_spec g)) = Inr es \<and> distinct es)"

lemma planD:
  assumes "is_plan g u slots es"
  shows "spec_ok (dg_spec g)" "inj u" "slots = assign u 2 (ds_tasks (dg_spec g))"
    "edges_of (task_ids slots) (ds_tasks (dg_spec g)) = Inr es" "distinct es" "map fst slots = ds_tasks (dg_spec g)"
    "distinct (map ts_name (ds_tasks (dg_spec g)))" "distinct (all_ids slots)"
proof -
  show spec: "spec_ok (dg_spec g)" "inj u" "slots = assign u 2 (ds_tasks (dg_spec g))"
    "edges_of (task_ids slots) (ds_tasks (dg_spec g)) = Inr es" "distinct es"
    using assms unfolding is_plan_def by blast+
  show "map fst slots = ds_tasks (dg_spec g)" by (simp add: spec(3))
  show "distinct (map ts_name (ds_tasks (dg_spec g)))" using spec(1) by (simp add: spec_ok_def task_names_def)
  show "distinct (all_ids slots)" using all_ids_drawn [OF spec(2)] by (simp add: spec(3))
qed

lemma plan_names: "is_plan g u slots es \<Longrightarrow> distinct (map (ts_name \<circ> fst) slots)"
  using planD(6,7) by (metis list.map_comp)

lemma slot_of_task: "is_plan g u slots es \<Longrightarrow> t \<in> set (ds_tasks (dg_spec g)) \<Longrightarrow> \<exists>s \<in> set slots. fst s = t"
  by (drule planD(6)) (metis imageE list.set_map)

lemma task_of_slot: "is_plan g u slots es \<Longrightarrow> s \<in> set slots \<Longrightarrow> fst s \<in> set (ds_tasks (dg_spec g))"
  by (drule planD(6)) (metis imageI list.set_map)

lemma slot_task_ok: "is_plan g u slots es \<Longrightarrow> s \<in> set slots \<Longrightarrow> task_ok (dg_spec g) (fst s)"
  using task_of_slot planD(1) by (simp add: spec_ok_def list_all_iff)

lemma ids_of_slot: "is_plan g u slots es \<Longrightarrow> s \<in> set slots \<Longrightarrow> ids_of (task_ids slots) (ts_name (fst s)) = slot_ids s"
  by (drule plan_names) (simp add: task_ids_lookup ids_of_def)

lemma slot_unique:
  "is_plan g u slots es \<Longrightarrow> s \<in> set slots \<Longrightarrow> q \<in> set slots \<Longrightarrow> i \<in> set (slot_ids s) \<Longrightarrow> i \<in> set (slot_ids q) \<Longrightarrow> s = q"
  using disjoint_parts [OF planD(8) [unfolded all_ids_def], of g u slots es s q] by blast

lemma edge_iff:
  assumes P: "is_plan g u slots es"
  shows "(a, b) \<in> set es \<longleftrightarrow>
     (\<exists>s \<in> set slots. a \<in> set (slot_ids s) \<and> (\<exists>d \<in> set (ts_depends_on (fst s)). b \<in> set (ids_of (task_ids slots) d)))"
proof -
  have "(a, b) \<in> set es \<longleftrightarrow> (\<exists>t \<in> set (map fst slots). \<exists>d \<in> set (ts_depends_on t).
      a \<in> set (ids_of (task_ids slots) (ts_name t)) \<and> b \<in> set (ids_of (task_ids slots) d))"
    unfolding edges_of_set [OF planD(4) [OF P]] planD(6) [OF P] by blast
  then show ?thesis using ids_of_slot [OF P] by auto
qed

lemma dep_slot:
  assumes P: "is_plan g u slots es" and s: "s \<in> set slots" and d: "d \<in> set (ts_depends_on (fst s))"
  shows "\<exists>q \<in> set slots. ts_name (fst q) = d \<and> ids_of (task_ids slots) d = slot_ids q"
proof -
  have "d \<in> set (task_names (dg_spec g))" using slot_task_ok [OF P s] d by (simp add: task_ok_def list_all_iff)
  then obtain t where t: "t \<in> set (ds_tasks (dg_spec g))" "ts_name t = d" by (auto simp: task_names_def)
  from slot_of_task [OF P t(1)] obtain q where "q \<in> set slots" "fst q = t" by blast
  with t(2) ids_of_slot [OF P] show ?thesis by blast
qed

lemma dep_length:
  assumes P: "is_plan g u slots es" and s: "s \<in> set slots" and d: "d \<in> set (ts_depends_on (fst s))"
  shows "length (ids_of (task_ids slots) d) = (case Option.bind (task_spec_of g d) ts_gang of None \<Rightarrow> 1 | Some k \<Rightarrow> gang_size k)"
proof -
  from dep_slot [OF P s d] obtain q where q: "q \<in> set slots" "ts_name (fst q) = d" "ids_of (task_ids slots) d = slot_ids q" by blast
  from row_of_unique [OF planD(7) [OF P] task_of_slot [OF P q(1)]] have "task_spec_of g d = Some (fst q)"
    by (simp add: task_spec_of_def row_of_def q(2))
  moreover have "length (slot_ids q) = member_count (fst q)" using q(1) assign_count by (simp add: planD(3) [OF P])
  ultimately show ?thesis by (simp add: q(3) member_count_def split: option.split)
qed

lemma slot_ids_distinct: "is_plan g u slots es \<Longrightarrow> q \<in> set slots \<Longrightarrow> distinct (slot_ids q)"
  by (drule planD(8)) (auto simp: all_ids_def distinct_concat_iff)

lemma out_edges:
  assumes P: "is_plan g u slots es" and s: "s \<in> set slots" and i: "i \<in> set (slot_ids s)"
  shows "length (filter (\<lambda>e. fst e = i) es) = dep_rows_planned g (fst s)"
proof -
  let ?D = "set (ts_depends_on (fst s))" and ?ids = "\<lambda>d. ids_of (task_ids slots) d"
  have "length (filter (\<lambda>e. fst e = i) es) = card {e \<in> set es. fst e = i}"
    using planD(5) [OF P] by (metis distinct_card distinct_filter set_filter)
  also have "{e \<in> set es. fst e = i} = {i} \<times> (\<Union>d \<in> ?D. set (?ids d))"
  proof -
    have "(i, b) \<in> set es \<longleftrightarrow> b \<in> (\<Union>d \<in> ?D. set (?ids d))" for b
      unfolding edge_iff [OF P] using slot_unique [OF P s _ i] s i by blast
    then show ?thesis by auto
  qed
  also have "card \<dots> = card (\<Union>d \<in> ?D. set (?ids d))" by (simp add: card_cartesian_product)
  also have "\<dots> = (\<Sum>d \<in> ?D. card (set (?ids d)))"
  proof (rule card_UN_disjoint)
    show "\<forall>d \<in> ?D. \<forall>d' \<in> ?D. d \<noteq> d' \<longrightarrow> set (?ids d) \<inter> set (?ids d') = {}"
    proof (intro ballI impI)
      fix d d' assume d: "d \<in> ?D" "d' \<in> ?D" "d \<noteq> d'"
      from dep_slot [OF P s d(1)] dep_slot [OF P s d(2)] obtain q q' where
        q: "q \<in> set slots" "ts_name (fst q) = d" "?ids d = slot_ids q"
        "q' \<in> set slots" "ts_name (fst q') = d'" "?ids d' = slot_ids q'" by blast
      with d(3) show "set (?ids d) \<inter> set (?ids d') = {}" using slot_unique [OF P q(1,4)] by auto
    qed
  qed simp_all
  also have "\<dots> = (\<Sum>d \<in> ?D. length (?ids d))"
  proof (rule sum.cong)
    fix d assume "d \<in> ?D"
    from dep_slot [OF P s this] slot_ids_distinct [OF P]
    show "card (set (?ids d)) = length (?ids d)" by (auto simp: distinct_card)
  qed simp
  also have "\<dots> = dep_rows_planned g (fst s)"
    using slot_task_ok [OF P s] dep_length [OF P s]
    by (simp add: dep_rows_planned_def sum_list_distinct_conv_sum_set task_ok_def)
  finally show ?thesis .
qed

lemma edges_acyclic:
  assumes P: "is_plan g u slots es"
  shows "acyclic (set es)"
proof (rule acyclic_image)
  let ?f = "\<lambda>i. THE n. \<exists>s \<in> set slots. i \<in> set (slot_ids s) \<and> n = ts_name (fst s)"
  have f: "?f i = ts_name (fst s)" if "s \<in> set slots" "i \<in> set (slot_ids s)" for i s
    using that slot_unique [OF P] by (intro the_equality) blast+
  show "acyclic (set (graph_edges (dg_spec g)))" using planD(1) [OF P] by (simp add: spec_ok_def)
  show "(?f b, ?f a) \<in> set (graph_edges (dg_spec g))" if e: "(a, b) \<in> set es" for a b
  proof -
    from e edge_iff [OF P] obtain s d where s: "s \<in> set slots" "a \<in> set (slot_ids s)" "d \<in> set (ts_depends_on (fst s))"
      "b \<in> set (ids_of (task_ids slots) d)" by blast
    from dep_slot [OF P s(1,3)] obtain q where q: "q \<in> set slots" "ts_name (fst q) = d" "ids_of (task_ids slots) d = slot_ids q" by blast
    have "?f a = ts_name (fst s)" by (rule f [OF s(1,2)])
    moreover have "?f b = d" using f [OF q(1), of b] s(4) q(2,3) by simp
    ultimately show ?thesis using s(3) task_of_slot [OF P s(1)] by (auto simp: graph_edges_def)
  qed
qed

lemma edges_inside:
  assumes P: "is_plan g u slots es" and e: "(a, b) \<in> set es"
  shows "a \<in> set (all_ids slots) \<and> b \<in> set (all_ids slots)"
proof -
  from e edge_iff [OF P] obtain s d where s: "s \<in> set slots" "a \<in> set (slot_ids s)" "d \<in> set (ts_depends_on (fst s))"
    "b \<in> set (ids_of (task_ids slots) d)" by blast
  from dep_slot [OF P s(1,3)] s(4) obtain q where "q \<in> set slots" "b \<in> set (slot_ids q)" by auto
  with s(1,2) show ?thesis unfolding all_ids_def by auto
qed

lemma plan_fresh:
  assumes P: "is_plan g u slots es" and u: "range u \<inter> tr_id ` set (task_runs db) = {}" and h: "0 \<le> h"
  shows "fresh_part db (rows_of tj g run now h slots) es h"
proof -
  let ?rows = "rows_of tj g run now h slots"
  have ids: "map tr_id ?rows = all_ids slots" by (rule rows_of_ids)
  then have set_ids: "tr_id ` set ?rows = set (all_ids slots)" by (metis list.set_map)
  have "set (all_ids slots) \<subseteq> range u"
    using all_ids_drawn [OF planD(2) [OF P], of 2 "ds_tasks (dg_spec g)"] planD(3) [OF P] by blast
  then have out: "set (all_ids slots) \<inter> tr_id ` set (task_runs db) = {}" using u by blast
  have es: "set es \<subseteq> set (all_ids slots) \<times> set (all_ids slots)" using edges_inside [OF P] by auto
  have "row_ok r \<and> tr_status r = Pending \<and> tr_remaining_deps r = int (length (filter (\<lambda>e. fst e = tr_id r) es)) + h"
    if "r \<in> set ?rows" for r
    using that
  proof (cases rule: rows_of_cases)
    case (1 s rank)
    then show ?thesis using out_edges [OF P 1(1,2)] by (metis new_row_facts(1,2,3))
  qed
  then show ?thesis unfolding fresh_part_def list_all_iff set_ids
    using out es ids planD(5,8) [OF P] h by simp
qed

subsection \<open>The run of an accepted workflow\<close>

lemma create_run_cases:
  assumes "create_run ce g now active waiting mx db = Inr (db', run)"
  obtains waits deadline_at where "room_for (dg_spec g) active waiting mx = Inr waits"
    "create_run_rows ce g now deadline_at waits db = Inr (db', run)"
  using assms by (auto simp: create_run_def split: option.splits sum.splits)

lemma created_rows:
  assumes acc: "finds_cycles env" "from_spec env spec = Inr g" and fresh: "fresh_uuids (ce_uuid ce) db"
    and made: "create_run_rows ce g now deadline_at waits db = Inr (db', run)"
  obtains rows es runs slots where "db' = with_rows db rows es runs" "run = ce_uuid ce 1"
    "is_plan g (ce_uuid ce) slots es" "fresh_part db rows es (if waits then 1 else 0)"
    "rows = rows_of (ce_to_json ce) g (ce_uuid ce 1) now (if waits then 1 else 0) slots"
proof -
  let ?slots = "assign (ce_uuid ce) 2 (ds_tasks (dg_spec g))" and ?h = "if waits then 1 else (0 :: int)"
  let ?rows = "rows_of (ce_to_json ce) g (ce_uuid ce 1) now ?h ?slots"
  let ?runs = "[run_row_of g (ce_uuid ce 1) (ce_uuid ce 0) now deadline_at waits (ce_confidence ce) (ce_offset ce) (ce_source ce)]"
  obtain es where es: "edges_of (task_ids ?slots) (ds_tasks (dg_spec g)) = Inr es" "distinct es"
    and out: "(db', run) = (with_rows db ?rows es ?runs, ce_uuid ce 1)"
    using made unfolding create_run_rows_def Let_def with_rows_def
    by (cases "edges_of (task_ids ?slots) (ds_tasks (dg_spec g))") (force split: option.splits if_splits)+
  then have db': "db' = with_rows db ?rows es ?runs" and run: "run = ce_uuid ce 1" by blast+
  have P: "is_plan g (ce_uuid ce) ?slots es"
    using es accepted_spec_ok [OF acc] fresh by (simp add: is_plan_def fresh_uuids_def)
  have "fresh_part db (rows_of (ce_to_json ce) g (ce_uuid ce 1) now ?h ?slots) es ?h"
    by (rule plan_fresh [OF P]) (use fresh in \<open>auto simp: fresh_uuids_def\<close>)
  with that [OF db' run P] show ?thesis by blast
qed

lemma all_ids_count: "is_plan g u slots es \<Longrightarrow> length (all_ids slots) = task_row_count g"
proof -
  assume P: "is_plan g u slots es"
  have "map (\<lambda>s. length (slot_ids s)) slots = map (\<lambda>s. member_count (fst s)) slots"
    using assign_count by (auto simp: planD(3) [OF P])
  then have "length (all_ids slots) = sum_list (map member_count (map fst slots))"
    unfolding all_ids_def length_concat map_map comp_def by (rule arg_cong)
  then show ?thesis by (simp add: task_row_count_def planD(6) [OF P])
qed

text \<open>C5. Making a run of an accepted workflow keeps the datastore sound: it adds exactly the rows the
  graph counts, all pending and carrying the new run's id, leaves every row that was there as it
  was, and the scheduler's invariant holds afterwards, whether the run starts at once or waits.
\<close>

theorem created_run_is_sound:
  assumes "finds_cycles env" "from_spec env spec = Inr g" "sched_inv db" "fresh_uuids (ce_uuid ce) db"
    and "create_run ce g now active waiting mx db = Inr (db', run)"
  shows "sched_inv db' \<and> (\<exists>rows. task_runs db' = task_runs db @ rows \<and> length rows = task_row_count g
     \<and> list_all (\<lambda>r. tr_status r = Pending \<and> tr_run_id r = run) rows)"
proof -
  from assms(5) obtain waits dl where "create_run_rows ce g now dl waits db = Inr (db', run)" by (rule create_run_cases)
  from created_rows [OF assms(1,2,4) this] obtain rows es runs slots where
    db': "db' = with_rows db rows es runs" and run: "run = ce_uuid ce 1" and P: "is_plan g (ce_uuid ce) slots es"
    and fp: "fresh_part db rows es (if waits then 1 else 0)"
    and rows: "rows = rows_of (ce_to_json ce) g (ce_uuid ce 1) now (if waits then 1 else 0) slots" .
  have "tr_status r = Pending \<and> tr_run_id r = run" if "r \<in> set rows" for r
    using that unfolding rows run by (cases rule: rows_of_cases) (metis new_row_facts(2) new_row_run)
  moreover have "length rows = task_row_count g"
    using all_ids_count [OF P] rows_of_ids unfolding rows by (metis length_map)
  ultimately show ?thesis using with_rows_inv [OF fp assms(3)] by (auto simp: db' list_all_iff)
qed

subsubsection \<open>An example\<close>

definition example_ce :: create_env where
  "example_ce =
     \<lparr>ce_to_json = ts_name, ce_uuid = digits_of, ce_after = (\<lambda>t s. Some (plus_secs t (int s))),
      ce_confidence = ''unknown'', ce_offset = None, ce_source = None\<rparr>"

definition empty_db :: db where
  "empty_db = \<lparr>task_runs = [], task_deps = [], workflow_runs = [], task_attempts = [], event_outbox = []\<rparr>"

definition diamond_run :: "db option" where
  "diamond_run =
     (case from_spec plain_env diamond of
        Inl e \<Rightarrow> None
      | Inr g \<Rightarrow> (case create_run example_ce g 0 0 0 100 empty_db of Inl e \<Rightarrow> None | Inr (db, run) \<Rightarrow> Some db))"

lemma example_fresh: "fresh_uuids (ce_uuid example_ce) empty_db"
  by (simp add: fresh_uuids_def example_ce_def empty_db_def inj_def)

lemma empty_db_facts: "sched_inv empty_db" "counter_exact empty_db" "no_stops empty_db" "acyclic (set (task_deps empty_db))"
  by (simp_all add: empty_db_def sched_inv_def sched_inv_debt_def tables_ok_def counter_exact_def counter_exact_debt_def
      no_stops_def stops_def acyclic_def)

lemma diamond_made: "map_option (\<lambda>db. (map tr_name (task_runs db), map tr_remaining_deps (task_runs db))) diamond_run
   = Some ([''a'', ''b.0'', ''b.1'', ''c'', ''d''], [0, 1, 1, 1, 3])"
  by code_simp

lemma diamond_runE:
  obtains g db run where "from_spec plain_env diamond = Inr g"
    "create_run example_ce g 0 0 0 100 empty_db = Inr (db, run)" "diamond_run = Some db"
    "map tr_name (task_runs db) = [''a'', ''b.0'', ''b.1'', ''c'', ''d'']" "room_for (dg_spec g) 0 0 100 = Inr False"
proof -
  from diamond_made obtain db where db: "diamond_run = Some db" "map tr_name (task_runs db) = [''a'', ''b.0'', ''b.1'', ''c'', ''d'']"
    by (cases diamond_run) auto
  then obtain g run where g: "from_spec plain_env diamond = Inr g" "create_run example_ce g 0 0 0 100 empty_db = Inr (db, run)"
    by (auto simp: diamond_run_def split: sum.splits prod.splits)
  have "ds_max_active_runs (dg_spec g) = None"
    using from_spec_accepted(1) [OF g(1)] by (simp add: dedup_depends_on_def diamond_def plain_dag_def)
  with that [OF g db(1,2)] show ?thesis by (simp add: room_for_def)
qed

theorem created_run_is_sound_witness:
  "case diamond_run of None \<Rightarrow> False | Some db \<Rightarrow> sched_inv db \<and> length (task_runs db) = 5"
proof -
  obtain g db run where d: "from_spec plain_env diamond = Inr g" "create_run example_ce g 0 0 0 100 empty_db = Inr (db, run)"
    "diamond_run = Some db" "map tr_name (task_runs db) = [''a'', ''b.0'', ''b.1'', ''c'', ''d'']" by (rule diamond_runE)
  from arg_cong [OF d(4), of length] have "length (task_runs db) = 5" by simp
  with created_run_is_sound [OF plain_env_finds_cycles d(1) empty_db_facts(1) example_fresh d(2)] show ?thesis
    unfolding d(3) option.case by blast
qed



subsection \<open>What making a run refuses\<close>

lemma no_duplicate_task:
  assumes "spec_ok spec"
  shows "guard_seen (\<lambda>_. None) ts_name dup [] (ds_tasks spec) = None"
  using assms by (simp add: guard_simps spec_ok_def task_names_def)

lemma accepted_edges:
  assumes "spec_ok (dg_spec g)"
  shows "\<exists>es. edges_of (task_ids (assign u 2 (ds_tasks (dg_spec g)))) (ds_tasks (dg_spec g)) = Inr es"
proof (rule edges_of_total)
  fix t d assume t: "t \<in> set (ds_tasks (dg_spec g))" "d \<in> set (ts_depends_on t)"
  let ?slots = "assign u 2 (ds_tasks (dg_spec g))"
  from t assms have "d \<in> set (task_names (dg_spec g))" by (auto simp: spec_ok_def task_ok_def list_all_iff)
  then have "d \<in> ts_name ` set (map fst ?slots)" by (simp add: task_names_def)
  then obtain s where "s \<in> set ?slots" "ts_name (fst s) = d" unfolding set_map by blast
  then have "d \<in> fst ` set (task_ids ?slots)" by (force simp: task_ids_def case_prod_unfold)
  then show "map_of (task_ids ?slots) d \<noteq> None" by (simp add: map_of_eq_None_iff)
qed

text \<open>Edges are listed once: a task's rows are distinct, and so are the rows it depends on.\<close>

lemma distinct_pairs:
  assumes "distinct xs" "distinct ds" "\<And>d. d \<in> set ds \<Longrightarrow> distinct (f d)"
    and "\<And>d d'. d \<in> set ds \<Longrightarrow> d' \<in> set ds \<Longrightarrow> d \<noteq> d' \<Longrightarrow> set (f d) \<inter> set (f d') = {}"
  shows "distinct (concat (map (\<lambda>d. concat (map (\<lambda>x. map (\<lambda>y. (x, y)) (f d)) xs)) ds))"
  using assms(2-)
proof (induction ds)
  case (Cons d ds)
  have "distinct (concat (map (\<lambda>x. map (\<lambda>y. (x, y)) (f d)) xs))"
    using assms(1) Cons.prems(2) [of d] by (induction xs) (auto simp: distinct_map inj_on_def)
  moreover have "set (concat (map (\<lambda>x. map (\<lambda>y. (x, y)) (f d)) xs))
      \<inter> set (concat (map (\<lambda>d. concat (map (\<lambda>x. map (\<lambda>y. (x, y)) (f d)) xs)) ds)) = {}"
    using Cons.prems(1) Cons.prems(3) [of d] by fastforce
  moreover have "distinct (concat (map (\<lambda>d. concat (map (\<lambda>x. map (\<lambda>y. (x, y)) (f d)) xs)) ds))"
    using Cons by (intro Cons.IH) auto
  ultimately show ?case by simp
qed simp

definition task_edges :: "(string \<times> string list) list \<Rightarrow> task_spec \<Rightarrow> (string \<times> string) list" where
  "task_edges ids t =
     concat (map (\<lambda>d. concat (map (\<lambda>x. map (\<lambda>y. (x, y)) (ids_of ids d)) (ids_of ids (ts_name t)))) (ts_depends_on t))"

lemma edges_of_concat: "edges_of ids ts = Inr es \<Longrightarrow> es = concat (map (task_edges ids) ts)"
proof (induction ts arbitrary: es)
  case (Cons t ts)
  from Cons.prems obtain es' where nf: "List.find (\<lambda>d. map_of ids d = None) (ts_depends_on t) = None"
    and es': "edges_of ids ts = Inr es'"
    and es: "es = concat (map (\<lambda>d. concat (map (\<lambda>x. map (\<lambda>y. (x, y)) (the (map_of ids d))) (ids_of ids (ts_name t)))) (ts_depends_on t)) @ es'"
    by (cases "edges_of ids ts") (auto simp: ids_of_def split: option.splits)
  have "the (map_of ids d) = ids_of ids d" if "d \<in> set (ts_depends_on t)" for d
    using nf that by (auto simp: find_None_iff ids_of_def)
  then have "map (\<lambda>d. concat (map (\<lambda>x. map (\<lambda>y. (x, y)) (the (map_of ids d))) (ids_of ids (ts_name t)))) (ts_depends_on t)
    = map (\<lambda>d. concat (map (\<lambda>x. map (\<lambda>y. (x, y)) (ids_of ids d)) (ids_of ids (ts_name t)))) (ts_depends_on t)"
    by (intro map_cong) simp_all
  then show ?case using Cons.IH [OF es'] unfolding es by (simp only: task_edges_def list.map concat.simps)
qed simp

lemma distinct_task_edges:
  assumes "distinct (map ts_name ts)" "\<And>t. t \<in> set ts \<Longrightarrow> distinct (ts_depends_on t)"
    and "\<And>n. distinct (ids_of ids n)" "\<And>m n. m \<noteq> n \<Longrightarrow> set (ids_of ids m) \<inter> set (ids_of ids n) = {}"
  shows "distinct (concat (map (task_edges ids) ts))"
  using assms(1,2)
proof (induction ts)
  case (Cons t ts)
  have sub: "set (task_edges ids v) \<subseteq> set (ids_of ids (ts_name v)) \<times> UNIV" for v by (auto simp: task_edges_def)
  have "distinct (task_edges ids t)"
    unfolding task_edges_def by (rule distinct_pairs) (use Cons.prems assms(3,4) in auto)
  moreover have "set (task_edges ids t) \<inter> set (task_edges ids v) = {}" if "v \<in> set ts" for v
    using sub [of t] sub [of v] assms(4) [of "ts_name t" "ts_name v"] Cons.prems(1) that by fastforce
  then have "set (task_edges ids t) \<inter> set (concat (map (task_edges ids) ts)) = {}" by fastforce
  ultimately show ?case using Cons by simp
qed simp

lemma planned_ids:
  assumes "spec_ok (dg_spec g)" "inj u" "slots = assign u 2 (ds_tasks (dg_spec g))"
  shows "distinct (ids_of (task_ids slots) n)"
    and "m \<noteq> n \<Longrightarrow> set (ids_of (task_ids slots) m) \<inter> set (ids_of (task_ids slots) n) = {}"
proof -
  have d: "distinct (concat (map slot_ids slots))" using all_ids_drawn [OF assms(2)] by (simp add: assms(3) all_ids_def)
  have look: "ids_of (task_ids slots) k = [] \<or> (\<exists>s \<in> set slots. ts_name (fst s) = k \<and> ids_of (task_ids slots) k = slot_ids s)" for k
  proof (cases "map_of (task_ids slots) k")
    case (Some xs)
    then have "(k, xs) \<in> set (task_ids slots)" by (rule map_of_SomeD)
    with Some show ?thesis by (force simp: ids_of_def task_ids_def case_prod_unfold)
  qed (simp add: ids_of_def)
  show "distinct (ids_of (task_ids slots) n)" using look [of n] d by (auto simp: distinct_concat_iff)
  show "set (ids_of (task_ids slots) m) \<inter> set (ids_of (task_ids slots) n) = {}" if "m \<noteq> n"
    using look [of m] look [of n] disjoint_parts [OF d] that by fastforce
qed


definition named_like_a_member :: dag_spec where
  "named_like_a_member = plain_dag
     [(plain_task ''b'' [])\<lparr>ts_gang := Some \<lparr>gang_size = 2\<rparr>\<rparr>, plain_task ''b.0'' []]"

lemma named_like_a_member_accepted:
  obtains g where "from_spec plain_env named_like_a_member = Inr g" "dg_spec g = dedup_depends_on named_like_a_member"
proof -
  have "spec_refusal plain_env (dedup_depends_on named_like_a_member) = None" by code_simp
  then obtain g where "from_spec plain_env named_like_a_member = Inr g" by (simp add: from_spec_def Let_def)
  with from_spec_accepted(1) that show ?thesis by blast
qed

lemma named_like_a_member_names:
  assumes "dg_spec g = dedup_depends_on named_like_a_member"
  shows "\<not> distinct (map tr_name (rows_of tj g run now h (assign u 2 (ds_tasks (dg_spec g)))))"
proof -
  have d: "digits_of 0 = ''0''" "digits_of 1 = ''1''" by code_simp+
  have "map tr_name (rows_of tj g run now h (assign u 2 (ds_tasks (dg_spec g)))) = [''b.0'', ''b.1'', ''b.0'']"
    by (simp add: assms named_like_a_member_def dedup_depends_on_def plain_dag_def plain_task_def rows_of_def
        task_row_of_def member_spec_def member_count_def upt_rec d [unfolded One_nat_def])
  then show ?thesis by simp
qed

text \<open>A workflow can be accepted and still never run: with a gang \<open>b\<close> and a task \<open>b.0\<close>, which is
  the name of the gang's first row, the checks of the workflow pass, and every attempt to make a run
  fails on the unique index over a run's task names, on any datastore.
\<close>

theorem gang_member_name_clash:
  "case from_spec plain_env named_like_a_member of
     Inl e \<Rightarrow> False
   | Inr g \<Rightarrow> create_run ce g now active waiting mx db = Inl Unique_task_name"
proof -
  obtain g where g: "from_spec plain_env named_like_a_member = Inr g" and s: "dg_spec g = dedup_depends_on named_like_a_member"
    by (rule named_like_a_member_accepted)
  have ok: "spec_ok (dg_spec g)" by (rule accepted_spec_ok [OF plain_env_finds_cycles g])
  have "run_deadline ce (dg_spec g) now = Some None" "alert_deadline ce (dg_spec g) now = Some None"
    "room_for (dg_spec g) active waiting mx = Inr False"
    by (simp_all add: s run_deadline_def alert_deadline_def room_for_def dedup_depends_on_def named_like_a_member_def plain_dag_def)
  then have "create_run ce g now active waiting mx db = Inl Unique_task_name"
    using named_like_a_member_names [OF s]
    by (simp add: create_run_def create_run_rows_def Let_def no_duplicate_task [OF ok])
  with g show ?thesis by simp
qed

lemma refused_run_example:
  obtains g where "from_spec plain_env named_like_a_member = Inr g"
    "create_run example_ce g 0 0 0 100 empty_db = Inl Unique_task_name"
proof -
  have "list_all (\<lambda>r. case r of Inl e \<Rightarrow> False | Inr g \<Rightarrow>
      (case create_run example_ce g 0 0 0 100 empty_db of Inl e \<Rightarrow> e = Unique_task_name | Inr _ \<Rightarrow> False)) [from_spec plain_env named_like_a_member]"
    by code_simp
  with that show ?thesis by (auto split: sum.splits)
qed


text \<open>
  What chrono documents of \<open>TimeDelta::seconds\<close>: it panics beyond \<open>i64::MAX / 1000\<close> seconds. The
  number of seconds a workflow may name is not held to that, so that such a workflow is accepted
  and making its run panics.
\<close>

definition chrono_limit :: "(instant \<Rightarrow> nat \<Rightarrow> instant option) \<Rightarrow> bool" where
  "chrono_limit after = (\<forall>now s. s > (2 ^ 63 - 1) div 1000 \<longrightarrow> after now s = None)"

lemma long_timeout_panics:
  assumes "chrono_limit (ce_after ce)" "ds_run_timeout_secs (dg_spec g) = Some s" "s > (2 ^ 63 - 1) div 1000"
  shows "create_run ce g now active waiting mx db = Inl Time_overflow"
proof -
  have "i64_cap s > (2 ^ 63 - 1) div 1000" using assms(3) by (simp add: i64_cap_def)
  then have "run_deadline ce (dg_spec g) now = None" using assms(1,2) by (simp add: run_deadline_def chrono_limit_def)
  then show ?thesis by (simp add: create_run_def)
qed

lemma long_timeout_accepted:
  "list_all (\<lambda>r. case r of Inl e \<Rightarrow> False | Inr g \<Rightarrow> ds_run_timeout_secs (dg_spec g) = Some (2 ^ 62))
     [from_spec plain_env ((plain_dag [plain_task ''a'' []])\<lparr>ds_run_timeout_secs := Some (2 ^ 62)\<rparr>)]"
  by code_simp

end
