(* ===== verification/Expand.thy ===== *)
theory Expand
  imports Dag_Graph
begin

text \<open>
  Template expansion (crates/dagron-core/src/expand.rs): a workflow that calls sub-workflows, fans
  out and drops tasks on conditions becomes a flat list of leaf tasks. The record \<open>expand_io\<close> has
  what the code takes from outside: \<open>serde_json\<close>'s reading (an error is its text) and printing
  of a document, and the environment of the process. A \<open>BTreeMap\<close> is the list of its entries; a
  \<open>bail!\<close> is a constructor of \<open>expand_error\<close>. The budget, a \<open>&mut usize\<close> in the code, is
  passed along and returned.
\<close>

subsection \<open>Failing\<close>

datatype shape_problem =
    Gate_call | Gate_command
  | Trigger_call | Trigger_command
  | Sensor_call | Sensor_command
  | Command_xor_template
  | Call_defer | Call_pull_policy | Call_repeat | Call_forge_token | Call_privileged
  | Items_and_param
  | Output_of_second_source | Output_of_call | Output_of_gang | Output_of_kind string
  | Key_without_fanout

datatype expand_error =
    Uses_unresolved "string list"
  | Template_twice string
  | Hook_unknown string string
  | Sibling_twice string
  | Sibling_unknown string string
  | Bad_shape string shape_problem
  | Items_not_json string string
  | Items_not_array string
  | Items_none string
  | Condition_error string
  | Condition_on_call string
  | Label_empty string string nat
  | Label_twice string string string
  | Too_many_tasks nat
  | Too_deep string
  | Template_unknown string string
  | Output_not_json string string string
  | Output_not_array string string string

record expand_io =
  xio_env :: "string \<Rightarrow> string option"
  xio_parse :: "string \<Rightarrow> string + json"
  xio_print :: "json \<Rightarrow> string"

definition max_depth :: nat where "max_depth = 64"
definition max_tasks :: nat where "max_tasks = 100000"

definition max_tasks_per_run :: "(string \<Rightarrow> string option) \<Rightarrow> nat" where
  "max_tasks_per_run env =
     (case Option.bind (env ''DAGRON_MAX_TASKS_PER_RUN'') (parse_unsigned 64) of
        Some n \<Rightarrow> if n > 0 \<and> n \<le> max_tasks then n else max_tasks
      | None \<Rightarrow> max_tasks)"

lemma max_tasks_bounds: "0 < max_tasks_per_run env" "max_tasks_per_run env \<le> max_tasks"
  by (auto simp: max_tasks_per_run_def max_tasks_def split: option.splits)

subsection \<open>Defaults of a workflow\<close>

text \<open>\<open>entry(k).or_insert(v)\<close>.\<close>

definition or_insert :: "string \<Rightarrow> 'v \<Rightarrow> 'v btree \<Rightarrow> 'v btree" where
  "or_insert k v m = (case map_of m k of None \<Rightarrow> bt_insert k v m | Some _ \<Rightarrow> m)"

definition or_default :: "'a option \<Rightarrow> 'a option \<Rightarrow> 'a option" where
  "or_default own d = (case own of None \<Rightarrow> d | Some x \<Rightarrow> Some x)"

definition apply_task_defaults :: "task_defaults \<Rightarrow> task_spec \<Rightarrow> task_spec" where
  "apply_task_defaults d t =
     t\<lparr>ts_max_attempts :=
         (if ts_max_attempts t = 1 then (case td_max_attempts d of Some v \<Rightarrow> v | None \<Rightarrow> 1) else ts_max_attempts t),
       ts_retry_delay_secs :=
         (if ts_retry_delay_secs t = 0 then (case td_retry_delay_secs d of Some v \<Rightarrow> v | None \<Rightarrow> 0) else ts_retry_delay_secs t),
       ts_retry_max_delay_secs := or_default (ts_retry_max_delay_secs t) (td_retry_max_delay_secs d),
       ts_retry_on_timeout := or_default (ts_retry_on_timeout t) (td_retry_on_timeout d),
       ts_retry_budgets := fold (\<lambda>(class, budget). or_insert class budget) (td_retry_budgets d) (ts_retry_budgets t),
       ts_timeout_secs := or_default (ts_timeout_secs t) (td_timeout_secs d),
       ts_docker_image := or_default (ts_docker_image t) (td_docker_image d),
       ts_image_pull_policy :=
         (if ts_image_pull_policy t = None \<and> ts_template t = None then td_image_pull_policy d else ts_image_pull_policy t),
       ts_runner_class := or_default (ts_runner_class t) (td_runner_class d),
       ts_priority := (if ts_priority t = 0 then (case td_priority d of Some v \<Rightarrow> v | None \<Rightarrow> 0) else ts_priority t),
       ts_pool := or_default (ts_pool t) (td_pool d),
       ts_env := (if td_env d \<noteq> [] then td_env d @ ts_env t else ts_env t)\<rparr>"

subsection \<open>Hooks\<close>

definition hook_rule :: "string \<Rightarrow> string option" where
  "hook_rule hook =
     (if hook = ''on_exit'' then Some ''all_done''
      else if hook = ''on_failure'' then Some ''one_failed'' else None)"

definition wire_hook :: "string list \<Rightarrow> task_spec \<Rightarrow> expand_error + task_spec" where
  "wire_hook non_hook t =
     (case ts_hook t of
        None \<Rightarrow> Inr t
      | Some hook \<Rightarrow> (case hook_rule hook of
            None \<Rightarrow> Inl (Hook_unknown (ts_name t) hook)
          | Some rule \<Rightarrow> Inr (t\<lparr>ts_depends_on := filter (\<lambda>n. n \<noteq> ts_name t) non_hook, ts_trigger_rule := Some rule\<rparr>)))"

fun try_map :: "('a \<Rightarrow> 'e + 'b) \<Rightarrow> 'a list \<Rightarrow> 'e + 'b list" where
  "try_map f [] = Inr []"
| "try_map f (x # xs) = and_then (f x) (\<lambda>y. and_then (try_map f xs) (\<lambda>ys. Inr (y # ys)))"

definition wire_hooks :: "task_spec list \<Rightarrow> expand_error + task_spec list" where
  "wire_hooks tasks = try_map (wire_hook (map ts_name (filter (\<lambda>t. ts_hook t = None) tasks))) tasks"

subsection \<open>References to renamed siblings\<close>

definition renamed_ref :: "string btree \<Rightarrow> string \<Rightarrow> string option" where
  "renamed_ref renamed raw =
     Option.bind (strip_prefix ''tasks.'' (trim raw))
       (\<lambda>k. Option.bind (strip_suffix ''.output'' k) (map_of renamed))"

function (sequential) rename_output_refs :: "string \<Rightarrow> string btree \<Rightarrow> string" where
  "rename_output_refs rest renamed =
     (case split_once ''{{'' rest of
        None \<Rightarrow> rest
      | Some (before, after) \<Rightarrow>
          (case split_once ''}}'' after of
             None \<Rightarrow> rest
           | Some (raw, rest') \<Rightarrow>
               before
               @ (case renamed_ref renamed raw of
                    Some to \<Rightarrow> ''{{ tasks.'' @ to @ ''.output }}''
                  | None \<Rightarrow> ''{{'' @ raw @ ''}}'')
               @ rename_output_refs rest' renamed))"
  by pat_completeness auto
termination
  by (relation "measure (\<lambda>(s, _). length s)") (auto dest!: split_once_SomeD dest: arg_cong [where f = length])

declare rename_output_refs.simps [simp del]

subsection \<open>Items and labels\<close>

definition max_label :: nat where "max_label = 64"

definition label_kept :: "char \<Rightarrow> bool" where
  "label_kept ch = (is_ascii_alphanumeric ch \<or> ch = CHR ''_'' \<or> ch = CHR ''-'')"

fun sanitize_from :: "nat \<Rightarrow> bool \<Rightarrow> string \<Rightarrow> string" where
  "sanitize_from len last_dash [] = []"
| "sanitize_from len last_dash (ch # cs) =
     (if len \<ge> max_label then []
      else if label_kept ch then ch # sanitize_from (len + 1) False cs
      else if \<not> last_dash then CHR ''-'' # sanitize_from (len + 1) True cs
      else sanitize_from len last_dash cs)"

definition sanitize_label :: "string \<Rightarrow> string" where
  "sanitize_label raw =
     trim_end_matches (\<lambda>c. c = CHR ''-'') (dropWhile (\<lambda>c. c = CHR ''-'') (sanitize_from 0 False raw))"

text \<open>\<open>plain\<close>: a scalar without its quotes.\<close>

fun plain :: "expand_io \<Rightarrow> json \<Rightarrow> string" where
  "plain io (JString s) = s"
| "plain io (JNumber n) = n"
| "plain io (JBool b) = (if b then ''true'' else ''false'')"
| "plain io JNull = []"
| "plain io (JArray xs) = xio_print io (JArray xs)"
| "plain io (JObject m) = xio_print io (JObject m)"

definition bind_item :: "expand_io \<Rightarrow> ctx \<Rightarrow> json \<Rightarrow> ctx" where
  "bind_item io ctx item =
     (let ctx1 = bt_insert ''item'' (plain io item) ctx
      in case item of
           JObject obj \<Rightarrow> fold (\<lambda>(k, v). bt_insert (''item.'' @ k) (plain io v)) obj ctx1
         | _ \<Rightarrow> ctx1)"

text \<open>\<open>[None]\<close> is one plain instance; otherwise one \<open>Some item\<close> for each element.\<close>

definition resolve_items :: "expand_io \<Rightarrow> task_spec \<Rightarrow> ctx \<Rightarrow> expand_error + json option list" where
  "resolve_items io t ctx =
     (case ts_with_items t of
        Some items \<Rightarrow> Inr (map Some items)
      | None \<Rightarrow>
          (case ts_with_param t of
             Some param \<Rightarrow>
               (case xio_parse io (substitute param ctx) of
                  Inl e \<Rightarrow> Inl (Items_not_json param e)
                | Inr (JArray arr) \<Rightarrow> Inr (map Some arr)
                | Inr _ \<Rightarrow> Inl (Items_not_array param))
           | None \<Rightarrow> Inr [None]))"

text \<open>The label of instance \<open>i\<close>, given the labels before it; the bare index where the author
  names no key.\<close>

definition instance_label :: "task_spec \<Rightarrow> ctx \<Rightarrow> nat \<Rightarrow> string list \<Rightarrow> expand_error + string \<times> string list" where
  "instance_label t inst_ctx i seen =
     (case ts_instance_key t of
        None \<Rightarrow> Inr (int_to_string (int i), seen)
      | Some key \<Rightarrow>
          (let label = sanitize_label (substitute key inst_ctx)
           in if label = [] then Inl (Label_empty (ts_name t) key i)
              else if label \<in> set seen then Inl (Label_twice (ts_name t) key label)
              else Inr (label, label # seen)))"

definition instance_ctx :: "expand_io \<Rightarrow> ctx \<Rightarrow> nat \<Rightarrow> json \<Rightarrow> ctx" where
  "instance_ctx io ctx i item = bt_insert ''index'' (int_to_string (int i)) (bind_item io ctx item)"

subsection \<open>A leaf\<close>

definition fill_opt :: "ctx \<Rightarrow> string option \<Rightarrow> string option" where
  "fill_opt ctx v = map_option (\<lambda>s. substitute s ctx) v"

definition fill_all :: "ctx \<Rightarrow> string list \<Rightarrow> string list" where
  "fill_all ctx xs = map (\<lambda>s. substitute s ctx) xs"

definition leaf_wait :: "ctx \<Rightarrow> wait_spec \<Rightarrow> wait_spec" where
  "leaf_wait ctx w =
     \<lparr>wait_for = fill_opt ctx (wait_for w), wait_until = fill_opt ctx (wait_until w),
      wait_url = fill_opt ctx (wait_url w), wait_dataset = fill_opt ctx (wait_dataset w)\<rparr>"

definition leaf_http :: "ctx \<Rightarrow> defer_http_spec \<Rightarrow> defer_http_spec" where
  "leaf_http ctx h =
     h\<lparr>dh_url := substitute (dh_url h) ctx,
       dh_succeed_when := substitute (dh_succeed_when h) ctx,
       dh_fail_when := fill_opt ctx (dh_fail_when h),
       dh_error_from := fill_opt ctx (dh_error_from h),
       dh_headers := map (\<lambda>hdr. hdr\<lparr>ev_value := substitute (ev_value hdr) ctx\<rparr>) (dh_headers h),
       dh_cancel := map_option (\<lambda>c. c\<lparr>dhc_url := substitute (dhc_url c) ctx, dhc_body := fill_opt ctx (dhc_body c)\<rparr>) (dh_cancel h)\<rparr>"

definition leaf_defer :: "ctx \<Rightarrow> defer_spec \<Rightarrow> defer_spec" where
  "leaf_defer ctx d =
     d\<lparr>def_kind := substitute (def_kind d) ctx, def_connection := fill_opt ctx (def_connection d),
       def_http := map_option (leaf_http ctx) (def_http d)\<rparr>"

definition leaf_path_cache :: "ctx \<Rightarrow> path_cache_spec \<Rightarrow> path_cache_spec" where
  "leaf_path_cache ctx c =
     c\<lparr>pc_prefix := substitute (pc_prefix c) ctx, pc_paths := fill_all ctx (pc_paths c),
       pc_key_files := fill_all ctx (pc_key_files c),
       pc_restore_from :=
         (case fill_opt ctx (pc_restore_from c) of Some r \<Rightarrow> if trim r = [] then None else Some r | None \<Rightarrow> None)\<rparr>"

definition leaf_workspace :: "ctx \<Rightarrow> workspace_spec \<Rightarrow> workspace_spec" where
  "leaf_workspace ctx w =
     w\<lparr>ws_checkout := map_option (\<lambda>c. c\<lparr>co_repository := substitute (co_repository c) ctx,
                                        co_commit := substitute (co_commit c) ctx\<rparr>) (ws_checkout w),
       ws_cache := map (leaf_path_cache ctx) (ws_cache w)\<rparr>"

text \<open>The fields that are not named are the task's own.\<close>

definition build_leaf :: "task_spec \<Rightarrow> string \<Rightarrow> ctx \<Rightarrow> string option \<Rightarrow> task_spec" where
  "build_leaf t name ctx runtime_when =
     t\<lparr>ts_name := name,
       ts_command := fill_all ctx (ts_command t),
       ts_depends_on := [],
       ts_wait := map_option (leaf_wait ctx) (ts_wait t),
       ts_approval_message := fill_opt ctx (ts_approval_message t),
       ts_approval_show := fill_all ctx (ts_approval_show t),
       ts_binds := fill_all ctx (ts_binds t),
       ts_approvers := fill_all ctx (ts_approvers t),
       ts_docker_image := fill_opt ctx (ts_docker_image t),
       ts_env := map (\<lambda>e. e\<lparr>ev_value := substitute (ev_value e) ctx\<rparr>) (ts_env t),
       ts_service_account := fill_opt ctx (ts_service_account t),
       ts_runner_class := fill_opt ctx (ts_runner_class t),
       ts_cache := map_option (\<lambda>c. c\<lparr>cache_key := substitute (cache_key c) ctx\<rparr>) (ts_cache t),
       ts_repeat := map_option (\<lambda>r. r\<lparr>re_until := substitute (re_until r) ctx\<rparr>) (ts_repeat t),
       ts_defer := map_option (leaf_defer ctx) (ts_defer t),
       ts_gang_member := None,
       ts_workspace := map_option (leaf_workspace ctx) (ts_workspace t),
       ts_services := map (service_filled (\<lambda>text. substitute text ctx)) (ts_services t),
       ts_produces := fill_all ctx (ts_produces t),
       ts_template := None,
       ts_arguments :=
         (if ts_task_type t = Some ''workflow'' then map (\<lambda>(k, v). (k, substitute v ctx)) (ts_arguments t)
          else ts_arguments t),
       ts_with_items := None,
       ts_with_param := None,
       ts_when := runtime_when,
       ts_instance_key := (case ts_with_output_of t of None \<Rightarrow> None | Some _ \<Rightarrow> ts_instance_key t)\<rparr>"

subsection \<open>A fan-out at run time\<close>

fun json_kind :: "json \<Rightarrow> string" where
  "json_kind JNull = ''null''"
| "json_kind (JBool _) = ''a boolean''"
| "json_kind (JNumber _) = ''a number''"
| "json_kind (JString _) = ''a string''"
| "json_kind (JArray _) = ''an array''"
| "json_kind (JObject _) = ''an object''"

record fanout_instance =
  fi_name :: string
  fi_spec :: task_spec

fun fanout_items :: "expand_io \<Rightarrow> string \<Rightarrow> (string \<times> string) list \<Rightarrow> expand_error + json list" where
  "fanout_items io barrier [] = Inr []"
| "fanout_items io barrier ((row, output) # rest) =
     (let raw = trim output
      in if raw = [] then fanout_items io barrier rest
         else case xio_parse io raw of
                Inl e \<Rightarrow> Inl (Output_not_json barrier row e)
              | Inr (JArray arr) \<Rightarrow> and_then (fanout_items io barrier rest) (\<lambda>items. Inr (arr @ items))
              | Inr v \<Rightarrow> Inl (Output_not_array barrier row (json_kind v)))"

fun fanout_each :: "expand_io \<Rightarrow> task_spec \<Rightarrow> nat \<Rightarrow> string list \<Rightarrow> json list \<Rightarrow> expand_error + fanout_instance list" where
  "fanout_each io barrier i seen [] = Inr []"
| "fanout_each io barrier i seen (item # items) =
     (let inst_ctx = instance_ctx io [] i item
      in and_then (instance_label barrier inst_ctx i seen)
           (\<lambda>(label, seen').
              let name = ts_name barrier @ ''.'' @ label;
                  spec = (build_leaf barrier name inst_ctx None)\<lparr>ts_with_output_of := None, ts_instance_key := None\<rparr>
              in and_then (fanout_each io barrier (i + 1) seen' items)
                   (\<lambda>out. Inr (\<lparr>fi_name = name, fi_spec = spec\<rparr> # out))))"

definition fanout_instances :: "expand_io \<Rightarrow> task_spec \<Rightarrow> (string \<times> string) list \<Rightarrow> expand_error + fanout_instance list" where
  "fanout_instances io barrier producers =
     and_then (fanout_items io (ts_name barrier) producers) (fanout_each io barrier 0 [])"

subsection \<open>One task\<close>

record expanded =
  ex_roots :: "string list"
  ex_exits :: "string list"
  ex_tasks :: "task_spec list"

definition no_tasks :: expanded where
  "no_tasks = \<lparr>ex_roots = [], ex_exits = [], ex_tasks = []\<rparr>"

definition is_call :: "task_spec \<Rightarrow> bool" where
  "is_call t = (ts_template t \<noteq> None)"

definition fanned :: "task_spec \<Rightarrow> bool" where
  "fanned t = (ts_with_items t \<noteq> None \<or> ts_with_param t \<noteq> None)"

text \<open>What may be combined in one task.\<close>

definition body_problem :: "task_spec \<Rightarrow> shape_problem option" where
  "body_problem t =
     (let command = (ts_command t \<noteq> [])
      in if is_approval t then first_err [guard (is_call t) Gate_call, guard command Gate_command]
         else if is_workflow t then first_err [guard (is_call t) Trigger_call, guard command Trigger_command]
         else if is_wait t then first_err [guard (is_call t) Sensor_call, guard command Sensor_command]
         else guard (is_call t = command) Command_xor_template)"

definition call_problem :: "task_spec \<Rightarrow> shape_problem option" where
  "call_problem t =
     first_err
      [guard (is_call t \<and> ts_defer t \<noteq> None) Call_defer,
       guard (is_call t \<and> ts_image_pull_policy t \<noteq> None) Call_pull_policy,
       guard (is_call t \<and> ts_repeat t \<noteq> None) Call_repeat,
       guard (is_call t \<and> ts_forge_token t \<noteq> None) Call_forge_token,
       guard (is_call t \<and> ts_privileged t) Call_privileged]"

definition output_of_problem :: "task_spec \<Rightarrow> shape_problem option" where
  "output_of_problem t =
     (if ts_with_output_of t = None then None
      else first_err
        [guard (fanned t) Output_of_second_source,
         guard (is_call t) Output_of_call,
         guard (ts_gang t \<noteq> None) Output_of_gang,
         guard_opt (\<lambda>k. guard (k \<noteq> ''task'') (Output_of_kind k)) (ts_task_type t)])"

definition shape_problem_of :: "task_spec \<Rightarrow> shape_problem option" where
  "shape_problem_of t =
     first_err
      [body_problem t,
       call_problem t,
       guard (ts_with_items t \<noteq> None \<and> ts_with_param t \<noteq> None) Items_and_param,
       output_of_problem t,
       guard (ts_instance_key t \<noteq> None \<and> \<not> fanned t \<and> ts_with_output_of t = None) Key_without_fanout]"

text \<open>The parts of an \<open>and\<close> chain that name no task output are decided now; \<open>(keep, the rest)\<close>.\<close>

fun decide_parts :: "string list \<Rightarrow> expand_error + bool \<times> string list" where
  "decide_parts [] = Inr (True, [])"
| "decide_parts (part # parts) =
     (if when_refs_task_outputs part then
        and_then (decide_parts parts) (\<lambda>(keep, rest). Inr (keep, part # rest))
      else case eval_when part of
             Inl e \<Rightarrow> Inl (Condition_error e)
           | Inr v \<Rightarrow> and_then (decide_parts parts) (\<lambda>(keep, rest). Inr (v \<and> keep, rest)))"

text \<open>\<open>None\<close> where the condition can leave no instance, otherwise what is left of it.\<close>

definition simplify_when :: "string \<Rightarrow> expand_error + string option" where
  "simplify_when resolved =
     (if when_refs_task_outputs resolved \<and> length (split_word resolved ''or'') = 1 then
        (let parts = split_word resolved ''and''
         in if length parts > 1 then
              and_then (decide_parts parts)
                (\<lambda>(keep, rest). Inr (if keep then Some (join '' and '' rest) else None))
            else Inr (Some resolved))
      else Inr (Some resolved))"

text \<open>\<open>None\<close>: the instance is skipped. \<open>Some w\<close>: it exists, with \<open>w\<close> left for run time.\<close>

definition instance_when :: "task_spec \<Rightarrow> ctx \<Rightarrow> expand_error + string option option" where
  "instance_when t inst_ctx =
     (case ts_when t of
        None \<Rightarrow> Inr (Some None)
      | Some cond \<Rightarrow>
          and_then (simplify_when (substitute cond inst_ctx))
            (\<lambda>r. case r of
               None \<Rightarrow> Inr None
             | Some resolved \<Rightarrow>
                 if when_refs_task_outputs resolved then
                   (if is_call t then Inl (Condition_on_call (ts_name t)) else Inr (Some (Some resolved)))
                 else case eval_when resolved of
                        Inl e \<Rightarrow> Inl (Condition_error e)
                      | Inr v \<Rightarrow> Inr (if v then Some None else None)))"

text \<open>The name of an instance, and the labels used so far.\<close>

definition instance_base :: "task_spec \<Rightarrow> string \<Rightarrow> ctx \<Rightarrow> nat \<Rightarrow> string list \<Rightarrow> expand_error + string \<times> string list" where
  "instance_base t prefix inst_ctx i seen =
     (if fanned t then
        and_then (instance_label t inst_ctx i seen)
          (\<lambda>(label, seen'). Inr (prefix @ ts_name t @ ''.'' @ label, seen'))
      else Inr (prefix @ ts_name t, seen))"

definition leaf_instance :: "expand_io \<Rightarrow> task_spec \<Rightarrow> string \<Rightarrow> ctx \<Rightarrow> string option \<Rightarrow> nat \<Rightarrow> expand_error + expanded \<times> nat" where
  "leaf_instance io t base inst_ctx w budget =
     (if budget = 0 then Inl (Too_many_tasks (max_tasks_per_run (xio_env io)))
      else Inr (\<lparr>ex_roots = [base], ex_exits = [base], ex_tasks = [build_leaf t base inst_ctx w]\<rparr>, budget - 1))"

text \<open>A call, at the depth of the list: \<open>expand_call\<close> of the task under a name, in a scope, with a
  budget.\<close>

type_synonym caller = "task_spec \<Rightarrow> string \<Rightarrow> ctx \<Rightarrow> nat \<Rightarrow> expand_error + expanded \<times> nat"

definition append_expanded :: "expanded \<Rightarrow> expanded \<Rightarrow> expanded" where
  "append_expanded a b =
     \<lparr>ex_roots = ex_roots a @ ex_roots b, ex_exits = ex_exits a @ ex_exits b, ex_tasks = ex_tasks a @ ex_tasks b\<rparr>"

fun expand_items :: "expand_io \<Rightarrow> caller \<Rightarrow> task_spec \<Rightarrow> string \<Rightarrow> ctx \<Rightarrow> nat \<Rightarrow> string list
    \<Rightarrow> json option list \<Rightarrow> nat \<Rightarrow> expand_error + expanded \<times> nat" where
  "expand_items io call t prefix ctx i seen [] budget = Inr (no_tasks, budget)"
| "expand_items io call t prefix ctx i seen (item # items) budget =
     (let inst_ctx = (case item of None \<Rightarrow> ctx | Some v \<Rightarrow> instance_ctx io ctx i v)
      in and_then (instance_when t inst_ctx)
           (\<lambda>gate. case gate of
              None \<Rightarrow> expand_items io call t prefix ctx (i + 1) seen items budget
            | Some w \<Rightarrow>
                and_then (instance_base t prefix inst_ctx i seen)
                  (\<lambda>(base, seen').
                     and_then (if is_call t then call t base inst_ctx budget else leaf_instance io t base inst_ctx w budget)
                       (\<lambda>(inst, budget1).
                          and_then (expand_items io call t prefix ctx (i + 1) seen' items budget1)
                            (\<lambda>(rest, budget2). Inr (append_expanded inst rest, budget2))))))"

definition expand_one :: "expand_io \<Rightarrow> caller \<Rightarrow> string \<Rightarrow> ctx \<Rightarrow> task_spec \<Rightarrow> nat \<Rightarrow> expand_error + expanded \<times> nat" where
  "expand_one io call prefix ctx t budget =
     (case shape_problem_of t of
        Some p \<Rightarrow> Inl (Bad_shape (ts_name t) p)
      | None \<Rightarrow>
          and_then (resolve_items io t ctx)
            (\<lambda>items. if fanned t \<and> items = [] then Inl (Items_none (ts_name t))
                     else expand_items io call t prefix ctx 0 [] items budget))"

subsection \<open>A list of siblings\<close>

fun expand_each :: "(task_spec \<Rightarrow> nat \<Rightarrow> expand_error + expanded \<times> nat) \<Rightarrow> string list \<Rightarrow> task_spec list \<Rightarrow> nat
    \<Rightarrow> expand_error + (string \<times> expanded) list \<times> nat" where
  "expand_each one seen [] budget = Inr ([], budget)"
| "expand_each one seen (t # ts) budget =
     (if ts_name t \<in> set seen then Inl (Sibling_twice (ts_name t))
      else and_then (one t budget)
             (\<lambda>(e, budget1). and_then (expand_each one (ts_name t # seen) ts budget1)
                (\<lambda>(es, budget2). Inr ((ts_name t, e) # es, budget2))))"

text \<open>A sibling that became one row under another name.\<close>

definition renamed_rows :: "(string \<times> expanded) list \<Rightarrow> string btree" where
  "renamed_rows per =
     concat (map (\<lambda>(name, e). case ex_exits e of [only] \<Rightarrow> if only \<noteq> name then [(name, only)] else [] | _ \<Rightarrow> []) per)"

definition dep_exits :: "(string \<times> expanded) list \<Rightarrow> task_spec \<Rightarrow> expand_error + string list" where
  "dep_exits per t =
     and_then
       (try_map (\<lambda>d. case map_of per d of None \<Rightarrow> Inl (Sibling_unknown (ts_name t) d) | Some e \<Rightarrow> Inr (ex_exits e))
          (ts_depends_on t))
       (\<lambda>es. Inr (concat es))"

definition wire_leaf :: "string btree \<Rightarrow> task_spec \<Rightarrow> task_spec" where
  "wire_leaf renamed task =
     task\<lparr>ts_when := map_option (\<lambda>w. rename_output_refs w renamed) (ts_when task),
          ts_env_from := map (\<lambda>f. f\<lparr>ef_task := (case map_of renamed (ef_task f) of Some row \<Rightarrow> row | None \<Rightarrow> ef_task f)\<rparr>)
            (ts_env_from task)\<rparr>"

definition wire_task :: "string btree \<Rightarrow> task_spec \<Rightarrow> string list \<Rightarrow> string list \<Rightarrow> task_spec \<Rightarrow> task_spec" where
  "wire_task renamed t roots deps task =
     (let task1 = (if ts_name task \<in> set roots then task\<lparr>ts_depends_on := deps\<rparr> else task)
      in if ts_template t = None \<and> renamed \<noteq> [] then wire_leaf renamed task1 else task1)"

text \<open>The tasks of one sibling, rewired.\<close>

definition wire_sibling :: "(string \<times> expanded) list \<Rightarrow> task_spec \<times> expanded \<Rightarrow> expand_error + task_spec list" where
  "wire_sibling per = (\<lambda>(t, e).
     and_then (dep_exits per t) (\<lambda>deps. Inr (map (wire_task (renamed_rows per) t (ex_roots e) deps) (ex_tasks e))))"

definition expand_list :: "expand_io \<Rightarrow> caller \<Rightarrow> task_spec list \<Rightarrow> string \<Rightarrow> ctx \<Rightarrow> nat \<Rightarrow> expand_error + expanded \<times> nat" where
  "expand_list io call tasks prefix ctx budget =
     and_then (expand_each (expand_one io call prefix ctx) [] tasks budget)
       (\<lambda>(per, budget1).
          let siblings = zip tasks (map snd per);
              depended = concat (map ts_depends_on tasks)
          in and_then (try_map (wire_sibling per) siblings)
               (\<lambda>tss. Inr
                  (\<lparr>ex_roots = concat (map (\<lambda>(t, e). if ts_depends_on t = [] then ex_roots e else []) siblings),
                    ex_exits = concat (map (\<lambda>(t, e). if ts_name t \<notin> set depended then ex_exits e else []) siblings),
                    ex_tasks = concat tss\<rparr>, budget1)))"

subsection \<open>A call\<close>

text \<open>The scope of a template: its own defaults, then what the caller passes.\<close>

definition call_ctx :: "template_spec \<Rightarrow> task_spec \<Rightarrow> ctx \<Rightarrow> ctx" where
  "call_ctx tmpl t inst_ctx =
     bt_extend (tp_parameters tmpl) (map (\<lambda>(k, v). (k, substitute v inst_ctx)) (ts_arguments t))"

text \<open>\<open>template.unwrap()\<close>: only a call is expanded here.\<close>

function expand_call :: "expand_io \<Rightarrow> (string \<times> template_spec) list \<Rightarrow> nat \<Rightarrow> caller" where
  "expand_call io templates depth t base inst_ctx budget =
     (if depth + 1 > max_depth then Inl (Too_deep (ts_name t))
      else
        (let name = (case ts_template t of Some n \<Rightarrow> n | None \<Rightarrow> [])
         in case map_of templates name of
              None \<Rightarrow> Inl (Template_unknown (ts_name t) name)
            | Some tmpl \<Rightarrow>
                expand_list io (\<lambda>t' b' c' g'. expand_call io templates (depth + 1) t' b' c' g')
                  (tp_tasks tmpl) (base @ ''.'') (call_ctx tmpl t inst_ctx) budget))"
  by pat_completeness auto
termination
  by (relation "measure (\<lambda>(_, _, depth, _). max_depth - depth)") auto

declare expand_call.simps [simp del]

subsection \<open>A workflow\<close>

fun template_twice :: "string list \<Rightarrow> template_spec list \<Rightarrow> expand_error option" where
  "template_twice seen [] = None"
| "template_twice seen (t # ts) =
     (if tp_name t \<in> set seen then Some (Template_twice (tp_name t)) else template_twice (tp_name t # seen) ts)"

definition fold_defaults :: "dag_spec \<Rightarrow> dag_spec" where
  "fold_defaults spec =
     (case ds_task_defaults spec of
        None \<Rightarrow> spec
      | Some d \<Rightarrow>
          spec\<lparr>ds_task_defaults := None,
               ds_tasks := map (apply_task_defaults d) (ds_tasks spec),
               ds_templates := map (\<lambda>t. t\<lparr>tp_tasks := map (apply_task_defaults d) (tp_tasks t)\<rparr>) (ds_templates spec)\<rparr>)"

definition expand :: "expand_io \<Rightarrow> dag_spec \<Rightarrow> expand_error + dag_spec" where
  "expand io spec0 =
     (if ds_uses spec0 \<noteq> [] then Inl (Uses_unresolved (ds_uses spec0))
      else
        (let spec = fold_defaults spec0;
             templates = map (\<lambda>t. (tp_name t, t)) (ds_templates spec)
         in case template_twice [] (ds_templates spec) of
              Some e \<Rightarrow> Inl e
            | None \<Rightarrow>
                and_then (expand_list io (expand_call io templates 0) (ds_tasks spec) [] (ds_parameters spec)
                            (max_tasks_per_run (xio_env io)))
                  (\<lambda>(e, _). and_then (wire_hooks (ex_tasks e))
                     (\<lambda>tasks. Inr (spec\<lparr>ds_parameters := [], ds_param_schema := [], ds_templates := [], ds_uses := [],
                        ds_concurrency_key := fill_opt (ds_parameters spec) (ds_concurrency_key spec),
                        ds_task_defaults := None, ds_tasks := tasks\<rparr>)))))"

subsection \<open>From a workflow that has been read to its graph\<close>

datatype submit_error = Params_refused param_error | Not_expanded expand_error | Not_a_graph dag_error

text \<open>\<open>from_yaml\<close> and \<open>from_yaml_with_params\<close>, from the specification \<open>serde_yaml\<close> has read on.\<close>

definition graph_of :: "dag_env \<Rightarrow> expand_io \<Rightarrow> bool \<Rightarrow> dag_spec \<Rightarrow> submit_error + dag_graph" where
  "graph_of env io run_now spec =
     (case check_params env spec run_now of
        Some e \<Rightarrow> Inl (Params_refused e)
      | None \<Rightarrow>
          (case expand io spec of
             Inl e \<Rightarrow> Inl (Not_expanded e)
           | Inr flat \<Rightarrow>
               (case from_spec env flat of
                  Inl e \<Rightarrow> Inl (Not_a_graph e)
                | Inr g \<Rightarrow> Inr (g\<lparr>dg_parameters := ds_parameters spec\<rparr>))))"

definition from_yaml :: "dag_env \<Rightarrow> expand_io \<Rightarrow> dag_spec \<Rightarrow> submit_error + dag_graph" where
  "from_yaml env io spec = graph_of env io False spec"

definition from_yaml_with_params :: "dag_env \<Rightarrow> expand_io \<Rightarrow> dag_spec \<Rightarrow> string btree \<Rightarrow> submit_error + dag_graph" where
  "from_yaml_with_params env io spec overrides =
     graph_of env io True (spec\<lparr>ds_parameters := bt_extend (ds_parameters spec) overrides\<rparr>)"

end
