(* ===== verification/Expand_Wiring.thy ===== *)
theory Expand_Wiring
  imports Expand Dag_Props
begin

text \<open>
  How an expansion is wired: whatever holds of a leaf, of instances put side by side and of a
  rewired list of siblings holds of every expansion (a locale, interpreted three times); the
  dependencies of an expansion are among its own tasks; and where no task can be dropped it keeps
  the order of the siblings.
\<close>

subsection \<open>What every expansion has\<close>

definition leaf_of :: "task_spec \<Rightarrow> string \<Rightarrow> ctx \<Rightarrow> string option \<Rightarrow> expanded" where
  "leaf_of t base ctx w = \<lparr>ex_roots = [base], ex_exits = [base], ex_tasks = [build_leaf t base ctx w]\<rparr>"

definition per_of :: "task_spec list \<Rightarrow> expanded list \<Rightarrow> (string \<times> expanded) list" where
  "per_of tasks es = zip (map ts_name tasks) es"

definition list_of :: "task_spec list \<Rightarrow> expanded list \<Rightarrow> task_spec list list \<Rightarrow> expanded" where
  "list_of tasks es tss =
     \<lparr>ex_roots = concat (map (\<lambda>(t, e). if ts_depends_on t = [] then ex_roots e else []) (zip tasks es)),
      ex_exits = concat (map (\<lambda>(t, e). if ts_name t \<notin> set (concat (map ts_depends_on tasks)) then ex_exits e else [])
         (zip tasks es)),
      ex_tasks = concat tss\<rparr>"

lemma append_no_tasks [simp]: "append_expanded e no_tasks = e"
  by (simp add: append_expanded_def no_tasks_def)

lemma append_sel [simp]:
  "ex_roots (append_expanded a b) = ex_roots a @ ex_roots b"
  "ex_exits (append_expanded a b) = ex_exits a @ ex_exits b"
  "ex_tasks (append_expanded a b) = ex_tasks a @ ex_tasks b"
  by (simp_all add: append_expanded_def)

lemma no_tasks_sel [simp]: "ex_roots no_tasks = []" "ex_exits no_tasks = []" "ex_tasks no_tasks = []"
  by (simp_all add: no_tasks_def)

lemma leaf_of_sel [simp]:
  "ex_roots (leaf_of t base ctx w) = [base]" "ex_exits (leaf_of t base ctx w) = [base]"
  "ex_tasks (leaf_of t base ctx w) = [build_leaf t base ctx w]"
  by (simp_all add: leaf_of_def)

lemma leaf_instance_Inr:
  "leaf_instance io t base ctx w b = Inr (e, b') \<longleftrightarrow> b = Suc b' \<and> e = leaf_of t base ctx w"
  by (cases b) (auto simp: leaf_instance_def leaf_of_def)

lemma try_map_Inr: "try_map f xs = Inr ys \<longleftrightarrow> list_all2 (\<lambda>x y. f x = Inr y) xs ys"
  by (induction xs arbitrary: ys) (auto simp: and_then_Inr list_all2_Cons1)

lemma expand_each_Inr:
  "expand_each one seen tasks b = Inr (per, b') \<Longrightarrow>
     \<exists>es. per = per_of tasks es \<and> length es = length tasks \<and> distinct (map ts_name tasks)
       \<and> set (map ts_name tasks) \<inter> set seen = {}"
proof (induction tasks arbitrary: seen b per)
  case (Cons t ts)
  from Cons.prems obtain e b1 es per1 where s:
    "ts_name t \<notin> set seen" "expand_each one (ts_name t # seen) ts b1 = Inr (per1, b')" "per = (ts_name t, e) # per1"
    by (auto simp: and_then_Inr split: if_splits)
  from Cons.IH [OF s(2)] obtain es where
    "per1 = per_of ts es" "length es = length ts" "distinct (map ts_name ts)"
    "set (map ts_name ts) \<inter> set (ts_name t # seen) = {}" by blast
  with s show ?case by (intro exI [of _ "e # es"]) (auto simp: per_of_def)
qed (simp add: per_of_def)

text \<open>Every sibling was expanded with some budget, and the budgets add up.\<close>

lemma expand_each_all:
  assumes "expand_each one seen tasks b = Inr (per, b')"
    and "\<And>t b e b'. t \<in> set tasks \<Longrightarrow> one t b = Inr (e, b') \<Longrightarrow> P t e \<and> b = b' + length (ex_tasks e)"
  shows "list_all2 P tasks (map snd per) \<and> b = b' + sum_list (map (\<lambda>e. length (ex_tasks e)) (map snd per))"
  using assms
proof (induction tasks arbitrary: seen b per)
  case (Cons t ts)
  from Cons.prems(1) obtain e b1 per1 where s:
    "one t b = Inr (e, b1)" "expand_each one (ts_name t # seen) ts b1 = Inr (per1, b')" "per = (ts_name t, e) # per1"
    by (auto simp: and_then_Inr split: if_splits)
  from Cons.IH [OF s(2)] Cons.prems(2)
  have "list_all2 P ts (map snd per1) \<and> b1 = b' + sum_list (map (\<lambda>e. length (ex_tasks e)) (map snd per1))" by auto
  moreover have "P t e \<and> b = b1 + length (ex_tasks e)" using Cons.prems(2) [OF _ s(1)] by simp
  ultimately show ?case using s(3) by simp
qed simp

lemma expand_list_Inr:
  assumes "expand_list io call tasks prefix ctx b = Inr (e, b')"
  obtains es tss where "expand_each (expand_one io call prefix ctx) [] tasks b = Inr (per_of tasks es, b')"
    "length es = length tasks" "distinct (map ts_name tasks)"
    "try_map (wire_sibling (per_of tasks es)) (zip tasks es) = Inr tss" "e = list_of tasks es tss"
proof -
  from assms obtain per b1 tss where s: "expand_each (expand_one io call prefix ctx) [] tasks b = Inr (per, b')"
    "try_map (wire_sibling per) (zip tasks (map snd per)) = Inr tss"
    "e = \<lparr>ex_roots = concat (map (\<lambda>(t, e). if ts_depends_on t = [] then ex_roots e else []) (zip tasks (map snd per))),
          ex_exits = concat (map (\<lambda>(t, e). if ts_name t \<notin> set (concat (map ts_depends_on tasks)) then ex_exits e else [])
            (zip tasks (map snd per))),
          ex_tasks = concat tss\<rparr>"
    by (auto simp: expand_list_def and_then_Inr Let_def)
  from expand_each_Inr [OF s(1)] obtain es where
    es: "per = per_of tasks es" "length es = length tasks" "distinct (map ts_name tasks)" by blast
  moreover have "map snd per = es" using es by (simp add: per_of_def)
  ultimately show ?thesis using that s by (simp add: list_of_def)
qed

lemma wire_task_name [simp]: "ts_name (wire_task rn t roots deps task) = ts_name task"
  by (simp add: wire_task_def wire_leaf_def Let_def)

lemma wired_tasks:
  assumes "try_map (wire_sibling per) (zip tasks es) = Inr tss" "length es = length tasks"
  shows "map (map ts_name) tss = map (\<lambda>e. map ts_name (ex_tasks e)) es \<and> map length tss = map (\<lambda>e. length (ex_tasks e)) es"
  using assms
proof (induction tasks es arbitrary: tss rule: list_induct2')
  case (4 t ts e es)
  then obtain us uss where u: "tss = us # uss" "wire_sibling per (t, e) = Inr us"
    "try_map (wire_sibling per) (zip ts es) = Inr uss" by (auto simp: and_then_Inr)
  from u(2) have "map ts_name us = map ts_name (ex_tasks e)" "length us = length (ex_tasks e)"
    by (auto simp: wire_sibling_def and_then_Inr)
  with 4 u show ?case by simp
qed auto

text \<open>
  A property of expansions. Where \<open>solid\<close> is set, only workflows none of whose tasks can be dropped
  are considered, and the property need not hold of an empty expansion.
\<close>

definition solid_tasks :: "task_spec list \<Rightarrow> bool" where
  "solid_tasks tasks = (tasks \<noteq> [] \<and> list_all (\<lambda>t. ts_when t = None) tasks)"

definition solid_templates :: "(string \<times> template_spec) list \<Rightarrow> bool" where
  "solid_templates templates = list_all (\<lambda>(_, tm). solid_tasks (tp_tasks tm)) templates"

lemma solid_templatesD: "solid_templates tms \<Longrightarrow> map_of tms n = Some tm \<Longrightarrow> solid_tasks (tp_tasks tm)"
  by (auto simp: solid_templates_def list_all_iff dest: map_of_SomeD)

definition spends :: "(expanded \<Rightarrow> bool) \<Rightarrow> expanded \<Rightarrow> nat \<Rightarrow> nat \<Rightarrow> bool" where
  "spends P e b b' = (P e \<and> b = b' + length (ex_tasks e))"

locale expansion_inv =
  fixes P :: "expanded \<Rightarrow> bool" and solid :: bool
  assumes empty: "\<not> solid \<Longrightarrow> P no_tasks"
    and leaf: "P (leaf_of t base ctx w)"
    and append: "P a \<Longrightarrow> P b \<Longrightarrow> P (append_expanded a b)"
    and siblings: "\<lbrakk>distinct (map ts_name tasks); length es = length tasks; list_all P es; solid \<longrightarrow> tasks \<noteq> [];
       try_map (wire_sibling (per_of tasks es)) (zip tasks es) = Inr tss\<rbrakk> \<Longrightarrow> P (list_of tasks es tss)"
begin

lemma inv_items:
  assumes "expand_items io call t prefix ctx i seen items b = Inr (e, b')"
    and "solid \<longrightarrow> ts_when t = None \<and> items \<noteq> []"
    and "\<And>base c b e b'. is_call t \<Longrightarrow> call t base c b = Inr (e, b') \<Longrightarrow> spends P e b b'"
  shows "spends P e b b'"
  using assms(1,2)
proof (induction items arbitrary: i seen b e)
  case Nil
  then show ?case by (simp add: spends_def empty)
next
  case (Cons item items)
  let ?c = "case item of None \<Rightarrow> ctx | Some v \<Rightarrow> instance_ctx io ctx i v"
  from Cons.prems(1) obtain gate where g: "instance_when t ?c = Inr gate"
    by (auto simp: Let_def and_then_Inr)
  show ?case
  proof (cases gate)
    case None
    with g Cons.prems have "\<not> solid" by (auto simp: instance_when_def)
    moreover from None g Cons.prems(1) have "expand_items io call t prefix ctx (i + 1) seen items b = Inr (e, b')"
      by (simp add: Let_def)
    ultimately show ?thesis using Cons.IH by blast
  next
    case (Some w)
    with g Cons.prems(1) obtain base seen' inst b1 rest where s:
      "(if is_call t then call t base ?c b else leaf_instance io t base ?c w b) = Inr (inst, b1)"
      "expand_items io call t prefix ctx (i + 1) seen' items b1 = Inr (rest, b')" "e = append_expanded inst rest"
      by (auto simp: Let_def and_then_Inr)
    have inst: "spends P inst b b1"
    proof (cases "is_call t")
      case True
      with s(1) assms(3) show ?thesis by simp
    next
      case False
      with s(1) show ?thesis by (simp add: leaf_instance_Inr spends_def leaf)
    qed
    show ?thesis
    proof (cases "solid \<and> items = []")
      case True
      with s(2,3) inst show ?thesis by simp
    next
      case False
      with Cons.prems(2) Cons.IH [OF s(2)] have "spends P rest b1 b'" by simp
      with inst s(3) show ?thesis by (simp add: spends_def append)
    qed
  qed
qed

lemma inv_one:
  assumes "expand_one io call prefix ctx t b = Inr (e, b')" "solid \<longrightarrow> ts_when t = None"
    and "\<And>base c b e b'. is_call t \<Longrightarrow> call t base c b = Inr (e, b') \<Longrightarrow> spends P e b b'"
  shows "spends P e b b'"
proof -
  from assms(1) obtain items where "resolve_items io t ctx = Inr items" "fanned t \<longrightarrow> items \<noteq> []"
    and e: "expand_items io call t prefix ctx 0 [] items b = Inr (e, b')"
    by (auto simp: expand_one_def and_then_Inr split: option.splits if_splits)
  then have "items \<noteq> []" by (auto simp: fanned_def resolve_items_def split: option.splits)
  with assms(2,3) inv_items [OF e] show ?thesis by blast
qed

lemma inv_each:
  assumes "expand_each (expand_one io call prefix ctx) [] tasks b = Inr (per_of tasks es, b')" "length es = length tasks"
    "solid \<longrightarrow> solid_tasks tasks"
    and "\<And>t base c b e b'. t \<in> set tasks \<Longrightarrow> is_call t \<Longrightarrow> call t base c b = Inr (e, b') \<Longrightarrow> spends P e b b'"
  shows "list_all P es \<and> b = b' + sum_list (map (\<lambda>e. length (ex_tasks e)) es)"
proof -
  have "P e \<and> b = b' + length (ex_tasks e)" if "t \<in> set tasks" "expand_one io call prefix ctx t b = Inr (e, b')" for t b e b'
    using inv_one [OF that(2)] assms(3,4) that(1) by (auto simp: spends_def solid_tasks_def list_all_iff)
  from expand_each_all [OF assms(1), of "\<lambda>_. P", OF this] assms(2) show ?thesis
    by (auto simp: per_of_def list_all2_conv_all_nth list_all_length)
qed

lemma inv_list:
  assumes "expand_list io call tasks prefix ctx b = Inr (e, b')" "solid \<longrightarrow> solid_tasks tasks"
    and "\<And>t base c b e b'. t \<in> set tasks \<Longrightarrow> is_call t \<Longrightarrow> call t base c b = Inr (e, b') \<Longrightarrow> spends P e b b'"
  shows "spends P e b b'"
proof -
  from assms(1) obtain es tss where s:
    "expand_each (expand_one io call prefix ctx) [] tasks b = Inr (per_of tasks es, b')"
    "length es = length tasks" "distinct (map ts_name tasks)"
    "try_map (wire_sibling (per_of tasks es)) (zip tasks es) = Inr tss" "e = list_of tasks es tss"
    by (rule expand_list_Inr)
  from inv_each [OF s(1,2) assms(2,3)] have a: "list_all P es" "b = b' + sum_list (map (\<lambda>e. length (ex_tasks e)) es)" by simp_all
  have "P e" unfolding s(5) using a(1) s(2-4) assms(2) by (intro siblings) (auto simp: solid_tasks_def)
  moreover have "length (ex_tasks e) = sum_list (map length tss)" by (simp add: s(5) list_of_def length_concat)
  ultimately show ?thesis using a(2) wired_tasks [OF s(4,2)] by (simp add: spends_def)
qed

lemma inv_call:
  "(solid \<longrightarrow> solid_templates templates) \<Longrightarrow> expand_call io templates depth t base ctx b = Inr (e, b') \<Longrightarrow> spends P e b b'"
proof (induction io templates depth t base ctx b arbitrary: e b' rule: expand_call.induct)
  case (1 io templates depth t base inst_ctx b)
  from "1.prems" obtain n tmpl where s: "depth + 1 \<le> max_depth" "map_of templates n = Some tmpl"
    "n = (case ts_template t of Some n \<Rightarrow> n | None \<Rightarrow> [])"
    and l: "expand_list io (\<lambda>t' b' c' g'. expand_call io templates (depth + 1) t' b' c' g') (tp_tasks tmpl)
       (base @ ''.'') (call_ctx tmpl t inst_ctx) b = Inr (e, b')"
    by (subst (asm) expand_call.simps) (auto simp: Let_def split: if_splits option.splits)
  from "1.prems"(1) s(2) have "solid \<longrightarrow> solid_tasks (tp_tasks tmpl)" using solid_templatesD by blast
  then show ?case using "1.IH" "1.prems"(1) s by (intro inv_list [OF l]) auto
qed

lemma inv_workflow:
  assumes "expand_list io (expand_call io templates d) tasks prefix ctx b = Inr (e, b')"
    "solid \<longrightarrow> solid_tasks tasks \<and> solid_templates templates"
  shows "spends P e b b'"
  using assms(2) by (intro inv_list [OF assms(1)] inv_call) simp_all

lemma inv_siblings:
  assumes "expand_each (expand_one io (expand_call io templates d) prefix ctx) [] tasks b = Inr (per_of tasks es, b')"
    "length es = length tasks" "solid \<longrightarrow> solid_tasks tasks \<and> solid_templates templates"
  shows "list_all P es"
  using assms(3) by (intro conjunct1 [OF inv_each [OF assms(1,2)]] inv_call) simp_all

end

subsection \<open>Rewiring\<close>

lemma wire_task_sel [simp]:
  "ts_depends_on (wire_task rn t roots deps task) = (if ts_name task \<in> set roots then deps else ts_depends_on task)"
  "ts_template (wire_task rn t roots deps task) = ts_template task"
  "ts_with_items (wire_task rn t roots deps task) = ts_with_items task"
  "ts_with_param (wire_task rn t roots deps task) = ts_with_param task"
  by (simp_all add: wire_task_def wire_leaf_def Let_def)

lemma list_all2_left: "list_all2 R xs ys \<Longrightarrow> x \<in> set xs \<Longrightarrow> \<exists>y \<in> set ys. R x y"
  by (induction rule: list_all2_induct) auto

lemma list_all2_right: "list_all2 R xs ys \<Longrightarrow> y \<in> set ys \<Longrightarrow> \<exists>x \<in> set xs. R x y"
  by (induction rule: list_all2_induct) auto

lemma dep_exits_Inr:
  assumes "dep_exits per t = Inr deps"
  shows "\<And>d. d \<in> set (ts_depends_on t) \<Longrightarrow> \<exists>e. map_of per d = Some e \<and> set (ex_exits e) \<subseteq> set deps"
    "\<And>x. x \<in> set deps \<Longrightarrow> \<exists>d e. d \<in> set (ts_depends_on t) \<and> map_of per d = Some e \<and> x \<in> set (ex_exits e)"
proof -
  let ?f = "\<lambda>d. case map_of per d of None \<Rightarrow> Inl (Sibling_unknown (ts_name t) d) | Some e \<Rightarrow> Inr (ex_exits e)"
  from assms obtain ess where ess: "list_all2 (\<lambda>d es. ?f d = Inr es) (ts_depends_on t) ess" "deps = concat ess"
    by (auto simp: dep_exits_def and_then_Inr try_map_Inr)
  have f: "?f d = Inr es \<longleftrightarrow> (\<exists>e. map_of per d = Some e \<and> es = ex_exits e)" for d es
    by (auto split: option.splits)
  show "\<exists>e. map_of per d = Some e \<and> set (ex_exits e) \<subseteq> set deps" if d: "d \<in> set (ts_depends_on t)" for d
  proof -
    from list_all2_left [OF ess(1)] d obtain es where "es \<in> set ess" "?f d = Inr es" by blast
    with f ess(2) show ?thesis by auto
  qed
  show "\<exists>d e. d \<in> set (ts_depends_on t) \<and> map_of per d = Some e \<and> x \<in> set (ex_exits e)" if x: "x \<in> set deps" for x
  proof -
    from x ess(2) obtain es where "es \<in> set ess" "x \<in> set es" by auto
    with list_all2_right [OF ess(1)] obtain d where d: "d \<in> set (ts_depends_on t)" "?f d = Inr es" by blast
    from d(2) obtain e where "map_of per d = Some e" "es = ex_exits e" unfolding f by blast
    with d(1) \<open>x \<in> set es\<close> show ?thesis by blast
  qed
qed

lemma wire_list_Inr:
  assumes "try_map (wire_sibling per) (zip tasks es) = Inr tss"
  shows "(t, e) \<in> set (zip tasks es) \<Longrightarrow> \<exists>deps. dep_exits per t = Inr deps
      \<and> (\<forall>task \<in> set (ex_tasks e). wire_task (renamed_rows per) t (ex_roots e) deps task \<in> set (concat tss))"
    and "u \<in> set (concat tss) \<Longrightarrow> \<exists>t e task deps. (t, e) \<in> set (zip tasks es) \<and> task \<in> set (ex_tasks e)
      \<and> dep_exits per t = Inr deps \<and> u = wire_task (renamed_rows per) t (ex_roots e) deps task"
proof -
  have w: "wire_sibling per (t, e) = Inr us \<longleftrightarrow>
      (\<exists>deps. dep_exits per t = Inr deps \<and> us = map (wire_task (renamed_rows per) t (ex_roots e) deps) (ex_tasks e))" for t e us
    by (auto simp: wire_sibling_def and_then_Inr)
  have all: "list_all2 (\<lambda>x us. wire_sibling per x = Inr us) (zip tasks es) tss"
    using assms by (simp add: try_map_Inr)
  show "\<exists>deps. dep_exits per t = Inr deps
      \<and> (\<forall>task \<in> set (ex_tasks e). wire_task (renamed_rows per) t (ex_roots e) deps task \<in> set (concat tss))"
    if "(t, e) \<in> set (zip tasks es)"
  proof -
    from list_all2_left [OF all] that obtain us where us: "us \<in> set tss" "wire_sibling per (t, e) = Inr us" by blast
    with w obtain deps where "dep_exits per t = Inr deps" "us = map (wire_task (renamed_rows per) t (ex_roots e) deps) (ex_tasks e)" by blast
    moreover have "set us \<subseteq> set (concat tss)" using us(1) by auto
    ultimately show ?thesis by auto
  qed
  show "\<exists>t e task deps. (t, e) \<in> set (zip tasks es) \<and> task \<in> set (ex_tasks e)
      \<and> dep_exits per t = Inr deps \<and> u = wire_task (renamed_rows per) t (ex_roots e) deps task" if "u \<in> set (concat tss)"
  proof -
    from that obtain us where us: "us \<in> set tss" "u \<in> set us" by auto
    from list_all2_right [OF all us(1)] obtain t e where "(t, e) \<in> set (zip tasks es)" "wire_sibling per (t, e) = Inr us" by auto
    with us w show ?thesis by (auto 0 4)
  qed
qed

lemma per_of_lookup:
  assumes "distinct (map ts_name tasks)" "length es = length tasks"
  shows "map_of (per_of tasks es) n = Some e \<longleftrightarrow> (\<exists>t. (t, e) \<in> set (zip tasks es) \<and> ts_name t = n)"
proof -
  have p: "per_of tasks es = map (\<lambda>(t, e). (ts_name t, e)) (zip tasks es)"
    unfolding per_of_def by (simp add: zip_map1)
  have "distinct (map fst (per_of tasks es))" using assms by (simp add: per_of_def)
  then show ?thesis by (subst map_of_eq_Some_iff) (auto simp: p)
qed

subsection \<open>Leaves, within the budget\<close>

definition leaf_task :: "task_spec \<Rightarrow> bool" where
  "leaf_task t = (ts_template t = None \<and> ts_with_items t = None \<and> ts_with_param t = None)"

definition all_leaves :: "expanded \<Rightarrow> bool" where
  "all_leaves e = list_all leaf_task (ex_tasks e)"

lemma leaf_task_wire [simp]: "leaf_task (wire_task rn t roots deps task) = leaf_task task"
  by (simp add: leaf_task_def)

interpretation leaves: expansion_inv all_leaves False
proof (unfold_locales, goal_cases)
  case (4 tasks es tss)
  show ?case unfolding all_leaves_def list_all_iff
  proof
    fix u assume "u \<in> set (ex_tasks (list_of tasks es tss))"
    with wire_list_Inr(2) [OF 4(5), of u] obtain t e task rn deps where
      "(t, e) \<in> set (zip tasks es)" "task \<in> set (ex_tasks e)" "u = wire_task rn t (ex_roots e) deps task"
      by (auto simp: list_of_def)
    moreover from this 4(3) have "leaf_task task" by (auto simp: list_all_iff all_leaves_def dest: set_zip_rightD)
    ultimately show "leaf_task u" by simp
  qed
qed (auto simp: all_leaves_def build_leaf_def leaf_task_def)

subsection \<open>Dependencies among the tasks of an expansion\<close>

definition row_names :: "expanded \<Rightarrow> string list" where
  "row_names e = map ts_name (ex_tasks e)"

definition closed :: "expanded \<Rightarrow> bool" where
  "closed e =
     (set (ex_roots e) \<subseteq> set (row_names e) \<and> set (ex_exits e) \<subseteq> set (row_names e)
      \<and> list_all (\<lambda>t. set (ts_depends_on t) \<subseteq> set (row_names e)) (ex_tasks e))"

lemma row_names_list:
  assumes "try_map (wire_sibling per) (zip tasks es) = Inr tss" "length es = length tasks"
  shows "row_names (list_of tasks es tss) = concat (map row_names es)"
proof -
  have "row_names (list_of tasks es tss) = concat (map (map ts_name) tss)"
    by (simp add: row_names_def list_of_def map_concat)
  also have "\<dots> = concat (map (\<lambda>e. map ts_name (ex_tasks e)) es)" using wired_tasks [OF assms] by (metis)
  finally show ?thesis by (simp add: row_names_def [abs_def])
qed

lemma row_names_append [simp]: "row_names (append_expanded a b) = row_names a @ row_names b"
  by (simp add: row_names_def)

lemma row_names_leaf [simp]: "row_names (leaf_of t base ctx w) = [base]"
  by (simp add: row_names_def build_leaf_def)

lemma row_names_part: "(t, e) \<in> set (zip tasks es) \<Longrightarrow> set (row_names e) \<subseteq> set (concat (map row_names es))"
  by (auto dest: set_zip_rightD)

lemma closed_siblings:
  assumes d: "distinct (map ts_name tasks)" "length es = length tasks" and ok: "list_all closed es"
    and w: "try_map (wire_sibling (per_of tasks es)) (zip tasks es) = Inr tss"
  shows "closed (list_of tasks es tss)"
proof -
  let ?N = "set (concat (map row_names es))"
  have c: "set (ex_roots e) \<subseteq> ?N" "set (ex_exits e) \<subseteq> ?N" "\<And>x. x \<in> set (ex_tasks e) \<Longrightarrow> set (ts_depends_on x) \<subseteq> ?N"
    if "(t, e) \<in> set (zip tasks es)" for t e
  proof -
    have "closed e" using that ok by (auto simp: list_all_iff dest: set_zip_rightD)
    with row_names_part [OF that] show "set (ex_roots e) \<subseteq> ?N" "set (ex_exits e) \<subseteq> ?N"
      "\<And>x. x \<in> set (ex_tasks e) \<Longrightarrow> set (ts_depends_on x) \<subseteq> ?N"
      unfolding closed_def list_all_iff by blast+
  qed
  have "set (ts_depends_on u) \<subseteq> ?N" if "u \<in> set (concat tss)" for u
  proof -
    from wire_list_Inr(2) [OF w that] obtain t e x deps where x: "(t, e) \<in> set (zip tasks es)" "x \<in> set (ex_tasks e)"
      "dep_exits (per_of tasks es) t = Inr deps" "u = wire_task (renamed_rows (per_of tasks es)) t (ex_roots e) deps x" by blast
    have "set deps \<subseteq> ?N"
      using dep_exits_Inr(2) [OF x(3)] per_of_lookup [OF d] c(2) by blast
    with x c(3) [OF x(1,2)] show ?thesis by simp
  qed
  moreover have "set (ex_roots (list_of tasks es tss)) \<subseteq> ?N" "set (ex_exits (list_of tasks es tss)) \<subseteq> ?N"
    using c(1,2) by (fastforce simp: list_of_def split: if_splits)+
  ultimately show ?thesis unfolding closed_def row_names_list [OF w d(2)] by (simp add: list_all_iff list_of_def)
qed

interpretation closed_inv: expansion_inv closed False
  by unfold_locales
    (auto simp: closed_siblings, auto simp: closed_def row_names_def list_all_iff build_leaf_def)

subsection \<open>Order\<close>

definition row_edges :: "task_spec list \<Rightarrow> (string \<times> string) set" where
  "row_edges ts = {(d, ts_name t) | d t. t \<in> set ts \<and> d \<in> set (ts_depends_on t)}"

lemma row_edgesI: "t \<in> set ts \<Longrightarrow> d \<in> set (ts_depends_on t) \<Longrightarrow> (d, ts_name t) \<in> row_edges ts"
  by (auto simp: row_edges_def)

lemma row_edges_append [simp]: "row_edges (a @ b) = row_edges a \<union> row_edges b"
  by (auto simp: row_edges_def)

definition rooted :: "expanded \<Rightarrow> bool" where
  "rooted e = list_all (\<lambda>t. ts_name t \<in> set (ex_roots e) \<longrightarrow> ts_depends_on t = []) (ex_tasks e)"

definition spans :: "(string \<times> string) set \<Rightarrow> expanded \<Rightarrow> bool" where
  "spans E e =
     (\<forall>n \<in> set (row_names e). (\<exists>r \<in> set (ex_roots e). (r, n) \<in> E\<^sup>*) \<and> (\<exists>x \<in> set (ex_exits e). (n, x) \<in> E\<^sup>*))"

lemma spans_mono: "spans E e \<Longrightarrow> E \<subseteq> E' \<Longrightarrow> spans E' e"
  unfolding spans_def using rtrancl_mono by (meson subsetD)

definition ordered :: "expanded \<Rightarrow> bool" where
  "ordered e =
     (closed e \<and> row_names e \<noteq> []
      \<and> (distinct (row_names e) \<longrightarrow> rooted e \<and> (acyclic (row_edges (ex_tasks e)) \<longrightarrow> spans (row_edges (ex_tasks e)) e)))"

lemma ordered_append:
  assumes "ordered a" "ordered b"
  shows "ordered (append_expanded a b)"
proof -
  have c: "closed (append_expanded a b)" using closed_inv.append assms by (auto simp: ordered_def)
  have "rooted (append_expanded a b) \<and> (acyclic (row_edges (ex_tasks a @ ex_tasks b)) \<longrightarrow> spans (row_edges (ex_tasks a @ ex_tasks b)) (append_expanded a b))"
    if d: "distinct (row_names a @ row_names b)"
  proof -
    have r: "rooted a" "rooted b" and cl: "closed a" "closed b" using assms d by (auto simp: ordered_def)
    have "rooted (append_expanded a b)"
      using r cl d by (auto simp: rooted_def closed_def list_all_iff row_names_def)
    moreover have "spans (row_edges (ex_tasks a @ ex_tasks b)) (append_expanded a b)"
      if ac: "acyclic (row_edges (ex_tasks a @ ex_tasks b))"
    proof -
      have "spans (row_edges (ex_tasks a @ ex_tasks b)) a" "spans (row_edges (ex_tasks a @ ex_tasks b)) b"
        using assms d ac by (auto simp: ordered_def intro: spans_mono acyclic_subset)
      then show ?thesis by (auto simp: spans_def)
    qed
    ultimately show ?thesis by blast
  qed
  with c assms show ?thesis by (auto simp: ordered_def)
qed

text \<open>The expansions of a list of siblings, all of them in order, under distinct names.\<close>

definition family :: "task_spec list \<Rightarrow> expanded list \<Rightarrow> task_spec list list \<Rightarrow> bool" where
  "family tasks es tss =
     (distinct (map ts_name tasks) \<and> length es = length tasks \<and> list_all ordered es
      \<and> try_map (wire_sibling (per_of tasks es)) (zip tasks es) = Inr tss \<and> distinct (concat (map row_names es)))"

lemma family_part:
  assumes "family tasks es tss" "(t, e) \<in> set (zip tasks es)"
  shows "closed e" "row_names e \<noteq> []" "distinct (row_names e)" "rooted e"
    "acyclic (row_edges (ex_tasks e)) \<Longrightarrow> spans (row_edges (ex_tasks e)) e"
proof -
  have e: "e \<in> set es" using assms(2) by (rule set_zip_rightD)
  then have "ordered e" using assms(1) by (simp add: family_def list_all_iff)
  moreover have "distinct (row_names e)" using e assms(1) by (auto simp: family_def distinct_concat_iff)
  ultimately show "closed e" "row_names e \<noteq> []" "distinct (row_names e)" "rooted e"
    "acyclic (row_edges (ex_tasks e)) \<Longrightarrow> spans (row_edges (ex_tasks e)) e"
    by (auto simp: ordered_def)
qed

lemma distinct_concat_parts:
  "distinct (concat xss) \<Longrightarrow> i < length xss \<Longrightarrow> j < length xss \<Longrightarrow> n \<in> set (xss ! i) \<Longrightarrow> n \<in> set (xss ! j) \<Longrightarrow> i = j"
proof (induction xss arbitrary: i j)
  case (Cons xs xss)
  have out: "n \<notin> set xs" if "k < length xss" "n \<in> set (xss ! k)" for k
    using nth_mem [OF that(1)] that(2) Cons.prems(1) by auto
  show ?case
  proof (cases i)
    case 0
    with Cons.prems out show ?thesis by (cases j) auto
  next
    case (Suc i')
    with Cons out show ?thesis by (cases j) auto
  qed
qed simp

lemma family_disjoint:
  assumes f: "family tasks es tss" and p: "(t, e) \<in> set (zip tasks es)" "(t', e') \<in> set (zip tasks es)"
    and n: "n \<in> set (row_names e)" "n \<in> set (row_names e')"
  shows "t = t' \<and> e = e'"
proof -
  from p obtain i j where ij: "i < length es" "j < length es" "es ! i = e" "es ! j = e'" "tasks ! i = t" "tasks ! j = t'"
    using f by (auto simp: in_set_zip family_def)
  then have "i = j"
    using f n distinct_concat_parts [of "map row_names es" i j n] by (simp add: family_def)
  with ij show ?thesis by simp
qed

lemma family_inner_edges:
  assumes f: "family tasks es tss" and p: "(t, e) \<in> set (zip tasks es)"
  shows "row_edges (ex_tasks e) \<subseteq> row_edges (concat tss)"
proof
  fix x assume "x \<in> row_edges (ex_tasks e)"
  then obtain task d where x: "x = (d, ts_name task)" "task \<in> set (ex_tasks e)" "d \<in> set (ts_depends_on task)"
    by (auto simp: row_edges_def)
  from f have w: "try_map (wire_sibling (per_of tasks es)) (zip tasks es) = Inr tss" by (simp add: family_def)
  from wire_list_Inr(1) [OF w p] x(2) obtain deps rn where
    u: "wire_task rn t (ex_roots e) deps task \<in> set (concat tss)" by blast
  have "ts_name task \<notin> set (ex_roots e)"
    using family_part(4) [OF f p] x(2,3) by (auto simp: rooted_def list_all_iff)
  with row_edgesI [OF u, of d] x show "x \<in> row_edges (concat tss)" by simp
qed

lemma family_link:
  assumes f: "family tasks es tss" and p: "(t, e) \<in> set (zip tasks es)" "(t', e') \<in> set (zip tasks es)"
    and d: "ts_name t' \<in> set (ts_depends_on t)" and r: "r \<in> set (ex_roots e)" and x: "x \<in> set (ex_exits e')"
  shows "(x, r) \<in> row_edges (concat tss)"
proof -
  from f have w: "try_map (wire_sibling (per_of tasks es)) (zip tasks es) = Inr tss" and
    dl: "distinct (map ts_name tasks)" "length es = length tasks" by (simp_all add: family_def)
  from wire_list_Inr(1) [OF w p(1)] obtain deps where deps: "dep_exits (per_of tasks es) t = Inr deps"
    "\<forall>task \<in> set (ex_tasks e). wire_task (renamed_rows (per_of tasks es)) t (ex_roots e) deps task \<in> set (concat tss)" by blast
  from family_part(1) [OF f p(1)] r obtain task where task: "task \<in> set (ex_tasks e)" "ts_name task = r"
    by (auto simp: closed_def row_names_def)
  from per_of_lookup [OF dl, of "ts_name t'" e'] p(2) have "map_of (per_of tasks es) (ts_name t') = Some e'" by blast
  with dep_exits_Inr(1) [OF deps(1) d] x have "x \<in> set deps" by auto
  with row_edgesI [OF deps(2) [rule_format, OF task(1)], of x] task r show ?thesis by simp
qed

lemma family_deps:
  assumes f: "family tasks es tss" and t: "t \<in> set tasks" and d: "d \<in> set (ts_depends_on t)"
  obtains t' e' where "(t', e') \<in> set (zip tasks es)" "ts_name t' = d"
proof -
  from f have w: "try_map (wire_sibling (per_of tasks es)) (zip tasks es) = Inr tss" and
    dl: "distinct (map ts_name tasks)" "length es = length tasks" by (simp_all add: family_def)
  from t dl(2) obtain e where "(t, e) \<in> set (zip tasks es)" by (metis in_set_impl_in_set_zip1)
  from wire_list_Inr(1) [OF w this] obtain deps where "dep_exits (per_of tasks es) t = Inr deps" by blast
  from dep_exits_Inr(1) [OF this d] obtain e' where "map_of (per_of tasks es) d = Some e'" by blast
  with per_of_lookup [OF dl] that show ?thesis by blast
qed

text \<open>Which sibling an author put before which.\<close>

definition author_order :: "task_spec list \<Rightarrow> (task_spec \<times> task_spec) set" where
  "author_order tasks = {(d, t) | d t. d \<in> set tasks \<and> t \<in> set tasks \<and> ts_name d \<in> set (ts_depends_on t)}"

lemma finite_author_order: "finite (author_order tasks)"
  by (rule finite_subset [of _ "set tasks \<times> set tasks"]) (auto simp: author_order_def)

lemma family_member: "family tasks es tss \<Longrightarrow> t \<in> set tasks \<Longrightarrow> \<exists>e. (t, e) \<in> set (zip tasks es)"
  unfolding family_def by (metis in_set_impl_in_set_zip1)

lemma family_spans:
  assumes "family tasks es tss" "acyclic (row_edges (concat tss))" "(t, e) \<in> set (zip tasks es)"
  shows "spans (row_edges (concat tss)) e"
  using family_part(5) [OF assms(1,3)] family_inner_edges [OF assms(1,3)] assms(2)
  by (meson acyclic_subset spans_mono)

lemma family_before_one:
  assumes f: "family tasks es tss" "acyclic (row_edges (concat tss))"
    and p: "(t, e) \<in> set (zip tasks es)" "(t', e') \<in> set (zip tasks es)"
    and n: "x \<in> set (row_names e')" "y \<in> set (row_names e)" and s: "(t', t) \<in> author_order tasks"
  shows "(x, y) \<in> (row_edges (concat tss))\<^sup>+"
proof -
  from family_spans [OF f p(1)] n(2) obtain r where r: "r \<in> set (ex_roots e)" "(r, y) \<in> (row_edges (concat tss))\<^sup>*"
    by (auto simp: spans_def)
  from family_spans [OF f p(2)] n(1) obtain z where z: "z \<in> set (ex_exits e')" "(x, z) \<in> (row_edges (concat tss))\<^sup>*"
    by (auto simp: spans_def)
  from s have "ts_name t' \<in> set (ts_depends_on t)" by (auto simp: author_order_def)
  with family_link [OF f(1) p(1,2) _ r(1) z(1)] have "(z, r) \<in> row_edges (concat tss)" by blast
  with r(2) z(2) show ?thesis by (meson rtrancl_into_trancl1 trancl_rtrancl_trancl)
qed

lemma family_before:
  assumes f: "family tasks es tss" "acyclic (row_edges (concat tss))"
    and o: "(t', t) \<in> (author_order tasks)\<^sup>+" and p: "(t', e') \<in> set (zip tasks es)" "x \<in> set (row_names e')"
  shows "(t, e) \<in> set (zip tasks es) \<Longrightarrow> y \<in> set (row_names e) \<Longrightarrow> (x, y) \<in> (row_edges (concat tss))\<^sup>+"
  using o
proof (induction arbitrary: e y rule: trancl_induct)
  case (base u)
  then show ?case using family_before_one [OF f] p by blast
next
  case (step u v)
  from step.hyps(2) obtain eu where eu: "(u, eu) \<in> set (zip tasks es)"
    using family_member [OF f(1)] by (auto simp: author_order_def)
  then obtain m where m: "m \<in> set (row_names eu)" using family_part(2) [OF f(1) eu] by (cases "row_names eu") auto
  from step.IH [OF eu m] family_before_one [OF f step.prems(1) eu m step.prems(2) step.hyps(2)]
  show ?case by (rule trancl_trans)
qed

lemma author_order_acyclic:
  assumes f: "family tasks es tss" "acyclic (row_edges (concat tss))"
  shows "acyclic (author_order tasks)"
proof (rule acyclicI, rule allI, rule notI)
  fix t assume c: "(t, t) \<in> (author_order tasks)\<^sup>+"
  have "author_order tasks \<subseteq> set tasks \<times> set tasks" by (auto simp: author_order_def)
  from trancl_subset_Sigma [OF this] c have "t \<in> set tasks" by blast
  then obtain e where e: "(t, e) \<in> set (zip tasks es)" using family_member [OF f(1)] by blast
  then obtain m where "m \<in> set (row_names e)" using family_part(2) [OF f(1) e] by (cases "row_names e") auto
  with family_before [OF f c e _ e] have "(m, m) \<in> (row_edges (concat tss))\<^sup>+" by blast
  with f(2) show False by (auto simp: acyclic_def)
qed

lemma family_first:
  assumes f: "family tasks es tss" "acyclic (row_edges (concat tss))"
  shows "t \<in> set tasks \<Longrightarrow> \<exists>t0 \<in> set tasks. ts_depends_on t0 = [] \<and> (t0, t) \<in> (author_order tasks)\<^sup>*"
proof (induction t rule: wf_induct_rule [OF finite_acyclic_wf [OF finite_author_order author_order_acyclic [OF f]]])
  case (1 t)
  show ?case
  proof (cases "ts_depends_on t")
    case (Cons d ds)
    then obtain t' e' where "(t', e') \<in> set (zip tasks es)" "ts_name t' = d"
      using family_deps [OF f(1) "1.prems", of d] by auto
    then have s: "(t', t) \<in> author_order tasks" "t' \<in> set tasks"
      using Cons "1.prems" by (auto simp: author_order_def dest: set_zip_leftD)
    with "1.IH" show ?thesis by (meson rtrancl.rtrancl_into_rtrancl)
  qed (use "1.prems" in blast)
qed

lemma family_last:
  assumes f: "family tasks es tss" "acyclic (row_edges (concat tss))"
  shows "t \<in> set tasks \<Longrightarrow>
    \<exists>t1 \<in> set tasks. ts_name t1 \<notin> set (concat (map ts_depends_on tasks)) \<and> (t, t1) \<in> (author_order tasks)\<^sup>*"
proof (induction t rule: wf_induct_rule [OF finite_acyclic_wf_converse [OF finite_author_order author_order_acyclic [OF f]]])
  case (1 t)
  show ?case
  proof (cases "ts_name t \<in> set (concat (map ts_depends_on tasks))")
    case True
    then obtain u where "u \<in> set tasks" "(t, u) \<in> author_order tasks" using "1.prems" by (auto simp: author_order_def)
    with "1.IH" show ?thesis by (meson converse_rtrancl_into_rtrancl converseI)
  qed (use "1.prems" in blast)
qed

lemma list_of_tasks [simp]: "ex_tasks (list_of tasks es tss) = concat tss"
  by (simp add: list_of_def)

lemma list_root:
  "r \<in> set (ex_roots (list_of tasks es tss)) \<longleftrightarrow>
     (\<exists>t e. (t, e) \<in> set (zip tasks es) \<and> ts_depends_on t = [] \<and> r \<in> set (ex_roots e))"
  by (auto simp: list_of_def split: if_splits)

lemma list_exit:
  "x \<in> set (ex_exits (list_of tasks es tss)) \<longleftrightarrow>
     (\<exists>t e. (t, e) \<in> set (zip tasks es) \<and> ts_name t \<notin> set (concat (map ts_depends_on tasks)) \<and> x \<in> set (ex_exits e))"
  by (auto simp: list_of_def split: if_splits)

lemma family_rooted:
  assumes f: "family tasks es tss"
  shows "rooted (list_of tasks es tss)"
  unfolding rooted_def list_all_iff
proof (intro ballI impI)
  fix u assume u: "u \<in> set (ex_tasks (list_of tasks es tss))" "ts_name u \<in> set (ex_roots (list_of tasks es tss))"
  from f have w: "try_map (wire_sibling (per_of tasks es)) (zip tasks es) = Inr tss" by (simp add: family_def)
  from u(1) wire_list_Inr(2) [OF w, of u] obtain t e task deps where
    x: "(t, e) \<in> set (zip tasks es)" "task \<in> set (ex_tasks e)" "dep_exits (per_of tasks es) t = Inr deps"
    "u = wire_task (renamed_rows (per_of tasks es)) t (ex_roots e) deps task" by auto
  from u(2) list_root obtain t' e' where r: "(t', e') \<in> set (zip tasks es)" "ts_depends_on t' = []" "ts_name u \<in> set (ex_roots e')"
    by blast
  have "ts_name u \<in> set (row_names e')" using r(3) family_part(1) [OF f r(1)] by (auto simp: closed_def)
  moreover have "ts_name u \<in> set (row_names e)" using x(2,4) by (simp add: row_names_def)
  ultimately have "t' = t" "e' = e" using family_disjoint [OF f r(1) x(1)] by blast+
  with r x show "ts_depends_on u = []" by (simp add: dep_exits_def)
qed

lemma family_list_spans:
  assumes f: "family tasks es tss" "acyclic (row_edges (concat tss))"
  shows "spans (row_edges (concat tss)) (list_of tasks es tss)"
  unfolding spans_def
proof (intro ballI conjI)
  let ?E = "row_edges (concat tss)"
  fix n assume n: "n \<in> set (row_names (list_of tasks es tss))"
  from f have w: "try_map (wire_sibling (per_of tasks es)) (zip tasks es) = Inr tss" "length es = length tasks"
    by (simp_all add: family_def)
  from n row_names_list [OF w] obtain e where e: "e \<in> set es" "n \<in> set (row_names e)" by auto
  then obtain t where t: "(t, e) \<in> set (zip tasks es)" using w(2) by (metis in_set_impl_in_set_zip2)
  then have tt: "t \<in> set tasks" by (rule set_zip_leftD)
  have reach: "(x, y) \<in> ?E\<^sup>*"
    if "(t1, t2) \<in> (author_order tasks)\<^sup>+" "(t1, e1) \<in> set (zip tasks es)" "(t2, e2) \<in> set (zip tasks es)"
      "x \<in> set (row_names e1)" "y \<in> set (row_names e2)" for t1 t2 e1 e2 x y
    using family_before [OF f that(1,2,4,3,5)] by (rule trancl_into_rtrancl)
  have ends: "set (ex_roots e') \<subseteq> set (row_names e')" "set (ex_exits e') \<subseteq> set (row_names e')"
    "\<exists>r. r \<in> set (ex_roots e')" "\<exists>x. x \<in> set (ex_exits e')"
    if "(t', e') \<in> set (zip tasks es)" for t' e'
  proof -
    from family_part(2) [OF f(1) that] obtain m where "m \<in> set (row_names e')" by (cases "row_names e'") auto
    with family_spans [OF f that] family_part(1) [OF f(1) that]
    show "set (ex_roots e') \<subseteq> set (row_names e')" "set (ex_exits e') \<subseteq> set (row_names e')"
      "\<exists>r. r \<in> set (ex_roots e')" "\<exists>x. x \<in> set (ex_exits e')" by (auto simp: closed_def spans_def)
  qed
  show "\<exists>r \<in> set (ex_roots (list_of tasks es tss)). (r, n) \<in> ?E\<^sup>*"
  proof -
    from family_first [OF f tt] obtain t0 where t0: "t0 \<in> set tasks" "ts_depends_on t0 = []" "(t0, t) \<in> (author_order tasks)\<^sup>*" by blast
    show ?thesis
    proof (cases "t0 = t")
      case True
      with t0 t family_spans [OF f t] e show ?thesis unfolding spans_def using list_root by blast
    next
      case False
      with t0(3) have o: "(t0, t) \<in> (author_order tasks)\<^sup>+" by (simp add: rtrancl_eq_or_trancl)
      from family_member [OF f(1) t0(1)] obtain e0 where e0: "(t0, e0) \<in> set (zip tasks es)" by blast
      with ends obtain r where "r \<in> set (ex_roots e0)" "r \<in> set (row_names e0)" by blast
      with reach [OF o e0 t _ e(2)] e0 t0(2) list_root show ?thesis by blast
    qed
  qed
  show "\<exists>x \<in> set (ex_exits (list_of tasks es tss)). (n, x) \<in> ?E\<^sup>*"
  proof -
    from family_last [OF f tt] obtain t1 where t1: "t1 \<in> set tasks" "ts_name t1 \<notin> set (concat (map ts_depends_on tasks))"
      "(t, t1) \<in> (author_order tasks)\<^sup>*" by blast
    show ?thesis
    proof (cases "t1 = t")
      case True
      with t1 t family_spans [OF f t] e show ?thesis unfolding spans_def using list_exit by blast
    next
      case False
      with t1(3) have o: "(t, t1) \<in> (author_order tasks)\<^sup>+" by (simp add: rtrancl_eq_or_trancl)
      from family_member [OF f(1) t1(1)] obtain e1 where e1: "(t1, e1) \<in> set (zip tasks es)" by blast
      with ends obtain x where "x \<in> set (ex_exits e1)" "x \<in> set (row_names e1)" by blast
      with reach [OF o t e1 e(2)] e1 t1(2) list_exit show ?thesis by blast
    qed
  qed
qed

interpretation ordered_inv: expansion_inv ordered True
proof (unfold_locales, goal_cases)
  case (2 t base ctx w)
  have "closed (leaf_of t base ctx w)" using closed_inv.leaf .
  then show ?case by (auto simp: ordered_def rooted_def spans_def build_leaf_def)
next
  case (3 a b)
  then show ?case by (rule ordered_append)
next
  case (4 tasks es tss)
  have n: "row_names (list_of tasks es tss) = concat (map row_names es)" using row_names_list [OF 4(5,2)] .
  have "list_all closed es" using 4(3) by (auto simp: list_all_iff ordered_def)
  then have "closed (list_of tasks es tss)" using closed_siblings 4 by blast
  moreover have "concat (map row_names es) \<noteq> []" using 4 by (cases es) (auto simp: ordered_def)
  moreover have "family tasks es tss" if "distinct (concat (map row_names es))" using 4 that by (simp add: family_def)
  ultimately show ?case using family_rooted family_list_spans by (auto simp: ordered_def n)
qed simp

text \<open>A list without hooks keeps the order of its siblings, row by row.\<close>

lemma order_kept:
  assumes l: "expand_list io (expand_call io templates k) tasks prefix ctx b = Inr (e, b')"
    and solid: "solid_tasks tasks" "solid_templates templates"
    and ok: "distinct (row_names e)" "acyclic (row_edges (ex_tasks e))"
  obtains es where
    "expand_each (expand_one io (expand_call io templates k) prefix ctx) [] tasks b = Inr (per_of tasks es, b')"
    "\<And>t. t \<in> set tasks \<Longrightarrow> \<exists>e'. map_of (per_of tasks es) (ts_name t) = Some e' \<and> row_names e' \<noteq> []
       \<and> set (row_names e') \<subseteq> set (row_names e)"
    "\<And>t d ed et x y. \<lbrakk>t \<in> set tasks; d \<in> set (ts_depends_on t); map_of (per_of tasks es) d = Some ed;
       map_of (per_of tasks es) (ts_name t) = Some et; x \<in> set (row_names ed); y \<in> set (row_names et)\<rbrakk>
       \<Longrightarrow> (x, y) \<in> (row_edges (ex_tasks e))\<^sup>+"
proof -
  from l obtain es tss where s:
    "expand_each (expand_one io (expand_call io templates k) prefix ctx) [] tasks b = Inr (per_of tasks es, b')"
    "length es = length tasks" "distinct (map ts_name tasks)"
    "try_map (wire_sibling (per_of tasks es)) (zip tasks es) = Inr tss" "e = list_of tasks es tss"
    by (rule expand_list_Inr)
  note n = row_names_list [OF s(4,2)]
  have f: "family tasks es tss" "acyclic (row_edges (concat tss))"
    using s ok n ordered_inv.inv_siblings [OF s(1,2)] solid by (auto simp: family_def)
  show thesis
  proof (rule that [OF s(1)])
    fix t assume "t \<in> set tasks"
    then obtain e' where e': "(t, e') \<in> set (zip tasks es)" using family_member [OF f(1)] by blast
    with family_part(2) [OF f(1) e'] row_names_part [OF e'] per_of_lookup [OF s(3,2), of "ts_name t" e'] n s(5)
    show "\<exists>e'. map_of (per_of tasks es) (ts_name t) = Some e' \<and> row_names e' \<noteq> [] \<and> set (row_names e') \<subseteq> set (row_names e)"
      by auto
  next
    fix t d ed et x y
    assume a: "t \<in> set tasks" "d \<in> set (ts_depends_on t)" "map_of (per_of tasks es) d = Some ed"
       "map_of (per_of tasks es) (ts_name t) = Some et" "x \<in> set (row_names ed)" "y \<in> set (row_names et)"
    from a(3) obtain td where td: "(td, ed) \<in> set (zip tasks es)" "ts_name td = d" using per_of_lookup [OF s(3,2)] by blast
    from a(4) obtain t' where t': "(t', et) \<in> set (zip tasks es)" "ts_name t' = ts_name t" using per_of_lookup [OF s(3,2)] by blast
    with a(1) s(3) have "t' = t" by (metis distinct_map inj_onD set_zip_leftD)
    moreover have "(td, t) \<in> author_order tasks" using td a(1,2) by (auto simp: author_order_def dest: set_zip_leftD)
    ultimately show "(x, y) \<in> (row_edges (ex_tasks e))\<^sup>+"
      using family_before_one [OF f _ td(1) a(5,6)] t'(1) s(5) by simp
  qed
qed

end
