(* ===== verification/Expand_Props.thy ===== *)
theory Expand_Props
  imports Expand_Wiring
begin

text \<open>
  What an expansion promises: a flat list of leaf tasks within the budget, whose dependencies are
  tasks of it; where no task is dropped, the order the author wrote; no expansion of a workflow
  that calls itself without end; and the instances of a run-time fan-out.
\<close>

subsection \<open>Hooks\<close>

definition hook_wired :: "string list \<Rightarrow> task_spec \<Rightarrow> bool" where
  "hook_wired non_hook t =
     (case ts_hook t of
        None \<Rightarrow> True
      | Some h \<Rightarrow> ts_depends_on t = filter (\<lambda>n. n \<noteq> ts_name t) non_hook \<and> ts_trigger_rule t = hook_rule h)"

lemma wire_hook_Inr:
  assumes "wire_hook non_hook t = Inr u"
  shows "ts_name u = ts_name t" "ts_hook u = ts_hook t" "leaf_task u = leaf_task t" "hook_wired non_hook u"
    "set (ts_depends_on u) \<subseteq> set (ts_depends_on t) \<union> set non_hook" "ts_hook t = None \<Longrightarrow> u = t"
  using assms by (auto simp: wire_hook_def hook_wired_def leaf_task_def split: option.splits)

lemma wire_hooks_Inr:
  assumes "wire_hooks ts = Inr us"
  shows "map ts_name us = map ts_name ts" "map ts_hook us = map ts_hook ts"
    and "list_all2 (\<lambda>t u. wire_hook (map ts_name (filter (\<lambda>t. ts_hook t = None) ts)) t = Inr u) ts us"
proof -
  show all: "list_all2 (\<lambda>t u. wire_hook (map ts_name (filter (\<lambda>t. ts_hook t = None) ts)) t = Inr u) ts us"
    using assms by (simp add: wire_hooks_def try_map_Inr)
  then show "map ts_name us = map ts_name ts" "map ts_hook us = map ts_hook ts"
    by (induction rule: list_all2_induct) (auto dest: wire_hook_Inr(1,2))
qed

lemma filter_names_by: "map f us = map f ts \<Longrightarrow> map g us = map g ts \<Longrightarrow>
    map f (filter (\<lambda>t. p (g t)) us) = map f (filter (\<lambda>t. p (g t)) ts)"
proof (induction us ts rule: list_induct2')
  case (4 u us t ts)
  then show ?case by (cases "p (g u)") auto
qed auto

lemma expand_Inr:
  assumes "expand io spec0 = Inr flat"
  obtains e b' where
    "expand_list io (expand_call io (map (\<lambda>t. (tp_name t, t)) (ds_templates (fold_defaults spec0))) 0)
       (ds_tasks (fold_defaults spec0)) [] (ds_parameters (fold_defaults spec0)) (max_tasks_per_run (xio_env io)) = Inr (e, b')"
    "wire_hooks (ex_tasks e) = Inr (ds_tasks flat)" "ds_templates flat = []" "ds_parameters flat = []" "ds_uses flat = []"
  using assms by (auto simp: expand_def Let_def and_then_Inr split: if_splits option.splits)

subsection \<open>Examples\<close>

definition plain_io :: expand_io where
  "plain_io = \<lparr>xio_env = (\<lambda>_. None), xio_parse = (\<lambda>_. Inr (JArray [JString ''x'', JString ''y''])), xio_print = (\<lambda>_. [])\<rparr>"

definition call_of :: "string \<Rightarrow> string \<Rightarrow> string list \<Rightarrow> (string \<times> string) list \<Rightarrow> task_spec" where
  "call_of name tm deps args = (plain_task name deps)\<lparr>ts_command := [], ts_template := Some tm, ts_arguments := args\<rparr>"

definition shape_of :: "expand_error + dag_spec \<Rightarrow> (string \<times> string list) list" where
  "shape_of r = (case r of Inl _ \<Rightarrow> [] | Inr flat \<Rightarrow> map (\<lambda>t. (ts_name t, ts_depends_on t)) (ds_tasks flat))"

lemma shape_Inr:
  assumes "shape_of r = s" "s \<noteq> []"
  obtains flat where "r = Inr flat" "map (\<lambda>t. (ts_name t, ts_depends_on t)) (ds_tasks flat) = s"
  using assms by (auto simp: shape_of_def split: sum.splits)

definition pair :: template_spec where
  "pair = \<lparr>tp_name = ''pair'', tp_parameters = [], tp_tasks = [plain_task ''in'' [], plain_task ''out'' [''in'']]\<rparr>"

definition staged :: dag_spec where
  "staged =
     (plain_dag
        [plain_task ''first'' [], call_of ''sub'' ''pair'' [''first''] [],
         (plain_task ''each'' [''sub''])\<lparr>ts_with_items := Some [JString ''x'', JString ''y'']\<rparr>])
       \<lparr>ds_templates := [pair]\<rparr>"

lemma staged_shape:
  "shape_of (expand plain_io staged) =
     [(''first'', []), (''sub.in'', [''first'']), (''sub.out'', [''sub.in'']),
      (''each.0'', [''sub.out'']), (''each.1'', [''sub.out''])]"
  by code_simp

subsection \<open>Flat and closed\<close>

text \<open>C20. What an expansion leaves is flat: no task calls a template or is still to be fanned out,
  every dependency is a task of the result, each lifecycle hook depends on all the tasks that are
  none and runs under its rule, no template or parameter is left, and there are never more tasks
  than the installation allows, nor more than the compiled ceiling.\<close>

theorem expansion_is_flat:
  assumes "expand io spec = Inr flat"
  shows "list_all leaf_task (ds_tasks flat)
    \<and> list_all (\<lambda>t. set (ts_depends_on t) \<subseteq> set (task_names flat)) (ds_tasks flat)
    \<and> list_all (hook_wired (map ts_name (filter (\<lambda>t. ts_hook t = None) (ds_tasks flat)))) (ds_tasks flat)
    \<and> length (ds_tasks flat) \<le> max_tasks_per_run (xio_env io) \<and> length (ds_tasks flat) \<le> max_tasks
    \<and> ds_templates flat = [] \<and> ds_parameters flat = []"
proof -
  from assms obtain e b' where e: "expand_list io (expand_call io (map (\<lambda>t. (tp_name t, t)) (ds_templates (fold_defaults spec))) 0)
       (ds_tasks (fold_defaults spec)) [] (ds_parameters (fold_defaults spec)) (max_tasks_per_run (xio_env io)) = Inr (e, b')"
    and h: "wire_hooks (ex_tasks e) = Inr (ds_tasks flat)" "ds_templates flat = []" "ds_parameters flat = []"
    by (rule expand_Inr)
  have inv: "all_leaves e" "closed e" "length (ex_tasks e) \<le> max_tasks_per_run (xio_env io)"
    using leaves.inv_workflow [OF e] closed_inv.inv_workflow [OF e] by (auto simp: spends_def)
  note w = wire_hooks_Inr [OF h(1)]
  let ?nh = "map ts_name (filter (\<lambda>t. ts_hook t = None) (ex_tasks e))"
  have nh: "map ts_name (filter (\<lambda>t. ts_hook t = None) (ds_tasks flat)) = ?nh"
    using filter_names_by [OF w(1,2), of "\<lambda>h. h = None"] .
  have names: "set (task_names flat) = set (row_names e)" "set ?nh \<subseteq> set (row_names e)"
    using w(1) by (auto simp: task_names_def row_names_def)
  have "leaf_task u \<and> set (ts_depends_on u) \<subseteq> set (row_names e) \<and> hook_wired ?nh u" if "u \<in> set (ds_tasks flat)" for u
  proof -
    from list_all2_right [OF w(3) that] obtain t where t: "t \<in> set (ex_tasks e)" "wire_hook ?nh t = Inr u" by blast
    with inv(1,2) have "leaf_task t" "set (ts_depends_on t) \<subseteq> set (row_names e)"
      by (auto simp: all_leaves_def closed_def list_all_iff)
    with wire_hook_Inr [OF t(2)] names(2) show ?thesis by blast
  qed
  moreover have "length (ds_tasks flat) = length (ex_tasks e)" using w(1) by (metis length_map)
  ultimately show ?thesis using inv(3) h(2,3) names(1) max_tasks_bounds(2) [of "xio_env io"] nh
    by (auto simp: list_all_iff)
qed

theorem expansion_is_flat_witness:
  "case expand plain_io staged of Inl e \<Rightarrow> False | Inr flat \<Rightarrow> list_all leaf_task (ds_tasks flat) \<and> length (ds_tasks flat) = 5"
proof -
  obtain flat where "expand plain_io staged = Inr flat" "map (\<lambda>t. (ts_name t, ts_depends_on t)) (ds_tasks flat) =
     [(''first'', []), (''sub.in'', [''first'']), (''sub.out'', [''sub.in'']), (''each.0'', [''sub.out'']), (''each.1'', [''sub.out''])]"
    by (rule shape_Inr [OF staged_shape]) auto
  with expansion_is_flat [OF this(1)] show ?thesis by (auto dest: arg_cong [where f = length])
qed

subsection \<open>The author's order\<close>

definition solid_workflow :: "dag_spec \<Rightarrow> bool" where
  "solid_workflow spec = (solid_tasks (ds_tasks spec) \<and> list_all (\<lambda>tm. solid_tasks (tp_tasks tm)) (ds_templates spec))"

text \<open>The rows a task of the workflow became.\<close>

definition expanded_rows :: "expand_io \<Rightarrow> dag_spec \<Rightarrow> string \<Rightarrow> string list" where
  "expanded_rows io spec0 name =
     (let spec = fold_defaults spec0;
          templates = map (\<lambda>t. (tp_name t, t)) (ds_templates spec)
      in case expand_each (expand_one io (expand_call io templates 0) [] (ds_parameters spec)) [] (ds_tasks spec)
                (max_tasks_per_run (xio_env io)) of
           Inl _ \<Rightarrow> []
         | Inr (per, _) \<Rightarrow> (case map_of per name of None \<Rightarrow> [] | Some e \<Rightarrow> row_names e))"

lemma defaults_keep [simp]:
  "ts_name (apply_task_defaults d t) = ts_name t" "ts_when (apply_task_defaults d t) = ts_when t"
  "ts_depends_on (apply_task_defaults d t) = ts_depends_on t" "ts_template (apply_task_defaults d t) = ts_template t"
  by (simp_all add: apply_task_defaults_def)

lemma solid_tasks_defaults [simp]: "solid_tasks (map (apply_task_defaults d) ts) = solid_tasks ts"
  by (simp add: solid_tasks_def list_all_iff)

lemma solid_defaults:
  assumes "solid_workflow spec"
  shows "solid_tasks (ds_tasks (fold_defaults spec))"
    "solid_templates (map (\<lambda>t. (tp_name t, t)) (ds_templates (fold_defaults spec)))"
  using assms by (auto simp: solid_workflow_def fold_defaults_def solid_templates_def list_all_iff split: option.splits)

lemma fold_defaults_task:
  "t \<in> set (ds_tasks spec) \<Longrightarrow> \<exists>t' \<in> set (ds_tasks (fold_defaults spec)). ts_name t' = ts_name t
     \<and> ts_depends_on t' = ts_depends_on t \<and> ts_when t' = ts_when t \<and> ts_template t' = ts_template t"
  by (auto simp: fold_defaults_def split: option.splits)

lemma from_yaml_Inr:
  assumes "from_yaml env io spec = Inr g"
  obtains flat g0 where "expand io spec = Inr flat" "from_spec env flat = Inr g0" "dg_spec g = dg_spec g0"
    "dg_edges g = dg_edges g0" "dg_nodes g = dg_nodes g0"
  using assms by (auto simp: from_yaml_def graph_of_def split: option.splits sum.splits)

lemma graph_edges_rows: "set (graph_edges (dedup_depends_on flat)) = row_edges (ds_tasks flat)"
  by (auto simp: graph_edges_def dedup_depends_on_def row_edges_def)

lemma no_hooks_unchanged:
  assumes "wire_hooks ts = Inr us" "list_all (\<lambda>u. ts_hook u = None) us"
  shows "us = ts"
proof -
  note w = wire_hooks_Inr [OF assms(1)]
  have "list_all (\<lambda>t. ts_hook t = None) ts"
    using assms(2) w(2) by (metis (mono_tags, lifting) list.pred_map comp_def list.pred_cong)
  with w(3) have "list_all2 (=) us ts"
    by (auto simp: list_all2_conv_all_nth list_all_length wire_hook_def)
  then show ?thesis by (simp add: list.rel_eq)
qed



subsection \<open>A workflow that calls itself without end\<close>

text \<open>Templates of \<open>S\<close> each have a call into \<open>S\<close> that no condition can drop.\<close>

definition calls_always :: "string list \<Rightarrow> task_spec list \<Rightarrow> bool" where
  "calls_always S tasks =
     list_ex (\<lambda>t. ts_when t = None \<and> (case ts_template t of None \<Rightarrow> False | Some n \<Rightarrow> n \<in> set S)) tasks"

definition endless :: "string list \<Rightarrow> template_spec list \<Rightarrow> bool" where
  "endless S tms = list_all (\<lambda>tm. tp_name tm \<in> set S \<longrightarrow> calls_always S (tp_tasks tm)) tms"

lemma expand_each_member:
  "expand_each one seen tasks b = Inr (per, b') \<Longrightarrow> t \<in> set tasks \<Longrightarrow> \<exists>c e c'. one t c = Inr (e, c')"
proof (induction tasks arbitrary: seen b per)
  case (Cons u us)
  then show ?case by (fastforce simp: and_then_Inr split: if_splits)
qed simp

lemma expand_one_calls:
  assumes "expand_one io call prefix ctx t b = Inr r" "is_call t" "ts_when t = None"
  shows "\<exists>base c b r. call t base c b = Inr r"
proof -
  from assms(1) obtain items where "resolve_items io t ctx = Inr items" "fanned t \<longrightarrow> items \<noteq> []"
    and e: "expand_items io call t prefix ctx 0 [] items b = Inr r"
    by (auto simp: expand_one_def and_then_Inr split: option.splits if_splits)
  then have "items \<noteq> []" by (auto simp: fanned_def resolve_items_def split: option.splits)
  then obtain i rest where "items = i # rest" by (cases items) auto
  with e assms(2,3) obtain base q where
    "call t base (case i of None \<Rightarrow> ctx | Some v \<Rightarrow> instance_ctx io ctx 0 v) b = Inr q"
    by (auto simp: Let_def and_then_Inr instance_when_def)
  then show ?thesis by blast
qed

lemma expand_list_calls:
  assumes "expand_list io call tasks prefix ctx b = Inr r" "calls_always S tasks"
  shows "\<exists>t n base c b r. t \<in> set tasks \<and> ts_template t = Some n \<and> n \<in> set S \<and> call t base c b = Inr r"
proof -
  from assms(2) obtain t n where t: "t \<in> set tasks" "ts_when t = None" "ts_template t = Some n" "n \<in> set S"
    by (auto simp: calls_always_def list_ex_iff split: option.splits)
  from assms(1) obtain per b' where "expand_each (expand_one io call prefix ctx) [] tasks b = Inr (per, b')"
    by (auto simp: expand_list_def and_then_Inr)
  from expand_each_member [OF this t(1)] obtain c e c' where "expand_one io call prefix ctx t c = Inr (e, c')" by blast
  from expand_one_calls [OF this] t(2,3) obtain base c' b' r' where "call t base c' b' = Inr r'" by (auto simp: is_call_def)
  with t show ?thesis by blast
qed

lemma endless_call:
  "\<lbrakk>\<forall>n tm. map_of templates n = Some tm \<longrightarrow> n \<in> set S \<longrightarrow> calls_always S (tp_tasks tm);
    ts_template t = Some n; n \<in> set S\<rbrakk> \<Longrightarrow> expand_call io templates depth t base ctx b \<noteq> Inr r"
proof (induction io templates depth t base ctx b arbitrary: n r rule: expand_call.induct)
  case (1 io templates depth t base inst_ctx b)
  show ?case
  proof
    assume "expand_call io templates depth t base inst_ctx b = Inr r"
    then obtain tm where d: "\<not> depth + 1 > max_depth" "map_of templates n = Some tm"
      and l: "expand_list io (\<lambda>t' b' c' g'. expand_call io templates (depth + 1) t' b' c' g') (tp_tasks tm)
         (base @ ''.'') (call_ctx tm t inst_ctx) b = Inr r"
      using "1.prems"(2) by (subst (asm) expand_call.simps) (auto simp: Let_def split: if_splits option.splits)
    from d(2) "1.prems"(1,3) have "calls_always S (tp_tasks tm)" by blast
    from expand_list_calls [OF l this] obtain t' m base' c' b' r' where t': "ts_template t' = Some m" "m \<in> set S"
      "expand_call io templates (depth + 1) t' base' c' b' = Inr r'" by auto
    have "expand_call io templates (depth + 1) t' base' c' b' \<noteq> Inr r'"
      using "1.IH" [OF d(1) refl, of tm t' m base' c' b' r'] d(2) "1.prems" t'(1,2) by auto
    with t'(3) show False by simp
  qed
qed

lemma calls_always_defaults [simp]: "calls_always S (map (apply_task_defaults d) ts) = calls_always S ts"
  by (simp add: calls_always_def list_ex_iff)


definition forever :: dag_spec where
  "forever =
     (plain_dag [call_of ''go'' ''ping'' [] []])
       \<lparr>ds_templates :=
          [\<lparr>tp_name = ''ping'', tp_parameters = [], tp_tasks = [plain_task ''x'' [], call_of ''next'' ''pong'' [''x''] []]\<rparr>,
           \<lparr>tp_name = ''pong'', tp_parameters = [], tp_tasks = [call_of ''back'' ''ping'' [] []]\<rparr>]\<rparr>"


subsection \<open>A task that is dropped takes the order with it\<close>

definition again :: template_spec where
  "again =
     \<lparr>tp_name = ''again'', tp_parameters = [(''more'', ''no'')],
      tp_tasks =
        [plain_task ''tick'' [],
         (call_of ''recurse'' ''again'' [''tick''] [(''more'', ''no'')])\<lparr>ts_when := Some ''{{ more }} == yes''\<rparr>]\<rparr>"

definition after_recursion :: dag_spec where
  "after_recursion =
     (plain_dag [call_of ''launch'' ''again'' [] [(''more'', ''yes'')], plain_task ''after'' [''launch'']])\<lparr>ds_templates := [again]\<rparr>"

definition ship :: template_spec where
  "ship =
     \<lparr>tp_name = ''deploy'', tp_parameters = [(''check'', ''false'')],
      tp_tasks = [(plain_task ''check'' [])\<lparr>ts_when := Some ''{{ check }}''\<rparr>, plain_task ''ship'' [''check'']]\<rparr>"

definition optional_check :: dag_spec where
  "optional_check = (plain_dag [plain_task ''build'' [], call_of ''prod'' ''deploy'' [''build''] []])\<lparr>ds_templates := [ship]\<rparr>"

text \<open>A task that a condition drops takes the order with it. The base case of a recursion leaves
  its list without exits, so a task that depends on the recursion waits for none of its rows; and a
  task of a template whose own dependency is dropped is no root of the template, so it does not
  wait for what the call depends on: \<open>prod.ship\<close> may start before \<open>build\<close> has run.\<close>

theorem dropped_task_loses_order:
  "shape_of (expand plain_io after_recursion) =
     [(''launch.tick'', []), (''launch.recurse.tick'', [''launch.tick'']), (''after'', [])]
   \<and> shape_of (expand plain_io optional_check) = [(''build'', []), (''prod.ship'', [])]"
proof
  show "shape_of (expand plain_io after_recursion) =
     [(''launch.tick'', []), (''launch.recurse.tick'', [''launch.tick'']), (''after'', [])]" by code_simp
  show "shape_of (expand plain_io optional_check) = [(''build'', []), (''prod.ship'', [])]" by code_simp
qed

subsection \<open>Instances of a run-time fan-out\<close>

definition instance_ok :: "task_spec \<Rightarrow> fanout_instance \<Rightarrow> bool" where
  "instance_ok barrier f =
     (ts_name (fi_spec f) = fi_name f \<and> starts_with (fi_name f) (ts_name barrier @ ''.'') \<and> leaf_task (fi_spec f)
      \<and> ts_with_output_of (fi_spec f) = None \<and> ts_instance_key (fi_spec f) = None \<and> ts_when (fi_spec f) = None
      \<and> ts_depends_on (fi_spec f) = [])"

lemma instance_ok_leaf:
  "instance_ok barrier \<lparr>fi_name = ts_name barrier @ ''.'' @ label,
     fi_spec = (build_leaf barrier (ts_name barrier @ ''.'' @ label) ctx None)\<lparr>ts_with_output_of := None, ts_instance_key := None\<rparr>\<rparr>"
proof -
  have "starts_with (ts_name barrier @ ''.'' @ label) (ts_name barrier @ ''.'')" by (simp add: starts_with_iff)
  then show ?thesis by (simp add: instance_ok_def build_leaf_def leaf_task_def)
qed

lemma fanout_each_Cons:
  assumes "fanout_each io barrier i seen (item # items) = Inr out"
  obtains label seen' f fs where "instance_label barrier (instance_ctx io [] i item) i seen = Inr (label, seen')"
    "fi_name f = ts_name barrier @ ''.'' @ label" "instance_ok barrier f"
    "fanout_each io barrier (i + 1) seen' items = Inr fs" "out = f # fs"
proof -
  from assms obtain label seen' fs where l: "instance_label barrier (instance_ctx io [] i item) i seen = Inr (label, seen')"
    "fanout_each io barrier (i + 1) seen' items = Inr fs"
    and out: "out = \<lparr>fi_name = ts_name barrier @ ''.'' @ label,
       fi_spec = (build_leaf barrier (ts_name barrier @ ''.'' @ label) (instance_ctx io [] i item) None)
         \<lparr>ts_with_output_of := None, ts_instance_key := None\<rparr>\<rparr> # fs"
    by (auto simp: Let_def and_then_Inr)
  show thesis
    by (rule that [OF l(1) _ instance_ok_leaf l(2) out]) simp
qed

lemma fanout_each_shape:
  "fanout_each io barrier i seen items = Inr out \<Longrightarrow> length out = length items \<and> list_all (instance_ok barrier) out"
proof (induction items arbitrary: i seen out)
  case (Cons item items)
  show ?case
    by (rule fanout_each_Cons [OF Cons.prems]) (auto dest: Cons.IH)
qed simp

lemma fanout_by_index:
  assumes "ts_instance_key barrier = None"
  shows "fanout_each io barrier i seen items = Inr out \<Longrightarrow>
    map fi_name out = map (\<lambda>j. ts_name barrier @ ''.'' @ digits_of j) [i ..< i + length items]"
proof (induction items arbitrary: i seen out)
  case (Cons item items)
  from Cons.prems obtain label seen' f fs where f: "instance_label barrier (instance_ctx io [] i item) i seen = Inr (label, seen')"
    "fi_name f = ts_name barrier @ ''.'' @ label" "fanout_each io barrier (i + 1) seen' items = Inr fs" "out = f # fs"
    by (rule fanout_each_Cons)
  from f(1) assms have "label = digits_of i" by (simp add: instance_label_def int_to_string_def)
  with f(2,4) Cons.IH [OF f(3)] show ?case by (simp add: upt_conv_Cons del: upt_Suc)
qed simp

lemma fanout_by_key:
  assumes "ts_instance_key barrier = Some key"
  shows "fanout_each io barrier i seen items = Inr out \<Longrightarrow>
    distinct (map fi_name out) \<and> fi_name ` set out \<inter> (\<lambda>l. ts_name barrier @ ''.'' @ l) ` set seen = {}"
proof (induction items arbitrary: i seen out)
  case (Cons item items)
  from Cons.prems obtain label seen' f fs where f: "instance_label barrier (instance_ctx io [] i item) i seen = Inr (label, seen')"
    "fi_name f = ts_name barrier @ ''.'' @ label" "fanout_each io barrier (i + 1) seen' items = Inr fs" "out = f # fs"
    by (rule fanout_each_Cons)
  from f(1) assms have "label \<notin> set seen" "seen' = label # seen"
    by (auto simp: instance_label_def Let_def split: if_splits)
  with Cons.IH [OF f(3)] f(2,4) show ?case by auto
qed simp

text \<open>The instances a run-time fan-out resolves to are one for each item of its producers'
  lists, named apart under the barrier's name, and ordinary tasks: none calls a template, has a
  condition or a dependency of its own, or would fan out again.\<close>

theorem fanout_instances_apart:
  assumes "fanout_instances io barrier producers = Inr out"
  shows "(case fanout_items io (ts_name barrier) producers of Inl e \<Rightarrow> False | Inr items \<Rightarrow> length out = length items)
    \<and> distinct (map fi_name out) \<and> list_all (instance_ok barrier) out"
proof -
  from assms obtain items where i: "fanout_items io (ts_name barrier) producers = Inr items"
    "fanout_each io barrier 0 [] items = Inr out" by (auto simp: fanout_instances_def and_then_Inr)
  have "distinct (map fi_name out)"
  proof (cases "ts_instance_key barrier")
    case None
    have "distinct (map (\<lambda>j. ts_name barrier @ ''.'' @ digits_of j) [0 ..< 0 + length items])"
      by (simp add: distinct_map inj_on_def)
    with fanout_by_index [OF None i(2)] show ?thesis by (simp only:)
  next
    case (Some key)
    with fanout_by_key [OF this i(2)] show ?thesis by simp
  qed
  with i fanout_each_shape [OF i(2)] show ?thesis by simp
qed

theorem fanout_instances_apart_witness:
  "case fanout_instances plain_io ((plain_task ''shard'' [''list''])\<lparr>ts_with_output_of := Some ''list''\<rparr>) [(''list'', ''[..]''), (''list.1'', '' '')] of
     Inl e \<Rightarrow> False | Inr out \<Rightarrow> distinct (map fi_name out) \<and> length out = 2"
proof -
  let ?b = "(plain_task ''shard'' [''list''])\<lparr>ts_with_output_of := Some ''list''\<rparr>"
  have n: "list_all (\<lambda>r. case r of Inl e \<Rightarrow> False | Inr out \<Rightarrow> map fi_name out = [''shard.0'', ''shard.1''])
      [fanout_instances plain_io ?b [(''list'', ''[..]''), (''list.1'', '' '')]]" by code_simp
  then obtain out where o: "fanout_instances plain_io ?b [(''list'', ''[..]''), (''list.1'', '' '')] = Inr out"
    "map fi_name out = [''shard.0'', ''shard.1'']" by (auto split: sum.splits)
  from fanout_instances_apart [OF o(1)] arg_cong [OF o(2), of length] o(1) show ?thesis by simp
qed

end
