(* ===== verification/Ci_Value.thy ===== *)
theory Ci_Value
  imports F64 Json_Pred
begin

text \<open>
  The values of the CI server's expressions (crates/dagron-ci-expr/src/lib.rs): their text, their
  number, what holds as a condition, how a property is read, how two compare, and how they go to
  and from JSON.
\<close>

datatype cval =
    CNull
  | CBool bool
  | CNumber f64
  | CString string
  | CArray "cval list"
  | CObject "(string \<times> cval) list"

subsection \<open>Numbers\<close>

text \<open>\<open>n.fract() == 0.0\<close>: finite and whole.\<close>

fun f64_whole :: "f64 \<Rightarrow> bool" where
  "f64_whole (Fin q) = (of_int \<lfloor>q\<rfloor> = q)"
| "f64_whole _ = False"

fun f64_floor :: "f64 \<Rightarrow> int" where
  "f64_floor (Fin q) = \<lfloor>q\<rfloor>"
| "f64_floor _ = 0"

fun f64_abs :: "f64 \<Rightarrow> f64" where
  "f64_abs (Fin q) = Fin \<bar>q\<bar>"
| "f64_abs (Inf _) = Inf False"
| "f64_abs NaN = NaN"

definition number_text :: "f64 \<Rightarrow> string" where
  "number_text n =
     (if n = NaN then ''NaN''
      else if n = Inf False then ''Infinity''
      else if n = Inf True then ''-Infinity''
      else if f64_whole n \<and> f64_lt (f64_abs n) (Fin (10 ^ 15)) then int_to_string (f64_floor n)
      else f64_to_string n)"

definition hex_val :: "char \<Rightarrow> nat option" where
  "hex_val c =
     (if is_ascii_digit c then Some (code c - 48)
      else if CHR ''a'' \<le> c \<and> c \<le> CHR ''f'' then Some (code c - 87)
      else if CHR ''A'' \<le> c \<and> c \<le> CHR ''F'' then Some (code c - 55)
      else None)"

fun hex_digits :: "nat \<Rightarrow> string \<Rightarrow> nat option" where
  "hex_digits acc [] = Some acc"
| "hex_digits acc (c # cs) =
     (case hex_val c of
        None \<Rightarrow> None
      | Some d \<Rightarrow> if acc * 16 + d < 2 ^ 64 then hex_digits (acc * 16 + d) cs else None)"

text \<open>\<open>u64::from_str_radix(_, 16)\<close>: a plus sign is taken, and at least one digit needed.\<close>

definition parse_hex64 :: "string \<Rightarrow> nat option" where
  "parse_hex64 s =
     (let digits = (case strip_prefix ''+'' s of Some r \<Rightarrow> r | None \<Rightarrow> s)
      in if digits = [] then None else hex_digits 0 digits)"

definition signed :: "bool \<Rightarrow> f64 \<Rightarrow> f64" where
  "signed negative n = (if negative then f64_neg n else n)"

definition number_shaped :: "string \<Rightarrow> bool" where
  "number_shaped digits =
     ((case digits of [] \<Rightarrow> False | c # _ \<Rightarrow> is_ascii_digit c \<or> c = CHR ''.'')
      \<and> list_all (\<lambda>c. is_ascii_digit c \<or> c \<in> {CHR ''.'', CHR ''e'', CHR ''E'', CHR ''+'', CHR ''-''}) digits)"

definition parse_number :: "string \<Rightarrow> f64 option" where
  "parse_number s =
     (if s = [] then Some (Fin 0)
      else
        (let (negative, digits) = (case strip_prefix ''-'' s of
               Some rest \<Rightarrow> (True, rest)
             | None \<Rightarrow> (False, case strip_prefix ''+'' s of Some r \<Rightarrow> r | None \<Rightarrow> s));
             hex = (case strip_prefix ''0x'' digits of Some h \<Rightarrow> Some h | None \<Rightarrow> strip_prefix ''0X'' digits)
         in case hex of
              Some h \<Rightarrow> map_option (\<lambda>n. signed negative (f64_round (of_nat n))) (parse_hex64 h)
            | None \<Rightarrow>
                if number_shaped digits then map_option (signed negative) (parse_f64 digits) else None))"

subsection \<open>Reading a value\<close>

fun truthy :: "cval \<Rightarrow> bool" where
  "truthy CNull = False"
| "truthy (CBool b) = b"
| "truthy (CNumber n) = (\<not> f64_eq n (Fin 0) \<and> n \<noteq> NaN)"
| "truthy (CString s) = (s \<noteq> [])"
| "truthy (CArray _) = True"
| "truthy (CObject _) = True"

fun cval_text :: "cval \<Rightarrow> string" where
  "cval_text CNull = []"
| "cval_text (CBool b) = (if b then ''true'' else ''false'')"
| "cval_text (CNumber n) = number_text n"
| "cval_text (CString s) = s"
| "cval_text (CArray _) = ''Array''"
| "cval_text (CObject _) = ''Object''"

fun cval_number :: "cval \<Rightarrow> f64" where
  "cval_number CNull = Fin 0"
| "cval_number (CBool b) = Fin (if b then 1 else 0)"
| "cval_number (CNumber n) = n"
| "cval_number (CString s) = (case parse_number (trim s) of Some n \<Rightarrow> n | None \<Rightarrow> NaN)"
| "cval_number (CArray _) = NaN"
| "cval_number (CObject _) = NaN"

fun cval_get :: "cval \<Rightarrow> string \<Rightarrow> cval" where
  "cval_get (CObject fs) name =
     (case find (\<lambda>(k, _). k = name) fs of
        Some (_, v) \<Rightarrow> v
      | None \<Rightarrow>
          (case find (\<lambda>(k, _). eq_ignore_ascii_case k name) fs of
             Some (_, v) \<Rightarrow> v
           | None \<Rightarrow> CNull))"
| "cval_get _ name = CNull"

subsection \<open>JSON\<close>

text \<open>
  \<open>Number::as_f64\<close> of the number a text stands for; \<open>arbitrary_precision\<close> is off, so it is a
  double or an integer of 64 bits, and the answer is the nearest double.
\<close>

primrec from_json :: "json \<Rightarrow> cval" where
  "from_json JNull = CNull"
| "from_json (JBool b) = CBool b"
| "from_json (JNumber n) = CNumber (case parse_f64 n of Some x \<Rightarrow> x | None \<Rightarrow> NaN)"
| "from_json (JString s) = CString s"
| "from_json (JArray items) = CArray (map from_json items)"
| "from_json (JObject m) = CObject (map (map_prod (\<lambda>k. k) from_json) m)"

text \<open>
  \<open>serde_json\<close>'s map is ordered by key, and a key given twice keeps the last value.
\<close>

definition json_map :: "(string \<times> 'a) list \<Rightarrow> 'a btree" where
  "json_map entries = bt_extend [] entries"

text \<open>
  The parts of \<open>serde_json\<close> an expression's value goes through: how it writes a double that is
  not a small whole number, how it reads a text, and how it writes a value over several lines.
\<close>

record serde =
  sj_double :: "f64 \<Rightarrow> string"
  sj_read :: "string \<Rightarrow> string + json"
  sj_pretty :: "json \<Rightarrow> string"

definition number_json :: "serde \<Rightarrow> f64 \<Rightarrow> json" where
  "number_json sj n =
     (if f64_whole n \<and> f64_lt (f64_abs n) (Fin (9 * 10 ^ 15)) then JNumber (int_to_string (f64_floor n))
      else (case n of Fin _ \<Rightarrow> JNumber (sj_double sj n) | _ \<Rightarrow> JNull))"

primrec to_json :: "serde \<Rightarrow> cval \<Rightarrow> json" where
  "to_json sj CNull = JNull"
| "to_json sj (CBool b) = JBool b"
| "to_json sj (CNumber n) = number_json sj n"
| "to_json sj (CString s) = JString s"
| "to_json sj (CArray items) = JArray (map (to_json sj) items)"
| "to_json sj (CObject fs) = JObject (json_map (map (map_prod (\<lambda>k. k) (to_json sj)) fs))"

subsection \<open>Comparing\<close>

datatype cop = CLess | CLessEq | CGreater | CGreaterEq | CEqual | CNotEqual | CAnd | COr

text \<open>\<open>str::to_lowercase\<close> below U+0100: the ASCII letters and \<open>U+00C0..U+00DE\<close> but for the sign
  \<open>U+00D7\<close>.\<close>

definition to_lowercase :: "string \<Rightarrow> string" where
  "to_lowercase = map (\<lambda>c. let n = code c in
     if (65 \<le> n \<and> n \<le> 90) \<or> (192 \<le> n \<and> n \<le> 222 \<and> n \<noteq> 215) then char_of (n + 32) else c)"

datatype ordering = OLt | OEq | OGt

definition cmp :: "'a::linorder \<Rightarrow> 'a \<Rightarrow> ordering" where
  "cmp a b = (if a < b then OLt else if a = b then OEq else OGt)"

definition f64_partial_cmp :: "f64 \<Rightarrow> f64 \<Rightarrow> ordering option" where
  "f64_partial_cmp a b =
     (if f64_lt a b then Some OLt else if f64_eq a b then Some OEq else if f64_lt b a then Some OGt else None)"

fun cval_cmp :: "cval \<Rightarrow> cval \<Rightarrow> ordering option" where
  "cval_cmp (CString a) (CString b) = Some (cmp (to_lowercase a) (to_lowercase b))"
| "cval_cmp CNull CNull = Some OEq"
| "cval_cmp (CBool a) (CBool b) = Some (cmp a b)"
| "cval_cmp (CArray _) (CArray _) = None"
| "cval_cmp (CObject _) (CObject _) = None"
| "cval_cmp l r = f64_partial_cmp (cval_number l) (cval_number r)"

definition ccompare :: "cop \<Rightarrow> cval \<Rightarrow> cval \<Rightarrow> bool" where
  "ccompare op l r =
     (case cval_cmp l r of
        None \<Rightarrow> op = CNotEqual
      | Some d \<Rightarrow>
          (case op of
             CEqual \<Rightarrow> d = OEq
           | CNotEqual \<Rightarrow> d \<noteq> OEq
           | CLess \<Rightarrow> d = OLt
           | CLessEq \<Rightarrow> d \<noteq> OGt
           | CGreater \<Rightarrow> d = OGt
           | CGreaterEq \<Rightarrow> d \<noteq> OLt
           | CAnd \<Rightarrow> False
           | COr \<Rightarrow> False))"

end
