(* ===== verification/Ci_Lex.thy ===== *)
theory Ci_Lex
  imports Ci_Value
begin

text \<open>
  Reading a CI expression into tokens, each with the byte it is at
  (\<open>tokens\<close>, crates/dagron-ci-expr/src/lib.rs). What is left to read is a suffix of the text, so
  the byte it begins at is the text's length less its own.
\<close>

datatype ctoken =
    TNumber f64
  | TText string
  | TName string
  | TOpen
  | TClose
  | TOpenIndex
  | TCloseIndex
  | TDot
  | TComma
  | TStar
  | TNot
  | TOp cop

datatype cproblem =
    Unclosed_string
  | Double_quoted
  | Not_a_number string
  | Not_part_of_it char
  | Expected string
  | Too_tall
  | Nests_too_deeply
  | Name_expected
  | Argument_end_expected
  | Star_alone
  | Value_expected
  | Ends_early
  | Empty_expression
  | Goes_on
  | Context_unknown string
  | Takes string nat nat nat
  | Format_nothing
  | Format_unclosed
  | Format_no_number string
  | Format_no_argument nat
  | Format_closes_nothing
  | Not_json string
  | Call_failed string string
  | Not_callable string
  | Unclosed_expression
  | Loop_unfinished

record cerror =
  ce_at :: nat
  ce_problem :: cproblem

definition cerr :: "nat \<Rightarrow> cproblem \<Rightarrow> cerror + 'a" where
  "cerr pos p = Inl \<lparr>ce_at = pos, ce_problem = p\<rparr>"

abbreviation quote_char :: char where
  "quote_char \<equiv> CHR 0x27"

text \<open>A string, from what follows its first quote: two quotes are one inside it.\<close>

fun lex_string :: "string \<Rightarrow> (string \<times> string) option" where
  "lex_string [] = None"
| "lex_string [c] = (if c = quote_char then Some ([], []) else None)"
| "lex_string (c # d # cs) =
     (if c = quote_char then
        (if d = quote_char then map_option (\<lambda>(s, rest). (quote_char # s, rest)) (lex_string cs) else Some ([], d # cs))
      else map_option (\<lambda>(s, rest). (c # s, rest)) (lex_string (d # cs)))"

text \<open>A number goes on over letters, digits and points, and over a sign after an \<open>e\<close> where what
  is read so far is not hexadecimal.\<close>

fun lex_number :: "string \<Rightarrow> string \<Rightarrow> string \<times> string" where
  "lex_number sofar [] = (sofar, [])"
| "lex_number sofar (c # cs) =
     (if is_ascii_alphanumeric c \<or> c = CHR ''.''
         \<or> ((c = CHR ''+'' \<or> c = CHR ''-'') \<and> (last sofar = CHR ''e'' \<or> last sofar = CHR ''E'')
            \<and> \<not> contains sofar ''0x'' \<and> \<not> contains sofar ''0X'')
      then lex_number (sofar @ [c]) cs else (sofar, c # cs))"

definition cname_char :: "char \<Rightarrow> bool" where
  "cname_char c = (is_ascii_alphanumeric c \<or> c = CHR ''_'' \<or> c = CHR ''-'')"

definition op_token :: "char \<Rightarrow> string \<Rightarrow> (ctoken \<times> string) option" where
  "op_token c cs =
     (case cs of
        d # rest \<Rightarrow>
          (if [c, d] = ''=='' then Some (TOp CEqual, rest)
           else if [c, d] = ''!='' then Some (TOp CNotEqual, rest)
           else if [c, d] = ''<='' then Some (TOp CLessEq, rest)
           else if [c, d] = ''>='' then Some (TOp CGreaterEq, rest)
           else if [c, d] = ''&&'' then Some (TOp CAnd, rest)
           else if [c, d] = ''||'' then Some (TOp COr, rest)
           else None)
      | [] \<Rightarrow> None)"

definition starts_number :: "char \<Rightarrow> string \<Rightarrow> bool" where
  "starts_number c cs =
     (is_ascii_digit c
      \<or> (c \<in> {CHR ''-'', CHR ''+'', CHR ''.''} \<and> (case cs of d # _ \<Rightarrow> is_ascii_digit d \<or> d = CHR ''.'' | [] \<Rightarrow> False)))"

text \<open>The token that begins with \<open>c\<close>, and what follows it. White space is not a token.\<close>

definition lex_one :: "nat \<Rightarrow> char \<Rightarrow> string \<Rightarrow> cerror + ctoken \<times> string" where
  "lex_one pos c cs =
     (if c = CHR ''('' then Inr (TOpen, cs)
      else if c = CHR '')'' then Inr (TClose, cs)
      else if c = CHR ''['' then Inr (TOpenIndex, cs)
      else if c = CHR '']'' then Inr (TCloseIndex, cs)
      else if c = CHR '','' then Inr (TComma, cs)
      else if c = CHR ''*'' then Inr (TStar, cs)
      else if c = quote_char then
        (case lex_string cs of None \<Rightarrow> cerr pos Unclosed_string | Some (s, rest) \<Rightarrow> Inr (TText s, rest))
      else if c = CHR 0x22 then cerr pos Double_quoted
      else (case op_token c cs of
              Some t \<Rightarrow> Inr t
            | None \<Rightarrow>
                if c = CHR ''<'' then Inr (TOp CLess, cs)
                else if c = CHR ''>'' then Inr (TOp CGreater, cs)
                else if c = CHR ''!'' then Inr (TNot, cs)
                else if starts_number c cs then
                  (let (text, rest) = lex_number [c] cs
                   in case parse_number text of None \<Rightarrow> cerr pos (Not_a_number text) | Some n \<Rightarrow> Inr (TNumber n, rest))
                else if c = CHR ''.'' then Inr (TDot, cs)
                else if is_ascii_lowercase c \<or> is_ascii_uppercase c \<or> c = CHR ''_'' then
                  Inr (TName (c # takeWhile cname_char cs), dropWhile cname_char cs)
                else cerr pos (Not_part_of_it c)))"

lemma lex_string_length: "lex_string s = Some (t, rest) \<Longrightarrow> length rest < length s"
  by (induction s arbitrary: t rest rule: lex_string.induct) (auto split: if_splits)

lemma lex_number_length: "lex_number sofar s = (t, rest) \<Longrightarrow> length rest \<le> length s"
  by (induction sofar s arbitrary: t rest rule: lex_number.induct) (auto split: if_splits)

lemma op_token_length: "op_token c cs = Some (t, rest) \<Longrightarrow> length rest \<le> length cs"
  by (auto simp: op_token_def split: list.splits if_splits)

definition shortens :: "string \<Rightarrow> cerror + ctoken \<times> string \<Rightarrow> bool" where
  "shortens cs r = (case r of Inl _ \<Rightarrow> True | Inr (_, rest) \<Rightarrow> length rest \<le> length cs)"

lemma shortens_if: "shortens cs a \<Longrightarrow> shortens cs b \<Longrightarrow> shortens cs (if c then a else b)"
  by simp

lemma shortens_Inr: "length rest \<le> length cs \<Longrightarrow> shortens cs (Inr (t, rest))"
  by (simp add: shortens_def)

lemma shortens_cerr: "shortens cs (cerr pos p)"
  by (simp add: shortens_def cerr_def)

lemma shortens_string:
  "shortens cs (case lex_string cs of None \<Rightarrow> cerr pos Unclosed_string | Some (s, rest) \<Rightarrow> Inr (TText s, rest))"
  by (auto simp: shortens_def cerr_def dest: lex_string_length split: option.split)

lemma shortens_number:
  "shortens cs (let (text, rest) = lex_number [c] cs
      in case parse_number text of None \<Rightarrow> cerr pos (Not_a_number text) | Some n \<Rightarrow> Inr (TNumber n, rest))"
  by (auto simp: shortens_def cerr_def dest: lex_number_length split: option.split prod.split)

lemma shortens_op: "shortens cs r \<Longrightarrow> shortens cs (case op_token c cs of Some t \<Rightarrow> Inr t | None \<Rightarrow> r)"
  by (auto simp: shortens_def dest: op_token_length split: option.split)

lemma lex_one_shortens: "shortens cs (lex_one pos c cs)"
  unfolding lex_one_def
  by (intro shortens_if shortens_op shortens_string shortens_number shortens_cerr shortens_Inr length_dropWhile_le order_refl)

lemma lex_one_length: "lex_one pos c cs = Inr (t, rest) \<Longrightarrow> length rest \<le> length cs"
  using lex_one_shortens[of cs pos c] by (simp add: shortens_def)

definition lex_space :: "char \<Rightarrow> bool" where
  "lex_space c = (c \<in> {CHR '' '', CHR 0x09, CHR 0x0D, CHR 0x0A})"

function tokens_from :: "nat \<Rightarrow> string \<Rightarrow> cerror + (nat \<times> ctoken) list" where
  "tokens_from len [] = Inr []"
| "tokens_from len (c # cs) =
     (if lex_space c then tokens_from len cs
      else
        (let pos = len - str_len (c # cs)
         in case lex_one pos c cs of
              Inl e \<Rightarrow> Inl e
            | Inr (t, rest) \<Rightarrow> and_then (tokens_from len rest) (\<lambda>ts. Inr ((pos, t) # ts))))"
  by pat_completeness auto
termination
  by (relation "measure (\<lambda>(_, s). length s)") (auto dest: lex_one_length)

definition tokens :: "string \<Rightarrow> cerror + (nat \<times> ctoken) list" where
  "tokens s = tokens_from (str_len s) s"

end
