(* ===== verification/Ci_Parse.thy ===== *)
theory Ci_Parse
  imports Ci_Lex
begin

text \<open>
  The parser of CI expressions (\<open>Parser\<close> of crates/dagron-ci-expr/src/lib.rs). A parser takes the
  tokens that are left and answers what it read and what is left after it; \<open>eof\<close> is the text's
  length, where a problem at the end is. The field \<open>depth\<close> of the code counts up to \<open>MAX_DEPTH\<close>
  and is put back when an inner expression ends: here \<open>left\<close> is what remains of it, handed
  inwards, and the recursion is on it. Each loop of the code is a recursion with the number of
  tokens as fuel; \<open>Loop_unfinished\<close>, which stands for a loop cut short, never comes out.
\<close>

datatype node =
    NLiteral cval
  | NContext string
  | NProperty node string
  | NIndex node node
  | NEvery node
  | NCall nat string "node list"
  | NNot node
  | NBinary cop node node

type_synonym toks = "(nat \<times> ctoken) list"

text \<open>A node with how tall it stands.\<close>

type_synonym tall = "node \<times> nat"

type_synonym 'a cparser = "toks \<Rightarrow> cerror + 'a \<times> toks"

definition expr_max_depth :: nat where "expr_max_depth = 50"

definition max_height :: nat where "max_height = 100"

definition tok_at :: "nat \<Rightarrow> toks \<Rightarrow> nat" where
  "tok_at eof ts = (case ts of [] \<Rightarrow> eof | (pos, _) # _ \<Rightarrow> pos)"

definition leaf_node :: "node \<Rightarrow> tall" where
  "leaf_node n = (n, 0)"

definition over :: "nat \<Rightarrow> nat \<Rightarrow> node \<Rightarrow> cerror + tall" where
  "over pos below n = (if below \<ge> max_height then cerr pos Too_tall else Inr (n, below + 1))"

definition expect :: "nat \<Rightarrow> ctoken \<Rightarrow> string \<Rightarrow> toks \<Rightarrow> cerror + toks" where
  "expect eof want what ts =
     (case ts of
        (_, t) # rest \<Rightarrow> if t = want then Inr rest else cerr (tok_at eof ts) (Expected what)
      | [] \<Rightarrow> cerr (tok_at eof ts) (Expected what))"

definition tall_binary :: "nat \<Rightarrow> cop \<Rightarrow> tall \<Rightarrow> tall \<Rightarrow> cerror + tall" where
  "tall_binary pos op l r = over pos (max (snd l) (snd r)) (NBinary op (fst l) (fst r))"

subsection \<open>Chains of operators\<close>

fun chain_loop :: "nat \<Rightarrow> cop list \<Rightarrow> tall cparser \<Rightarrow> tall \<Rightarrow> tall cparser" where
  "chain_loop 0 ops sub l ts = cerr 0 Loop_unfinished"
| "chain_loop (Suc fuel) ops sub l ts =
     (case ts of
        (pos, TOp op) # rest \<Rightarrow>
          (if op \<in> set ops then
             and_then (sub rest) (\<lambda>(r, rest').
             and_then (tall_binary pos op l r) (\<lambda>t. chain_loop fuel ops sub t rest'))
           else Inr (l, ts))
      | _ \<Rightarrow> Inr (l, ts))"

definition chain :: "cop list \<Rightarrow> tall cparser \<Rightarrow> tall cparser" where
  "chain ops sub ts = and_then (sub ts) (\<lambda>(l, rest). chain_loop (Suc (length rest)) ops sub l rest)"

definition comparison_level :: "tall cparser \<Rightarrow> tall cparser" where
  "comparison_level = chain [CLess, CLessEq, CGreater, CGreaterEq]"

definition equality_level :: "tall cparser \<Rightarrow> tall cparser" where
  "equality_level unary = chain [CEqual, CNotEqual] (comparison_level unary)"

definition and_level :: "tall cparser \<Rightarrow> tall cparser" where
  "and_level unary = chain [CAnd] (equality_level unary)"

definition or_level :: "tall cparser \<Rightarrow> tall cparser" where
  "or_level unary = chain [COr] (and_level unary)"

subsection \<open>What an operator stands on\<close>

fun call_args :: "nat \<Rightarrow> nat \<Rightarrow> tall cparser \<Rightarrow> toks \<Rightarrow> cerror + (node list \<times> nat) \<times> toks" where
  "call_args 0 eof nested ts = cerr 0 Loop_unfinished"
| "call_args (Suc fuel) eof nested ts =
     and_then (nested ts) (\<lambda>((arg, height), rest).
       (case rest of
          (_, TComma) # rest' \<Rightarrow>
            and_then (call_args fuel eof nested rest') (\<lambda>((args, below), rest''). Inr ((arg # args, max height below), rest''))
        | (_, TClose) # rest' \<Rightarrow> Inr (([arg], height), rest')
        | _ \<Rightarrow> cerr (tok_at eof rest) Argument_end_expected))"

definition name_node :: "string \<Rightarrow> node" where
  "name_node name =
     (if name = ''true'' then NLiteral (CBool True)
      else if name = ''false'' then NLiteral (CBool False)
      else if name = ''null'' then NLiteral CNull
      else if name = ''NaN'' then NLiteral (CNumber NaN)
      else if name = ''Infinity'' then NLiteral (CNumber (Inf False))
      else NContext name)"

definition primary :: "nat \<Rightarrow> tall cparser \<Rightarrow> tall cparser" where
  "primary eof nested ts =
     (case ts of
        [] \<Rightarrow> cerr eof Ends_early
      | (pos, t) # rest \<Rightarrow>
          (case t of
             TNumber n \<Rightarrow> Inr (leaf_node (NLiteral (CNumber n)), rest)
           | TText s \<Rightarrow> Inr (leaf_node (NLiteral (CString s)), rest)
           | TOpen \<Rightarrow>
               and_then (nested rest) (\<lambda>(inner, rest').
               and_then (expect eof TClose ''a ')''  rest') (\<lambda>rest''. Inr (inner, rest'')))
           | TName name \<Rightarrow>
               (case rest of
                  (_, TOpen) # rest' \<Rightarrow>
                    and_then (case rest' of
                                (_, TClose) # rest'' \<Rightarrow> Inr (([], 0), rest'')
                              | _ \<Rightarrow> call_args (Suc (length rest')) eof nested rest')
                      (\<lambda>((args, below), rest''). and_then (over pos below (NCall pos name args)) (\<lambda>t. Inr (t, rest'')))
                | _ \<Rightarrow> Inr (leaf_node (name_node name), rest))
           | TStar \<Rightarrow> cerr pos Star_alone
           | _ \<Rightarrow> cerr pos Value_expected))"

fun postfix_loop :: "nat \<Rightarrow> nat \<Rightarrow> tall cparser \<Rightarrow> tall \<Rightarrow> tall cparser" where
  "postfix_loop 0 eof nested t ts = cerr 0 Loop_unfinished"
| "postfix_loop (Suc fuel) eof nested t ts =
     (case ts of
        (pos, TDot) # rest \<Rightarrow>
          and_then (case rest of
                      (_, TName name) # rest' \<Rightarrow> Inr (NProperty (fst t) name, rest')
                    | (_, TStar) # rest' \<Rightarrow> Inr (NEvery (fst t), rest')
                    | _ \<Rightarrow> cerr (tok_at eof rest) Name_expected)
            (\<lambda>(n, rest'). and_then (over pos (snd t) n) (\<lambda>t'. postfix_loop fuel eof nested t' rest'))
      | (pos, TOpenIndex) # rest \<Rightarrow>
          and_then (nested rest) (\<lambda>(index, rest').
          and_then (expect eof TCloseIndex ''a ]'' rest') (\<lambda>rest''.
          and_then (over pos (max (snd t) (snd index)) (NIndex (fst t) (fst index))) (\<lambda>t'.
            postfix_loop fuel eof nested t' rest'')))
      | _ \<Rightarrow> Inr (t, ts))"

definition postfix :: "nat \<Rightarrow> tall cparser \<Rightarrow> tall cparser" where
  "postfix eof nested ts = and_then (primary eof nested ts) (\<lambda>(t, rest). postfix_loop (Suc (length rest)) eof nested t rest)"

subsection \<open>Nesting\<close>

text \<open>
  \<open>unary\<close>, with \<open>nested\<close> in it: both count against the depth, and both refuse when none is left.
\<close>

primrec unary :: "nat \<Rightarrow> nat \<Rightarrow> tall cparser" where
  "unary 0 = (\<lambda>eof ts.
     case ts of
       (pos, TNot) # rest \<Rightarrow> cerr pos Nests_too_deeply
     | _ \<Rightarrow> postfix eof (\<lambda>ts'. cerr (tok_at eof ts') Nests_too_deeply) ts)"
| "unary (Suc left) = (\<lambda>eof ts.
     case ts of
       (pos, TNot) # rest \<Rightarrow>
         and_then (unary left eof rest) (\<lambda>(inner, rest').
         and_then (over pos (snd inner) (NNot (fst inner))) (\<lambda>t. Inr (t, rest')))
     | _ \<Rightarrow> postfix eof (or_level (unary left eof)) ts)"

definition parse_or :: "nat \<Rightarrow> tall cparser" where
  "parse_or eof = or_level (unary expr_max_depth eof)"

definition parse :: "string \<Rightarrow> cerror + node" where
  "parse s =
     and_then (tokens s) (\<lambda>ts.
       if ts = [] then cerr 0 Empty_expression
       else and_then (parse_or (str_len s) ts) (\<lambda>((n, _), rest).
              if rest \<noteq> [] then cerr (tok_at (str_len s) rest) Goes_on else Inr n))"

end
