(* ===== verification/Ci_Grammar.thy ===== *)
theory Ci_Grammar
  imports Ci_Parse
begin

text \<open>
  The grammar of CI expressions, as crates/dagron-ci-expr/src/lib.rs documents it, and the proof
  that the parser reads exactly it: the contract \<open>cparser_of\<close> of a parser with what it reads and
  where it may_follow is kept by chains of operators, by postfixes and by nesting.
\<close>

subsection \<open>The grammar\<close>

text \<open>A chain of operators of one strength: the first operand, then operator and operand, from
  the left.\<close>

inductive chained :: "cop list \<Rightarrow> (node \<Rightarrow> toks \<Rightarrow> bool) \<Rightarrow> node \<Rightarrow> toks \<Rightarrow> bool" for ops sub where
  single: "sub n u \<Longrightarrow> chained ops sub n u"
| more: "chained ops sub a u \<Longrightarrow> op \<in> set ops \<Longrightarrow> sub b v \<Longrightarrow> chained ops sub (NBinary op a b) (u @ (pos, TOp op) # v)"

inductive arguments :: "(node \<Rightarrow> toks \<Rightarrow> bool) \<Rightarrow> node list \<Rightarrow> toks \<Rightarrow> bool" for expr where
  one_argument: "expr a u \<Longrightarrow> arguments expr [a] u"
| more_arguments: "expr a u \<Longrightarrow> arguments expr args v \<Longrightarrow> arguments expr (a # args) (u @ (pos, TComma) # v)"

inductive postfixed :: "(node \<Rightarrow> toks \<Rightarrow> bool) \<Rightarrow> node \<Rightarrow> toks \<Rightarrow> bool" for expr where
  number: "postfixed expr (NLiteral (CNumber x)) [(pos, TNumber x)]"
| string_literal: "postfixed expr (NLiteral (CString s)) [(pos, TText s)]"
| name: "postfixed expr (name_node s) [(pos, TName s)]"
| parenthesis: "expr n u \<Longrightarrow> postfixed expr n ((pos, TOpen) # u @ [(pos', TClose)])"
| call_nothing: "postfixed expr (NCall pos s []) [(pos, TName s), (pos', TOpen), (pos'', TClose)]"
| call: "arguments expr args u \<Longrightarrow>
    postfixed expr (NCall pos s args) ((pos, TName s) # (pos', TOpen) # u @ [(pos'', TClose)])"
| property: "postfixed expr n u \<Longrightarrow> postfixed expr (NProperty n s) (u @ [(pos, TDot), (pos', TName s)])"
| every: "postfixed expr n u \<Longrightarrow> postfixed expr (NEvery n) (u @ [(pos, TDot), (pos', TStar)])"
| index: "postfixed expr n u \<Longrightarrow> expr i v \<Longrightarrow>
    postfixed expr (NIndex n i) (u @ (pos, TOpenIndex) # v @ [(pos', TCloseIndex)])"

definition cmp_ops :: "cop list" where "cmp_ops = [CLess, CLessEq, CGreater, CGreaterEq]"

definition eq_ops :: "cop list" where "eq_ops = [CEqual, CNotEqual]"

definition or_form :: "(node \<Rightarrow> toks \<Rightarrow> bool) \<Rightarrow> node \<Rightarrow> toks \<Rightarrow> bool" where
  "or_form unary_form = chained [COr] (chained [CAnd] (chained eq_ops (chained cmp_ops unary_form)))"

text \<open>With at most \<open>d\<close> parentheses, brackets, calls and negations one in another.\<close>

primrec unary_form :: "nat \<Rightarrow> node \<Rightarrow> toks \<Rightarrow> bool" where
  "unary_form 0 = postfixed (\<lambda>_ _. False)"
| "unary_form (Suc d) = (\<lambda>n u. postfixed (or_form (unary_form d)) n u
     \<or> (\<exists>m v pos. n = NNot m \<and> u = (pos, TNot) # v \<and> unary_form d m v))"

definition expression_form :: "node \<Rightarrow> toks \<Rightarrow> bool" where
  "expression_form = or_form (unary_form expr_max_depth)"

primrec node_height :: "node \<Rightarrow> nat" where
  "node_height (NLiteral v) = 0"
| "node_height (NContext s) = 0"
| "node_height (NProperty n s) = Suc (node_height n)"
| "node_height (NIndex n i) = Suc (max (node_height n) (node_height i))"
| "node_height (NEvery n) = Suc (node_height n)"
| "node_height (NCall pos s args) = Suc (foldr max (map node_height args) 0)"
| "node_height (NNot n) = Suc (node_height n)"
| "node_height (NBinary op l r) = Suc (max (node_height l) (node_height r))"

lemma node_height_name [simp]: "node_height (name_node s) = 0"
  by (simp add: name_node_def)

subsection \<open>The contract of a parser\<close>

text \<open>What may follow an expression that is read by chains of the operators \<open>ops\<close>.\<close>

definition may_follow :: "cop list \<Rightarrow> toks \<Rightarrow> bool" where
  "may_follow ops rest = (case rest of
     [] \<Rightarrow> True
   | (_, t) # _ \<Rightarrow> t \<notin> {TDot, TOpenIndex, TOpen} \<and> (\<forall>op \<in> set ops. t \<noteq> TOp op))"

lemma may_follow_simps [simp]:
  "may_follow ops []"
  "may_follow ops ((pos, t) # rest) \<longleftrightarrow> t \<notin> {TDot, TOpenIndex, TOpen} \<and> (\<forall>op \<in> set ops. t \<noteq> TOp op)"
  by (simp_all add: may_follow_def)

lemma expect_Inr: "expect eof t what ts = Inr rest \<longleftrightarrow> (\<exists>pos. ts = (pos, t) # rest)"
  by (auto simp: expect_def cerr_def split: list.splits)

lemma expect_same [simp]: "expect eof t what ((pos, t) # rest) = Inr rest"
  by (simp add: expect_def)

lemma expect_ends: "expect eof t what ts = Inl e \<Longrightarrow> ce_problem e \<noteq> Loop_unfinished"
  by (auto simp: expect_def cerr_def split: list.splits prod.splits if_splits)

lemma over_Inr: "over pos below n = Inr t \<longleftrightarrow> below < max_height \<and> t = (n, Suc below)"
  by (auto simp: over_def cerr_def)

lemma over_ends: "over pos below n = Inl e \<Longrightarrow> ce_problem e \<noteq> Loop_unfinished"
  by (auto simp: over_def cerr_def split: if_splits)

locale cparser_of =
  fixes p :: "tall cparser" and reads :: "node \<Rightarrow> toks \<Rightarrow> bool" and ops :: "cop list"
  assumes sound: "p ts = Inr ((n, h), rest) \<Longrightarrow>
      \<exists>u. ts = u @ rest \<and> reads n u \<and> h = node_height n \<and> node_height n \<le> max_height"
    and starts: "reads n u \<Longrightarrow> \<exists>pos t v. u = (pos, t) # v \<and> t \<noteq> TClose"
    and complete: "reads n u \<Longrightarrow> node_height n \<le> max_height \<Longrightarrow> may_follow ops rest \<Longrightarrow>
      p (u @ rest) = Inr ((n, node_height n), rest)"
    and ends: "p ts = Inl e \<Longrightarrow> ce_problem e \<noteq> Loop_unfinished"
begin

lemma shrinks: "p ts = Inr (t, rest) \<Longrightarrow> length rest < length ts"
  using sound[of ts "fst t" "snd t" rest] starts by fastforce

lemma chain_sound:
  assumes "chain_loop fuel os p (a, node_height a) ts = Inr ((n, h), rest)"
    and "chained os reads a u" and "node_height a \<le> max_height"
  shows "\<exists>v. ts = v @ rest \<and> chained os reads n (u @ v) \<and> h = node_height n \<and> node_height n \<le> max_height"
  using assms
proof (induction fuel arbitrary: a u ts)
  case 0
  then show ?case by (simp add: cerr_def)
next
  case (Suc fuel)
  show ?case
  proof (cases "\<exists>pos op rest'. ts = (pos, TOp op) # rest' \<and> op \<in> set os")
    case True
    then obtain pos op rest' where ts: "ts = (pos, TOp op) # rest'" and op: "op \<in> set os" by blast
    from Suc.prems(1) op obtain b hb rest'' where b: "p rest' = Inr ((b, hb), rest'')"
      by (auto simp: ts and_then_Inr)
    obtain w where w: "rest' = w @ rest''" "reads b w" "hb = node_height b" using sound[OF b] by blast
    let ?n = "NBinary op a b"
    have "chained os reads ?n (u @ (pos, TOp op) # w)" using Suc.prems(2) op w(2) by (rule chained.more)
    moreover have "node_height ?n \<le> max_height" "chain_loop fuel os p (?n, node_height ?n) rest'' = Inr ((n, h), rest)"
      using Suc.prems(1) op b w(3) by (auto simp: ts tall_binary_def over_def cerr_def split: if_splits)
    ultimately obtain v where "rest'' = v @ rest" "chained os reads n ((u @ (pos, TOp op) # w) @ v)"
        "h = node_height n" "node_height n \<le> max_height" using Suc.IH by blast
    then show ?thesis by (intro exI[of _ "(pos, TOp op) # w @ v"]) (simp add: ts w(1))
  next
    case False
    then have "n = a" "h = node_height a" "rest = ts"
      using Suc.prems(1) by (auto split: list.splits prod.splits ctoken.splits if_splits)
    then show ?thesis using Suc.prems(2,3) by auto
  qed
qed

lemma chain_fuel:
  "length ts < fuel \<Longrightarrow> length ts < fuel' \<Longrightarrow> chain_loop fuel os p l ts = chain_loop fuel' os p l ts"
proof (induction fuel arbitrary: fuel' l ts)
  case (Suc fuel)
  obtain k where k: "fuel' = Suc k" using Suc.prems(2) by (cases fuel') auto
  have "chain_loop fuel os p t r = chain_loop k os p t r" if "length r < length ts" for t r
    by (rule Suc.IH) (use that Suc.prems k in linarith)+
  then show ?case
    by (auto simp: k dest!: shrinks intro!: and_then_cong split: list.splits ctoken.splits)
qed simp

lemma chain_ends: "length ts < fuel \<Longrightarrow> chain_loop fuel os p l ts = Inl e \<Longrightarrow> ce_problem e \<noteq> Loop_unfinished"
proof (induction fuel arbitrary: l ts)
  case (Suc fuel)
  show ?case
  proof (cases "\<exists>pos op rest. ts = (pos, TOp op) # rest \<and> op \<in> set os")
    case True
    then obtain pos op rest where ts: "ts = (pos, TOp op) # rest" and op: "op \<in> set os" by blast
    show ?thesis
    proof (cases "p rest")
      case (Inl e')
      then show ?thesis using Suc.prems(2) ends[OF Inl] by (simp add: ts op)
    next
      case (Inr b)
      obtain r rest' where b: "b = (r, rest')" by (cases b)
      have "length rest' < fuel" using shrinks[OF Inr[unfolded b]] Suc.prems(1) by (simp add: ts)
      then show ?thesis using Suc.prems(2) Suc.IH
        by (auto simp: ts op Inr b and_then_Inl tall_binary_def over_def cerr_def split: if_splits)
    qed
  next
    case False
    then show ?thesis using Suc.prems(2) by (auto split: list.splits prod.splits ctoken.splits if_splits)
  qed
qed simp

lemma chain_complete:
  assumes "chained os reads n u" and "node_height n \<le> max_height" and "set os \<inter> set ops = {}"
    and "may_follow ops rest"
  shows "chain os p (u @ rest) = chain_loop (Suc (length rest)) os p (n, node_height n) rest"
  using assms(1,2,4)
proof (induction arbitrary: rest rule: chained.induct)
  case (single n u)
  then show ?case by (simp add: chain_def complete)
next
  case (more a u op b v pos)
  let ?rest = "(pos, TOp op) # v @ rest"
  have "may_follow ops ?rest" using more.hyps(2) assms(3) by auto
  then have "chain os p (u @ ?rest) = chain_loop (Suc (length ?rest)) os p (a, node_height a) ?rest"
    using more.IH more.prems(1) by simp
  also have "\<dots> = chain_loop (length ?rest) os p (NBinary op a b, node_height (NBinary op a b)) rest"
    using more.hyps(2,3) more.prems by (simp add: complete tall_binary_def over_def)
  also have "\<dots> = chain_loop (Suc (length rest)) os p (NBinary op a b, node_height (NBinary op a b)) rest"
    by (rule chain_fuel) simp_all
  finally show ?case by simp
qed

lemma chain_stops:
  assumes "may_follow (os @ ops) rest"
  shows "chain_loop (Suc fuel) os p t rest = Inr (t, rest)"
  using assms by (auto split: list.splits prod.splits ctoken.splits)

lemma chain_ok:
  assumes "set os \<inter> set ops = {}"
  shows "cparser_of (chain os p) (chained os reads) (os @ ops)"
proof
  fix ts n h rest assume "chain os p ts = Inr ((n, h), rest)"
  then obtain a ha rest' where a: "p ts = Inr ((a, ha), rest')"
    and l: "chain_loop (Suc (length rest')) os p (a, ha) rest' = Inr ((n, h), rest)"
    by (auto simp: chain_def and_then_Inr)
  obtain u where u: "ts = u @ rest'" "reads a u" "ha = node_height a" "node_height a \<le> max_height"
    using sound[OF a] by blast
  obtain v where "rest' = v @ rest" "chained os reads n (u @ v)" "h = node_height n" "node_height n \<le> max_height"
    using chain_sound[OF l[unfolded u(3)] chained.single[of reads, OF u(2)] u(4)] by blast
  then show "\<exists>u. ts = u @ rest \<and> chained os reads n u \<and> h = node_height n \<and> node_height n \<le> max_height"
    using u(1) by auto
next
  show "\<exists>pos t v. u = (pos, t) # v \<and> t \<noteq> TClose" if "chained os reads n u" for n u
    using that by (induction rule: chained.induct) (auto dest: starts)
next
  fix n u rest assume "chained os reads n u" "node_height n \<le> max_height" "may_follow (os @ ops) rest"
  moreover from this(3) have "may_follow ops rest" by (auto simp: may_follow_def split: list.splits)
  ultimately show "chain os p (u @ rest) = Inr ((n, node_height n), rest)"
    by (simp only: chain_complete[OF _ _ assms] chain_stops)
next
  fix ts e assume "chain os p ts = Inl e"
  then show "ce_problem e \<noteq> Loop_unfinished"
    by (auto simp: chain_def and_then_Inl simp del: chain_loop.simps dest: ends chain_ends[rotated])
qed

subsection \<open>Calls and postfixes\<close>

lemma args_sound:
  "call_args fuel eof p ts = Inr ((args, b), rest) \<Longrightarrow>
     \<exists>u pos. ts = u @ (pos, TClose) # rest \<and> arguments reads args u
       \<and> b = foldr max (map node_height args) 0 \<and> b \<le> max_height"
proof (induction fuel arbitrary: ts args b)
  case (Suc fuel)
  from Suc.prems obtain a ha r where a: "p ts = Inr ((a, ha), r)" by (auto simp: and_then_Inr)
  obtain u where u: "ts = u @ r" "reads a u" "ha = node_height a" "node_height a \<le> max_height"
    using sound[OF a] by blast
  obtain pos t r' where r: "r = (pos, t) # r'" using Suc.prems a by (cases r) (auto simp: cerr_def)
  have "t = TComma \<or> t = TClose" using Suc.prems a by (cases t) (auto simp: r cerr_def)
  then show ?case
  proof
    assume t: "t = TComma"
    then obtain args' b' where l: "call_args fuel eof p r' = Inr ((args', b'), rest)" "args = a # args'" "b = max ha b'"
      using Suc.prems a by (auto simp: r and_then_Inr)
    then obtain v pos' where "r' = v @ (pos', TClose) # rest" "arguments reads args' v"
        "b' = foldr max (map node_height args') 0" "b' \<le> max_height" using Suc.IH by blast
    then show ?thesis using u l(2,3) more_arguments[of reads a u args' v pos]
      by (intro exI[of _ "u @ (pos, TComma) # v"] exI[of _ pos']) (simp add: r t)
  next
    assume "t = TClose"
    then show ?thesis using Suc.prems a u one_argument[of reads a u] by (auto simp: r)
  qed
qed (simp add: cerr_def)

lemma args_complete:
  assumes "arguments reads args u" and "foldr max (map node_height args) 0 \<le> max_height" and "length u < fuel"
  shows "call_args fuel eof p (u @ (pos, TClose) # rest) = Inr ((args, foldr max (map node_height args) 0), rest)"
  using assms
proof (induction arbitrary: fuel rule: arguments.induct)
  case (one_argument a u)
  then obtain k where "fuel = Suc k" by (cases fuel) auto
  with one_argument show ?case by (simp add: complete)
next
  case (more_arguments a u args v pos')
  then obtain k where k: "fuel = Suc k" by (cases fuel) auto
  have "call_args k eof p (v @ (pos, TClose) # rest) = Inr ((args, foldr max (map node_height args) 0), rest)"
    using more_arguments.IH[of k] more_arguments.prems by (simp add: k)
  then show ?case using more_arguments.hyps(1) more_arguments.prems by (simp add: k complete)
qed

lemma args_ends: "length ts < fuel \<Longrightarrow> call_args fuel eof p ts = Inl e \<Longrightarrow> ce_problem e \<noteq> Loop_unfinished"
proof (induction fuel arbitrary: ts e)
  case (Suc fuel)
  show ?case
  proof (cases "p ts")
    case (Inl e')
    then show ?thesis using Suc.prems(2) ends[OF Inl] by simp
  next
    case (Inr b)
    obtain a r where b: "b = (a, r)" by (cases b)
    have "length r < length ts" using Inr by (auto simp: b dest: shrinks)
    then have "call_args fuel eof p r' = Inl e' \<Longrightarrow> ce_problem e' \<noteq> Loop_unfinished" if "r = x # r'" for e' r' x
      using Suc.IH[of r'] Suc.prems(1) that by auto
    then show ?thesis using Suc.prems(2)
      by (fastforce simp: Inr b and_then_Inl cerr_def split: list.splits prod.splits ctoken.splits)
  qed
qed simp

lemma primary_sound:
  assumes "primary eof p ts = Inr ((n, h), rest)"
  shows "\<exists>u. ts = u @ rest \<and> postfixed reads n u \<and> h = node_height n \<and> node_height n \<le> max_height"
proof -
  obtain pos t r where ts: "ts = (pos, t) # r" using assms by (cases ts) (auto simp: primary_def cerr_def)
  show ?thesis
  proof (cases t)
    case (TNumber x)
    then show ?thesis using assms postfixed.number[of reads x pos] by (auto simp: primary_def ts leaf_node_def)
  next
    case (TText s)
    then show ?thesis using assms postfixed.string_literal[of reads s pos] by (auto simp: primary_def ts leaf_node_def)
  next
    case TOpen
    then obtain r' pos' where r': "p r = Inr ((n, h), r')" "r' = (pos', TClose) # rest"
      using assms by (auto simp: primary_def ts and_then_Inr expect_Inr)
    obtain u where u: "r = u @ r'" "reads n u" "h = node_height n" "node_height n \<le> max_height"
      using sound[OF r'(1)] by blast
    then show ?thesis using postfixed.parenthesis[of reads n u pos pos']
      by (intro exI[of _ "(pos, TOpen) # u @ [(pos', TClose)]"]) (simp add: ts TOpen r'(2))
  next
    case (TName s)
    show ?thesis
    proof (cases "\<exists>pos' r'. r = (pos', TOpen) # r'")
      case False
      then have "n = name_node s" "h = 0" "rest = r"
        using assms by (auto simp: primary_def ts TName leaf_node_def split: list.splits prod.splits ctoken.splits)
      then show ?thesis using postfixed.name[of reads s pos] by (intro exI[of _ "[(pos, TName s)]"]) (simp add: ts TName)
    next
      case True
      then obtain pos' r' where r: "r = (pos', TOpen) # r'" by blast
      show ?thesis
      proof (cases "\<exists>pos'' r''. r' = (pos'', TClose) # r''")
        case True
        then obtain pos'' r'' where r': "r' = (pos'', TClose) # r''" by blast
        then have "n = NCall pos s []" "h = 1" "rest = r''"
          using assms by (auto simp: primary_def ts TName r and_then_Inr over_Inr)
        then show ?thesis using postfixed.call_nothing[of reads pos s pos' pos'']
          by (intro exI[of _ "[(pos, TName s), (pos', TOpen), (pos'', TClose)]"]) (simp add: ts TName r r' max_height_def)
      next
        case False
        then obtain args b where a: "call_args (Suc (length r')) eof p r' = Inr ((args, b), rest)"
          and n: "b < max_height" "n = NCall pos s args" "h = Suc b"
          using assms by (auto simp: primary_def ts TName r and_then_Inr over_Inr split: list.splits prod.splits ctoken.splits simp del: call_args.simps)
        obtain u pos'' where u: "r' = u @ (pos'', TClose) # rest" "arguments reads args u"
            "b = foldr max (map node_height args) 0" using args_sound[OF a] by blast
        show ?thesis using postfixed.call[of reads args u pos s pos' pos''] u n
          by (intro exI[of _ "(pos, TName s) # (pos', TOpen) # u @ [(pos'', TClose)]"]) (simp add: ts TName r)
      qed
    qed
  qed (use assms in \<open>simp_all add: primary_def ts cerr_def\<close>)
qed

lemma primary_ends:
  assumes "primary eof p ts = Inl e"
  shows "ce_problem e \<noteq> Loop_unfinished"
  using assms
  by (auto simp: primary_def and_then_Inl cerr_def simp del: call_args.simps
      dest!: ends expect_ends over_ends dest: args_ends[rotated]
      split: list.splits prod.splits ctoken.splits)

lemma postfix_sound:
  assumes "postfix_loop fuel eof p (a, node_height a) ts = Inr ((n, h), rest)"
    and "postfixed reads a u" and "node_height a \<le> max_height"
  shows "\<exists>v. ts = v @ rest \<and> postfixed reads n (u @ v) \<and> h = node_height n \<and> node_height n \<le> max_height"
  using assms
proof (induction fuel arbitrary: a u ts)
  case 0
  then show ?case by (simp add: cerr_def)
next
  case (Suc fuel)
  consider (dot) pos r where "ts = (pos, TDot) # r" | (open_index) pos r where "ts = (pos, TOpenIndex) # r"
    | (other) "n = a" "h = node_height a" "rest = ts"
    using Suc.prems(1) by (auto split: list.splits prod.splits ctoken.splits)
  then show ?case
  proof cases
    case dot
    obtain b w r' where b: "r = w @ r'" "postfixed reads b (u @ (pos, TDot) # w)" "node_height b = Suc (node_height a)"
      "node_height b \<le> max_height" "postfix_loop fuel eof p (b, node_height b) r' = Inr ((n, h), rest)"
    proof -
      obtain pos' t r' where r: "r = (pos', t) # r'" using Suc.prems(1) by (cases r) (auto simp: dot cerr_def)
      have "(\<exists>s. t = TName s) \<or> t = TStar" using Suc.prems(1) by (cases t) (auto simp: dot r cerr_def)
      then show ?thesis
      proof
        assume "\<exists>s. t = TName s"
        then obtain s where t: "t = TName s" by blast
        show ?thesis using Suc.prems(1) postfixed.property[OF Suc.prems(2), of s pos pos']
          by (intro that[of "[(pos', t)]" r' "NProperty a s"]) (auto simp: dot r t and_then_Inr over_Inr)
      next
        assume t: "t = TStar"
        show ?thesis using Suc.prems(1) postfixed.every[OF Suc.prems(2), of pos pos']
          by (intro that[of "[(pos', t)]" r' "NEvery a"]) (auto simp: dot r t and_then_Inr over_Inr)
      qed
    qed
    obtain v where "r' = v @ rest" "postfixed reads n ((u @ (pos, TDot) # w) @ v)" "h = node_height n" "node_height n \<le> max_height"
      using Suc.IH[OF b(5,2,4)] by blast
    then show ?thesis by (intro exI[of _ "(pos, TDot) # w @ v"]) (simp add: dot b(1))
  next
    case open_index
    obtain i hi r' pos' r'' where i: "p r = Inr ((i, hi), r')" "r' = (pos', TCloseIndex) # r''" "max (node_height a) hi < max_height"
      "postfix_loop fuel eof p (NIndex a i, Suc (max (node_height a) hi)) r'' = Inr ((n, h), rest)"
      using Suc.prems(1) by (auto simp: open_index and_then_Inr over_Inr expect_Inr)
    obtain w where w: "r = w @ r'" "reads i w" "hi = node_height i" using sound[OF i(1)] by blast
    let ?u = "u @ (pos, TOpenIndex) # w @ [(pos', TCloseIndex)]"
    have "postfixed reads (NIndex a i) ?u" using Suc.prems(2) w(2) by (rule postfixed.index)
    moreover have "node_height (NIndex a i) \<le> max_height" using i(3) w(3) by (simp only: node_height.simps Suc_le_eq)
    moreover have "postfix_loop fuel eof p (NIndex a i, node_height (NIndex a i)) r'' = Inr ((n, h), rest)"
      using i(4) w(3) by simp
    ultimately obtain v where "r'' = v @ rest" "postfixed reads n (?u @ v)" "h = node_height n" "node_height n \<le> max_height"
      using Suc.IH by blast
    then show ?thesis by (intro exI[of _ "(pos, TOpenIndex) # w @ (pos', TCloseIndex) # v"]) (simp add: open_index i(2) w(1))
  next
    case other
    then show ?thesis using Suc.prems by auto
  qed
qed

lemma postfix_fuel:
  "length ts < fuel \<Longrightarrow> length ts < fuel' \<Longrightarrow> postfix_loop fuel eof p t ts = postfix_loop fuel' eof p t ts"
proof (induction fuel arbitrary: fuel' t ts)
  case (Suc fuel)
  obtain k where k: "fuel' = Suc k" using Suc.prems(2) by (cases fuel') auto
  have "postfix_loop fuel eof p t r = postfix_loop k eof p t r" if "length r < length ts" for t r
    by (rule Suc.IH) (use that Suc.prems k in linarith)+
  then show ?case
    by (auto simp: k expect_Inr cerr_def dest!: shrinks intro!: and_then_cong split: list.splits prod.splits ctoken.splits)
qed simp

lemma postfix_loop_ends:
  "length ts < fuel \<Longrightarrow> postfix_loop fuel eof p t ts = Inl e \<Longrightarrow> ce_problem e \<noteq> Loop_unfinished"
proof (induction fuel arbitrary: t ts)
  case (Suc fuel)
  have IH: "ce_problem e \<noteq> Loop_unfinished" if "length r < length ts" "postfix_loop fuel eof p t' r = Inl e" for t' r
    using Suc.IH[of r t'] that Suc.prems by simp
  show ?case using Suc.prems(2)
    by (auto simp: and_then_Inl expect_Inr cerr_def dest!: ends expect_ends over_ends shrinks IH[rotated]
        split: list.splits prod.splits ctoken.splits)
qed simp

lemma postfix_stops: "may_follow os rest \<Longrightarrow> postfix_loop (Suc fuel) eof p t rest = Inr (t, rest)"
  by (auto split: list.splits prod.splits ctoken.splits)

text \<open>Every postfixed form is read, and the loop goes on after it.\<close>

lemma postfix_primary:
  "primary eof p ts = Inr (t, rest) \<Longrightarrow> postfix eof p ts = postfix_loop (Suc (length rest)) eof p t rest"
  by (simp add: postfix_def)

lemma postfix_complete:
  assumes "postfixed reads n u" and "node_height n \<le> max_height" and "\<And>pos r. rest \<noteq> (pos, TOpen) # r"
  shows "postfix eof p (u @ rest) = postfix_loop (Suc (length rest)) eof p (n, node_height n) rest"
  using assms
proof (induction arbitrary: rest rule: postfixed.induct)
  case (number x pos)
  show ?case by (rule postfix_primary) (simp add: primary_def leaf_node_def)
next
  case (string_literal s pos)
  show ?case by (rule postfix_primary) (simp add: primary_def leaf_node_def)
next
  case (name s pos)
  show ?case
    by (rule postfix_primary) (use name.prems(2) in \<open>auto simp: primary_def leaf_node_def split: list.split prod.split ctoken.split\<close>)
next
  case (parenthesis n u pos pos')
  show ?case
    by (rule postfix_primary) (use parenthesis in \<open>simp add: primary_def complete\<close>)
next
  case (call_nothing pos s pos' pos'')
  show ?case by (rule postfix_primary) (simp add: primary_def over_def max_height_def)
next
  case (call args u pos s pos' pos'')
  let ?r = "u @ (pos'', TClose) # rest"
  obtain q t v where u: "u = (q, t) # v" "t \<noteq> TClose" using call.hyps by cases (auto dest: starts)
  have "call_args (Suc (length ?r)) eof p ?r = Inr ((args, foldr max (map node_height args) 0), rest)"
    using call.prems(1) by (intro args_complete[OF call.hyps]) simp_all
  then show ?case using u call.prems(1)
    by (intro postfix_primary) (simp add: primary_def over_def split: ctoken.split)
next
  case (property n u s pos pos')
  have "postfix eof p (u @ (pos, TDot) # (pos', TName s) # rest)
      = postfix_loop (Suc (Suc (Suc (length rest)))) eof p (n, node_height n) ((pos, TDot) # (pos', TName s) # rest)"
    using property.IH[of "(pos, TDot) # (pos', TName s) # rest"] property.prems(1) by simp
  also have "\<dots> = postfix_loop (Suc (Suc (length rest))) eof p (NProperty n s, node_height (NProperty n s)) rest"
    using property.prems(1) by (simp add: over_def)
  also have "\<dots> = postfix_loop (Suc (length rest)) eof p (NProperty n s, node_height (NProperty n s)) rest"
    by (rule postfix_fuel) simp_all
  finally show ?case by simp
next
  case (every n u pos pos')
  have "postfix eof p (u @ (pos, TDot) # (pos', TStar) # rest)
      = postfix_loop (Suc (Suc (Suc (length rest)))) eof p (n, node_height n) ((pos, TDot) # (pos', TStar) # rest)"
    using every.IH[of "(pos, TDot) # (pos', TStar) # rest"] every.prems(1) by simp
  also have "\<dots> = postfix_loop (Suc (Suc (length rest))) eof p (NEvery n, node_height (NEvery n)) rest"
    using every.prems(1) by (simp add: over_def)
  also have "\<dots> = postfix_loop (Suc (length rest)) eof p (NEvery n, node_height (NEvery n)) rest"
    by (rule postfix_fuel) simp_all
  finally show ?case by simp
next
  case (index n u i v pos pos')
  let ?r = "(pos, TOpenIndex) # v @ (pos', TCloseIndex) # rest"
  have "postfix eof p (u @ ?r) = postfix_loop (Suc (length ?r)) eof p (n, node_height n) ?r"
    using index.IH[of ?r] index.prems(1) by simp
  also have "\<dots> = postfix_loop (length ?r) eof p (NIndex n i, node_height (NIndex n i)) rest"
    using index.prems(1) index.hyps(2) by (simp add: over_def complete)
  also have "\<dots> = postfix_loop (Suc (length rest)) eof p (NIndex n i, node_height (NIndex n i)) rest"
    by (rule postfix_fuel) simp_all
  finally show ?case by simp
qed

lemma postfixed_starts:
  "postfixed reads n u \<Longrightarrow> \<exists>pos t v. u = (pos, t) # v \<and> t \<noteq> TClose \<and> t \<noteq> TNot"
  by (induction rule: postfixed.induct) auto

lemma postfix_ok: "cparser_of (postfix eof p) (postfixed reads) []"
proof
  fix ts n h rest assume "postfix eof p ts = Inr ((n, h), rest)"
  then obtain a ha rest' where a: "primary eof p ts = Inr ((a, ha), rest')"
    and l: "postfix_loop (Suc (length rest')) eof p (a, ha) rest' = Inr ((n, h), rest)"
    by (auto simp: postfix_def and_then_Inr)
  obtain u where u: "ts = u @ rest'" "postfixed reads a u" "ha = node_height a" "node_height a \<le> max_height"
    using primary_sound[OF a] by blast
  obtain v where "rest' = v @ rest" "postfixed reads n (u @ v)" "h = node_height n" "node_height n \<le> max_height"
    using postfix_sound[OF l[unfolded u(3)] u(2,4)] by blast
  then show "\<exists>u. ts = u @ rest \<and> postfixed reads n u \<and> h = node_height n \<and> node_height n \<le> max_height"
    using u(1) by auto
next
  show "\<exists>pos t v. u = (pos, t) # v \<and> t \<noteq> TClose" if "postfixed reads n u" for n u
    using postfixed_starts[OF that] by blast
next
  fix n u rest assume n: "postfixed reads n u" "node_height n \<le> max_height" and stop: "may_follow [] rest"
  have "rest \<noteq> (pos, TOpen) # r" for pos r using stop by auto
  from postfix_complete[OF n this] show "postfix eof p (u @ rest) = Inr ((n, node_height n), rest)"
    by (simp only: postfix_stops[OF stop])
next
  fix ts e assume "postfix eof p ts = Inl e"
  then show "ce_problem e \<noteq> Loop_unfinished"
    by (auto simp: postfix_def and_then_Inl simp del: postfix_loop.simps dest: primary_ends postfix_loop_ends[rotated])
qed

text \<open>A negation before what \<open>p\<close> reads, by a parser \<open>neg\<close> of what follows the \<open>!\<close>.\<close>

lemma negated_ok:
  assumes no_not: "\<And>n u. reads n u \<Longrightarrow> \<exists>pos t v. u = (pos, t) # v \<and> t \<noteq> TNot" and "ops = []"
    and neg_sound: "\<And>pos ts n h rest. neg pos ts = Inr ((n, h), rest) \<Longrightarrow>
      \<exists>m v. n = NNot m \<and> ts = v @ rest \<and> inner m v \<and> h = node_height n \<and> node_height n \<le> max_height"
    and neg_complete: "\<And>pos m v rest. inner m v \<Longrightarrow> node_height (NNot m) \<le> max_height \<Longrightarrow> may_follow [] rest \<Longrightarrow>
      neg pos (v @ rest) = Inr ((NNot m, node_height (NNot m)), rest)"
    and neg_ends: "\<And>pos ts e. neg pos ts = Inl e \<Longrightarrow> ce_problem e \<noteq> Loop_unfinished"
  shows "cparser_of (\<lambda>ts. case ts of (pos, TNot) # rest \<Rightarrow> neg pos rest | _ \<Rightarrow> p ts)
      (\<lambda>n u. reads n u \<or> (\<exists>m v pos. n = NNot m \<and> u = (pos, TNot) # v \<and> inner m v)) []"
    (is "cparser_of ?p ?reads []")
proof -
  have neg: "?p ((pos, TNot) # rest) = neg pos rest" for pos rest by simp
  have other: "?p ts = p ts" if "\<And>pos rest. ts \<noteq> (pos, TNot) # rest" for ts
    using that by (auto split: list.split prod.split ctoken.split)
  show ?thesis
  proof
    fix ts n h rest assume *: "?p ts = Inr ((n, h), rest)"
    show "\<exists>u. ts = u @ rest \<and> ?reads n u \<and> h = node_height n \<and> node_height n \<le> max_height"
    proof (cases "\<exists>pos r. ts = (pos, TNot) # r")
      case True
      then obtain pos r where ts: "ts = (pos, TNot) # r" by blast
      obtain m v where "n = NNot m" "r = v @ rest" "inner m v" "h = node_height n" "node_height n \<le> max_height"
        using neg_sound[of pos r n h rest] * by (auto simp: ts)
      then show ?thesis by (intro exI[of _ "(pos, TNot) # v"]) (auto simp: ts)
    next
      case False
      then have "p ts = Inr ((n, h), rest)" using * other by auto
      then show ?thesis using sound by blast
    qed
  next
    fix n u assume "?reads n u"
    then show "\<exists>pos t v. u = (pos, t) # v \<and> t \<noteq> TClose" using starts by auto
  next
    fix n u rest assume r: "?reads n u" "node_height n \<le> max_height" "may_follow [] rest"
    show "?p (u @ rest) = Inr ((n, node_height n), rest)"
    proof (cases "reads n u")
      case True
      obtain pos t v where "u = (pos, t) # v" "t \<noteq> TNot" using no_not[OF True] by blast
      then have "?p (u @ rest) = p (u @ rest)" by (intro other) auto
      also have "\<dots> = Inr ((n, node_height n), rest)" using True r(2,3) assms(2) by (intro complete) simp_all
      finally show ?thesis .
    next
      case False
      then obtain m v pos where "n = NNot m" "u = (pos, TNot) # v" "inner m v" using r(1) by blast
      then show ?thesis using r(2,3) by (simp add: neg_complete del: node_height.simps)
    qed
  next
    fix ts e assume *: "?p ts = Inl e"
    show "ce_problem e \<noteq> Loop_unfinished"
    proof (cases "\<exists>pos r. ts = (pos, TNot) # r")
      case True
      then show ?thesis using * neg_ends by auto
    next
      case False
      then show ?thesis using * other ends by auto
    qed
  qed
qed

end

subsection \<open>The parser reads the grammar\<close>

lemma or_level_ok:
  assumes "cparser_of un form []"
  shows "cparser_of (or_level un) (or_form form) ([COr] @ [CAnd] @ eq_ops @ cmp_ops @ [])"
proof -
  have 1: "cparser_of (comparison_level un) (chained cmp_ops form) (cmp_ops @ [])"
    using cparser_of.chain_ok[OF assms, of cmp_ops] by (simp add: comparison_level_def cmp_ops_def)
  have 2: "cparser_of (equality_level un) (chained eq_ops (chained cmp_ops form)) (eq_ops @ cmp_ops @ [])"
    using cparser_of.chain_ok[OF 1, of eq_ops] by (simp add: equality_level_def cmp_ops_def eq_ops_def)
  have 3: "cparser_of (and_level un) (chained [CAnd] (chained eq_ops (chained cmp_ops form))) ([CAnd] @ eq_ops @ cmp_ops @ [])"
    using cparser_of.chain_ok[OF 2, of "[CAnd]"] by (simp add: and_level_def cmp_ops_def eq_ops_def)
  show ?thesis
    using cparser_of.chain_ok[OF 3, of "[COr]"] by (simp add: or_level_def or_form_def cmp_ops_def eq_ops_def)
qed

lemma refused_ok: "cparser_of (\<lambda>ts. cerr (tok_at eof ts) Nests_too_deeply) (\<lambda>_ _. False) os"
  by unfold_locales (auto simp: cerr_def)

lemma unary_ok: "cparser_of (unary d eof) (unary_form d) []"
proof (induction d)
  case 0
  have post: "cparser_of (postfix eof (\<lambda>ts. cerr (tok_at eof ts) Nests_too_deeply)) (postfixed (\<lambda>_ _. False)) []"
    by (rule cparser_of.postfix_ok[OF refused_ok])
  have "cparser_of (\<lambda>ts. case ts of (pos, TNot) # rest \<Rightarrow> cerr pos Nests_too_deeply
        | _ \<Rightarrow> postfix eof (\<lambda>ts. cerr (tok_at eof ts) Nests_too_deeply) ts)
      (\<lambda>n u. postfixed (\<lambda>_ _. False) n u \<or> (\<exists>m v pos. n = NNot m \<and> u = (pos, TNot) # v \<and> False)) []"
    by (rule cparser_of.negated_ok[OF post, where inner = "\<lambda>_ _. False"])
      (auto simp: cerr_def dest: cparser_of.postfixed_starts[OF refused_ok])
  then show ?case by simp
next
  case (Suc d)
  have nested: "cparser_of (or_level (unary d eof)) (or_form (unary_form d)) ([COr] @ [CAnd] @ eq_ops @ cmp_ops @ [])"
    by (rule or_level_ok[OF Suc.IH])
  have "cparser_of (\<lambda>ts. case ts of (pos, TNot) # rest \<Rightarrow>
          and_then (unary d eof rest) (\<lambda>(inner, rest'). and_then (over pos (snd inner) (NNot (fst inner))) (\<lambda>t. Inr (t, rest')))
        | _ \<Rightarrow> postfix eof (or_level (unary d eof)) ts)
      (\<lambda>n u. postfixed (or_form (unary_form d)) n u \<or> (\<exists>m v pos. n = NNot m \<and> u = (pos, TNot) # v \<and> unary_form d m v)) []"
  proof (rule cparser_of.negated_ok[OF cparser_of.postfix_ok[OF nested], where inner = "unary_form d"])
    show "\<exists>pos t v. u = (pos, t) # v \<and> t \<noteq> TNot" if "postfixed (or_form (unary_form d)) n u" for n u
      using cparser_of.postfixed_starts[OF nested that] by blast
  next
    fix pos ts n h rest
    assume "and_then (unary d eof ts) (\<lambda>(inner, rest'). and_then (over pos (snd inner) (NNot (fst inner))) (\<lambda>t. Inr (t, rest')))
      = Inr ((n, h), rest)"
    then obtain m hm where m: "unary d eof ts = Inr ((m, hm), rest)" "hm < max_height" "n = NNot m" "h = Suc hm"
      by (auto simp: and_then_Inr over_Inr)
    then show "\<exists>m v. n = NNot m \<and> ts = v @ rest \<and> unary_form d m v \<and> h = node_height n \<and> node_height n \<le> max_height"
      using cparser_of.sound[OF Suc.IH m(1)] by auto
  next
    fix pos m v rest assume "unary_form d m v" "node_height (NNot m) \<le> max_height" "may_follow [] rest"
    then show "and_then (unary d eof (v @ rest)) (\<lambda>(inner, rest'). and_then (over pos (snd inner) (NNot (fst inner))) (\<lambda>t. Inr (t, rest')))
      = Inr ((NNot m, node_height (NNot m)), rest)"
      using cparser_of.complete[OF Suc.IH, of m v rest] by (simp add: over_def)
  next
    fix pos ts e
    assume "and_then (unary d eof ts) (\<lambda>(inner, rest'). and_then (over pos (snd inner) (NNot (fst inner))) (\<lambda>t. Inr (t, rest')))
      = Inl e"
    then show "ce_problem e \<noteq> Loop_unfinished"
      by (auto simp: and_then_Inl dest: over_ends cparser_of.ends[OF Suc.IH])
  qed simp
  then show ?case by simp
qed

interpretation expression: cparser_of "parse_or eof" expression_form "[COr] @ [CAnd] @ eq_ops @ cmp_ops @ []" for eof
  unfolding parse_or_def expression_form_def by (rule or_level_ok[OF unary_ok])

end
