(* ===== verification/Ci_Eval.thy ===== *)
theory Ci_Eval
  imports Ci_Parse
begin

text \<open>
  Evaluating CI expressions, and the texts they stand in: templates, scripts and conditions
  (crates/dagron-ci-expr/src/lib.rs). The trait \<open>Host\<close>, which knows the contexts and the
  functions that only the caller can answer, is a record of two functions, with the parts of
  \<open>serde_json\<close> that \<open>toJSON\<close> and \<open>fromJSON\<close> call.
\<close>

record host =
  h_context :: "string \<Rightarrow> cval option"
  h_call :: "string \<Rightarrow> cval list \<Rightarrow> (string + cval) option"
  h_serde :: serde

definition status_functions :: "string list" where
  "status_functions = [''always'', ''cancelled'', ''failure'', ''success'']"

definition not_an_outsiders :: "string list" where
  "not_an_outsiders =
     [''action'', ''api_url'', ''event_name'', ''job'', ''ref_type'', ''repository'', ''repository_owner'',
      ''retention_days'', ''run_attempt'', ''run_id'', ''run_number'', ''server_url'', ''sha'', ''workflow'', ''workspace'']"

subsection \<open>What an expression reads and calls\<close>

primrec contexts :: "node \<Rightarrow> (string \<times> string option) list" where
  "contexts (NLiteral v) = []"
| "contexts (NContext name) = [(name, None)]"
| "contexts (NProperty base prop) = (case base of NContext name \<Rightarrow> [(name, Some prop)] | _ \<Rightarrow> contexts base)"
| "contexts (NIndex base index) =
     (case (base, index) of
        (NContext name, NLiteral (CString prop)) \<Rightarrow> [(name, Some prop)]
      | _ \<Rightarrow> contexts base @ contexts index)"
| "contexts (NEvery base) = contexts base"
| "contexts (NCall pos name args) = concat (map contexts args)"
| "contexts (NNot n) = contexts n"
| "contexts (NBinary op l r) = contexts l @ contexts r"

primrec called_functions :: "node \<Rightarrow> string list" where
  "called_functions (NLiteral v) = []"
| "called_functions (NContext name) = []"
| "called_functions (NProperty base prop) = called_functions base"
| "called_functions (NIndex base index) = called_functions base @ called_functions index"
| "called_functions (NEvery base) = called_functions base"
| "called_functions (NCall pos name args) = name # concat (map called_functions args)"
| "called_functions (NNot n) = called_functions n"
| "called_functions (NBinary op l r) = called_functions l @ called_functions r"

definition asks_status :: "node \<Rightarrow> bool" where
  "asks_status n = list_ex (\<lambda>f. list_ex (\<lambda>s. eq_ignore_ascii_case s f) status_functions) (called_functions n)"

definition outsider_free :: "string \<Rightarrow> string option \<Rightarrow> bool" where
  "outsider_free context prop =
     (let c = to_ascii_lowercase context
      in if c \<in> {''matrix'', ''strategy'', ''runner'', ''job'', ''vars''} then True
         else if c = ''github'' then (case prop of Some p \<Rightarrow> to_ascii_lowercase p \<in> set not_an_outsiders | None \<Rightarrow> False)
         else False)"

definition pasted :: "node \<Rightarrow> bool" where
  "pasted n = list_all (\<lambda>(context, prop). outsider_free context prop) (contexts n)"

subsection \<open>Functions\<close>

definition takes :: "nat \<Rightarrow> string \<Rightarrow> nat \<Rightarrow> nat \<Rightarrow> cval list \<Rightarrow> (cerror + cval) \<Rightarrow> cerror + cval" where
  "takes pos name least most args k =
     (if least \<le> length args \<and> length args \<le> most then k else cerr pos (Takes name least most (length args)))"

text \<open>\<open>format\<close>, on the text and what to put in it; \<open>find(['{', '}'])\<close> is the first brace.\<close>

lemma split_once_length: "split_once p s = Some (a, b) \<Longrightarrow> length b + length p \<le> length s"
  by (drule split_once_SomeD) simp

function format_from :: "nat \<Rightarrow> string \<Rightarrow> cval list \<Rightarrow> cerror + string" where
  "format_from pos [] args = Inr []"
| "format_from pos (c # cs) args =
     (if c \<noteq> CHR ''{'' \<and> c \<noteq> CHR ''}'' then and_then (format_from pos cs args) (\<lambda>out. Inr (c # out))
      else if cs \<noteq> [] \<and> hd cs = c then and_then (format_from pos (tl cs) args) (\<lambda>out. Inr (c # out))
      else if c = CHR ''{'' then
        (case split_once ''}'' cs of
           None \<Rightarrow> cerr pos Format_unclosed
         | Some (inner, rest) \<Rightarrow>
             (case parse_unsigned 64 (trim inner) of
                None \<Rightarrow> cerr pos (Format_no_number inner)
              | Some n \<Rightarrow>
                  if n < length args then and_then (format_from pos rest args) (\<lambda>out. Inr (cval_text (args ! n) @ out))
                  else cerr pos (Format_no_argument n)))
      else cerr pos Format_closes_nothing)"
  by pat_completeness auto
termination
  by (relation "measure (\<lambda>(_, s, _). length s)") (auto dest!: split_once_length simp: less_Suc_eq_le split: list.splits)

definition lower_text :: "cval \<Rightarrow> string" where
  "lower_text v = to_lowercase (cval_text v)"

definition ccontains :: "cval \<Rightarrow> cval \<Rightarrow> bool" where
  "ccontains search item =
     (case search of
        CArray items \<Rightarrow> list_ex (\<lambda>i. ccompare CEqual i item) items
      | _ \<Rightarrow> contains (lower_text search) (lower_text item))"

definition cjoin :: "cval \<Rightarrow> string \<Rightarrow> string" where
  "cjoin v sep = (case v of CArray items \<Rightarrow> join sep (map cval_text items) | _ \<Rightarrow> cval_text v)"

definition call :: "host \<Rightarrow> nat \<Rightarrow> string \<Rightarrow> cval list \<Rightarrow> cerror + cval" where
  "call h pos name args =
     (let f = to_ascii_lowercase name
      in if f = ''contains'' then
           takes pos name 2 2 args (Inr (CBool (ccontains (args ! 0) (args ! 1))))
         else if f = ''startswith'' then
           takes pos name 2 2 args (Inr (CBool (starts_with (lower_text (args ! 0)) (lower_text (args ! 1)))))
         else if f = ''endswith'' then
           takes pos name 2 2 args (Inr (CBool (ends_with (lower_text (args ! 0)) (lower_text (args ! 1)))))
         else if f = ''format'' then
           (case args of
              [] \<Rightarrow> cerr pos Format_nothing
            | s # rest \<Rightarrow> and_then (format_from pos (cval_text s) rest) (\<lambda>out. Inr (CString out)))
         else if f = ''join'' then
           takes pos name 1 2 args
             (Inr (CString (cjoin (args ! 0) (if 1 < length args then cval_text (args ! 1) else '',''))))
         else if f = ''tojson'' then
           takes pos name 1 1 args (Inr (CString (sj_pretty (h_serde h) (to_json (h_serde h) (args ! 0)))))
         else if f = ''fromjson'' then
           takes pos name 1 1 args
             (case sj_read (h_serde h) (cval_text (args ! 0)) of
                Inl e \<Rightarrow> cerr pos (Not_json e)
              | Inr j \<Rightarrow> Inr (from_json j))
         else
           (case h_call h name args of
              Some (Inr v) \<Rightarrow> Inr v
            | Some (Inl why) \<Rightarrow> cerr pos (Call_failed name why)
            | None \<Rightarrow> cerr pos (Not_callable name)))"

subsection \<open>Evaluation\<close>

definition is_object :: "cval \<Rightarrow> bool" where
  "is_object v = (case v of CObject _ \<Rightarrow> True | _ \<Rightarrow> False)"

definition read_property :: "cval \<times> bool \<Rightarrow> string \<Rightarrow> cval \<times> bool" where
  "read_property = (\<lambda>(base, every) name.
     if every then
       (case base of
          CArray items \<Rightarrow> (CArray (map (\<lambda>i. cval_get i name) (filter is_object items)), True)
        | _ \<Rightarrow> (CArray [], True))
     else (cval_get base name, False))"

text \<open>\<open>n as usize\<close> saturates at the largest \<open>usize\<close>.\<close>

definition read_index_of :: "cval \<Rightarrow> cval \<Rightarrow> cval" where
  "read_index_of index v =
     (case v of
        CArray items \<Rightarrow>
          (let n = cval_number index; i = min (nat (f64_floor n)) (2 ^ 64 - 1)
           in if f64_whole n \<and> f64_le (Fin 0) n \<and> i < length items then items ! i else CNull)
      | CObject _ \<Rightarrow> cval_get v (cval_text index)
      | _ \<Rightarrow> CNull)"

definition read_index :: "cval \<times> bool \<Rightarrow> cval \<Rightarrow> cval \<times> bool" where
  "read_index = (\<lambda>(base, every) index.
     case (every, base) of
       (True, CArray items) \<Rightarrow> (CArray (map (read_index_of index) items), True)
     | _ \<Rightarrow> (read_index_of index base, False))"

definition spread :: "cval \<Rightarrow> cval list" where
  "spread v = (case v of CObject fs \<Rightarrow> map snd fs | CArray items \<Rightarrow> items | _ \<Rightarrow> [])"

definition read_every :: "cval \<times> bool \<Rightarrow> cval \<times> bool" where
  "read_every = (\<lambda>(base, every).
     case (every, base) of
       (True, CArray items) \<Rightarrow> (CArray (concat (map spread items)), True)
     | _ \<Rightarrow> (CArray (spread base), True))"

fun eval :: "host \<Rightarrow> node \<Rightarrow> cerror + cval \<times> bool"
and eval_all :: "host \<Rightarrow> node list \<Rightarrow> cerror + cval list" where
  "eval h (NLiteral v) = Inr (v, False)"
| "eval h (NContext name) = (case h_context h name of Some v \<Rightarrow> Inr (v, False) | None \<Rightarrow> cerr 0 (Context_unknown name))"
| "eval h (NProperty base name) = and_then (eval h base) (\<lambda>b. Inr (read_property b name))"
| "eval h (NIndex base index) =
     and_then (eval h base) (\<lambda>b. and_then (eval h index) (\<lambda>i. Inr (read_index b (fst i))))"
| "eval h (NEvery base) = and_then (eval h base) (\<lambda>b. Inr (read_every b))"
| "eval h (NNot n) = and_then (eval h n) (\<lambda>v. Inr (CBool (\<not> truthy (fst v)), False))"
| "eval h (NBinary op l r) =
     and_then (eval h l) (\<lambda>a.
       if op = CAnd then (if truthy (fst a) then and_then (eval h r) (\<lambda>b. Inr (fst b, False)) else Inr (fst a, False))
       else if op = COr then (if truthy (fst a) then Inr (fst a, False) else and_then (eval h r) (\<lambda>b. Inr (fst b, False)))
       else and_then (eval h r) (\<lambda>b. Inr (CBool (ccompare op (fst a) (fst b)), False)))"
| "eval h (NCall pos name args) =
     and_then (eval_all h args) (\<lambda>values. and_then (call h pos name values) (\<lambda>v. Inr (v, False)))"
| "eval_all h [] = Inr []"
| "eval_all h (n # ns) = and_then (eval h n) (\<lambda>v. and_then (eval_all h ns) (\<lambda>vs. Inr (fst v # vs)))"

definition expr_eval :: "host \<Rightarrow> node \<Rightarrow> cerror + cval" where
  "expr_eval h n = and_then (eval h n) (\<lambda>v. Inr (fst v))"

subsection \<open>Templates\<close>

datatype part = PText string | PExpr node

text \<open>What stands before the \<open>}}\<close> that ends an expression, and what follows it.\<close>

fun expression_end :: "bool \<Rightarrow> string \<Rightarrow> (string \<times> string) option" where
  "expression_end quoted [] = None"
| "expression_end quoted (c # cs) =
     (if c = quote_char then map_option (\<lambda>(a, b). (c # a, b)) (expression_end (\<not> quoted) cs)
      else if c = CHR ''}'' \<and> \<not> quoted \<and> cs \<noteq> [] \<and> hd cs = CHR ''}'' then Some ([], tl cs)
      else map_option (\<lambda>(a, b). (c # a, b)) (expression_end quoted cs))"

lemma expression_end_SomeD: "expression_end q s = Some (a, b) \<Longrightarrow> s = a @ ''}}'' @ b"
proof (induction q s arbitrary: a b rule: expression_end.induct)
  case (2 q c cs)
  show ?case
  proof (cases "c = CHR ''}'' \<and> \<not> q \<and> cs \<noteq> [] \<and> hd cs = CHR ''}''")
    case True
    then show ?thesis using "2.prems" by (cases cs) auto
  next
    case False
    then show ?thesis using 2 by (auto split: if_splits)
  qed
qed simp

definition shifted :: "nat \<Rightarrow> cerror + 'a \<Rightarrow> cerror + 'a" where
  "shifted by r = (case r of Inl e \<Rightarrow> Inl (e\<lparr>ce_at := by + ce_at e\<rparr>) | Inr x \<Rightarrow> Inr x)"

definition text_part :: "string \<Rightarrow> part list" where
  "text_part s = (if s = [] then [] else [PText s])"

function template_from :: "nat \<Rightarrow> string \<Rightarrow> cerror + part list" where
  "template_from offset s =
     (case split_once ''${{'' s of
        None \<Rightarrow> Inr (text_part s)
      | Some (before, body) \<Rightarrow>
          (case expression_end False body of
             None \<Rightarrow> cerr (offset + str_len before) Unclosed_expression
           | Some (source, rest) \<Rightarrow>
               and_then (shifted (offset + str_len before + 3) (parse source)) (\<lambda>e.
               and_then (template_from (offset + str_len before + 3 + str_len source + 2) rest) (\<lambda>parts.
                 Inr (text_part before @ PExpr e # parts)))))"
  by pat_completeness auto
termination
  by (relation "measure (\<lambda>(_, s). length s)") (auto dest!: split_once_SomeD expression_end_SomeD)

declare template_from.simps [simp del]

definition template :: "string \<Rightarrow> cerror + part list" where
  "template s = template_from 0 s"

definition is_plain :: "part list \<Rightarrow> bool" where
  "is_plain ps = list_all (\<lambda>p. case p of PText _ \<Rightarrow> True | PExpr _ \<Rightarrow> False) ps"

definition exprs :: "part list \<Rightarrow> node list" where
  "exprs ps = concat (map (\<lambda>p. case p of PExpr e \<Rightarrow> [e] | PText _ \<Rightarrow> []) ps)"

fun template_text :: "host \<Rightarrow> part list \<Rightarrow> cerror + string" where
  "template_text h [] = Inr []"
| "template_text h (PText s # ps) = and_then (template_text h ps) (\<lambda>out. Inr (s @ out))"
| "template_text h (PExpr e # ps) =
     and_then (expr_eval h e) (\<lambda>v. and_then (template_text h ps) (\<lambda>out. Inr (cval_text v @ out)))"

definition template_eval :: "host \<Rightarrow> part list \<Rightarrow> cerror + cval" where
  "template_eval h ps =
     (case ps of
        [PExpr only] \<Rightarrow> expr_eval h only
      | _ \<Rightarrow> and_then (template_text h ps) (\<lambda>s. Inr (CString s)))"

function sources :: "string \<Rightarrow> string list" where
  "sources s =
     (case split_once ''${{'' s of
        None \<Rightarrow> []
      | Some (before, body) \<Rightarrow>
          (case expression_end False body of
             None \<Rightarrow> []
           | Some (source, rest) \<Rightarrow> source # sources rest))"
  by pat_completeness auto
termination
  by (relation "measure length") (auto dest!: split_once_SomeD expression_end_SomeD)

declare sources.simps [simp del]

text \<open>
  \<open>Template::replace\<close> as \<open>script\<close> calls it: the state its closure changes is the sources still
  to be cut, the expressions taken out so far, and whether one was refused.
\<close>

fun rewrite_parts :: "bool \<Rightarrow> part list \<Rightarrow> string list \<Rightarrow> string list \<Rightarrow> bool \<Rightarrow> string \<times> string list \<times> bool" where
  "rewrite_parts vars [] srcs taken refused = ([], taken, refused)"
| "rewrite_parts vars (PText s # ps) srcs taken refused =
     (let (out, r) = rewrite_parts vars ps srcs taken refused in (s @ out, r))"
| "rewrite_parts vars (PExpr e # ps) srcs taken refused =
     (let source = (case srcs of s # _ \<Rightarrow> s | [] \<Rightarrow> [])
      in if pasted e then
           (let (out, r) = rewrite_parts vars ps (tl srcs) taken refused in (''${{'' @ source @ ''}}'' @ out, r))
         else
           (let taken' = taken @ [trim source];
                (out, r) = rewrite_parts vars ps (tl srcs) taken' (refused \<or> \<not> vars)
            in (''${__CI_E'' @ digits_of (length taken') @ ''}'' @ out, r)))"

definition script :: "string \<Rightarrow> bool \<Rightarrow> cerror + (string \<times> string list) option" where
  "script run reads_variables =
     and_then (template run) (\<lambda>ps.
       (let (out, taken, refused) = rewrite_parts reads_variables ps (sources run) [] False
        in Inr (if refused then None else Some (out, taken))))"

definition condition :: "string \<Rightarrow> cerror + part list" where
  "condition s =
     (let trimmed = trim s
      in if contains trimmed ''${{'' then template trimmed
         else and_then (parse trimmed) (\<lambda>e. Inr [PExpr e]))"

end
