(* ===== verification/Ci_Expr_Props.thy ===== *)
theory Ci_Expr_Props
  imports Ci_Grammar Ci_Eval
begin

text \<open>
  What the CI server can rely on of its expressions: the parser reads the documented grammar and
  nothing else; comparisons and \<open>format\<close> do what they say; and no value an outsider chose gets
  into the text of a script.
\<close>

subsection \<open>Reading\<close>

lemma lex_one_problem: "lex_one pos c cs = Inl e \<Longrightarrow> ce_problem e \<noteq> Loop_unfinished"
  by (auto simp: lex_one_def cerr_def Let_def split: if_splits option.splits prod.splits)

lemma tokens_problem: "tokens_from len s = Inl e \<Longrightarrow> ce_problem e \<noteq> Loop_unfinished"
  by (induction len s arbitrary: e rule: tokens_from.induct)
    (auto simp: and_then_Inl Let_def dest: lex_one_problem split: if_splits sum.splits prod.splits)

lemma parse_or_all:
  "parse_or eof ts = Inr ((n, h), []) \<longleftrightarrow> expression_form n ts \<and> node_height n \<le> max_height \<and> h = node_height n"
  using expression.sound[of eof ts n h "[]"] expression.complete[of n ts "[]" eof] by auto

text \<open>C17. The parser reads the grammar. \<open>parse\<close> gives the tree \<open>n\<close> of a text exactly when the text has
  tokens and they are a sentence of the documented grammar with the tree \<open>n\<close> (operators by their
  strength and from the left, postfixes, calls, parentheses, at most 50 of them one in another) and
  the tree is at most 100 high; every other text is refused, and no refusal is a loop cut short.
  So a text has one tree, however it is derived.
\<close>

theorem parser_reads_grammar:
  "(parse s = Inr n \<longleftrightarrow>
      (\<exists>ts. tokens s = Inr ts \<and> ts \<noteq> [] \<and> expression_form n ts \<and> node_height n \<le> max_height))
   \<and> (case parse s of Inl e \<Rightarrow> ce_problem e \<noteq> Loop_unfinished | Inr _ \<Rightarrow> True)"
proof (cases "tokens s")
  case (Inl e)
  then show ?thesis using tokens_problem[of "str_len s" s e] by (simp add: parse_def tokens_def)
next
  case (Inr ts)
  show ?thesis
  proof (cases "ts = []")
    case True
    then show ?thesis using Inr by (simp add: parse_def cerr_def)
  next
    case False
    show ?thesis
    proof (cases "parse_or (str_len s) ts")
      case (Inl e)
      moreover from this have "\<not> (expression_form n ts \<and> node_height n \<le> max_height)"
        using parse_or_all[of "str_len s" ts n "node_height n"] by auto
      ultimately show ?thesis using Inr False expression.ends[OF Inl] by (auto simp: parse_def)
    next
      case read: (Inr r)
      obtain m h rest where r: "r = ((m, h), rest)" by (cases r) auto
      show ?thesis
        using Inr False read parse_or_all[of "str_len s" ts n "node_height n"] parse_or_all[of "str_len s" ts m h]
        by (cases "rest = []") (auto simp: r parse_def cerr_def)
    qed
  qed
qed

subsection \<open>Comparing\<close>

fun flipped :: "ordering \<Rightarrow> ordering" where
  "flipped OLt = OGt"
| "flipped OEq = OEq"
| "flipped OGt = OLt"

lemma f64_eq_sym: "f64_eq a b \<longleftrightarrow> f64_eq b a"
  by (cases a; cases b) auto

lemma f64_lt_asym: "f64_lt a b \<Longrightarrow> \<not> f64_lt b a \<and> \<not> f64_eq a b"
  by (cases a; cases b) auto

lemma f64_partial_cmp_flip: "f64_partial_cmp b a = map_option flipped (f64_partial_cmp a b)"
  using f64_lt_asym[of a b] f64_lt_asym[of b a] f64_eq_sym[of a b] by (auto simp: f64_partial_cmp_def)

lemma cmp_flip: "cmp b a = flipped (cmp a b)"
  by (auto simp: cmp_def)

lemma cval_cmp_flip: "cval_cmp b a = map_option flipped (cval_cmp a b)"
  by (cases a; cases b; hypsubst; unfold cval_cmp.simps option.map flipped.simps)
    (rule f64_partial_cmp_flip arg_cong[OF cmp_flip] refl)+

text \<open>
  How values compare. For all values: \<open>==\<close> does not depend on the order of its sides, \<open>!=\<close> is
  its negation, \<open>>\<close> and \<open>>=\<close> are \<open><\<close> and \<open><=\<close> turned around, \<open><=\<close> is \<open><\<close> or \<open>==\<close>, and at most one
  of \<open><\<close>, \<open>==\<close> and \<open>>\<close> holds; strings are equal ignoring case; a NaN, an array and an object
  equal nothing, themselves included. Yet \<open>==\<close> is no equivalence: \<open>'0'\<close> equals \<open>0\<close> and \<open>0\<close> equals
  the empty string, which \<open>'0'\<close> does not.
\<close>

theorem loose_comparison:
  "ccompare CEqual a b = ccompare CEqual b a
   \<and> ccompare CNotEqual a b = (\<not> ccompare CEqual a b)
   \<and> ccompare CGreater a b = ccompare CLess b a \<and> ccompare CGreaterEq a b = ccompare CLessEq b a
   \<and> ccompare CLessEq a b = (ccompare CLess a b \<or> ccompare CEqual a b)
   \<and> \<not> (ccompare CLess a b \<and> ccompare CEqual a b) \<and> \<not> (ccompare CLess a b \<and> ccompare CGreater a b)
   \<and> ccompare CEqual (CString s) (CString t) = (to_lowercase s = to_lowercase t)
   \<and> list_all (\<lambda>x. \<not> ccompare CEqual x b \<and> \<not> ccompare CEqual b x) [CNumber NaN, CArray items, CObject fs]
   \<and> ccompare CEqual (CString ''0'') (CNumber (Fin 0)) \<and> ccompare CEqual (CNumber (Fin 0)) (CString [])
   \<and> \<not> ccompare CEqual (CString ''0'') (CString [])"
proof -
  have none: "cval_cmp x b = None" if "x \<in> {CNumber NaN, CArray items, CObject fs}" for x
    using that by (cases b) (auto simp: f64_partial_cmp_def)
  have none': "cval_cmp b x = None" if "x \<in> {CNumber NaN, CArray items, CObject fs}" for x
    using none[OF that] cval_cmp_flip[of b x] by simp
  have strings: "ccompare CEqual (CString s) (CString t) = (to_lowercase s = to_lowercase t)"
    by (auto simp: ccompare_def cmp_def)
  have flip: "cval_cmp b a = map_option flipped (cval_cmp a b)" by (rule cval_cmp_flip)
  have laws: "ccompare CEqual a b = ccompare CEqual b a" "ccompare CNotEqual a b = (\<not> ccompare CEqual a b)"
    "ccompare CGreater a b = ccompare CLess b a" "ccompare CGreaterEq a b = ccompare CLessEq b a"
    "ccompare CLessEq a b = (ccompare CLess a b \<or> ccompare CEqual a b)"
    "\<not> (ccompare CLess a b \<and> ccompare CEqual a b)" "\<not> (ccompare CLess a b \<and> ccompare CGreater a b)"
    unfolding ccompare_def flip
    by (cases "cval_cmp a b"; cases "the (cval_cmp a b)"; simp)+
  have none_equal: "\<not> ccompare CEqual x b \<and> \<not> ccompare CEqual b x" if "x \<in> {CNumber NaN, CArray items, CObject fs}" for x
    using none[OF that] none'[OF that] by (simp add: ccompare_def)
  have unequal: "list_all (\<lambda>x. \<not> ccompare CEqual x b \<and> \<not> ccompare CEqual b x) [CNumber NaN, CArray items, CObject fs]"
    unfolding list_all_iff by (intro ballI none_equal) simp
  have spelled: "ccompare CEqual (CString ''0'') (CNumber (Fin 0))" "ccompare CEqual (CNumber (Fin 0)) (CString [])"
    "\<not> ccompare CEqual (CString ''0'') (CString [])"
    by code_simp+
  show ?thesis by (intro conjI laws strings unequal spelled)
qed


subsection \<open>Formatting\<close>

definition escape_braces :: "string \<Rightarrow> string" where
  "escape_braces s = concat (map (\<lambda>c. if c = CHR ''{'' \<or> c = CHR ''}'' then [c, c] else [c]) s)"

lemma format_escaped:
  "format_from pos (escape_braces a @ s) args = and_then (format_from pos s args) (\<lambda>out. Inr (a @ out))"
proof (induction a)
  case Nil
  show ?case by (cases "format_from pos s args") (simp_all add: escape_braces_def)
next
  case (Cons c a)
  then show ?case by (cases "format_from pos s args") (auto simp: escape_braces_def)
qed

lemma split_once_first: "CHR ''}'' \<notin> set a \<Longrightarrow> split_once ''}'' (a @ CHR ''}'' # b) = Some (a, b)"
  by (induction a) auto

lemma digits_plain: "c \<in> set (digits_of n) \<Longrightarrow> c \<noteq> CHR ''}'' \<and> c \<noteq> CHR ''{'' \<and> \<not> is_whitespace c"
  using digits_of_no_sign[of c n] by (auto simp: is_ascii_digit_def is_whitespace_def Let_def)

lemma trim_digits: "trim (digits_of n) = digits_of n"
  using digits_plain[of _ n] digits_of_ok[of n] by (intro trim_ends) simp

text \<open>\<open>format\<close> puts a value where its number stands. A text whose braces are doubled comes out as
  it was, and so do the texts around \<open>{n}\<close>, with the text of the argument between them: what an
  argument holds is not read again, braces included.
\<close>

theorem format_is_verbatim:
  assumes "n < length args" and "n < 2 ^ 64"
  shows "format_from pos (escape_braces a @ ''{'' @ digits_of n @ ''}'' @ escape_braces b) args
     = Inr (a @ cval_text (args ! n) @ b)"
proof -
  have b: "format_from pos (escape_braces b) args = Inr b" using format_escaped[of pos b "[]" args] by simp
  have "digits_of n \<noteq> []" using digits_of_ok[of n] by simp
  moreover from this have "hd (digits_of n) \<noteq> CHR ''{''" using digits_plain[of "hd (digits_of n)" n] by simp
  moreover have "split_once ''}'' (digits_of n @ CHR ''}'' # escape_braces b) = Some (digits_of n, escape_braces b)"
    by (rule split_once_first) (use digits_plain in blast)
  ultimately have "format_from pos (''{'' @ digits_of n @ ''}'' @ escape_braces b) args = Inr (cval_text (args ! n) @ b)"
    using assms parse_unsigned_digits_of[of n 64] by (simp add: trim_digits b)
  then show ?thesis by (simp add: format_escaped)
qed

theorem format_is_verbatim_witness:
  "format_from 0 ''{{{1}}}!'' [CNull, CString ''{0}'']  = Inr ''{{0}}!''"
proof -
  have "escape_braces ''{'' @ ''{'' @ digits_of 1 @ ''}'' @ escape_braces ''}!'' = ''{{{1}}}!''" by code_simp
  then show ?thesis using format_is_verbatim[of 1 "[CNull, CString ''{0}'']" 0 "''{''" "''}!''"] by simp
qed

end
