(* ===== verification/Ci_Script_Props.thy ===== *)
theory Ci_Script_Props
  imports Ci_Expr_Props
begin

text \<open>
  No value an outsider chose becomes part of a script. Two hosts that agree on everything but what
  an outsider chooses give every pasted expression the same value, and the script that \<open>script\<close>
  makes holds, read again, pasted expressions only.
\<close>

subsection \<open>What an outsider cannot change\<close>

text \<open>Hosts that differ at most in what outsiders choose: the contexts other than \<open>matrix\<close>,
  \<open>strategy\<close>, \<open>runner\<close>, \<open>job\<close> and \<open>vars\<close>, and of \<open>github\<close> the properties that are not listed.\<close>

definition same_github :: "cval option \<Rightarrow> cval option \<Rightarrow> bool" where
  "same_github v w \<longleftrightarrow>
     (case (v, w) of
        (None, None) \<Rightarrow> True
      | (Some a, Some b) \<Rightarrow> is_object a \<and> is_object b
          \<and> (\<forall>p. to_ascii_lowercase p \<in> set not_an_outsiders \<longrightarrow> cval_get a p = cval_get b p)
      | _ \<Rightarrow> False)"

definition same_but_outsiders :: "host \<Rightarrow> host \<Rightarrow> bool" where
  "same_but_outsiders h h' \<longleftrightarrow>
     h_call h = h_call h' \<and> h_serde h = h_serde h'
     \<and> (\<forall>c. to_ascii_lowercase c \<in> {''matrix'', ''strategy'', ''runner'', ''job'', ''vars''} \<longrightarrow> h_context h c = h_context h' c)
     \<and> (\<forall>c. to_ascii_lowercase c = ''github'' \<longrightarrow> same_github (h_context h c) (h_context h' c))"

lemma call_same:
  assumes "same_but_outsiders h h'"
  shows "call h = call h'"
proof -
  have "h_call h = h_call h'" "h_serde h = h_serde h'" using assms by (simp_all add: same_but_outsiders_def)
  then show ?thesis by (intro ext) (simp only: call_def)
qed

text \<open>A property of a context, as both ways of reading one give it.\<close>

lemma github_same:
  assumes "same_but_outsiders h h'" and "outsider_free c (Some p)"
  shows "h_context h c = h_context h' c
    \<or> (\<exists>xs ys. h_context h c = Some (CObject xs) \<and> h_context h' c = Some (CObject ys)
          \<and> cval_get (CObject xs) p = cval_get (CObject ys) p)"
proof (cases "to_ascii_lowercase c = ''github''")
  case True
  then have "to_ascii_lowercase p \<in> set not_an_outsiders" using assms(2) by (simp add: outsider_free_def)
  moreover have "same_github (h_context h c) (h_context h' c)" using assms(1) True by (simp add: same_but_outsiders_def)
  ultimately show ?thesis
    by (auto simp: same_github_def is_object_def simp del: cval_get.simps split: option.splits cval.splits)
next
  case False
  then have "to_ascii_lowercase c \<in> {''matrix'', ''strategy'', ''runner'', ''job'', ''vars''}"
    using assms(2) by (auto simp: outsider_free_def Let_def split: if_splits)
  then show ?thesis using assms(1) unfolding same_but_outsiders_def by blast
qed

lemma property_same:
  assumes "same_but_outsiders h h'" and "outsider_free c (Some p)"
  shows "eval h (NProperty (NContext c) p) = eval h' (NProperty (NContext c) p)"
    and "eval h (NIndex (NContext c) (NLiteral (CString p))) = eval h' (NIndex (NContext c) (NLiteral (CString p)))"
  using github_same[OF assms]
  by (auto simp: read_property_def read_index_def read_index_of_def simp del: cval_get.simps)

lemma context_same:
  assumes "same_but_outsiders h h'" and "outsider_free c None"
  shows "h_context h c = h_context h' c"
  using assms by (auto simp: outsider_free_def same_but_outsiders_def Let_def split: if_splits)

lemma eval_all_same: "(\<And>n. n \<in> set ns \<Longrightarrow> eval h n = eval h' n) \<Longrightarrow> eval_all h ns = eval_all h' ns"
  by (induction ns) simp_all

lemma eval_pasted:
  assumes same: "same_but_outsiders h h'"
  shows "pasted n \<Longrightarrow> eval h n = eval h' n"
proof (induction n)
  case (NContext name)
  then show ?case using context_same[OF same, of name] by (simp add: pasted_def)
next
  case (NProperty base p)
  show ?case
  proof (cases "\<exists>c. base = NContext c")
    case True
    then obtain c where base: "base = NContext c" by blast
    then have "outsider_free c (Some p)" using NProperty.prems by (simp add: pasted_def)
    from property_same(1)[OF same this] show ?thesis by (simp only: base)
  next
    case False
    then have "pasted base" using NProperty.prems by (cases base) (simp_all add: pasted_def)
    then show ?thesis using NProperty.IH by simp
  qed
next
  case (NIndex base index)
  show ?case
  proof (cases "\<exists>c p. base = NContext c \<and> index = NLiteral (CString p)")
    case True
    then obtain c p where b: "base = NContext c" "index = NLiteral (CString p)" by blast
    then have "outsider_free c (Some p)" using NIndex.prems by (simp add: pasted_def)
    from property_same(2)[OF same this] show ?thesis by (simp only: b)
  next
    case False
    then have "contexts (NIndex base index) = contexts base @ contexts index"
      by (auto split: node.splits cval.splits)
    then have "pasted base" "pasted index" using NIndex.prems by (simp_all add: pasted_def)
    then show ?thesis using NIndex.IH by simp
  qed
next
  case (NCall pos name args)
  then have "eval_all h args = eval_all h' args"
    by (intro eval_all_same) (auto simp: pasted_def list_all_iff)
  then show ?case using call_same[OF same] by simp
qed (simp_all add: pasted_def cong: if_cong)


definition event_host :: "string \<Rightarrow> host" where
  "event_host head_ref =
     \<lparr>h_context = (\<lambda>c. if c = ''github'' then Some (CObject [(''head_ref'', CString head_ref), (''sha'', CString ''0a1b'')]) else None),
      h_call = (\<lambda>_ _. None), h_serde = \<lparr>sj_double = (\<lambda>_. []), sj_read = (\<lambda>_. Inr JNull), sj_pretty = (\<lambda>_. [])\<rparr>\<rparr>"

lemma event_hosts_same: "same_but_outsiders (event_host a) (event_host b)"
proof -
  have "to_ascii_lowercase ''github'' = ''github''" "to_ascii_lowercase ''head_ref'' = ''head_ref''" by code_simp+
  then show ?thesis
    by (auto simp: same_but_outsiders_def event_host_def same_github_def is_object_def not_an_outsiders_def eq_ignore_ascii_case_def)
qed



subsection \<open>Scripts\<close>

text \<open>A text in which no expression begins.\<close>

definition no_open :: "string \<Rightarrow> bool" where
  "no_open s \<longleftrightarrow> split_once ''${{'' s = None"

lemma no_open_Nil [simp]: "no_open []"
  by (simp add: no_open_def)

lemma no_open_Cons: "no_open (c # s) \<longleftrightarrow> strip_prefix ''${{'' (c # s) = None \<and> no_open s"
  by (simp add: no_open_def del: strip_prefix.simps split: option.split)

lemma no_open_plain: "c \<noteq> CHR ''$'' \<Longrightarrow> no_open (c # s) \<longleftrightarrow> no_open s"
  by (simp add: no_open_Cons)

lemma no_open_append:
  assumes "no_open a" and "no_open b" and "a = [] \<or> last a \<notin> {CHR ''$'', CHR ''{''}"
  shows "no_open (a @ b)"
  using assms
proof (induction a)
  case (Cons c a)
  have "no_open a" using Cons.prems(1) by (simp add: no_open_Cons)
  then have "no_open (a @ b)" using Cons by (cases a) auto
  moreover have "strip_prefix ''${{'' (c # a @ b) = None"
    using Cons.prems(1,3) by (cases a; cases "tl a") (auto simp: no_open_Cons split: if_splits)
  ultimately show ?case by (simp add: no_open_Cons)
qed simp

lemma no_open_append_Cons:
  assumes "no_open a" and "no_open (c # b)" and "c \<noteq> CHR ''{''"
  shows "no_open (a @ c # b)"
  using assms(1)
proof (induction a)
  case (Cons x a)
  have "strip_prefix ''${{'' (x # a @ c # b) = None"
    using Cons.prems assms(3) by (cases a; cases "tl a") (auto simp: no_open_Cons split: if_splits)
  then show ?case using Cons by (simp add: no_open_Cons)
qed (use assms(2) in simp)

lemma split_open: "no_open a \<Longrightarrow> split_once ''${{'' (a @ ''${{'' @ b) = Some (a, b)"
proof (induction a)
  case (Cons c a)
  have "strip_prefix ''${{'' (c # a @ ''${{'' @ b) = None"
    using Cons.prems by (cases a; cases "tl a") (auto simp: no_open_Cons split: if_splits)
  then show ?case using Cons by (simp add: no_open_Cons del: strip_prefix.simps)
qed simp

lemma split_once_before: "split_once ''${{'' s = Some (a, b) \<Longrightarrow> no_open a"
proof (induction s arbitrary: a)
  case (Cons c s)
  show ?case
  proof (cases "strip_prefix ''${{'' (c # s)")
    case None
    then obtain a' where a: "a = c # a'" "split_once ''${{'' s = Some (a', b)"
      using Cons.prems by (auto simp del: strip_prefix.simps)
    have "s = a' @ ''${{'' @ b" using split_once_SomeD[OF a(2)] .
    then have "strip_prefix ''${{'' (c # a') = None"
      using None by (cases a'; cases "tl a'") (auto split: if_splits)
    then show ?thesis using Cons.IH[OF a(2)] by (simp add: a(1) no_open_Cons del: strip_prefix.simps)
  qed (use Cons.prems in \<open>simp del: strip_prefix.simps\<close>)
qed simp

lemma expression_end_other: "expression_end q (a @ ''}}'' @ b) = Some (a, b) \<Longrightarrow> expression_end q (a @ ''}}'' @ c) = Some (a, c)"
proof (induction a arbitrary: q)
  case (Cons x a)
  have "a @ ''}}'' @ b \<noteq> []" "a @ ''}}'' @ c \<noteq> []" "hd (a @ ''}}'' @ b) = hd (a @ ''}}'' @ c)"
    by (cases a; simp)+
  then show ?case using Cons by (auto split: if_splits)
qed auto

lemma no_open_variable: "no_open (''${__CI_E'' @ digits_of k @ ''}'')"
proof -
  have "no_open ds" if "list_all is_ascii_digit ds" for ds
    using that
  proof (induction ds)
    case (Cons d ds)
    then have "d \<noteq> CHR ''$''" by (auto simp: is_ascii_digit_def)
    then show ?case using Cons by (simp add: no_open_plain)
  qed simp
  then have "no_open (digits_of k)" using digits_of_ok by blast
  moreover have "no_open ''}''" by (simp add: no_open_plain)
  moreover have "last (digits_of k) \<notin> {CHR ''$'', CHR ''{''}"
    using digits_of_no_sign[of "last (digits_of k)" k] digits_of_ok[of k] by (auto simp: is_ascii_digit_def)
  ultimately have "no_open (digits_of k @ ''}'')" by (intro no_open_append) simp_all
  then show ?thesis by (simp add: no_open_Cons)
qed

lemma template_from_None: "no_open s \<Longrightarrow> template_from off s = Inr (text_part s)"
  by (simp add: template_from.simps no_open_def)

lemma exprs_text_part [simp]: "exprs (text_part s @ ps) = exprs ps" "exprs (text_part s) = []"
  by (simp_all add: exprs_def text_part_def)

lemma exprs_PExpr [simp]: "exprs (PExpr e # ps) = e # exprs ps" "exprs [] = []"
  by (simp_all add: exprs_def)

lemma shifted_Inr [simp]: "shifted by r = Inr x \<longleftrightarrow> r = Inr x"
  by (simp add: shifted_def split: sum.split)

text \<open>What a template is made of: a text in which no expression begins, an expression, the rest.\<close>

lemma template_from_cases:
  assumes "template_from off s = Inr ps"
  obtains (plain) "no_open s" "ps = text_part s" "sources s = []"
  | (expr) before source rest e parts where
      "s = before @ ''${{'' @ source @ ''}}'' @ rest" "no_open before" "parse source = Inr e"
      "expression_end False (source @ ''}}'' @ rest) = Some (source, rest)"
      "template_from (off + str_len before + 3 + str_len source + 2) rest = Inr parts"
      "ps = text_part before @ PExpr e # parts" "sources s = source # sources rest"
proof (cases "split_once ''${{'' s")
  case None
  then show ?thesis using assms plain by (simp add: template_from_None no_open_def sources.simps)
next
  case (Some q)
  obtain before body where q: "q = (before, body)" by (cases q)
  note s = split_once_SomeD[OF Some[unfolded q]]
  obtain source rest where e: "expression_end False body = Some (source, rest)"
    using assms by (cases "expression_end False body") (auto simp: template_from.simps[of off s] Some q cerr_def)
  have b: "body = source @ ''}}'' @ rest" by (rule expression_end_SomeD[OF e])
  obtain n parts where n: "parse source = Inr n"
    "template_from (off + str_len before + 3 + str_len source + 2) rest = Inr parts" "ps = text_part before @ PExpr n # parts"
    using assms by (auto simp: template_from.simps[of off s] Some q e and_then_Inr)
  have "sources s = source # sources rest" by (simp only: sources.simps[of s] Some q e option.case prod.case)
  from expr[OF _ split_once_before[OF Some[unfolded q]] n(1) _ n(2,3) this] s b e show ?thesis by simp
qed

lemma template_from_expr:
  assumes "no_open a" and "expression_end False (source @ ''}}'' @ rest) = Some (source, rest)" and "parse source = Inr e"
    and "template_from (off + str_len a + 3 + str_len source + 2) rest = Inr parts"
  shows "template_from off (a @ ''${{'' @ source @ ''}}'' @ rest) = Inr (text_part a @ PExpr e # parts)"
proof -
  have "shifted (off + str_len a + 3) (parse source) = Inr e" using assms(3) by simp
  then show ?thesis using assms(2,4)
    by (simp only: template_from.simps[of off] split_open[OF assms(1)] option.case prod.case and_then.simps)
qed

lemma rewrite_text_part:
  "rewrite_parts vars (text_part s @ ps) srcs taken refused = (let (out, r) = rewrite_parts vars ps srcs taken refused in (s @ out, r))"
  by (simp add: text_part_def split: prod.split)

text \<open>The rewritten script, read again, after a text in which no expression begins.\<close>

lemma rewritten_again:
  assumes "template_from off s = Inr ps" and "rewrite_parts vars ps (sources s) taken refused = (out, taken', refused')"
    and "no_open pre" and "pre = [] \<or> last pre = CHR ''}''"
  shows "\<exists>qs. template_from off' (pre @ out) = Inr qs \<and> exprs qs = filter pasted (exprs ps)"
  using assms
proof (induction "length s" arbitrary: s ps off off' taken refused out pre rule: less_induct)
  case less
  from less.prems(1) show ?case
  proof (cases rule: template_from_cases)
    case plain
    then have "no_open (pre @ out)" using less.prems
      by (intro no_open_append) (auto simp: text_part_def split: if_splits)
    then show ?thesis using plain by (simp add: template_from_None)
  next
    case (expr before source rest e parts)
    have shorter: "length rest < length s" by (simp add: expr(1))
    have pre: "no_open (pre @ before)" using less.prems(3,4) expr(2) by (intro no_open_append) auto
    show ?thesis
    proof (cases "pasted e")
      case True
      then obtain out' where out: "out = before @ ''${{'' @ source @ ''}}'' @ out'"
        "rewrite_parts vars parts (sources rest) taken refused = (out', taken', refused')"
        using less.prems(2) by (auto simp: expr(6,7) rewrite_text_part Let_def split: prod.splits)
      obtain qs where qs: "template_from (off' + str_len (pre @ before) + 3 + str_len source + 2) ([] @ out') = Inr qs"
        "exprs qs = filter pasted (exprs parts)"
        using less.hyps[OF shorter expr(5) out(2) no_open_Nil] by blast
      have "template_from off' ((pre @ before) @ ''${{'' @ source @ ''}}'' @ out') = Inr (text_part (pre @ before) @ PExpr e # qs)"
        using qs(1) by (intro template_from_expr[OF pre expression_end_other[OF expr(4)] expr(3)]) simp
      then show ?thesis using True qs(2) by (simp add: out(1) expr(6))
    next
      case False
      define v where "v = ''${__CI_E'' @ digits_of (length taken + 1) @ ''}''"
      obtain out' where out: "out = before @ v @ out'"
        "rewrite_parts vars parts (sources rest) (taken @ [trim source]) (refused \<or> \<not> vars) = (out', taken', refused')"
        using less.prems(2) False by (auto simp: v_def expr(6,7) rewrite_text_part Let_def split: prod.splits)
      have "no_open ((pre @ before) @ v)"
        using no_open_variable[of "length taken + 1"] unfolding v_def append_Cons by (intro no_open_append_Cons[OF pre]) simp_all
      then have "no_open (pre @ before @ v)" by simp
      moreover have "last (pre @ before @ v) = CHR ''}''" by (simp add: v_def)
      ultimately obtain qs where "template_from off' ((pre @ before @ v) @ out') = Inr qs" "exprs qs = filter pasted (exprs parts)"
        using less.hyps[OF shorter expr(5) out(2), of "pre @ before @ v" off'] by blast
      then show ?thesis using False by (simp add: out(1) expr(6))
    qed
  qed
qed

text \<open>What the rewriting takes out, and that it changes nothing where all is pasted.\<close>

lemma rewritten_counts:
  assumes "rewrite_parts vars ps srcs taken refused = (out, taken', refused')"
  shows "length taken' = length taken + length (filter (\<lambda>e. \<not> pasted e) (exprs ps))
    \<and> refused' = (refused \<or> (\<not> vars \<and> \<not> list_all pasted (exprs ps)))"
  using assms
  by (induction vars ps srcs taken refused arbitrary: out taken' refused' rule: rewrite_parts.induct)
    (auto simp: exprs_def Let_def split: prod.splits if_splits)

lemma rewritten_same:
  assumes "template_from off s = Inr ps" and "list_all pasted (exprs ps)"
  shows "rewrite_parts vars ps (sources s) taken refused = (s, taken, refused)"
  using assms
proof (induction "length s" arbitrary: s ps off rule: less_induct)
  case less
  from less.prems(1) show ?case
  proof (cases rule: template_from_cases)
    case plain
    then show ?thesis by (simp add: text_part_def)
  next
    case (expr before source rest e parts)
    have "length rest < length s" by (simp add: expr(1))
    from less.hyps[OF this expr(5)] show ?thesis using less.prems(2)
      by (simp add: expr(6,7) rewrite_text_part) (simp add: expr(1))
  qed
qed

lemma text_pasted:
  "same_but_outsiders h h' \<Longrightarrow> list_all pasted (exprs qs) \<Longrightarrow> template_text h qs = template_text h' qs"
proof (induction h qs rule: template_text.induct)
  case (3 h e ps)
  then have "expr_eval h e = expr_eval h' e" using eval_pasted[of h h' e] by (simp add: expr_eval_def)
  then show ?case using 3 by (cases "expr_eval h' e") simp_all
qed (simp_all add: exprs_def)



end
