(* ===== verification/Ci_Glob.thy ===== *)
theory Ci_Glob
  imports Rust_Str
begin

text \<open>
  The globs of the CI server's filters and of \<open>hashFiles\<close> (crates/dagron-ci-expr/src/glob.rs):
  how a pattern is compiled, the matcher with its memo table, and ordered pattern lists.
  A \<open>Vec<char>\<close> is a string; the memo, \<open>Vec<Vec<Option<bool>>>\<close>, is the map of its entries.
\<close>

subsection \<open>Compiling\<close>

datatype glob_token =
    GChar char
  | GOne
  | GStar
  | Globstar bool
  | GClass bool "(char \<times> char) list"

record glob =
  gl_source :: string
  gl_tokens :: "glob_token list"

datatype glob_error = Glob_empty | Glob_control string | Glob_backslash string | Glob_stars string | Glob_unclosed string

text \<open>The member of a set that begins with \<open>c\<close>, an escape already taken: one character or a range.\<close>

definition class_member :: "char \<Rightarrow> string \<Rightarrow> ((char \<times> char) \<times> string) option" where
  "class_member c cs =
     (case cs of
        d # e # rest \<Rightarrow>
          if d = CHR ''-'' \<and> e \<noteq> CHR '']'' then (if e < c then None else Some ((c, e), rest)) else Some ((c, c), cs)
      | _ \<Rightarrow> Some ((c, c), cs))"

definition class_escape :: "char \<Rightarrow> string \<Rightarrow> (char \<times> string) option" where
  "class_escape c cs =
     (if c = CHR 0x5C then (case cs of [] \<Rightarrow> None | d # rest \<Rightarrow> Some (d, rest)) else Some (c, cs))"

lemma class_member_length: "class_member c cs = Some (r, rest) \<Longrightarrow> length rest \<le> length cs"
  by (auto simp: class_member_def split: list.splits if_splits)

lemma class_escape_length: "class_escape c cs = Some (d, rest) \<Longrightarrow> length rest \<le> length cs"
  by (auto simp: class_escape_def split: list.splits if_splits)

function (sequential) class_from :: "bool \<Rightarrow> string \<Rightarrow> (char \<times> char) list \<Rightarrow> ((char \<times> char) list \<times> string) option" where
  "class_from first [] ranges = None"
| "class_from first (c # cs) ranges =
     (if c = CHR '']'' \<and> \<not> first then Some (ranges, cs)
      else case class_escape c cs of
             None \<Rightarrow> None
           | Some (d, ds) \<Rightarrow>
               (case class_member d ds of
                  None \<Rightarrow> None
                | Some (r, rest) \<Rightarrow> class_from False rest (ranges @ [r])))"
  by pat_completeness auto
termination
  by (relation "measure (\<lambda>(_, cs, _). length cs)") (auto dest!: class_member_length class_escape_length)

text \<open>\<open>[...]\<close>, from what follows the bracket.\<close>

definition glob_class :: "string \<Rightarrow> (glob_token \<times> string) option" where
  "glob_class cs =
     (let negated = (case cs of c # _ \<Rightarrow> c = CHR ''!'' \<or> c = CHR ''^'' | [] \<Rightarrow> False)
      in map_option (\<lambda>(ranges, rest). (GClass negated ranges, rest))
           (class_from True (if negated then tl cs else cs) []))"

lemma class_from_length: "class_from first cs ranges = Some (rs, rest) \<Longrightarrow> length rest < length cs"
proof (induction first cs ranges rule: class_from.induct)
  case (2 first c cs ranges)
  show ?case
  proof (cases "c = CHR '']'' \<and> \<not> first")
    case True
    with "2.prems" show ?thesis by simp
  next
    case False
    with "2.prems" obtain d ds r rest' where s: "class_escape c cs = Some (d, ds)" "class_member d ds = Some (r, rest')"
      "class_from False rest' (ranges @ [r]) = Some (rs, rest)"
      by (auto split: option.splits)
    from "2.IH" [OF False s(1) refl s(2) refl s(3)] class_escape_length [OF s(1)] class_member_length [OF s(2)]
    show ?thesis by simp
  qed
qed simp

lemma glob_class_length: "glob_class cs = Some (k, rest) \<Longrightarrow> length rest < length cs"
  by (auto simp: glob_class_def Let_def simp del: class_from.simps split: if_splits list.splits dest!: class_from_length)

function (sequential) glob_compile :: "string \<Rightarrow> string \<Rightarrow> glob_error + glob_token list" where
  "glob_compile pattern [] = Inr []"
| "glob_compile pattern (c # cs) =
     (let push = (\<lambda>k r. case r of Inl e \<Rightarrow> Inl e | Inr ks \<Rightarrow> Inr (k # ks))
      in if c = CHR 0x5C then
           (case cs of [] \<Rightarrow> Inl (Glob_backslash pattern) | d # ds \<Rightarrow> push (GChar d) (glob_compile pattern ds))
         else if c = CHR ''*'' \<and> starts_with cs ''*'' then
           (if starts_with cs ''**'' then Inl (Glob_stars pattern)
            else if starts_with cs ''*/'' then push (Globstar True) (glob_compile pattern (drop 2 cs))
            else push (Globstar False) (glob_compile pattern (drop 1 cs)))
         else if c = CHR ''*'' then push GStar (glob_compile pattern cs)
         else if c = CHR ''?'' then push GOne (glob_compile pattern cs)
         else if c = CHR ''['' then
           (case glob_class cs of
              None \<Rightarrow> Inl (Glob_unclosed pattern)
            | Some (k, rest) \<Rightarrow> push k (glob_compile pattern rest))
         else push (GChar c) (glob_compile pattern cs))"
  by pat_completeness auto
termination
  by (relation "measure (\<lambda>(_, cs). length cs)") (auto dest!: glob_class_length)

definition glob_new :: "string \<Rightarrow> glob_error + glob" where
  "glob_new pattern =
     (if pattern = [] then Inl Glob_empty
      else if list_ex is_control pattern then Inl (Glob_control pattern)
      else case glob_compile pattern pattern of
             Inl e \<Rightarrow> Inl e
           | Inr ks \<Rightarrow> Inr \<lparr>gl_source = pattern, gl_tokens = ks\<rparr>)"

subsection \<open>Matching\<close>

type_synonym memo = "nat \<times> nat \<Rightarrow> bool option"

definition in_class :: "bool \<Rightarrow> (char \<times> char) list \<Rightarrow> char \<Rightarrow> bool" where
  "in_class negated ranges c = (c \<noteq> CHR ''/'' \<and> list_ex (\<lambda>(lo, hi). lo \<le> c \<and> c \<le> hi) ranges \<noteq> negated)"

definition char_at :: "string \<Rightarrow> nat \<Rightarrow> (char \<Rightarrow> bool) \<Rightarrow> bool" where
  "char_at text t p = (t < length text \<and> p (text ! t))"

text \<open>\<open>any_end\<close> is the \<open>(t..text.len()).any(..)\<close> of a \<open>**/\<close>, from \<open>t\<close> on.\<close>

function matches_at :: "glob_token list \<Rightarrow> string \<Rightarrow> nat \<Rightarrow> nat \<Rightarrow> memo \<Rightarrow> bool \<times> memo"
  and any_end :: "glob_token list \<Rightarrow> string \<Rightarrow> nat \<Rightarrow> nat \<Rightarrow> memo \<Rightarrow> bool \<times> memo" where
  "matches_at tokens text t p memo =
     (case memo (t, p) of
        Some known \<Rightarrow> (known, memo)
      | None \<Rightarrow>
          (let (result, memo1) =
             (if length tokens \<le> p then (t = length text, memo)
              else case tokens ! p of
                GChar c \<Rightarrow> if char_at text t (\<lambda>x. x = c) then matches_at tokens text (t + 1) (p + 1) memo else (False, memo)
              | GOne \<Rightarrow> if char_at text t (\<lambda>x. x \<noteq> CHR ''/'') then matches_at tokens text (t + 1) (p + 1) memo else (False, memo)
              | GStar \<Rightarrow>
                  (let (a, memo1) = matches_at tokens text t (p + 1) memo
                   in if a then (True, memo1)
                      else if char_at text t (\<lambda>x. x \<noteq> CHR ''/'') then matches_at tokens text (t + 1) p memo1
                      else (False, memo1))
              | Globstar slash \<Rightarrow>
                  (let (a, memo1) = matches_at tokens text t (p + 1) memo
                   in if a then (True, memo1)
                      else if slash then any_end tokens text t p memo1
                      else if t < length text then matches_at tokens text (t + 1) p memo1
                      else (False, memo1))
              | GClass negated ranges \<Rightarrow>
                  if char_at text t (in_class negated ranges) then matches_at tokens text (t + 1) (p + 1) memo else (False, memo))
           in (result, memo1((t, p) := Some result))))"
| "any_end tokens text e p memo =
     (if length text \<le> e \<or> length tokens \<le> p then (False, memo)
      else if text ! e = CHR ''/'' then
        (let (a, memo1) = matches_at tokens text (e + 1) (p + 1) memo
         in if a then (True, memo1) else any_end tokens text (e + 1) p memo1)
      else any_end tokens text (e + 1) p memo)"
  by pat_completeness auto
termination
  by (relation "measures
      [case_sum (\<lambda>(tokens, _, _, p, _). length tokens - p) (\<lambda>(tokens, _, _, p, _). length tokens - p),
       case_sum (\<lambda>_. 1) (\<lambda>_. 0),
       case_sum (\<lambda>(_, text, t, _, _). length text - t) (\<lambda>(_, text, t, _, _). length text - t)]")
    (auto simp: char_at_def)

declare matches_at.simps [simp del] any_end.simps [simp del]

definition glob_matches :: "glob \<Rightarrow> string \<Rightarrow> bool" where
  "glob_matches g text = fst (matches_at (gl_tokens g) text 0 0 (\<lambda>_. None))"

subsection \<open>Pattern lists\<close>

datatype patterns_error = Bad_glob glob_error | Only_exclusions | Ignore_exclusion string

type_synonym patterns = "(bool \<times> glob) list"

fun compile_all :: "(bool \<times> string) list \<Rightarrow> patterns_error + patterns" where
  "compile_all [] = Inr []"
| "compile_all ((included, p) # ps) =
     (case glob_new p of
        Inl e \<Rightarrow> Inl (Bad_glob e)
      | Inr g \<Rightarrow> (case compile_all ps of Inl e \<Rightarrow> Inl e | Inr gs \<Rightarrow> Inr ((included, g) # gs)))"

definition read_pattern :: "string \<Rightarrow> bool \<times> string" where
  "read_pattern raw = (case strip_prefix ''!'' raw of Some rest \<Rightarrow> (False, rest) | None \<Rightarrow> (True, raw))"

definition patterns_include :: "string list \<Rightarrow> patterns_error + patterns" where
  "patterns_include raws =
     (case compile_all (map read_pattern raws) of
        Inl e \<Rightarrow> Inl e
      | Inr ps \<Rightarrow> if list_ex fst ps then Inr ps else Inl Only_exclusions)"

fun patterns_ignored :: "string list \<Rightarrow> patterns_error + patterns" where
  "patterns_ignored [] = Inr []"
| "patterns_ignored (raw # raws) =
     (if starts_with raw ''!'' then Inl (Ignore_exclusion raw)
      else case glob_new raw of
             Inl e \<Rightarrow> Inl (Bad_glob e)
           | Inr g \<Rightarrow> (case patterns_ignored raws of Inl e \<Rightarrow> Inl e | Inr gs \<Rightarrow> Inr ((False, g) # gs)))"

definition patterns_ignore :: "string list \<Rightarrow> patterns_error + patterns" where
  "patterns_ignore raws =
     (case patterns_ignored raws of
        Inl e \<Rightarrow> Inl e
      | Inr gs \<Rightarrow> Inr ((True, \<lparr>gl_source = ''**'', gl_tokens = [Globstar False]\<rparr>) # gs))"

definition patterns_match :: "patterns \<Rightarrow> string \<Rightarrow> bool" where
  "patterns_match ps name =
     (case List.find (\<lambda>(_, g). glob_matches g name) (rev ps) of None \<Rightarrow> False | Some (included, _) \<Rightarrow> included)"

definition patterns_any :: "patterns \<Rightarrow> string list \<Rightarrow> bool" where
  "patterns_any ps names = list_ex (patterns_match ps) names"

end
