(* ===== verification/Ci_Glob_Props.thy ===== *)
theory Ci_Glob_Props
  imports Ci_Glob
begin

text \<open>
  The language of a glob, and that the matcher with its memo table decides it; what the order of
  a pattern list means.
\<close>

subsection \<open>The language of a glob\<close>

fun token_fits :: "glob_token \<Rightarrow> string \<Rightarrow> bool" where
  "token_fits (GChar c) u = (u = [c])"
| "token_fits GOne u = (\<exists>c. u = [c] \<and> c \<noteq> CHR ''/'')"
| "token_fits GStar u = (CHR ''/'' \<notin> set u)"
| "token_fits (Globstar slash) u = (slash \<longrightarrow> u = [] \<or> last u = CHR ''/'')"
| "token_fits (GClass negated ranges) u = (\<exists>c. u = [c] \<and> in_class negated ranges c)"

inductive glob_lang :: "glob_token list \<Rightarrow> string \<Rightarrow> bool" where
  over: "glob_lang [] []"
| piece: "token_fits k u \<Longrightarrow> glob_lang ks v \<Longrightarrow> glob_lang (k # ks) (u @ v)"

inductive_simps glob_lang_Nil [simp]: "glob_lang [] v"
inductive_simps glob_lang_Cons: "glob_lang (k # ks) v"

lemma lang_one:
  assumes "\<And>u. token_fits k u \<longleftrightarrow> (\<exists>c. u = [c] \<and> P c)"
  shows "glob_lang (k # ks) v \<longleftrightarrow> (\<exists>c w. v = c # w \<and> P c \<and> glob_lang ks w)"
proof
  assume "\<exists>c w. v = c # w \<and> P c \<and> glob_lang ks w"
  then obtain c w where "v = [c] @ w" "token_fits k [c]" "glob_lang ks w" by (auto simp: assms)
  then show "glob_lang (k # ks) v" by (simp only: glob_lang.piece)
qed (auto simp: glob_lang_Cons assms)

lemma lang_star: "glob_lang (GStar # ks) v \<longleftrightarrow>
    glob_lang ks v \<or> (\<exists>c w. v = c # w \<and> c \<noteq> CHR ''/'' \<and> glob_lang (GStar # ks) w)"
proof
  assume "glob_lang (GStar # ks) v"
  then obtain u w where u: "v = u @ w" "CHR ''/'' \<notin> set u" "glob_lang ks w" by (auto simp: glob_lang_Cons)
  then show "glob_lang ks v \<or> (\<exists>c w. v = c # w \<and> c \<noteq> CHR ''/'' \<and> glob_lang (GStar # ks) w)"
    by (cases u) (auto simp: glob_lang_Cons)
next
  assume "glob_lang ks v \<or> (\<exists>c w. v = c # w \<and> c \<noteq> CHR ''/'' \<and> glob_lang (GStar # ks) w)"
  then show "glob_lang (GStar # ks) v"
  proof (elim disjE exE conjE)
    assume "glob_lang ks v"
    then show ?thesis using glob_lang.piece [of GStar "[]"] by simp
  next
    fix c w assume "v = c # w" "c \<noteq> CHR ''/''" "glob_lang (GStar # ks) w"
    moreover from this obtain u x where "w = u @ x" "CHR ''/'' \<notin> set u" "glob_lang ks x" by (auto simp: glob_lang_Cons)
    ultimately show ?thesis using glob_lang.piece [of GStar "c # u" ks x] by simp
  qed
qed

lemma lang_globstar: "glob_lang (Globstar False # ks) v \<longleftrightarrow>
    glob_lang ks v \<or> (\<exists>c w. v = c # w \<and> glob_lang (Globstar False # ks) w)"
proof
  assume "glob_lang (Globstar False # ks) v"
  then obtain u w where "v = u @ w" "glob_lang ks w" by (auto simp: glob_lang_Cons)
  then show "glob_lang ks v \<or> (\<exists>c w. v = c # w \<and> glob_lang (Globstar False # ks) w)"
    by (cases u) (auto simp: glob_lang_Cons)
next
  assume "glob_lang ks v \<or> (\<exists>c w. v = c # w \<and> glob_lang (Globstar False # ks) w)"
  then show "glob_lang (Globstar False # ks) v"
    unfolding glob_lang_Cons by (auto intro: exI [of _ "[]"]) (metis append_Cons)
qed

lemma lang_segments: "glob_lang (Globstar True # ks) v \<longleftrightarrow>
    glob_lang ks v \<or> (\<exists>e < length v. v ! e = CHR ''/'' \<and> glob_lang ks (drop (e + 1) v))"
proof
  assume "glob_lang (Globstar True # ks) v"
  then obtain u w where u: "v = u @ w" "u = [] \<or> last u = CHR ''/''" "glob_lang ks w" by (auto simp: glob_lang_Cons)
  show "glob_lang ks v \<or> (\<exists>e < length v. v ! e = CHR ''/'' \<and> glob_lang ks (drop (e + 1) v))"
  proof (cases "u = []")
    case False
    then have "length u - Suc 0 < length u" by simp
    then have "length u - 1 < length v" using u(1) by simp
    with False u have "length u - 1 < length v" "v ! (length u - 1) = CHR ''/''" "drop (length u - 1 + 1) v = w"
      by (simp_all add: nth_append last_conv_nth)
    with u(3) show ?thesis by blast
  qed (use u in simp)
next
  assume "glob_lang ks v \<or> (\<exists>e < length v. v ! e = CHR ''/'' \<and> glob_lang ks (drop (e + 1) v))"
  then show "glob_lang (Globstar True # ks) v"
  proof (elim disjE exE conjE)
    assume "glob_lang ks v"
    then show ?thesis using glob_lang.piece [of "Globstar True" "[]"] by simp
  next
    fix e assume e: "e < length v" "v ! e = CHR ''/''" "glob_lang ks (drop (e + 1) v)"
    then have "last (take (e + 1) v) = CHR ''/''" by (simp add: take_Suc_conv_app_nth)
    with e(3) have "glob_lang (Globstar True # ks) (take (e + 1) v @ drop (e + 1) v)" by (intro glob_lang.piece) simp_all
    then show ?thesis by simp
  qed
qed

subsection \<open>The memo table\<close>

text \<open>Every entry of the table is the answer of its own question.\<close>

definition sound_memo :: "glob_token list \<Rightarrow> string \<Rightarrow> memo \<Rightarrow> bool" where
  "sound_memo tokens text memo =
     (\<forall>t p b. t \<le> length text \<longrightarrow> memo (t, p) = Some b \<longrightarrow> b = glob_lang (drop p tokens) (drop t text))"

definition answers :: "glob_token list \<Rightarrow> string \<Rightarrow> bool \<Rightarrow> bool \<times> memo \<Rightarrow> bool" where
  "answers tokens text truth r = (fst r = truth \<and> sound_memo tokens text (snd r))"

lemma answers_pair: "answers tokens text truth (b, m) \<longleftrightarrow> b = truth \<and> sound_memo tokens text m"
  by (auto simp: answers_def)

text \<open>\<open>||\<close> with the memo threaded through.\<close>

lemma answers_or:
  assumes "answers tokens text A r" "\<And>m. r = (False, m) \<Longrightarrow> sound_memo tokens text m \<Longrightarrow> answers tokens text B (f m)"
  shows "answers tokens text (A \<or> B) (case r of (a, m) \<Rightarrow> if a then (True, m) else f m)"
  using assms by (cases r) (auto simp: answers_def)

lemma drop_at: "t < length text \<Longrightarrow> drop t text = text ! t # drop (Suc t) text"
  by (simp add: Cons_nth_drop_Suc)

lemma char_at_drop: "t \<le> length text \<Longrightarrow>
    (\<exists>c w. drop t text = c # w \<and> P c \<and> Q w) \<longleftrightarrow> char_at text t P \<and> Q (drop (Suc t) text)"
  by (cases "t < length text") (auto simp: char_at_def drop_at)

lemma answers_if:
  assumes "c \<Longrightarrow> answers tokens text A r" "sound_memo tokens text m"
  shows "answers tokens text (c \<and> A) (if c then r else (False, m))"
  using assms by (auto simp: answers_pair)

lemma answers_put:
  assumes "answers tokens text (glob_lang (drop p tokens) (drop t text)) r" "t \<le> length text"
  shows "answers tokens text (glob_lang (drop p tokens) (drop t text)) (case r of (b, m) \<Rightarrow> (b, m((t, p) := Some b)))"
  using assms by (cases r) (auto simp: answers_def sound_memo_def)

lemma lang_at:
  assumes "t \<le> length text" "p < length tokens"
  shows "glob_lang (drop p tokens) (drop t text) \<longleftrightarrow>
    (case tokens ! p of
       GChar c \<Rightarrow> char_at text t (\<lambda>x. x = c) \<and> glob_lang (drop (Suc p) tokens) (drop (Suc t) text)
     | GOne \<Rightarrow> char_at text t (\<lambda>x. x \<noteq> CHR ''/'') \<and> glob_lang (drop (Suc p) tokens) (drop (Suc t) text)
     | GStar \<Rightarrow> glob_lang (drop (Suc p) tokens) (drop t text)
         \<or> char_at text t (\<lambda>x. x \<noteq> CHR ''/'') \<and> glob_lang (drop p tokens) (drop (Suc t) text)
     | Globstar slash \<Rightarrow> glob_lang (drop (Suc p) tokens) (drop t text)
         \<or> (if slash then \<exists>e. t \<le> e \<and> e < length text \<and> text ! e = CHR ''/'' \<and> glob_lang (drop (Suc p) tokens) (drop (Suc e) text)
            else t < length text \<and> glob_lang (drop p tokens) (drop (Suc t) text))
     | GClass negated ranges \<Rightarrow> char_at text t (in_class negated ranges) \<and> glob_lang (drop (Suc p) tokens) (drop (Suc t) text))"
proof -
  have d: "drop p tokens = tokens ! p # drop (Suc p) tokens" using assms(2) by (simp add: Cons_nth_drop_Suc)
  note one = lang_one [of "tokens ! p" _ "drop (Suc p) tokens" "drop t text"]
  show ?thesis
  proof (cases "tokens ! p")
    case (GChar c)
    with d one [of "\<lambda>x. x = c"] char_at_drop [OF assms(1), of "\<lambda>x. x = c"] show ?thesis by simp
  next
    case GOne
    with d one [of "\<lambda>x. x \<noteq> CHR ''/''"] char_at_drop [OF assms(1), of "\<lambda>x. x \<noteq> CHR ''/''"] show ?thesis by simp
  next
    case GStar
    with d lang_star [of "drop (Suc p) tokens" "drop t text"]
      char_at_drop [OF assms(1), of "\<lambda>x. x \<noteq> CHR ''/''" "glob_lang (drop p tokens)"] show ?thesis by simp
  next
    case (GClass negated ranges)
    with d one [of "in_class negated ranges"] char_at_drop [OF assms(1), of "in_class negated ranges"] show ?thesis by simp
  next
    case (Globstar slash)
    show ?thesis
    proof (cases slash)
      case False
      with Globstar d lang_globstar [of "drop (Suc p) tokens" "drop t text"]
        char_at_drop [OF assms(1), of "\<lambda>x. True" "glob_lang (drop p tokens)"] show ?thesis by (simp add: char_at_def)
    next
      case True
      have "(\<exists>e < length (drop t text). drop t text ! e = CHR ''/'' \<and> glob_lang (drop (Suc p) tokens) (drop (e + 1) (drop t text)))
          \<longleftrightarrow> (\<exists>e. t \<le> e \<and> e < length text \<and> text ! e = CHR ''/'' \<and> glob_lang (drop (Suc p) tokens) (drop (Suc e) text))"
        (is "?l \<longleftrightarrow> ?r")
      proof
        assume ?l
        then obtain e where "e < length text - t" "text ! (t + e) = CHR ''/''" "glob_lang (drop (Suc p) tokens) (drop (Suc (t + e)) text)"
          using assms(1) by (auto simp: add.commute)
        then show ?r by (intro exI [of _ "t + e"]) auto
      next
        assume ?r
        then obtain e where "t \<le> e" "e < length text" "text ! e = CHR ''/''" "glob_lang (drop (Suc p) tokens) (drop (Suc e) text)" by blast
        then show ?l by (intro exI [of _ "e - t"]) auto
      qed
      with True Globstar d lang_segments [of "drop (Suc p) tokens" "drop t text"] show ?thesis by simp
    qed
  qed
qed

lemma matches_sound:
  "t \<le> length text \<Longrightarrow> p \<le> length tokens \<Longrightarrow> sound_memo tokens text memo \<Longrightarrow>
     answers tokens text (glob_lang (drop p tokens) (drop t text)) (matches_at tokens text t p memo)"
  "p < length tokens \<Longrightarrow> sound_memo tokens text memo \<Longrightarrow>
     answers tokens text (\<exists>e. t \<le> e \<and> e < length text \<and> text ! e = CHR ''/'' \<and> glob_lang (drop (Suc p) tokens) (drop (Suc e) text))
       (any_end tokens text t p memo)"
proof (induction tokens "text" t p memo and tokens "text" t p memo rule: matches_at_any_end.induct)
  case (1 tokens "text" t p memo)
  let ?L = "glob_lang (drop p tokens) (drop t text)"
  show ?case
  proof (cases "memo (t, p)")
    case (Some known)
    with "1.prems" show ?thesis by (subst matches_at.simps) (auto simp: answers_def sound_memo_def)
  next
    case None
    note IH = "1.IH" [OF None]
    have "answers tokens text ?L
      (if length tokens \<le> p then (t = length text, memo)
       else case tokens ! p of
         GChar c \<Rightarrow> if char_at text t (\<lambda>x. x = c) then matches_at tokens text (t + 1) (p + 1) memo else (False, memo)
       | GOne \<Rightarrow> if char_at text t (\<lambda>x. x \<noteq> CHR ''/'') then matches_at tokens text (t + 1) (p + 1) memo else (False, memo)
       | GStar \<Rightarrow>
           (let (a, memo1) = matches_at tokens text t (p + 1) memo
            in if a then (True, memo1)
               else if char_at text t (\<lambda>x. x \<noteq> CHR ''/'') then matches_at tokens text (t + 1) p memo1
               else (False, memo1))
       | Globstar slash \<Rightarrow>
           (let (a, memo1) = matches_at tokens text t (p + 1) memo
            in if a then (True, memo1)
               else if slash then any_end tokens text t p memo1
               else if t < length text then matches_at tokens text (t + 1) p memo1
               else (False, memo1))
       | GClass negated ranges \<Rightarrow>
           if char_at text t (in_class negated ranges) then matches_at tokens text (t + 1) (p + 1) memo else (False, memo))"
    proof (cases "p < length tokens")
      case False
      with "1.prems" show ?thesis by (auto simp: answers_pair)
    next
      case True
      note L = lang_at [OF "1.prems"(1) True]
      have c: "char_at text t P \<Longrightarrow> t + 1 \<le> length text" for P by (simp add: char_at_def)
      from True have p: "\<not> length tokens \<le> p" "p + 1 \<le> length tokens" by simp_all
      show ?thesis
      proof (cases "tokens ! p")
        case (GChar c)
        with L p "1.prems"(3) IH(1) [OF p(1) GChar _ c p(2)] show ?thesis by (simp add: answers_if)
      next
        case GOne
        with L p "1.prems"(3) IH(2) [OF p(1) GOne _ c p(2)] show ?thesis by (simp add: answers_if)
      next
        case GStar
        have "answers tokens text (glob_lang (drop (Suc p) tokens) (drop t text)
             \<or> char_at text t (\<lambda>x. x \<noteq> CHR ''/'') \<and> glob_lang (drop p tokens) (drop (Suc t) text))
          (case matches_at tokens text t (p + 1) memo of
             (a, m) \<Rightarrow> if a then (True, m) else if char_at text t (\<lambda>x. x \<noteq> CHR ''/'') then matches_at tokens text (t + 1) p m else (False, m))"
        proof (rule answers_or)
          show "answers tokens text (glob_lang (drop (Suc p) tokens) (drop t text)) (matches_at tokens text t (p + 1) memo)"
            using IH(3) [OF p(1) GStar "1.prems"(1) p(2) "1.prems"(3)] by simp
          fix m assume r: "matches_at tokens text t (p + 1) memo = (False, m)" and m: "sound_memo tokens text m"
          show "answers tokens text (char_at text t (\<lambda>x. x \<noteq> CHR ''/'') \<and> glob_lang (drop p tokens) (drop (Suc t) text))
             (if char_at text t (\<lambda>x. x \<noteq> CHR ''/'') then matches_at tokens text (t + 1) p m else (False, m))"
            using IH(4) [OF p(1) GStar refl r [symmetric] _ _ c "1.prems"(2) m] m by (intro answers_if) simp_all
        qed
        with GStar L p(1) show ?thesis by (simp add: Let_def)
      next
        case (Globstar slash)
        have "answers tokens text (glob_lang (drop (Suc p) tokens) (drop t text)
             \<or> (if slash then \<exists>e. t \<le> e \<and> e < length text \<and> text ! e = CHR ''/'' \<and> glob_lang (drop (Suc p) tokens) (drop (Suc e) text)
                else t < length text \<and> glob_lang (drop p tokens) (drop (Suc t) text)))
          (case matches_at tokens text t (p + 1) memo of
             (a, m) \<Rightarrow> if a then (True, m) else if slash then any_end tokens text t p m
                       else if t < length text then matches_at tokens text (t + 1) p m else (False, m))"
        proof (rule answers_or)
          show "answers tokens text (glob_lang (drop (Suc p) tokens) (drop t text)) (matches_at tokens text t (p + 1) memo)"
            using IH(5) [OF p(1) Globstar "1.prems"(1) p(2) "1.prems"(3)] by simp
          fix m assume r: "matches_at tokens text t (p + 1) memo = (False, m)" and m: "sound_memo tokens text m"
          show "answers tokens text
             (if slash then \<exists>e. t \<le> e \<and> e < length text \<and> text ! e = CHR ''/'' \<and> glob_lang (drop (Suc p) tokens) (drop (Suc e) text)
              else t < length text \<and> glob_lang (drop p tokens) (drop (Suc t) text))
             (if slash then any_end tokens text t p m
              else if t < length text then matches_at tokens text (t + 1) p m else (False, m))"
            using IH(6) [OF p(1) Globstar refl r [symmetric] _ _ True m] IH(7) [OF p(1) Globstar refl r [symmetric] _ _ _ _ "1.prems"(2) m] m
            by (auto intro: answers_if) (simp add: answers_pair)
        qed
        with Globstar L p(1) show ?thesis by (simp add: Let_def)
      next
        case (GClass negated ranges)
        with L p "1.prems"(3) IH(8) [OF p(1) GClass _ c p(2)] show ?thesis by (simp add: answers_if)
      qed
    qed
    from answers_put [OF this "1.prems"(1)] None show ?thesis
      by (subst matches_at.simps) (simp add: Let_def case_prod_unfold)
  qed
next
  case (2 tokens "text" e p memo)
  let ?Q = "\<lambda>e. text ! e = CHR ''/'' \<and> glob_lang (drop (Suc p) tokens) (drop (Suc e) text)"
  show ?case
  proof (cases "length text \<le> e")
    case True
    with "2.prems" show ?thesis by (subst any_end.simps) (auto simp: answers_pair)
  next
    case False
    with "2.prems" have n: "\<not> (length text \<le> e \<or> length tokens \<le> p)" "e + 1 \<le> length text" "p + 1 \<le> length tokens" by simp_all
    have split: "(\<exists>x. e \<le> x \<and> x < length text \<and> ?Q x) \<longleftrightarrow> ?Q e \<or> (\<exists>x. e + 1 \<le> x \<and> x < length text \<and> ?Q x)"
      (is "?l \<longleftrightarrow> ?r")
    proof
      assume ?l
      then obtain x where "e \<le> x" "x < length text" "?Q x" by blast
      then show ?r by (cases "x = e") auto
    next
      assume ?r
      with False have "?Q e \<and> e \<le> e \<and> e < length text \<or> (\<exists>x. e + 1 \<le> x \<and> x < length text \<and> ?Q x)" by auto
      moreover have "e \<le> x" if "e + 1 \<le> x" for x using that by simp
      ultimately show ?l by blast
    qed
    show ?thesis
    proof (cases "text ! e = CHR ''/''")
      case slash: True
      have "answers tokens text (glob_lang (drop (Suc p) tokens) (drop (Suc e) text) \<or> (\<exists>x. e + 1 \<le> x \<and> x < length text \<and> ?Q x))
        (case matches_at tokens text (e + 1) (p + 1) memo of (a, m) \<Rightarrow> if a then (True, m) else any_end tokens text (e + 1) p m)"
      proof (rule answers_or)
        show "answers tokens text (glob_lang (drop (Suc p) tokens) (drop (Suc e) text)) (matches_at tokens text (e + 1) (p + 1) memo)"
          using "2.IH"(1) [OF n(1) slash n(2,3) "2.prems"(2)] by simp
        fix m assume r: "matches_at tokens text (e + 1) (p + 1) memo = (False, m)" and m: "sound_memo tokens text m"
        show "answers tokens text (\<exists>x. e + 1 \<le> x \<and> x < length text \<and> ?Q x) (any_end tokens text (e + 1) p m)"
          using "2.IH"(2) [OF n(1) slash refl r [symmetric] _ "2.prems"(1) m] by simp
      qed
      with slash n(1) split show ?thesis by (subst any_end.simps) (simp add: Let_def case_prod_unfold)
    next
      case other: False
      with "2.IH"(3) [OF n(1) other "2.prems"] n(1) split show ?thesis by (subst any_end.simps) simp
    qed
  qed
qed

lemma glob_matches_lang: "glob_matches g text \<longleftrightarrow> glob_lang (gl_tokens g) text"
  using matches_sound(1) [of 0 "text" 0 "gl_tokens g" "\<lambda>_. None"]
  by (simp add: glob_matches_def answers_def sound_memo_def)

subsection \<open>Pattern lists\<close>

lemma find_rev_last: "List.find P (rev xs) = Some x \<longleftrightarrow> (\<exists>as bs. xs = as @ x # bs \<and> P x \<and> list_all (\<lambda>y. \<not> P y) bs)"
proof (induction xs rule: rev_induct)
  case (snoc y ys)
  show ?case
  proof (cases "P y")
    case True
    show ?thesis
    proof
      assume "List.find P (rev (ys @ [y])) = Some x"
      with True have "y = x" by simp
      with True show "\<exists>as bs. ys @ [y] = as @ x # bs \<and> P x \<and> list_all (\<lambda>y. \<not> P y) bs"
        by (intro exI [of _ ys] exI [of _ "[]"]) simp
    next
      assume "\<exists>as bs. ys @ [y] = as @ x # bs \<and> P x \<and> list_all (\<lambda>y. \<not> P y) bs"
      then obtain as bs where a: "ys @ [y] = as @ x # bs" "list_all (\<lambda>y. \<not> P y) bs" by blast
      then have "bs = []" using True by (cases bs rule: rev_cases) auto
      with a True show "List.find P (rev (ys @ [y])) = Some x" by simp
    qed
  next
    case False
    have "(\<exists>as bs. ys @ [y] = as @ x # bs \<and> P x \<and> list_all (\<lambda>y. \<not> P y) bs)
        \<longleftrightarrow> (\<exists>as bs. ys = as @ x # bs \<and> P x \<and> list_all (\<lambda>y. \<not> P y) bs)"
    proof
      assume "\<exists>as bs. ys @ [y] = as @ x # bs \<and> P x \<and> list_all (\<lambda>y. \<not> P y) bs"
      then obtain as bs where a: "ys @ [y] = as @ x # bs" "P x" "list_all (\<lambda>y. \<not> P y) bs" by blast
      then show "\<exists>as bs. ys = as @ x # bs \<and> P x \<and> list_all (\<lambda>y. \<not> P y) bs"
        using False by (cases bs rule: rev_cases) auto
    next
      assume "\<exists>as bs. ys = as @ x # bs \<and> P x \<and> list_all (\<lambda>y. \<not> P y) bs"
      then obtain as bs where "ys = as @ x # bs" "P x" "list_all (\<lambda>y. \<not> P y) bs" by blast
      with False show "\<exists>as bs. ys @ [y] = as @ x # bs \<and> P x \<and> list_all (\<lambda>y. \<not> P y) bs"
        by (intro exI [of _ as] exI [of _ "bs @ [y]"]) simp
    qed
    with False snoc.IH show ?thesis by simp
  qed
qed simp

lemma patterns_match_iff:
  "patterns_match ps name \<longleftrightarrow>
     (\<exists>as g bs. ps = as @ (True, g) # bs \<and> glob_lang (gl_tokens g) name \<and> list_all (\<lambda>(_, h). \<not> glob_lang (gl_tokens h) name) bs)"
proof -
  have "patterns_match ps name \<longleftrightarrow> (\<exists>g. List.find (\<lambda>(_, g). glob_matches g name) (rev ps) = Some (True, g))"
    by (auto simp: patterns_match_def split: option.splits)
  then show ?thesis by (simp add: find_rev_last glob_matches_lang case_prod_unfold) blast
qed

text \<open>C37. The matcher of globs decides the language its tokens describe: a text matches exactly when
  it can be cut into pieces that fit the tokens one by one (a \<open>*\<close> takes any characters but a slash,
  a \<open>**/\<close> takes whole segments or nothing), whatever the memo table remembers on the way; and a
  pattern list takes a name exactly when the last pattern whose language has it is an inclusion.\<close>

theorem glob_filter_decides:
  "(glob_matches g text \<longleftrightarrow> glob_lang (gl_tokens g) text)
   \<and> (patterns_match ps name \<longleftrightarrow>
        (\<exists>as g bs. ps = as @ (True, g) # bs \<and> glob_lang (gl_tokens g) name
           \<and> list_all (\<lambda>(_, h). \<not> glob_lang (gl_tokens h) name) bs))"
  using glob_matches_lang patterns_match_iff by blast

end
