(* ===== verification/Ci_Matrix.thy ===== *)
theory Ci_Matrix
  imports Json_Pred
begin

text \<open>
  A job's matrix and what a step's \<open>uses:\<close> names (crates/dagron-ci-expr/src/matrix.rs and
  uses.rs): the combinations of the axes with their exclusions and inclusions, the labels that
  tell the jobs apart, and the actions of other repositories with the directories they are
  fetched into.
\<close>

subsection \<open>Combinations\<close>

type_synonym row = "(string \<times> json) list"

record matrix =
  mx_axes :: "(string \<times> json list) list"
  mx_include :: "row list"
  mx_exclude :: "row list"

fun combine_axes :: "nat \<Rightarrow> (string \<times> json list) list \<Rightarrow> row list \<Rightarrow> nat + row list" where
  "combine_axes most [] rows = Inr rows"
| "combine_axes most ((axis, values) # axes) rows =
     (let rows' = concat (map (\<lambda>row. map (\<lambda>v. row @ [(axis, v)]) values) rows)
      in if length rows' > most then Inl (length rows') else combine_axes most axes rows')"

definition row_matches :: "row \<Rightarrow> row \<Rightarrow> bool" where
  "row_matches row wanted = list_all (\<lambda>(k, v). list_ex (\<lambda>(rk, rv). rk = k \<and> rv = v) row) wanted"

text \<open>Whether an \<open>include\<close> disagrees with a combination on no axis.\<close>

definition include_fits :: "string list \<Rightarrow> row \<Rightarrow> row \<Rightarrow> bool" where
  "include_fits axes extra was = (row_matches was (filter (\<lambda>(k, _). k \<in> set axes) extra) \<and> was \<noteq> [])"

definition put_key :: "string \<times> json \<Rightarrow> row \<Rightarrow> row" where
  "put_key = (\<lambda>(k, v) row. filter (\<lambda>(rk, _). rk \<noteq> k) row @ [(k, v)])"

definition include_one :: "string list \<Rightarrow> row list \<Rightarrow> row \<Rightarrow> row list \<Rightarrow> row list" where
  "include_one axes original extra rows =
     (let added = map (\<lambda>(row, was). if include_fits axes extra was
                         then fold put_key (filter (\<lambda>(k, _). k \<notin> set axes) extra) row else row) (zip rows original)
                  @ drop (length original) rows
      in if list_ex (include_fits axes extra) original then added else added @ [extra])"

definition matrix_rows :: "matrix \<Rightarrow> nat \<Rightarrow> nat + row list" where
  "matrix_rows m most =
     (case combine_axes most (mx_axes m) [[]] of
        Inl n \<Rightarrow> Inl n
      | Inr combined \<Rightarrow>
          (let original = filter (\<lambda>row. \<not> list_ex (row_matches row) (mx_exclude m))
                            (if mx_axes m = [] then [] else combined);
               rows = fold (include_one (map fst (mx_axes m)) original) (mx_include m) original
           in if length rows > most then Inl (length rows) else Inr rows))"

subsection \<open>Labels\<close>

definition mx_label_char :: "char \<Rightarrow> char" where
  "mx_label_char c = (if is_ascii_alphanumeric c \<or> c = CHR ''_'' then c else CHR ''-'')"

fun label_text :: "json \<Rightarrow> string option" where
  "label_text (JString s) = Some s"
| "label_text (JNumber n) = Some n"
| "label_text (JBool b) = Some (if b then ''true'' else ''false'')"
| "label_text JNull = Some ''null''"
| "label_text (JArray _) = None"
| "label_text (JObject _) = None"

definition row_label :: "row \<Rightarrow> string" where
  "row_label row =
     take 40 (map mx_label_char (join ''-'' (concat (map (\<lambda>(_, v). case label_text v of Some s \<Rightarrow> [s] | None \<Rightarrow> []) row))))"

definition place_label :: "nat \<Rightarrow> nat \<Rightarrow> string" where
  "place_label index again = digits_of index @ ''-'' @ digits_of again"

lemma place_label_inject [simp]: "place_label i a = place_label i b \<longleftrightarrow> a = b"
  by (simp add: place_label_def)

function free_label :: "nat \<Rightarrow> nat \<Rightarrow> string list \<Rightarrow> string" where
  "free_label index again seen =
     (if place_label index again \<in> set seen then free_label index (again + 1) seen else place_label index again)"
  by pat_completeness auto
termination
proof (relation "measure (\<lambda>(index, again, seen). card {a. again \<le> a \<and> place_label index a \<in> set seen})", simp)
  fix index again seen assume s: "place_label index again \<in> set seen"
  let ?A = "{a. again \<le> a \<and> place_label index a \<in> set seen}"
  let ?B = "{a. again + 1 \<le> a \<and> place_label index a \<in> set seen}"
  have "finite (place_label index -` set seen)" by (intro finite_vimageI) (simp_all add: inj_def)
  then have "finite ?A" by (rule rev_finite_subset) auto
  moreover have "?B \<subset> ?A"
  proof (rule psubsetI)
    show "?B \<subseteq> ?A" by auto
    have "again \<in> ?A" "again \<notin> ?B" using s by auto
    then show "?B \<noteq> ?A" by blast
  qed
  ultimately have "card ?B < card ?A" by (rule psubset_card_mono)
  then show "((index, again + 1, seen), index, again, seen)
      \<in> measure (\<lambda>(index, again, seen). card {a. again \<le> a \<and> place_label index a \<in> set seen})" by simp
qed

declare free_label.simps [simp del]

definition label_for :: "nat \<Rightarrow> string list \<Rightarrow> row \<Rightarrow> string" where
  "label_for index seen row =
     (let label = row_label row
      in if list_all (\<lambda>c. c = CHR ''-'') label \<or> label \<in> set seen then
           (if digits_of index \<in> set seen then free_label index 1 seen else digits_of index)
         else label)"

fun labelled_from :: "nat \<Rightarrow> string list \<Rightarrow> row list \<Rightarrow> (string \<times> row) list" where
  "labelled_from index seen [] = []"
| "labelled_from index seen (row # rows) =
     (let label = label_for index seen row
      in (label, row) # labelled_from (index + 1) (label # seen) rows)"

definition labelled :: "row list \<Rightarrow> (string \<times> row) list" where
  "labelled rows = labelled_from 0 [] rows"

subsection \<open>Actions\<close>

record remote =
  rm_owner :: string
  rm_repo :: string
  rm_path :: string
  rm_ref :: string

text \<open>\<open>splitn(3, '/')\<close>: the third piece keeps its slashes.\<close>

definition splitn3 :: "string \<Rightarrow> string \<times> string option \<times> string option" where
  "splitn3 s =
     (case split_once ''/'' s of
        None \<Rightarrow> (s, None, None)
      | Some (a, rest) \<Rightarrow>
          (case split_once ''/'' rest of
             None \<Rightarrow> (a, Some rest, None)
           | Some (b, c) \<Rightarrow> (a, Some b, Some c)))"

definition name_char :: "char \<Rightarrow> bool" where
  "name_char c = (is_ascii_alphanumeric c \<or> c \<in> {CHR ''-'', CHR ''_'', CHR ''.''})"

definition owner_ok :: "string \<Rightarrow> bool" where
  "owner_ok owner = (owner \<noteq> [] \<and> str_len owner \<le> 100 \<and> list_all name_char owner \<and> \<not> starts_with owner ''.'')"

definition uses_named :: "string \<Rightarrow> bool" where
  "uses_named part = (part \<noteq> [] \<and> str_len part \<le> 100 \<and> part \<noteq> ''.'' \<and> part \<noteq> ''..'' \<and> list_all name_char part)"

definition is_ref :: "string \<Rightarrow> bool" where
  "is_ref name =
     (name \<noteq> [] \<and> str_len name \<le> 255
      \<and> list_all (\<lambda>c. is_ascii_alphanumeric c \<or> c \<in> {CHR ''.'', CHR ''_'', CHR ''-'', CHR ''/''}) name
      \<and> hd name \<notin> {CHR ''-'', CHR ''/'', CHR ''.''}
      \<and> last name \<notin> {CHR ''/'', CHR ''.''}
      \<and> \<not> ends_with name ''.lock''
      \<and> \<not> contains name ''..'' \<and> \<not> contains name ''//'' \<and> \<not> contains name ''/.'')"

definition remote_of :: "string \<Rightarrow> remote option" where
  "remote_of uses =
     (case split_once ''@'' (trim uses) of
        None \<Rightarrow> None
      | Some (what, git_ref) \<Rightarrow>
          (case splitn3 what of
             (owner, Some repo, path0) \<Rightarrow>
               (let path = (case path0 of Some p \<Rightarrow> p | None \<Rightarrow> [])
                in if owner_ok owner \<and> uses_named repo \<and> (path = [] \<or> list_all uses_named (split_char (CHR ''/'') path)) \<and> is_ref git_ref
                   then Some \<lparr>rm_owner = owner, rm_repo = repo, rm_path = path, rm_ref = git_ref\<rparr> else None)
           | _ \<Rightarrow> None))"

definition remote_repository :: "remote \<Rightarrow> string" where
  "remote_repository r = rm_owner r @ ''/'' @ rm_repo r"

definition fetched_dir :: "remote \<Rightarrow> string" where
  "fetched_dir r = rm_owner r @ ''/'' @ rm_repo r @ ''/'' @ replace_char (CHR ''/'') ''%2F'' (rm_ref r)"

definition is_pinned :: "remote \<Rightarrow> bool" where
  "is_pinned r =
     ((str_len (rm_ref r) = 40 \<or> str_len (rm_ref r) = 64)
      \<and> list_all (\<lambda>c. is_ascii_digit c \<or> (CHR ''a'' \<le> c \<and> c \<le> CHR ''f'')) (rm_ref r))"

definition local_action :: "string \<Rightarrow> string option" where
  "local_action uses =
     (case strip_prefix ''./'' (trim uses) of
        None \<Rightarrow> None
      | Some dir \<Rightarrow>
          if list_ex (\<lambda>part. part = ''..'') (split_char (CHR ''/'') dir) \<or> CHR 0x00 \<in> set dir \<or> starts_with dir ''/''
          then None else Some dir)"

definition docker_image :: "string \<Rightarrow> string option" where
  "docker_image uses =
     (case strip_prefix ''docker://'' (trim uses) of
        None \<Rightarrow> None
      | Some img \<Rightarrow>
          if img \<noteq> [] \<and> str_len img \<le> 512 \<and> \<not> list_ex (\<lambda>c. is_whitespace c \<or> is_control c) img then Some img else None)"

end
