(* ===== verification/Ci_Matrix_Props.thy ===== *)
theory Ci_Matrix_Props
  imports Ci_Matrix
begin

text \<open>
  What a matrix comes to, stated without its loops; the labels of its rows; and the directory an
  action of another repository is fetched into.
\<close>

subsection \<open>The grid\<close>

text \<open>Every choice of one value of each axis, the last axis fastest.\<close>

definition axes_grid :: "(string \<times> json list) list \<Rightarrow> row list" where
  "axes_grid axes = map (zip (map fst axes)) (product_lists (map snd axes))"

definition grid_size :: "(string \<times> json list) list \<Rightarrow> nat" where
  "grid_size axes = prod_list (map (length \<circ> snd) axes)"

definition kept_rows :: "matrix \<Rightarrow> row list" where
  "kept_rows m = (if mx_axes m = [] then []
     else filter (\<lambda>row. \<not> list_ex (row_matches row) (mx_exclude m)) (axes_grid (mx_axes m)))"

text \<open>A combination with the keys of the inclusions that fit it, and the inclusions that fit none.\<close>

definition widened :: "matrix \<Rightarrow> row \<Rightarrow> row" where
  "widened m was =
     (let axes = map fst (mx_axes m)
      in fold put_key (concat (map (filter (\<lambda>(k, _). k \<notin> set axes)) (filter (\<lambda>extra. include_fits axes extra was) (mx_include m)))) was)"

definition strays :: "matrix \<Rightarrow> row list" where
  "strays m = filter (\<lambda>extra. \<forall>was \<in> set (kept_rows m). \<not> include_fits (map fst (mx_axes m)) extra was) (mx_include m)"

definition matrix_spec :: "matrix \<Rightarrow> row list" where
  "matrix_spec m = map (widened m) (kept_rows m) @ strays m"

lemma axes_grid_Nil [simp]: "axes_grid [] = [[]]"
  by (simp add: axes_grid_def)

lemma axes_grid_Cons: "axes_grid ((a, vs) # axes) = concat (map (\<lambda>v. map (Cons (a, v)) (axes_grid axes)) vs)"
  by (simp add: axes_grid_def map_concat comp_def)

lemma length_axes_grid: "length (axes_grid axes) = grid_size axes"
proof (induction axes)
  case (Cons axis axes)
  obtain a vs where "axis = (a, vs)" by (cases axis)
  with Cons show ?case by (simp add: axes_grid_Cons grid_size_def length_concat comp_def sum_list_triv)
qed (simp add: grid_size_def)

lemma axes_grid_step:
  "concat (map (\<lambda>row. map (\<lambda>r. row @ r) (axes_grid ((a, vs) # axes))) rows)
   = concat (map (\<lambda>row. map (\<lambda>r. row @ r) (axes_grid axes)) (concat (map (\<lambda>row. map (\<lambda>v. row @ [(a, v)]) vs) rows)))"
proof (induction rows)
  case (Cons row rows)
  have "(\<lambda>r. row @ (a, v) # r) = (@) (row @ [(a, v)])" for v by auto
  then show ?case using Cons by (simp add: axes_grid_Cons map_concat comp_def)
qed simp

lemma combine_axes_iff:
  "combine_axes most axes rows = Inr out \<longleftrightarrow>
     out = concat (map (\<lambda>row. map (\<lambda>r. row @ r) (axes_grid axes)) rows)
     \<and> (\<forall>n. 1 \<le> n \<and> n \<le> length axes \<longrightarrow> length rows * grid_size (take n axes) \<le> most)"
proof (induction axes arbitrary: rows)
  case Nil
  show ?case by auto
next
  case (Cons axis axes)
  obtain a vs where a: "axis = (a, vs)" by (cases axis)
  let ?rows' = "concat (map (\<lambda>row. map (\<lambda>v. row @ [(a, v)]) vs) rows)"
  have len: "length ?rows' = length rows * length vs" by (simp add: length_concat comp_def sum_list_triv)
  have "(\<forall>n. 1 \<le> n \<and> n \<le> length (axis # axes) \<longrightarrow> length rows * grid_size (take n (axis # axes)) \<le> most)
      \<longleftrightarrow> length ?rows' \<le> most \<and> (\<forall>n. 1 \<le> n \<and> n \<le> length axes \<longrightarrow> length ?rows' * grid_size (take n axes) \<le> most)"
    (is "?L \<longleftrightarrow> ?R")
  proof
    assume l: ?L
    have "length rows * grid_size (take (Suc n) (axis # axes)) \<le> most" if "n \<le> length axes" for n
      using l that by (auto simp del: take_Suc_Cons)
    then have l': "length rows * (length vs * grid_size (take n axes)) \<le> most" if "n \<le> length axes" for n
      using that by (simp add: a grid_size_def)
    show ?R using l'[of 0] l' by (auto simp: len grid_size_def mult.assoc)
  next
    assume r: ?R
    show ?L
    proof (intro allI impI)
      fix n assume n: "1 \<le> n \<and> n \<le> length (axis # axes)"
      then obtain k where k: "n = Suc k" "k \<le> length axes" by (cases n) auto
      show "length rows * grid_size (take n (axis # axes)) \<le> most"
        using r k by (cases k) (auto simp: a len grid_size_def mult.assoc)
    qed
  qed
  then show ?case using Cons.IH[of ?rows'] by (auto simp: a Let_def axes_grid_step[symmetric])
qed

lemma combine_axes_refuses: "combine_axes most axes rows = Inl n \<Longrightarrow> most < n"
  by (induction most axes rows rule: combine_axes.induct) (auto simp: Let_def split: if_splits)

lemma combine_axes_total:
  "\<not> (\<exists>n. combine_axes most axes rows = Inl n) \<longleftrightarrow> (\<exists>out. combine_axes most axes rows = Inr out)"
  by (cases "combine_axes most axes rows") auto

lemma zip_map_append: "zip (map f xs @ ys) xs = map (\<lambda>x. (f x, x)) xs"
  by (induction xs) simp_all

lemma include_one_map:
  "include_one axes original extra (map f original @ rest)
   = map (\<lambda>was. if include_fits axes extra was then fold put_key (filter (\<lambda>(k, _). k \<notin> set axes) extra) (f was) else f was) original
     @ rest @ (if list_ex (include_fits axes extra) original then [] else [extra])"
  by (simp add: include_one_def zip_map_append comp_def)

lemma include_all:
  "fold (include_one axes original) incs (map f original @ rest)
   = map (\<lambda>was. fold put_key (concat (map (filter (\<lambda>(k, _). k \<notin> set axes)) (filter (\<lambda>extra. include_fits axes extra was) incs))) (f was)) original
     @ rest @ filter (\<lambda>extra. \<not> list_ex (include_fits axes extra) original) incs"
proof (induction incs arbitrary: f rest)
  case (Cons extra incs)
  show ?case
    by (simp add: include_one_map Cons.IH cong: if_cong)
qed simp

lemma kept_rows_combined:
  assumes "mx_axes m \<noteq> [] \<longrightarrow> combined = axes_grid (mx_axes m)"
  shows "filter (\<lambda>row. \<not> list_ex (row_matches row) (mx_exclude m)) (if mx_axes m = [] then [] else combined) = kept_rows m"
  using assms by (simp add: kept_rows_def)

lemma included_rows:
  "fold (include_one (map fst (mx_axes m)) (kept_rows m)) (mx_include m) (kept_rows m) = matrix_spec m"
  using include_all[of "map fst (mx_axes m)" "kept_rows m" "mx_include m" "\<lambda>r. r" "[]"]
  by (simp add: matrix_spec_def widened_def strays_def list_ex_iff)

text \<open>C40. A matrix is its grid. \<open>matrix_rows\<close>, with its loops over axes, exclusions and inclusions,
  answers rows exactly when no axis, taken with the axes before it, makes more than \<open>most\<close>
  combinations and the outcome is no longer than that; the rows are then those of \<open>matrix_spec\<close>:
  the choices of one value of each axis in the order written, last axis fastest, less the excluded
  ones, each with the keys of the inclusions it agrees with, and after them the inclusions that
  agree with no combination. A refusal says more than \<open>most\<close>.
\<close>

theorem matrix_is_grid:
  "(matrix_rows m most = Inr rows \<longleftrightarrow>
      rows = matrix_spec m \<and> length rows \<le> most
      \<and> list_all (\<lambda>n. grid_size (take n (mx_axes m)) \<le> most) [1..<Suc (length (mx_axes m))])
   \<and> (case matrix_rows m most of Inl n \<Rightarrow> most < n | Inr _ \<Rightarrow> True)"
proof (cases "combine_axes most (mx_axes m) [[]]")
  case (Inl n)
  then have "\<not> (\<forall>n. 1 \<le> n \<and> n \<le> length (mx_axes m) \<longrightarrow> grid_size (take n (mx_axes m)) \<le> most)"
    using combine_axes_iff[of most "mx_axes m" "[[]]"] by auto
  then show ?thesis using Inl combine_axes_refuses[OF Inl] by (auto simp: matrix_rows_def list_all_iff)
next
  case (Inr combined)
  moreover have "map ((@) []) (axes_grid (mx_axes m)) = axes_grid (mx_axes m)" by (simp add: map_idI)
  ultimately have "combined = axes_grid (mx_axes m)"
    "\<forall>n. 1 \<le> n \<and> n \<le> length (mx_axes m) \<longrightarrow> grid_size (take n (mx_axes m)) \<le> most"
    using combine_axes_iff[of most "mx_axes m" "[[]]"] by auto
  then show ?thesis using Inr by (auto simp: matrix_rows_def Let_def kept_rows_combined included_rows list_all_iff)
qed

subsection \<open>Labels\<close>

definition label_chars :: "string \<Rightarrow> bool" where
  "label_chars = list_all (\<lambda>c. is_ascii_alphanumeric c \<or> c = CHR ''_'' \<or> c = CHR ''-'')"

lemma digits_label: "label_chars (digits_of n)"
  using digits_of_ok[of n] by (auto simp: label_chars_def list_all_iff is_ascii_alphanumeric_def is_ascii_digit_def)

lemma label_chars_append: "label_chars (a @ b) \<longleftrightarrow> label_chars a \<and> label_chars b"
  by (simp add: label_chars_def)

lemma row_label_chars: "label_chars (row_label row)"
  by (auto simp: label_chars_def row_label_def mx_label_char_def list_all_iff dest!: in_set_takeD)

lemma free_label_form:
  "free_label index again seen \<notin> set seen \<and> (\<exists>n \<ge> again. free_label index again seen = place_label index n)"
proof (induction index again seen rule: free_label.induct)
  case (1 index again seen)
  show ?case
  proof (cases "place_label index again \<in> set seen")
    case True
    then obtain n where "n \<ge> again + 1" "free_label index (again + 1) seen = place_label index n"
      "free_label index (again + 1) seen \<notin> set seen" using 1 by blast
    moreover have "free_label index again seen = free_label index (again + 1) seen"
      using True by (simp add: free_label.simps[of index again])
    ultimately show ?thesis by auto
  qed (auto simp: free_label.simps[of index again])
qed

text \<open>What a label may be: the row's own reading where it has one, else its place.\<close>

definition label_of_row :: "nat \<Rightarrow> row \<Rightarrow> string \<Rightarrow> bool" where
  "label_of_row index row label \<longleftrightarrow>
     label = row_label row \<and> (\<exists>c \<in> set label. c \<noteq> CHR ''-'')
     \<or> label = digits_of index \<or> (\<exists>n \<ge> 1. label = place_label index n)"

lemma label_for_form: "label_of_row index row (label_for index seen row) \<and> label_for index seen row \<notin> set seen"
  using free_label_form[of index 1 seen] by (auto simp: label_for_def label_of_row_def Let_def list_all_iff)

lemma place_label_chars: "label_chars (place_label index n) \<and> place_label index n \<noteq> []"
proof -
  have "label_chars ''-''" by (simp add: label_chars_def)
  then show ?thesis by (simp only: place_label_def label_chars_append digits_label append_is_Nil_conv) simp
qed

lemma label_of_row_chars: "label_of_row index row label \<Longrightarrow> label_chars label \<and> label \<noteq> []"
  using digits_of_ok[of index] place_label_chars[of index]
  by (auto simp: label_of_row_def row_label_chars digits_label)

lemma labelled_from_rows: "map snd (labelled_from index seen rows) = rows"
  by (induction rows arbitrary: index seen) (simp_all add: Let_def)

lemma labelled_from_distinct:
  "distinct (map fst (labelled_from index seen rows)) \<and> set seen \<inter> set (map fst (labelled_from index seen rows)) = {}"
proof (induction rows arbitrary: index seen)
  case (Cons row rows)
  show ?case using Cons[of "index + 1" "label_for index seen row # seen"] label_for_form[of index row seen]
    by (auto simp: Let_def)
qed simp

lemma length_labelled_from [simp]: "length (labelled_from index seen rows) = length rows"
  by (induction rows arbitrary: index seen) (simp_all add: Let_def)

lemma labelled_from_nth:
  "i < length rows \<Longrightarrow> fst (labelled_from index seen rows ! i)
     = label_for (index + i) (rev (map fst (take i (labelled_from index seen rows))) @ seen) (rows ! i)"
proof (induction rows arbitrary: index seen i)
  case (Cons row rows)
  then show ?case by (cases i) (simp_all add: Let_def)
qed simp

text \<open>Labels tell the jobs of a matrix apart. \<open>labelled\<close> ends, keeps the rows in their order, and
  gives no two of them one label; each label is not empty, is made of letters, digits, \<open>_\<close> and \<open>-\<close>,
  and is the row's own values or begins with the row's place; and a row whose values read as
  something, and as nothing an earlier row is called, is called by its values.
\<close>

theorem labels_tell_apart:
  "map snd (labelled rows) = rows \<and> distinct (map fst (labelled rows))
   \<and> list_all (\<lambda>i. let label = fst (labelled rows ! i)
        in label \<noteq> [] \<and> label_chars label \<and> label_of_row i (rows ! i) label
           \<and> (label = row_label (rows ! i) \<or> list_all (\<lambda>c. c = CHR ''-'') (row_label (rows ! i))
              \<or> row_label (rows ! i) \<in> set (map fst (take i (labelled rows))))) [0..<length rows]"
proof (intro conjI)
  show "map snd (labelled rows) = rows" by (simp add: labelled_def labelled_from_rows)
  show "distinct (map fst (labelled rows))" using labelled_from_distinct by (simp add: labelled_def)
  have "let label = fst (labelled rows ! i)
        in label \<noteq> [] \<and> label_chars label \<and> label_of_row i (rows ! i) label
           \<and> (label = row_label (rows ! i) \<or> list_all (\<lambda>c. c = CHR ''-'') (row_label (rows ! i))
              \<or> row_label (rows ! i) \<in> set (map fst (take i (labelled rows))))" if i: "i < length rows" for i
  proof -
    let ?seen = "rev (map fst (take i (labelled rows)))"
    have l: "fst (labelled rows ! i) = label_for i ?seen (rows ! i)"
      using labelled_from_nth[OF i, of 0 "[]"] by (simp add: labelled_def)
    have form: "label_of_row i (rows ! i) (label_for i ?seen (rows ! i))" using label_for_form by blast
    have "label_for i ?seen (rows ! i) = row_label (rows ! i) \<or> list_all (\<lambda>c. c = CHR ''-'') (row_label (rows ! i))
       \<or> row_label (rows ! i) \<in> set ?seen" by (simp add: label_for_def Let_def)
    then show ?thesis using form label_of_row_chars[OF form] by (simp add: l Let_def)
  qed
  then show "list_all (\<lambda>i. let label = fst (labelled rows ! i)
        in label \<noteq> [] \<and> label_chars label \<and> label_of_row i (rows ! i) label
           \<and> (label = row_label (rows ! i) \<or> list_all (\<lambda>c. c = CHR ''-'') (row_label (rows ! i))
              \<or> row_label (rows ! i) \<in> set (map fst (take i (labelled rows))))) [0..<length rows]"
    by (simp add: list_all_iff)
qed

subsection \<open>Where an action is fetched\<close>

lemma replace_slash_ref:
  assumes "list_all (\<lambda>c. c \<noteq> CHR ''%'') a" "list_all (\<lambda>c. c \<noteq> CHR ''%'') b"
    "replace_char (CHR ''/'') ''%2F'' a = replace_char (CHR ''/'') ''%2F'' b"
  shows "a = b"
  using assms
proof (induction a arbitrary: b)
  case Nil
  then show ?case by (cases b) (auto simp: replace_char_def split: if_splits)
next
  case (Cons x a)
  then show ?case by (cases b) (auto simp: replace_char_def split: if_splits)
qed

lemma split_char_parts:
  "CHR ''/'' \<notin> set a \<Longrightarrow> split_char (CHR ''/'') (a @ ''/'' @ b) = a # split_char (CHR ''/'') b"
  by (induction a) auto

lemma split_char_whole: "CHR ''/'' \<notin> set a \<Longrightarrow> split_char (CHR ''/'') a = [a]"
  by (induction a) auto

lemma remote_of_parts:
  assumes "remote_of uses = Some r"
  shows "owner_ok (rm_owner r)" "uses_named (rm_repo r)" "is_ref (rm_ref r)"
  using assms by (auto simp: remote_of_def Let_def split: option.splits prod.splits if_splits)

lemma name_no_slash: "list_all name_char s \<Longrightarrow> CHR ''/'' \<notin> set s"
  by (auto simp: list_all_iff name_char_def is_ascii_alphanumeric_def is_ascii_digit_def is_ascii_lowercase_def is_ascii_uppercase_def)

lemma ref_dir_no_slash: "CHR ''/'' \<notin> set (replace_char (CHR ''/'') ''%2F'' s)"
  by (auto simp: replace_char_def split: if_splits)

lemma ref_no_percent: "is_ref s \<Longrightarrow> list_all (\<lambda>c. c \<noteq> CHR ''%'') s"
  by (auto simp: is_ref_def list_all_iff is_ascii_alphanumeric_def is_ascii_digit_def is_ascii_lowercase_def is_ascii_uppercase_def)

lemma ref_dir_stays:
  assumes "is_ref s"
  shows "replace_char (CHR ''/'') ''%2F'' s \<notin> {[], ''.'', ''..''}"
proof -
  obtain c cs where s: "s = c # cs" using assms by (cases s) (auto simp: is_ref_def)
  have "c \<noteq> CHR ''/''" "c \<noteq> CHR ''.''" using assms by (auto simp: is_ref_def s)
  then show ?thesis by (simp add: s replace_char_def)
qed

lemma fetched_dir_parts:
  assumes "remote_of uses = Some r"
  shows "split_char (CHR ''/'') (fetched_dir r) = [rm_owner r, rm_repo r, replace_char (CHR ''/'') ''%2F'' (rm_ref r)]"
proof -
  have "CHR ''/'' \<notin> set (rm_owner r)" "CHR ''/'' \<notin> set (rm_repo r)"
    using remote_of_parts[OF assms] by (auto simp: owner_ok_def uses_named_def dest: name_no_slash)
  then show ?thesis
    by (simp only: fetched_dir_def split_char_parts split_char_whole ref_dir_no_slash not_False_eq_True)
qed

text \<open>
  An action is fetched into a directory of its own. For what \<open>remote_of\<close> reads of two
  \<open>uses:\<close>, the directories are the same exactly when owner, repository and ref are, although refs
  hold slashes and a repository may be named like part of one; the directory is three names below
  the actions' directory, and none of them is empty, \<open>.\<close> or \<open>..\<close>, so it never leaves it.
\<close>

theorem fetched_dirs_apart:
  assumes "remote_of a = Some r" and "remote_of b = Some s"
  shows "(fetched_dir r = fetched_dir s \<longleftrightarrow> rm_owner r = rm_owner s \<and> rm_repo r = rm_repo s \<and> rm_ref r = rm_ref s)
    \<and> length (split_char (CHR ''/'') (fetched_dir r)) = 3
    \<and> list_all (\<lambda>part. part \<notin> {[], ''.'', ''..''}) (split_char (CHR ''/'') (fetched_dir r))"
proof (intro conjI)
  have refs: "replace_char (CHR ''/'') ''%2F'' (rm_ref r) = replace_char (CHR ''/'') ''%2F'' (rm_ref s) \<longleftrightarrow> rm_ref r = rm_ref s"
    using replace_slash_ref[OF remote_of_parts(3)[OF assms(1), THEN ref_no_percent] remote_of_parts(3)[OF assms(2), THEN ref_no_percent]]
    by auto
  show "fetched_dir r = fetched_dir s \<longleftrightarrow> rm_owner r = rm_owner s \<and> rm_repo r = rm_repo s \<and> rm_ref r = rm_ref s"
  proof
    assume "fetched_dir r = fetched_dir s"
    then have "split_char (CHR ''/'') (fetched_dir r) = split_char (CHR ''/'') (fetched_dir s)" by simp
    then show "rm_owner r = rm_owner s \<and> rm_repo r = rm_repo s \<and> rm_ref r = rm_ref s"
      by (simp only: fetched_dir_parts[OF assms(1)] fetched_dir_parts[OF assms(2)] list.inject refs)
  qed (simp add: fetched_dir_def)
  show "length (split_char (CHR ''/'') (fetched_dir r)) = 3" by (simp add: fetched_dir_parts[OF assms(1)])
  have "rm_owner r \<notin> {[], ''.'', ''..''}" "rm_repo r \<notin> {[], ''.'', ''..''}"
    using remote_of_parts[OF assms(1)] by (auto simp: owner_ok_def uses_named_def starts_with_iff)
  then show "list_all (\<lambda>part. part \<notin> {[], ''.'', ''..''}) (split_char (CHR ''/'') (fetched_dir r))"
    using ref_dir_stays[OF remote_of_parts(3)[OF assms(1)]] by (simp add: fetched_dir_parts[OF assms(1)])
qed

theorem fetched_dirs_apart_witness:
  "fetched_dir \<lparr>rm_owner = ''acme'', rm_repo = ''tool'', rm_path = [], rm_ref = ''v1/x''\<rparr>
     \<noteq> fetched_dir \<lparr>rm_owner = ''acme'', rm_repo = ''tool'', rm_path = ''sub'', rm_ref = ''v1''\<rparr>"
proof -
  have "remote_of ''acme/tool@v1/x'' = Some \<lparr>rm_owner = ''acme'', rm_repo = ''tool'', rm_path = [], rm_ref = ''v1/x''\<rparr>"
    "remote_of ''acme/tool/sub@v1'' = Some \<lparr>rm_owner = ''acme'', rm_repo = ''tool'', rm_path = ''sub'', rm_ref = ''v1''\<rparr>"
    by code_simp+
  from fetched_dirs_apart[OF this] show ?thesis by simp
qed

end
