(* ===== verification/Env_Policy.thy ===== *)
theory Env_Policy
  imports Dag_Graph
begin

text \<open>
  What started a run and how far that is trusted (\<open>RunTrigger\<close> of
  crates/dagron-core/src/models.rs), and who may use an environment: its policy and the rule that
  reads it (crates/dagron-core/src/envpolicy.rs). An error text is the constructor of its branch
  with what it quotes.
\<close>

subsection \<open>What started a run\<close>

record run_trigger =
  rt_kind :: string
  rt_principal :: string
  rt_actor :: "string option"
  rt_trust :: "string option"
  rt_source :: "string option"
  rt_forge_host :: "string option"
  rt_repo :: "string option"
  rt_git_ref :: "string option"
  rt_sha :: "string option"
  rt_base_sha :: "string option"
  rt_pr :: "int option"
  rt_event_id :: "string option"

definition trigger_default :: run_trigger where
  "trigger_default =
     \<lparr>rt_kind = [], rt_principal = [], rt_actor = None, rt_trust = None, rt_source = None, rt_forge_host = None,
      rt_repo = None, rt_git_ref = None, rt_sha = None, rt_base_sha = None, rt_pr = None, rt_event_id = None\<rparr>"

definition kind_api :: string where "kind_api = ''api''"
definition kind_workflow :: string where "kind_workflow = ''workflow''"
definition kind_ci :: string where "kind_ci = ''ci''"

definition trusted_class :: string where "trusted_class = ''trusted''"
definition untrusted_class :: string where "untrusted_class = ''untrusted''"
definition agent_class :: string where "agent_class = ''agent''"
definition trust_classes :: "string list" where "trust_classes = [trusted_class, untrusted_class, agent_class]"

definition class_of :: "run_trigger option \<Rightarrow> string" where
  "class_of trigger =
     (case trigger of
        None \<Rightarrow> trusted_class
      | Some t \<Rightarrow>
          (case rt_trust t of
             Some c \<Rightarrow> c
           | None \<Rightarrow> if rt_kind t = kind_ci then untrusted_class else trusted_class))"

text \<open>\<open>crate::confine::confined\<close>\<close>

definition confined :: "string \<Rightarrow> bool" where
  "confined c = (c \<noteq> trusted_class)"

definition engine_trigger :: "string \<Rightarrow> string \<Rightarrow> run_trigger" where
  "engine_trigger kind source =
     trigger_default\<lparr>rt_kind := kind, rt_principal := ''engine'', rt_source := Some source\<rparr>"

definition ops_api_trigger :: run_trigger where
  "ops_api_trigger = trigger_default\<lparr>rt_kind := kind_api, rt_principal := ''ops-api''\<rparr>"

definition of_event :: "string \<Rightarrow> run_trigger \<Rightarrow> run_trigger" where
  "of_event i t = t\<lparr>rt_event_id := Some i\<rparr>"

definition from_source :: "string \<Rightarrow> run_trigger \<Rightarrow> run_trigger" where
  "from_source s t = t\<lparr>rt_source := Some s\<rparr>"

definition copying :: "run_trigger \<Rightarrow> run_trigger option \<Rightarrow> run_trigger" where
  "copying t original =
     (case original of
        Some orig \<Rightarrow>
          (let c = class_of original
           in if confined c then
                t\<lparr>rt_trust := Some c, rt_forge_host := rt_forge_host orig, rt_repo := rt_repo orig,
                  rt_git_ref := rt_git_ref orig, rt_sha := rt_sha orig, rt_base_sha := rt_base_sha orig,
                  rt_pr := rt_pr orig\<rparr>
              else t)
      | None \<Rightarrow> t)"

definition child_of :: "run_trigger option \<Rightarrow> string \<Rightarrow> string \<Rightarrow> run_trigger" where
  "child_of parent parent_run task =
     (let inherited = (case parent of Some p \<Rightarrow> p | None \<Rightarrow> trigger_default);
          trust = (case parent of
                     Some p \<Rightarrow> if rt_trust p = None \<and> rt_kind p = kind_ci then Some (class_of parent) else rt_trust inherited
                   | None \<Rightarrow> rt_trust inherited)
      in inherited\<lparr>rt_kind := kind_workflow, rt_principal := ''engine'',
                   rt_source := Some (''run:'' @ parent_run @ ''/'' @ task), rt_trust := trust\<rparr>)"

subsection \<open>A pattern\<close>

text \<open>\<open>glob_star\<close> is the loop of a star, on the text from \<open>taken\<close> on.\<close>

fun policy_glob :: "string \<Rightarrow> string \<Rightarrow> bool"
and glob_star :: "bool \<Rightarrow> string \<Rightarrow> string \<Rightarrow> bool" where
  "policy_glob [] t = (t = [])"
| "policy_glob (p # ps) t =
     (if p = CHR ''*'' then
        (case ps of
           q # qs \<Rightarrow> if q = CHR ''*'' then glob_star True qs t else glob_star False ps t
         | [] \<Rightarrow> glob_star False ps t)
      else case t of
             [] \<Rightarrow> False
           | c # cs \<Rightarrow> if p = CHR ''?'' then c \<noteq> CHR ''/'' \<and> policy_glob ps cs else c = p \<and> policy_glob ps cs)"
| "glob_star across ps t =
     (policy_glob ps t
      \<or> (case t of [] \<Rightarrow> False | c # cs \<Rightarrow> (across \<or> c \<noteq> CHR ''/'') \<and> glob_star across ps cs))"

definition policy_matches :: "string \<Rightarrow> string \<Rightarrow> bool" where
  "policy_matches pattern t = policy_glob pattern t"

subsection \<open>A policy\<close>

record environment_policy =
  ep_allowed_trust :: "string list"
  ep_allowed_refs :: "string list option"
  ep_allowed_pipelines :: "string list option"
  ep_allowed_identity :: "string list"
  ep_approvers :: "string list"

definition default_policy :: environment_policy where
  "default_policy =
     \<lparr>ep_allowed_trust = [trusted_class], ep_allowed_refs = None, ep_allowed_pipelines = None,
      ep_allowed_identity = [], ep_approvers = []\<rparr>"

datatype policy_error =
    Not_a_class string
  | Not_an_identity_class string
  | Identity_not_admitted string
  | Policy_approvers_many
  | Policy_approver value_error
  | Empty_patterns string
  | Many_patterns string
  | Bad_pattern string string

definition max_patterns :: nat where "max_patterns = 64"
definition max_pattern_len :: nat where "max_pattern_len = 256"

definition patterns_error :: "string \<Rightarrow> string list option \<Rightarrow> policy_error option" where
  "patterns_error field patterns =
     guard_opt
      (\<lambda>ps. first_err
         [guard (ps = []) (Empty_patterns field),
          guard (length ps > max_patterns) (Many_patterns field),
          guard_all (\<lambda>p. guard (p = [] \<or> str_len p > max_pattern_len \<or> list_ex is_control p) (Bad_pattern field p)) ps])
      patterns"

definition validate_policy :: "environment_policy \<Rightarrow> policy_error option" where
  "validate_policy p =
     first_err
      [guard_all (\<lambda>c. guard (c \<notin> set trust_classes) (Not_a_class c)) (ep_allowed_trust p),
       guard_all
         (\<lambda>c. first_err
            [guard (c \<noteq> agent_class) (Not_an_identity_class c),
             guard (c \<notin> set (ep_allowed_trust p)) (Identity_not_admitted c)])
         (ep_allowed_identity p),
       guard (length (ep_approvers p) > approvers_max) Policy_approvers_many,
       guard_all (\<lambda>e. map_option Policy_approver (validate_approver e)) (ep_approvers p),
       patterns_error ''allowed_refs'' (ep_allowed_refs p),
       patterns_error ''allowed_pipelines'' (ep_allowed_pipelines p)]"

subsection \<open>What it admits\<close>

datatype admit_error =
    Class_not_admitted string "string list" string
  | Ref_not_admitted string "string list" "string option"
  | Pipeline_not_admitted string "string list" string
  | Not_the_repositorys string

record run_facts =
  rf_trust :: string
  rf_git_ref :: "string option"
  rf_pipeline :: string

definition facts_of :: "run_trigger option \<Rightarrow> string \<Rightarrow> run_facts" where
  "facts_of trigger pipeline =
     \<lparr>rf_trust = class_of trigger, rf_git_ref = Option.bind trigger rt_git_ref, rf_pipeline = pipeline\<rparr>"

definition any_matches :: "string list \<Rightarrow> string \<Rightarrow> bool" where
  "any_matches patterns t = list_ex (\<lambda>p. policy_matches p t) patterns"

definition refs_refusal :: "string \<Rightarrow> environment_policy \<Rightarrow> run_facts \<Rightarrow> admit_error option" where
  "refs_refusal env p f =
     guard_opt
      (\<lambda>ps. case rf_git_ref f of
          Some r \<Rightarrow> guard (\<not> any_matches ps r) (Ref_not_admitted env ps (Some r))
        | None \<Rightarrow> Some (Ref_not_admitted env ps None))
      (ep_allowed_refs p)"

definition admits :: "string \<Rightarrow> environment_policy option \<Rightarrow> run_facts \<Rightarrow> admit_error option" where
  "admits env policy f =
     (let p = (case policy of Some p \<Rightarrow> p | None \<Rightarrow> default_policy)
      in first_err
          [guard (rf_trust f \<notin> set (ep_allowed_trust p)) (Class_not_admitted env (ep_allowed_trust p) (rf_trust f)),
           refs_refusal env p f,
           guard_opt (\<lambda>ps. guard (\<not> any_matches ps (rf_pipeline f)) (Pipeline_not_admitted env ps (rf_pipeline f)))
             (ep_allowed_pipelines p)])"

datatype identity_refused = No_identity_for string | Agent_no_environment | Agent_not_named string

definition identity_admits :: "string option \<Rightarrow> environment_policy option \<Rightarrow> string \<Rightarrow> identity_refused option" where
  "identity_admits environment policy c =
     (if c = trusted_class then None
      else if c \<noteq> agent_class then Some (No_identity_for c)
      else let named = (case policy of Some p \<Rightarrow> list_ex (\<lambda>x. x = c) (ep_allowed_identity p) | None \<Rightarrow> False)
           in case environment of
                None \<Rightarrow> Some Agent_no_environment
              | Some env \<Rightarrow> if named then None else Some (Agent_not_named env))"

definition approvers_for :: "environment_policy option \<Rightarrow> string \<Rightarrow> string list" where
  "approvers_for policy c =
     (case policy of Some p \<Rightarrow> if c \<noteq> trusted_class then ep_approvers p else [] | None \<Rightarrow> [])"

definition named_by :: "dag_spec \<Rightarrow> string set" where
  "named_by spec =
     set_option (ds_environment spec) \<union> {env. list_ex (\<lambda>t. ts_environment t = Some env) (ds_tasks spec)}"

subsection \<open>A repository's environment\<close>

definition repository_environment :: "string \<Rightarrow> string \<Rightarrow> string" where
  "repository_environment forge_host full_name = to_ascii_lowercase (forge_host @ ''/'' @ full_name)"

definition repo_part_ok :: "string \<Rightarrow> bool" where
  "repo_part_ok p =
     (p \<noteq> [] \<and> p \<noteq> ''.'' \<and> p \<noteq> ''..''
      \<and> list_all (\<lambda>c. is_ascii_lowercase c \<or> is_ascii_digit c \<or> c \<in> set ''_.-'') p)"

definition is_repository_environment :: "string \<Rightarrow> bool" where
  "is_repository_environment name =
     (case split_char (CHR ''/'') name of
        [host, owner, repo] \<Rightarrow>
          str_len name \<le> 255
          \<and> host \<noteq> [] \<and> list_all (\<lambda>c. is_ascii_lowercase c \<or> is_ascii_digit c \<or> c \<in> set ''.-:'') host
          \<and> repo_part_ok owner \<and> repo_part_ok repo
      | _ \<Rightarrow> False)"

definition repository_admits :: "string \<Rightarrow> run_trigger option \<Rightarrow> admit_error option" where
  "repository_admits name trigger =
     (if CHR ''/'' \<notin> set name then None
      else let own = Option.bind trigger
                 (\<lambda>t. if rt_kind t = ''ci'' \<and> starts_with (rt_principal t) ''ci:'' then
                        (case (rt_forge_host t, rt_repo t) of
                           (Some host, Some repo) \<Rightarrow> Some (repository_environment host repo)
                         | _ \<Rightarrow> None)
                      else None)
           in if own = Some name then None else Some (Not_the_repositorys name))"

end
