(* ===== verification/Secrets.thy ===== *)
theory Secrets
  imports Env_Policy
begin

text \<open>
  Which stores a task may read its secrets from, and reading them
  (crates/dagron-core/src/secrets.rs). Loading a policy, the environment's stored secrets, the two
  decryptors of dagron-crypto and the host's own store are parameters; an error text is the
  constructor of its branch.
\<close>

datatype secret_error =
    Admit_refused admit_error
  | Policy_not_loaded string
  | Host_store_refused string
  | Secret_not_loaded string
  | No_provider string
  | Provider_failed string string
  | No_legacy_key string
  | Decrypt_failed string
  | Unknown_version string
  | Host_secret_missing string
  | Not_in_environment string string string

text \<open>\<open>policies\<close> is \<open>db::environment_policy\<close>: the policy stored for an environment, or that the
  load failed.\<close>

type_synonym policies = "string \<Rightarrow> unit + environment_policy option"

definition admit :: "policies \<Rightarrow> string \<Rightarrow> run_trigger option \<Rightarrow> run_facts \<Rightarrow> secret_error option" where
  "admit policies env trigger f =
     (case repository_admits env trigger of
        Some e \<Rightarrow> Some (Admit_refused e)
      | None \<Rightarrow>
          (case policies env of
             Inl _ \<Rightarrow> Some (Policy_not_loaded env)
           | Inr p \<Rightarrow> map_option Admit_refused (admits env p f)))"

datatype admit_identity_error = Identity_refused identity_refused | Identity_policy_not_loaded string

definition admit_identity :: "policies \<Rightarrow> string option \<Rightarrow> string \<Rightarrow> admit_identity_error option" where
  "admit_identity policies environment c =
     (if c = trusted_class then None
      else case environment of
             None \<Rightarrow> map_option Identity_refused (identity_admits None None c)
           | Some name \<Rightarrow>
               (case policies name of
                  Inl _ \<Rightarrow> Some (Identity_policy_not_loaded name)
                | Inr p \<Rightarrow> map_option Identity_refused (identity_admits environment p c)))"

subsection \<open>Which stores\<close>

record secret_source =
  ss_environment :: "string option"
  ss_host_store :: bool
  ss_trust :: string

text \<open>What the datastore holds of the run: what started it, its workflow's name, its environment.\<close>

record run_record =
  rr_trigger :: "run_trigger option"
  rr_pipeline :: string
  rr_environment :: "string option"

definition secret_source_of :: "policies \<Rightarrow> run_record \<Rightarrow> string option \<Rightarrow> secret_error + secret_source" where
  "secret_source_of policies run task_environment =
     (let f = facts_of (rr_trigger run) (rr_pipeline run);
          environment = (case task_environment of Some name \<Rightarrow> Some name | None \<Rightarrow> rr_environment run);
          host_store = (rf_trust f = trusted_class)
      in case guard_opt (\<lambda>name. admit policies name (rr_trigger run) f) environment of
           Some e \<Rightarrow> Inl e
         | None \<Rightarrow>
             if environment = None \<and> \<not> host_store then Inl (Host_store_refused (rf_trust f))
             else Inr \<lparr>ss_environment = environment, ss_host_store = host_store, ss_trust = rf_trust f\<rparr>)"

subsection \<open>Reading them\<close>

text \<open>\<open>dagron_crypto::version_of\<close>\<close>

definition version_of :: "string \<Rightarrow> string option" where
  "version_of stored =
     (if starts_with stored ''v2:'' then Some ''v2'' else if starts_with stored ''v1:'' then Some ''v1'' else None)"

text \<open>The decryptors of this process: the legacy key's, and the provider's where it was built, or why
  it was not. \<open>None\<close> of a decryption is its error.\<close>

record decryptors =
  dc_legacy :: "(string \<Rightarrow> string option) option"
  dc_provider :: "(string \<Rightarrow> string option) option"
  dc_build_error :: "string option"

definition decrypt_secret_value :: "string \<Rightarrow> decryptors \<Rightarrow> string \<Rightarrow> secret_error + string" where
  "decrypt_secret_value ciphertext dc name =
     (case version_of ciphertext of
        Some v \<Rightarrow>
          if v = ''v2'' then
            (case dc_provider dc of
               Some p \<Rightarrow> (case p ciphertext of Some x \<Rightarrow> Inr x | None \<Rightarrow> Inl (Decrypt_failed name))
             | None \<Rightarrow>
                 (case dc_build_error dc of
                    Some why \<Rightarrow> Inl (Provider_failed name why)
                  | None \<Rightarrow> Inl (No_provider name)))
          else
            (case dc_legacy dc of
               None \<Rightarrow> Inl (No_legacy_key name)
             | Some k \<Rightarrow> (case k ciphertext of Some x \<Rightarrow> Inr x | None \<Rightarrow> Inl (Decrypt_failed name)))
      | None \<Rightarrow> Inl (Unknown_version name))"

text \<open>\<open>sio_stored\<close> is \<open>db::environment_secret\<close>, of an environment and a name; \<open>sio_host\<close> is the
  caller's host store. Without an environment no decryptor is built.\<close>

record secret_io =
  sio_policies :: policies
  sio_stored :: "string \<Rightarrow> string \<Rightarrow> unit + string option"
  sio_decryptors :: decryptors
  sio_host :: "string \<Rightarrow> string option"

definition can_decrypt :: "decryptors \<Rightarrow> bool" where
  "can_decrypt dc = (dc_legacy dc \<noteq> None \<or> dc_provider dc \<noteq> None \<or> dc_build_error dc \<noteq> None)"

definition from_environment :: "secret_io \<Rightarrow> string option \<Rightarrow> string \<Rightarrow> secret_error + string option" where
  "from_environment io env name =
     (case env of
        Some e \<Rightarrow>
          if can_decrypt (sio_decryptors io) then
            (case sio_stored io e name of
               Inl _ \<Rightarrow> Inl (Secret_not_loaded name)
             | Inr None \<Rightarrow> Inr None
             | Inr (Some c) \<Rightarrow> map_ok Some (decrypt_secret_value c (sio_decryptors io) name))
          else Inr None
      | None \<Rightarrow> Inr None)"

definition resolve_var :: "secret_io \<Rightarrow> secret_source \<Rightarrow> env_var \<Rightarrow> secret_error + env_var" where
  "resolve_var io src var =
     (case ev_value_from var of
        None \<Rightarrow> Inr var
      | Some r \<Rightarrow>
          and_then (from_environment io (ss_environment src) (sr_secret r))
            (\<lambda>resolved. case resolved of
                Some v \<Rightarrow> Inr (var\<lparr>ev_value := v\<rparr>)
              | None \<Rightarrow>
                  if sr_optional r then Inr (var\<lparr>ev_value := []\<rparr>)
                  else if ss_host_store src then
                    (case sio_host io (sr_secret r) of
                       Some v \<Rightarrow> Inr (var\<lparr>ev_value := v\<rparr>)
                     | None \<Rightarrow> Inl (Host_secret_missing (sr_secret r)))
                  else Inl (Not_in_environment (sr_secret r)
                              (case ss_environment src of Some e \<Rightarrow> e | None \<Rightarrow> []) (ss_trust src))))"

fun resolve_vars :: "secret_io \<Rightarrow> secret_source \<Rightarrow> env_var list \<Rightarrow> secret_error + env_var list" where
  "resolve_vars io src [] = Inr []"
| "resolve_vars io src (v # vs) =
     and_then (resolve_var io src v) (\<lambda>w. map_ok (\<lambda>ws. w # ws) (resolve_vars io src vs))"

definition resolve_secrets ::
  "secret_io \<Rightarrow> run_record \<Rightarrow> string option \<Rightarrow> env_var list \<Rightarrow> secret_error + env_var list" where
  "resolve_secrets io run task_environment env =
     (if list_all (\<lambda>e. ev_value_from e = None) env then Inr env
      else and_then (secret_source_of (sio_policies io) run task_environment) (\<lambda>src. resolve_vars io src env))"

end
