(* ===== verification/Trust_Props.thy ===== *)
theory Trust_Props
  imports Secrets Ci_Glob_Props
begin

text \<open>
  Trust is not gained on the way: what a run starts and what is made again from it is of its
  class; which secrets a run that is not trusted can read; whose a repository's environment is;
  what an environment's patterns mean.
\<close>

subsection \<open>A class is inherited\<close>

text \<open>The records made from a record: of a sub-workflow's run, of a resubmit, and either with its
  event or its source filled in.\<close>

inductive descends :: "run_trigger \<Rightarrow> run_trigger \<Rightarrow> bool" for t where
  itself: "descends t t"
| child: "descends t s \<Longrightarrow> descends t (child_of (Some s) run task)"
| again: "descends t s \<Longrightarrow> descends t (copying me (Some s))"
| event: "descends t s \<Longrightarrow> descends t (of_event i s)"
| source: "descends t s \<Longrightarrow> descends t (from_source i s)"

text \<open>What a rule reads of a record.\<close>

definition same_origin :: "run_trigger \<Rightarrow> run_trigger \<Rightarrow> bool" where
  "same_origin s t =
     (class_of (Some s) = class_of (Some t) \<and> rt_git_ref s = rt_git_ref t \<and> rt_repo s = rt_repo t
      \<and> rt_forge_host s = rt_forge_host t \<and> rt_sha s = rt_sha t \<and> rt_base_sha s = rt_base_sha t \<and> rt_pr s = rt_pr t)"

lemma child_origin: "same_origin (child_of (Some s) run task) s"
  by (auto simp: same_origin_def child_of_def class_of_def Let_def kind_workflow_def kind_ci_def split: option.splits)

lemma copy_origin: "confined (class_of (Some s)) \<Longrightarrow> same_origin (copying me (Some s)) s"
  by (simp add: same_origin_def copying_def class_of_def [of "Some (_\<lparr>rt_pr := _\<rparr>)"])

lemma noted_origin: "same_origin (of_event i s) s" "same_origin (from_source i s) s"
  by (simp_all add: same_origin_def of_event_def from_source_def class_of_def split: option.split)

lemma same_origin_trans: "same_origin u s \<Longrightarrow> same_origin s t \<Longrightarrow> same_origin u t"
  by (simp add: same_origin_def)

lemma descends_origin: "descends t s \<Longrightarrow> confined (class_of (Some t)) \<Longrightarrow> same_origin s t"
proof (induction rule: descends.induct)
  case (again s me)
  then have "same_origin s t" "confined (class_of (Some s))" by (simp_all add: same_origin_def)
  with copy_origin same_origin_trans show ?case by blast
qed (simp add: same_origin_def, (blast intro: child_origin noted_origin same_origin_trans)+)

lemma same_origin_facts: "same_origin s t \<Longrightarrow> facts_of (Some s) p = facts_of (Some t) p"
  by (simp add: same_origin_def facts_of_def)

text \<open>C6. No run gains trust by calling or by being made again: every record that descends from that
  of a run which is not trusted, through any sequence of sub-workflow calls and resubmits, is of
  the same class, of the same repository, ref and commit, and an environment's policy gives it
  the same answer.\<close>

theorem trust_is_not_gained:
  assumes "descends t s" "confined (class_of (Some t))"
  shows "same_origin s t \<and> confined (class_of (Some s))
     \<and> admits env policy (facts_of (Some s) pipeline) = admits env policy (facts_of (Some t) pipeline)"
  using descends_origin [OF assms] assms(2) by (simp add: same_origin_facts) (simp add: same_origin_def)

definition fork_event :: run_trigger where
  "fork_event = trigger_default\<lparr>rt_kind := kind_ci, rt_principal := ''ci:forge'', rt_git_ref := Some ''refs/pull/8/head''\<rparr>"

theorem trust_is_not_gained_witness:
  "let s = copying ops_api_trigger (Some (child_of (Some fork_event) ''r1'' ''call''))
   in same_origin s fork_event \<and> confined (class_of (Some s))
      \<and> admits ''prod'' None (facts_of (Some s) ''ci'') = admits ''prod'' None (facts_of (Some fork_event) ''ci'')"
  using trust_is_not_gained [OF descends.again [OF descends.child [OF descends.itself [of fork_event]]]]
  by (simp add: Let_def confined_def class_of_def fork_event_def trigger_default_def kind_ci_def untrusted_class_def trusted_class_def)

subsection \<open>Which secrets\<close>

lemma source_of_confined:
  assumes "confined (class_of (rr_trigger run))" "secret_source_of policies run te = Inr src"
  shows "\<exists>name. ss_environment src = Some name \<and> \<not> ss_host_store src
     \<and> admit policies name (rr_trigger run) (facts_of (rr_trigger run) (rr_pipeline run)) = None"
proof -
  have f: "rf_trust (facts_of (rr_trigger run) (rr_pipeline run)) \<noteq> trusted_class"
    using assms(1) by (simp add: confined_def facts_of_def)
  from assms(2) show ?thesis
    by (cases te; cases "rr_environment run") (auto simp: secret_source_of_def Let_def f split: option.splits if_splits)
qed

text \<open>Two stores look the same to a run where they give the same for every environment that admits
  it; the host's own store is not asked about.\<close>

definition same_to :: "run_record \<Rightarrow> secret_io \<Rightarrow> secret_io \<Rightarrow> bool" where
  "same_to run a b =
     (sio_policies a = sio_policies b \<and> sio_decryptors a = sio_decryptors b
      \<and> (\<forall>name. admit (sio_policies a) name (rr_trigger run) (facts_of (rr_trigger run) (rr_pipeline run)) = None
               \<longrightarrow> sio_stored a name = sio_stored b name))"

lemma resolve_var_same:
  assumes "from_environment a (ss_environment src) = from_environment b (ss_environment src)" "\<not> ss_host_store src"
  shows "resolve_var a src v = resolve_var b src v"
  unfolding resolve_var_def assms(1) using assms(2) by (auto intro!: and_then_cong split: option.split)

lemma resolve_vars_same:
  assumes "\<And>v. resolve_var a src v = resolve_var b src v"
  shows "resolve_vars a src vs = resolve_vars b src vs"
  by (induction vs) (simp_all add: assms)

definition named_environment :: "run_record \<Rightarrow> string option \<Rightarrow> string option" where
  "named_environment run te = (case te of Some n \<Rightarrow> Some n | None \<Rightarrow> rr_environment run)"

lemma confined_source:
  assumes "confined (class_of (rr_trigger run))" "secret_source_of policies run te = Inr src"
  shows "named_environment run te = Some n \<longleftrightarrow> ss_environment src = Some n"
  using assms by (auto simp: secret_source_of_def named_environment_def Let_def split: option.splits if_splits)

lemma no_policy_not_admitted:
  assumes "confined (class_of (rr_trigger run))" "policies n = Inr None"
  shows "admit policies n (rr_trigger run) (facts_of (rr_trigger run) p) \<noteq> None"
proof -
  have "admits n None (facts_of (rr_trigger run) p) \<noteq> None"
    using assms(1) by (simp add: admits_def Let_def default_policy_def facts_of_def confined_def first_err_Cons guard_def)
  with assms(2) show ?thesis by (simp add: admit_def split: option.split)
qed

text \<open>C7. What a run that is not trusted is given as secrets depends on no store but those of the
  environments that admit it: whatever the engine's own host holds, and whatever any other
  environment holds, its tasks get the same values or the same refusal; and a task that reads a
  secret and names an environment without a policy, or none at all, is refused.\<close>

theorem secrets_of_admitting_environments_only:
  assumes "confined (class_of (rr_trigger run))" "same_to run a b"
  shows "resolve_secrets a run te vars = resolve_secrets b run te vars
     \<and> (list_ex (\<lambda>v. ev_value_from v \<noteq> None) vars
        \<and> (case named_environment run te of Some n \<Rightarrow> sio_policies a n = Inr None | None \<Rightarrow> True)
        \<longrightarrow> (\<exists>e. resolve_secrets a run te vars = Inl e))"
proof (cases "secret_source_of (sio_policies a) run te")
  case (Inl e)
  have "sio_policies b = sio_policies a" using assms(2) by (simp add: same_to_def)
  with Inl show ?thesis by (auto simp: resolve_secrets_def list_ex_iff list_all_iff)
next
  case (Inr src)
  from source_of_confined [OF assms(1) Inr] obtain name where
    n: "ss_environment src = Some name" "\<not> ss_host_store src"
      "admit (sio_policies a) name (rr_trigger run) (facts_of (rr_trigger run) (rr_pipeline run)) = None" by blast
  with assms(2) have "sio_stored a name = sio_stored b name" "sio_decryptors a = sio_decryptors b" by (auto simp: same_to_def)
  then have "from_environment a (ss_environment src) = from_environment b (ss_environment src)"
    by (auto simp: from_environment_def n(1) fun_eq_iff split: sum.split option.split)
  from resolve_var_same [OF this n(2)] have "resolve_vars a src vars = resolve_vars b src vars" by (rule resolve_vars_same)
  moreover have "sio_policies a name \<noteq> Inr None" using no_policy_not_admitted [OF assms(1)] n(3) by blast
  moreover have "named_environment run te = Some name" using confined_source [OF assms(1) Inr] n(1) by blast
  ultimately show ?thesis using Inr assms(2) by (simp add: resolve_secrets_def same_to_def)
qed

definition fork_run :: run_record where
  "fork_run = \<lparr>rr_trigger = Some fork_event, rr_pipeline = ''ci'', rr_environment = Some ''prod''\<rparr>"

definition two_stores :: "(string \<Rightarrow> string option) \<Rightarrow> secret_io" where
  "two_stores host =
     \<lparr>sio_policies = (\<lambda>_. Inr None), sio_stored = (\<lambda>_ _. Inr None),
      sio_decryptors = \<lparr>dc_legacy = Some Some, dc_provider = None, dc_build_error = None\<rparr>, sio_host = host\<rparr>"

definition token_var :: env_var where
  "token_var = \<lparr>ev_name = ''TOKEN'', ev_value = [], ev_value_from = Some \<lparr>sr_secret = ''DEPLOY_TOKEN'', sr_optional = False\<rparr>\<rparr>"

theorem secrets_of_admitting_environments_only_witness:
  "resolve_secrets (two_stores (\<lambda>_. Some ''hunter2'')) fork_run None [token_var] =
     resolve_secrets (two_stores (\<lambda>_. None)) fork_run None [token_var]
   \<and> (\<exists>e. resolve_secrets (two_stores (\<lambda>_. Some ''hunter2'')) fork_run None [token_var] = Inl e)"
proof -
  have "confined (class_of (rr_trigger fork_run))"
    by (simp add: fork_run_def fork_event_def class_of_def trigger_default_def confined_def trusted_class_def untrusted_class_def)
  moreover have "same_to fork_run (two_stores (\<lambda>_. Some ''hunter2'')) (two_stores (\<lambda>_. None))"
    by (simp add: same_to_def two_stores_def)
  ultimately have r: "resolve_secrets (two_stores (\<lambda>_. Some ''hunter2'')) fork_run None [token_var] =
       resolve_secrets (two_stores (\<lambda>_. None)) fork_run None [token_var]
     \<and> (list_ex (\<lambda>v. ev_value_from v \<noteq> None) [token_var]
        \<and> (case named_environment fork_run None of Some n \<Rightarrow> sio_policies (two_stores (\<lambda>_. Some ''hunter2'')) n = Inr None | None \<Rightarrow> True)
        \<longrightarrow> (\<exists>e. resolve_secrets (two_stores (\<lambda>_. Some ''hunter2'')) fork_run None [token_var] = Inl e))"
    by (rule secrets_of_admitting_environments_only)
  have "list_ex (\<lambda>v. ev_value_from v \<noteq> None) [token_var]" by (simp add: token_var_def)
  moreover have "named_environment fork_run None = Some ''prod''" by (simp add: named_environment_def fork_run_def)
  moreover have "sio_policies (two_stores (\<lambda>_. Some ''hunter2'')) ''prod'' = Inr None" by (simp add: two_stores_def)
  ultimately show ?thesis using r unfolding option.case by fastforce
qed

subsection \<open>Whose a repository's environment is\<close>

lemma lowercase_slash: "to_ascii_lowercase_char c = CHR ''/'' \<longleftrightarrow> c = CHR ''/''"
proof (cases "is_ascii_uppercase c")
  case True
  then have "code c + 32 < 256" "code c + 32 \<noteq> 47" "c \<noteq> CHR ''/''" by (auto simp: is_ascii_uppercase_def)
  moreover have "code (to_ascii_lowercase_char c) = code c + 32"
    using True calculation(1) by (simp add: to_ascii_lowercase_char_def)
  moreover have "code CHR ''/'' = 47" by simp
  ultimately show ?thesis by metis
qed (simp add: to_ascii_lowercase_char_def)

lemma lowercase_no_slash: "CHR ''/'' \<notin> set h \<Longrightarrow> CHR ''/'' \<notin> set (to_ascii_lowercase h)"
  unfolding to_ascii_lowercase_def set_map using lowercase_slash by (metis imageE)

lemma split_at_slash:
  "CHR ''/'' \<notin> set a \<Longrightarrow> CHR ''/'' \<notin> set c \<Longrightarrow> a @ CHR ''/'' # b = c @ CHR ''/'' # d \<longleftrightarrow> a = c \<and> b = d"
proof (induction a arbitrary: c)
  case Nil
  then show ?case by (cases c) auto
next
  case (Cons x a)
  then show ?case by (cases c) auto
qed

lemma repository_environment_eq:
  assumes "CHR ''/'' \<notin> set h1" "CHR ''/'' \<notin> set h2"
  shows "repository_environment h1 r1 = repository_environment h2 r2
     \<longleftrightarrow> eq_ignore_ascii_case h1 h2 \<and> eq_ignore_ascii_case r1 r2"
proof -
  have "to_ascii_lowercase_char CHR ''/'' = CHR ''/''" by code_simp
  then show ?thesis
    using split_at_slash [OF lowercase_no_slash [OF assms(1)] lowercase_no_slash [OF assms(2)]]
    by (simp add: repository_environment_def eq_ignore_ascii_case_def) (simp add: to_ascii_lowercase_def)
qed

lemma slash_in_repository: "CHR ''/'' \<in> set (repository_environment h r)"
proof -
  have "to_ascii_lowercase_char CHR ''/'' = CHR ''/''" by code_simp
  then show ?thesis by (simp add: repository_environment_def to_ascii_lowercase_def)
qed

text \<open>The repository a CI service recorded for a run.\<close>

definition ci_repository :: "run_trigger option \<Rightarrow> (string \<times> string) option" where
  "ci_repository trigger =
     (case trigger of
        Some t \<Rightarrow>
          if rt_kind t = ''ci'' \<and> starts_with (rt_principal t) ''ci:'' then
            (case (rt_forge_host t, rt_repo t) of (Some h, Some r) \<Rightarrow> Some (h, r) | _ \<Rightarrow> None)
          else None
      | None \<Rightarrow> None)"

lemma own_repository:
  "Option.bind trigger
     (\<lambda>t. if rt_kind t = ''ci'' \<and> starts_with (rt_principal t) ''ci:'' then
            (case (rt_forge_host t, rt_repo t) of (Some host, Some repo) \<Rightarrow> Some (repository_environment host repo) | _ \<Rightarrow> None)
          else None) = map_option (\<lambda>(h, r). repository_environment h r) (ci_repository trigger)"
  by (cases trigger) (auto simp: ci_repository_def split: option.split)

text \<open>The environment of a repository is that repository's alone: a run may use it exactly when a
  CI service recorded the run as one of a repository of that name on that host, letters' case
  aside; two repositories of one name on two forges have two environments; an environment whose
  name has no slash is nobody's; and a run that a task or the engine started never has one.\<close>

theorem repository_environment_is_its_own:
  assumes "CHR ''/'' \<notin> set host" "\<And>h r. ci_repository trigger = Some (h, r) \<Longrightarrow> CHR ''/'' \<notin> set h"
  shows "(repository_admits (repository_environment host repo) trigger = None
      \<longleftrightarrow> (\<exists>h r. ci_repository trigger = Some (h, r) \<and> eq_ignore_ascii_case h host \<and> eq_ignore_ascii_case r repo))
     \<and> (CHR ''/'' \<notin> set name \<longrightarrow> repository_admits name trigger = None)
     \<and> repository_admits (repository_environment host repo) (Some (child_of parent run task)) \<noteq> None"
proof (intro conjI)
  show "repository_admits (repository_environment host repo) trigger = None
      \<longleftrightarrow> (\<exists>h r. ci_repository trigger = Some (h, r) \<and> eq_ignore_ascii_case h host \<and> eq_ignore_ascii_case r repo)"
    using assms by (cases "ci_repository trigger")
      (auto simp: repository_admits_def own_repository slash_in_repository repository_environment_eq Let_def)
  show "CHR ''/'' \<notin> set name \<longrightarrow> repository_admits name trigger = None" by (simp add: repository_admits_def)
  show "repository_admits (repository_environment host repo) (Some (child_of parent run task)) \<noteq> None"
    by (simp add: repository_admits_def slash_in_repository child_of_def kind_workflow_def Let_def)
qed

definition widgets_run :: run_trigger where
  "widgets_run = trigger_default\<lparr>rt_kind := kind_ci, rt_principal := ''ci:forge'',
     rt_forge_host := Some ''github.com'', rt_repo := Some ''Acme/Widgets''\<rparr>"

theorem repository_environment_is_its_own_witness:
  "repository_admits (repository_environment ''GitHub.com'' ''acme/widgets'') (Some widgets_run) = None
   \<and> repository_admits (repository_environment ''forge.example'' ''acme/widgets'') (Some widgets_run) \<noteq> None"
proof -
  have c: "ci_repository (Some widgets_run) = Some (''github.com'', ''Acme/Widgets'')" by code_simp
  have e: "eq_ignore_ascii_case ''github.com'' ''GitHub.com''" "eq_ignore_ascii_case ''Acme/Widgets'' ''acme/widgets''"
    "\<not> eq_ignore_ascii_case ''github.com'' ''forge.example''" by code_simp+
  show ?thesis
    using repository_environment_is_its_own [of "''GitHub.com''" "Some widgets_run" "''acme/widgets''"]
      repository_environment_is_its_own [of "''forge.example''" "Some widgets_run" "''acme/widgets''"] c e by simp
qed

subsection \<open>What a pattern means\<close>

text \<open>A pattern of a policy, read as the tokens of the CI server's globs.\<close>

fun policy_tokens :: "string \<Rightarrow> glob_token list" where
  "policy_tokens [] = []"
| "policy_tokens (p # ps) =
     (if p = CHR ''*'' then
        (case ps of
           q # qs \<Rightarrow> if q = CHR ''*'' then Globstar False # policy_tokens qs else GStar # policy_tokens ps
         | [] \<Rightarrow> [GStar])
      else (if p = CHR ''?'' then GOne else GChar p) # policy_tokens ps)"

lemma glob_star_lang:
  assumes "\<And>t. policy_glob ps t \<longleftrightarrow> glob_lang ks t"
  shows "glob_star True ps t \<longleftrightarrow> glob_lang (Globstar False # ks) t" "glob_star False ps t \<longleftrightarrow> glob_lang (GStar # ks) t"
proof (induction t)
  case Nil
  show "glob_star True ps [] \<longleftrightarrow> glob_lang (Globstar False # ks) []" using lang_globstar [of ks "[]"] by (simp add: assms)
  show "glob_star False ps [] \<longleftrightarrow> glob_lang (GStar # ks) []" using lang_star [of ks "[]"] by (simp add: assms)
next
  case (Cons c cs)
  show "glob_star True ps (c # cs) \<longleftrightarrow> glob_lang (Globstar False # ks) (c # cs)"
    using Cons(1) lang_globstar [of ks "c # cs"] by (simp add: assms)
  show "glob_star False ps (c # cs) \<longleftrightarrow> glob_lang (GStar # ks) (c # cs)"
    using Cons(2) lang_star [of ks "c # cs"] by (simp add: assms)
qed

lemma lang_one_token:
  "glob_lang (GOne # ks) t \<longleftrightarrow> (\<exists>c w. t = c # w \<and> c \<noteq> CHR ''/'' \<and> glob_lang ks w)"
  "glob_lang (GChar p # ks) t \<longleftrightarrow> (\<exists>c w. t = c # w \<and> c = p \<and> glob_lang ks w)"
  by (rule lang_one; simp)+

lemma policy_glob_lang: "policy_glob p t \<longleftrightarrow> glob_lang (policy_tokens p) t"
proof (induction p arbitrary: t rule: policy_tokens.induct)
  case (2 p ps)
  show ?case
  proof (cases "p = CHR ''*''")
    case True
    show ?thesis
    proof (cases ps)
      case Nil
      have "policy_glob [] u \<longleftrightarrow> glob_lang [] u" for u by simp
      from glob_star_lang(2) [of "[]" "[]", OF this] show ?thesis using True Nil by simp
    next
      case (Cons q qs)
      with True "2.IH" glob_star_lang [of qs "policy_tokens qs"] glob_star_lang [of ps "policy_tokens ps"]
      show ?thesis by (cases "q = CHR ''*''") simp_all
    qed
  next
    case False
    with "2.IH" show ?thesis by (cases t) (auto simp: lang_one_token)
  qed
qed simp

text \<open>Patterns without what only the CI server's globs read: escapes, classes, a \<open>**/\<close>, and three
  stars, which they refuse.\<close>

fun plain_pattern :: "string \<Rightarrow> bool" where
  "plain_pattern [] = True"
| "plain_pattern (c # cs) =
     (c \<noteq> CHR 0x5C \<and> c \<noteq> CHR ''['' \<and> (c = CHR ''*'' \<longrightarrow> \<not> starts_with cs ''**'' \<and> \<not> starts_with cs ''*/'')
      \<and> plain_pattern cs)"

lemma starts_with_one: "starts_with s [c] \<longleftrightarrow> (\<exists>r. s = c # r)"
  by (cases s) (auto simp: starts_with_def)

lemma plain_compiles: "plain_pattern p \<Longrightarrow> glob_compile whole p = Inr (policy_tokens p)"
proof (induction p rule: policy_tokens.induct)
  case (2 p ps)
  show ?case
  proof (cases "p = CHR ''*'' \<and> (\<exists>qs. ps = CHR ''*'' # qs)")
    case True
    then obtain qs where "ps = CHR ''*'' # qs" by blast
    with 2 True show ?thesis by (simp add: starts_with_one)
  next
    case False
    then have n: "p = CHR ''*'' \<Longrightarrow> \<not> starts_with ps ''*''" by (auto simp: starts_with_one)
    have "policy_tokens (p # ps) =
        (if p = CHR ''*'' then GStar else if p = CHR ''?'' then GOne else GChar p) # policy_tokens ps"
      using False by (cases ps) auto
    moreover have "glob_compile whole ps = Inr (policy_tokens ps)"
      using 2 False by (cases "p = CHR ''*''"; cases ps) auto
    ultimately show ?thesis using n "2.prems" by simp
  qed
qed simp

text \<open>The patterns of an environment's policy mean what they say: a star is any run of characters
  within a segment, two are any run at all, a question mark one character that is no slash, and
  every other character is itself, the whole text being matched; and on every pattern without an
  escape, a class or a \<open>**/\<close> it is what the CI server's branch filters take.\<close>

theorem policy_pattern_decides:
  "(policy_matches p t \<longleftrightarrow> glob_lang (policy_tokens p) t)
   \<and> (plain_pattern p \<and> glob_new p = Inr g \<longrightarrow> (glob_matches g t \<longleftrightarrow> policy_matches p t))"
proof -
  have "gl_tokens g = policy_tokens p" if "plain_pattern p" "glob_new p = Inr g"
    using that plain_compiles [of p p] by (auto simp: glob_new_def split: if_splits)
  then show ?thesis by (auto simp: policy_matches_def policy_glob_lang glob_matches_lang)
qed

theorem policy_pattern_decides_witness:
  "policy_matches ''refs/heads/**'' ''refs/heads/release/1''
   \<and> (\<exists>g. glob_new ''refs/heads/**'' = Inr g \<and> glob_matches g ''refs/heads/release/1'')"
proof -
  have p: "plain_pattern ''refs/heads/**''" "policy_matches ''refs/heads/**'' ''refs/heads/release/1''"
    "case glob_new ''refs/heads/**'' of Inl e \<Rightarrow> False | Inr g \<Rightarrow> True" by code_simp+
  then obtain g where "glob_new ''refs/heads/**'' = Inr g" by (auto split: sum.splits)
  with p policy_pattern_decides [of "''refs/heads/**''" "''refs/heads/release/1''" g] show ?thesis by blast
qed

text \<open>On a \<open>**/\<close> they differ: the filter of a pipeline takes it for any number of whole segments,
  none among them; a policy takes its slash for itself.\<close>

theorem policy_pattern_segments:
  "\<not> policy_matches ''**/main'' ''main''
   \<and> list_all (\<lambda>r. case r of Inl e \<Rightarrow> False | Inr g \<Rightarrow> glob_matches g ''main'') [glob_new ''**/main'']"
  by code_simp

end
