(* ===== verification/Confine.thy ===== *)
theory Confine
  imports Env_Policy F64
begin

text \<open>
  What a run that is not trusted is held to (crates/dagron-core/src/confine.rs), and the two places
  of crates/dagron-engine/src/lib.rs that hold it: the engine's start, which reads the operator's
  floor, limits and images, and the dispatch of a task. What a refusal names is a constructor; the
  sentence that says why is fixed by it.
\<close>

subsection \<open>The operator's limits\<close>

record limits =
  li_memory_bytes :: int
  li_pids :: int
  li_nano_cpus :: int
  li_timeout_secs :: nat
  li_max_attempts :: nat
  li_max_tasks :: int
  li_max_services :: nat

definition default_limits :: limits where
  "default_limits =
     \<lparr>li_memory_bytes = 4 * 2 ^ 30, li_pids = 2048, li_nano_cpus = 2000000000, li_timeout_secs = 3600,
      li_max_attempts = 3, li_max_tasks = 256, li_max_services = 4\<rparr>"

datatype limits_error =
    Limit_not_key_value string
  | Limit_count string string
  | Limit_memory string
  | Limit_cpus string
  | Limit_unknown string

definition limit_count :: "string \<Rightarrow> int \<Rightarrow> int \<Rightarrow> string \<Rightarrow> limits_error + int" where
  "limit_count key least most v =
     (case parse_i64 v of
        Some n \<Rightarrow> if least \<le> n \<and> n \<le> most then Inr n else Inl (Limit_count key v)
      | None \<Rightarrow> Inl (Limit_count key v))"

definition memory_unit :: "string \<Rightarrow> string \<times> int" where
  "memory_unit v =
     (if v \<noteq> [] \<and> last v \<in> set ''kK'' then (butlast v, 2 ^ 10)
      else if v \<noteq> [] \<and> last v \<in> set ''mM'' then (butlast v, 2 ^ 20)
      else if v \<noteq> [] \<and> last v \<in> set ''gG'' then (butlast v, 2 ^ 30)
      else (v, 1))"

definition memory_limit :: "string \<Rightarrow> limits_error + int" where
  "memory_limit v =
     (let (digits, unit) = memory_unit v
      in case parse_i64 digits of
           Some n \<Rightarrow>
             if - (2 ^ 63) \<le> n * unit \<and> n * unit < 2 ^ 63 \<and> n * unit \<ge> 6 * 2 ^ 20 then Inr (n * unit)
             else Inl (Limit_memory v)
         | None \<Rightarrow> Inl (Limit_memory v))"

text \<open>\<open>f64::round\<close>: half away from zero, exact; \<open>as i64\<close> saturates.\<close>

definition round_away :: "rat \<Rightarrow> int" where
  "round_away q = (if q \<ge> 0 then \<lfloor>q + 1 / 2\<rfloor> else - \<lfloor>- q + 1 / 2\<rfloor>)"

fun f64_round_as_i64 :: "f64 \<Rightarrow> int" where
  "f64_round_as_i64 NaN = 0"
| "f64_round_as_i64 (Inf n) = (if n then - (2 ^ 63) else 2 ^ 63 - 1)"
| "f64_round_as_i64 (Fin q) = max (- (2 ^ 63)) (min (2 ^ 63 - 1) (round_away q))"

definition cpus_limit :: "string \<Rightarrow> limits_error + int" where
  "cpus_limit v =
     (case parse_f64 v of
        Some (Fin q) \<Rightarrow>
          if f64_le (f64_round (1 / 100)) (Fin q) \<and> f64_le (Fin q) (Fin 4096)
          then Inr (f64_round_as_i64 (f64_mul (Fin q) (Fin 1000000000)))
          else Inl (Limit_cpus v)
      | _ \<Rightarrow> Inl (Limit_cpus v))"

definition limit_entry :: "string \<Rightarrow> limits \<Rightarrow> limits_error + limits" where
  "limit_entry item out =
     (case split_once ''='' item of
        None \<Rightarrow> Inl (Limit_not_key_value item)
      | Some (k, v0) \<Rightarrow>
          (let key = trim k; v = trim v0
           in if key = ''memory'' then map_ok (\<lambda>n. out\<lparr>li_memory_bytes := n\<rparr>) (memory_limit v)
              else if key = ''pids'' then map_ok (\<lambda>n. out\<lparr>li_pids := n\<rparr>) (limit_count key 1 (2 ^ 63 - 1) v)
              else if key = ''cpus'' then map_ok (\<lambda>n. out\<lparr>li_nano_cpus := n\<rparr>) (cpus_limit v)
              else if key = ''timeout'' then map_ok (\<lambda>n. out\<lparr>li_timeout_secs := nat n\<rparr>) (limit_count key 1 (7 * 24 * 3600) v)
              else if key = ''attempts'' then map_ok (\<lambda>n. out\<lparr>li_max_attempts := nat n\<rparr>) (limit_count key 1 100 v)
              else if key = ''tasks'' then map_ok (\<lambda>n. out\<lparr>li_max_tasks := n\<rparr>) (limit_count key 1 100000 v)
              else if key = ''services'' then map_ok (\<lambda>n. out\<lparr>li_max_services := nat n\<rparr>) (limit_count key 0 (int max_services) v)
              else Inl (Limit_unknown key)))"

fun limit_entries :: "limits \<Rightarrow> string list \<Rightarrow> limits_error + limits" where
  "limit_entries out [] = Inr out"
| "limit_entries out (e # es) = and_then (limit_entry e out) (\<lambda>l. limit_entries l es)"

definition comma_list :: "string \<Rightarrow> string list" where
  "comma_list raw = filter (\<lambda>s. s \<noteq> []) (map trim (split_char (CHR '','') raw))"

definition limits_parse :: "string \<Rightarrow> limits_error + limits" where
  "limits_parse raw = limit_entries default_limits (comma_list raw)"

text \<open>\<open>u32::clamp\<close> panics where the least is above the most; \<open>limits_parse\<close> makes no such limit.\<close>

definition spend :: "limits \<Rightarrow> task_spec \<Rightarrow> task_spec" where
  "spend l t =
     t\<lparr>ts_timeout_secs := Some (case ts_timeout_secs t of None \<Rightarrow> li_timeout_secs l | Some own \<Rightarrow> min own (li_timeout_secs l)),
       ts_max_attempts := max 1 (min (ts_max_attempts t) (li_max_attempts l))\<rparr>"

subsection \<open>What it may not use\<close>

datatype confined_what =
    Uses_type string string
  | Uses_key string string
  | Uses_approval_keys string
  | Uses_notify
  | Uses_on_datasets

definition confined_task_refusal :: "task_spec \<Rightarrow> string \<Rightarrow> confined_what option" where
  "confined_task_refusal t c =
     first_err
      [guard_opt (\<lambda>kind. guard (kind \<noteq> ''task'') (Uses_type kind (ts_name t))) (ts_task_type t),
       guard (ts_service_account t \<noteq> None) (Uses_key ''service_account'' (ts_name t)),
       guard (ts_identity t \<noteq> None \<and> c \<noteq> agent_class) (Uses_key ''identity'' (ts_name t)),
       guard (ts_docker_daemon t) (Uses_key ''docker_daemon'' (ts_name t)),
       guard (ts_privileged t) (Uses_key ''privileged'' (ts_name t)),
       guard (ts_defer t \<noteq> None) (Uses_key ''defer'' (ts_name t)),
       guard (ts_wait t \<noteq> None) (Uses_key ''wait'' (ts_name t)),
       guard (ts_workflow t \<noteq> None) (Uses_key ''workflow'' (ts_name t)),
       guard (ts_produces t \<noteq> []) (Uses_key ''produces'' (ts_name t)),
       guard (ts_repeat t \<noteq> None) (Uses_key ''repeat'' (ts_name t)),
       guard (ts_with_output_of t \<noteq> None) (Uses_key ''with_output_of'' (ts_name t)),
       guard (ts_gang t \<noteq> None \<or> ts_gang_member t \<noteq> None) (Uses_key ''gang'' (ts_name t)),
       guard (ts_approval_timeout_secs t \<noteq> None \<or> ts_approval_on_timeout t \<noteq> None \<or> ts_approval_message t \<noteq> None
              \<or> ts_approval_show t \<noteq> [] \<or> ts_binds t \<noteq> [] \<or> ts_approvers t \<noteq> [] \<or> ts_not_triggerer t)
         (Uses_approval_keys (ts_name t))]"

definition confined_refusal :: "dag_spec \<Rightarrow> string \<Rightarrow> confined_what option" where
  "confined_refusal spec c =
     first_err
      [guard (ds_notify spec \<noteq> None) Uses_notify,
       guard (ds_on_datasets spec \<noteq> [] \<or> ds_datasets_mode spec \<noteq> None) Uses_on_datasets,
       guard_all (\<lambda>t. confined_task_refusal t c) (ds_tasks spec)]"

subsection \<open>What it is not given\<close>

definition confined_pool :: string where "confined_pool = ''untrusted''"

definition withhold :: "task_spec \<Rightarrow> task_spec" where
  "withhold t =
     t\<lparr>ts_cache := None, ts_pool := Some confined_pool, ts_priority := min (ts_priority t) 0, ts_retry_budgets := []\<rparr>"

record confined_refused =
  cr_class :: string
  cr_what :: confined_what

definition hold :: "dag_spec \<Rightarrow> string \<Rightarrow> confined_refused + dag_spec" where
  "hold spec c =
     (if \<not> confined c then Inr spec
      else case confined_refusal spec c of
             Some what \<Rightarrow> Inl \<lparr>cr_class = c, cr_what = what\<rparr>
           | None \<Rightarrow>
               Inr (spec\<lparr>ds_task_defaults := map_option (\<lambda>d. d\<lparr>td_retry_budgets := []\<rparr>) (ds_task_defaults spec),
                         ds_concurrency_key :=
                           (if ds_max_active_runs spec \<noteq> None then
                              Some (case ds_concurrency_key spec of
                                      Some key \<Rightarrow> confined_pool @ '':'' @ key
                                    | None \<Rightarrow> confined_pool)
                            else ds_concurrency_key spec),
                         ds_tasks := map withhold (ds_tasks spec)\<rparr>))"

definition held :: "dag_graph \<Rightarrow> string \<Rightarrow> confined_refused + dag_graph option" where
  "held g c =
     (if \<not> confined c then Inr None
      else map_ok (\<lambda>spec. Some (g\<lparr>dg_spec := spec\<rparr>)) (hold (dg_spec g) c))"

subsection \<open>Which images\<close>

definition parse_images :: "string \<Rightarrow> string + string list" where
  "parse_images raw =
     (let listed = comma_list raw
      in case List.find (\<lambda>p. length p > 512 \<or> list_ex (\<lambda>c. is_whitespace c \<or> is_control c) p) listed of
           Some p \<Rightarrow> Inl p
         | None \<Rightarrow> Inr listed)"

datatype image_refused = Task_image string | Service_image string string

definition image_refusal :: "string list \<Rightarrow> task_spec \<Rightarrow> image_refused option" where
  "image_refusal allowed t =
     (if allowed = [] then None
      else first_err
        [guard_opt (\<lambda>i. guard (\<not> any_matches allowed i) (Task_image i)) (ts_docker_image t),
         guard_all (\<lambda>s. guard (\<not> any_matches allowed (sv_image s)) (Service_image (sv_name s) (sv_image s))) (ts_services t)])"

definition too_many :: "limits \<Rightarrow> int \<Rightarrow> bool" where
  "too_many l tasks = (tasks > li_max_tasks l)"

definition too_many_services :: "limits \<Rightarrow> task_spec \<Rightarrow> bool" where
  "too_many_services l t = (length (ts_services t) > li_max_services l)"

subsection \<open>The engine's start\<close>

datatype engine_refused = Confined_local | Confined_no_network | Confined_open_pods

definition confined_engine_refusal :: "executor_kind \<Rightarrow> isolation_spec \<Rightarrow> bool \<Rightarrow> engine_refused option" where
  "confined_engine_refusal kind fl names_a_network =
     (case kind of
        Local \<Rightarrow> Some Confined_local
      | Docker \<Rightarrow> if names_a_network then None else Some Confined_no_network
      | Kubernetes \<Rightarrow>
          (case iso_network fl of
             Some NetNone \<Rightarrow> None
           | Some (NetAllow _) \<Rightarrow> None
           | _ \<Rightarrow> Some Confined_open_pods))"

record confining =
  cn_floor :: isolation_spec
  cn_limits :: limits
  cn_images :: "string list"

datatype start_error =
    Floor_invalid isolation_error
  | Engine_cannot engine_refused
  | Floor_not_enforceable isolation_error
  | Limits_invalid limits_error
  | Images_invalid string

text \<open>\<open>floor_raw\<close> is \<open>DAGRON_UNTRUSTED_ISOLATION_FLOOR\<close>, \<open>own\<close> the floor of the engine itself,
  \<open>enforcer\<close> what its executor can deliver, where it is known.\<close>

definition confining_of ::
  "executor_kind \<Rightarrow> enforcer option \<Rightarrow> isolation_spec option \<Rightarrow> bool \<Rightarrow> string option \<Rightarrow> string \<Rightarrow> string
     \<Rightarrow> start_error + confining option" where
  "confining_of kind enforcer own names_a_network floor_raw limits_raw images_raw =
     (case floor_raw of
        None \<Rightarrow> Inr None
      | Some raw \<Rightarrow>
          if trim raw = [] then Inr None
          else case parse_floor raw of
                 Inl e \<Rightarrow> Inl (Floor_invalid e)
               | Inr fl0 \<Rightarrow>
                   (let fl = fl0\<lparr>iso_service_account_token := Some False\<rparr>;
                        both = (case own of Some o1 \<Rightarrow> fst (apply_floor o1 fl) | None \<Rightarrow> fl)
                    in case first_err
                              [map_option Engine_cannot (confined_engine_refusal kind fl names_a_network),
                               guard_opt (\<lambda>k. map_option Floor_not_enforceable (require_enforceable_by both k)) enforcer] of
                         Some e \<Rightarrow> Inl e
                       | None \<Rightarrow>
                           (case limits_parse limits_raw of
                              Inl e \<Rightarrow> Inl (Limits_invalid e)
                            | Inr l \<Rightarrow>
                                (case parse_images images_raw of
                                   Inl i \<Rightarrow> Inl (Images_invalid i)
                                 | Inr images \<Rightarrow> Inr (Some \<lparr>cn_floor = fl, cn_limits = l, cn_images = images\<rparr>)))))"

subsection \<open>The dispatch of a task\<close>

datatype dispatch_refused =
    Not_run_here string
  | Confined_refused confined_refused
  | Image_refused image_refused
  | Services_refused nat
  | Tasks_refused int

record confinement =
  co_memory_bytes :: int
  co_pids :: int
  co_nano_cpus :: int

text \<open>\<open>tasks\<close> is the number of rows the run has.\<close>

definition dispatch_refusal :: "confining option \<Rightarrow> string \<Rightarrow> int \<Rightarrow> task_spec \<Rightarrow> dispatch_refused option" where
  "dispatch_refusal cn c tasks t =
     (case cn of
        None \<Rightarrow> Some (Not_run_here c)
      | Some h \<Rightarrow>
          first_err
           [map_option (\<lambda>what. Confined_refused \<lparr>cr_class = c, cr_what = what\<rparr>) (confined_task_refusal t c),
            map_option Image_refused (image_refusal (cn_images h) t),
            guard (too_many_services (cn_limits h) t) (Services_refused (length (ts_services t))),
            guard (too_many (cn_limits h) tasks) (Tasks_refused tasks)])"

definition confine_task ::
  "confining option \<Rightarrow> string \<Rightarrow> int \<Rightarrow> task_spec \<Rightarrow> dispatch_refused + task_spec \<times> confinement option" where
  "confine_task cn c tasks t =
     (if \<not> confined c then Inr (t, None)
      else case dispatch_refusal cn c tasks t of
             Some e \<Rightarrow> Inl e
           | None \<Rightarrow>
               (case cn of
                  None \<Rightarrow> Inr (withhold t, None)
                | Some h \<Rightarrow>
                    Inr (spend (cn_limits h) (withhold t),
                         Some \<lparr>co_memory_bytes = li_memory_bytes (cn_limits h), co_pids = li_pids (cn_limits h),
                               co_nano_cpus = li_nano_cpus (cn_limits h)\<rparr>)))"

text \<open>The envelope the task runs under: its own, raised to the engine's floor, and to the floor for
  its class over that.\<close>

definition dispatch_isolation ::
  "isolation_spec option \<Rightarrow> isolation_spec option \<Rightarrow> isolation_spec option \<Rightarrow> isolation_spec option" where
  "dispatch_isolation declared own class_floor =
     (if declared = None \<and> own = None \<and> class_floor = None then None
      else (let d = (case declared of Some i \<Rightarrow> i | None \<Rightarrow> iso_default);
                e1 = (case own of Some f \<Rightarrow> fst (apply_floor d f) | None \<Rightarrow> d);
                e2 = (case class_floor of Some f \<Rightarrow> fst (apply_floor e1 f) | None \<Rightarrow> e1)
            in if e2 = iso_default then None else Some e2))"

definition class_floor_of :: "confinement option \<Rightarrow> confining option \<Rightarrow> isolation_spec option" where
  "class_floor_of co cn = (if co = None then None else map_option cn_floor cn)"

end
