(* ===== verification/Protected_Env.thy ===== *)
theory Protected_Env
  imports Confine Secrets Create_Run
begin

text \<open>
  A protected environment, to a run that is not trusted (crates/dagron-core/src/protected.rs): the
  gate put before each task that names one; and the two holds composed as \<open>create_run_full\<close> of
  crates/dagron-core/src/db/sqlite.rs composes them before it writes a run.
\<close>

definition gate_timeout_secs :: nat where "gate_timeout_secs = 86400"

text \<open>A task that waits on a gate: its place, its environment, who may approve.\<close>

type_synonym asked = "nat \<times> string \<times> string list"

datatype trust_error =
    Run_confined confined_refused
  | Gate_policy_not_loaded string
  | Gated_graph dag_error
  | Run_not_made create_error

text \<open>The loop over the tasks. Its map of the policies loaded so far spares a second load of the
  same environment; the load is a function here, so the map is left out.\<close>

fun asked_from :: "policies \<Rightarrow> string \<Rightarrow> string option \<Rightarrow> nat \<Rightarrow> task_spec list \<Rightarrow> trust_error + asked list" where
  "asked_from policies c run_env i [] = Inr []"
| "asked_from policies c run_env i (t # ts) =
     (if is_approval t then asked_from policies c run_env (i + 1) ts
      else case (case ts_environment t of Some e \<Rightarrow> Some e | None \<Rightarrow> run_env) of
             None \<Rightarrow> asked_from policies c run_env (i + 1) ts
           | Some env \<Rightarrow>
               (case policies env of
                  Inl _ \<Rightarrow> Inl (Gate_policy_not_loaded env)
                | Inr p \<Rightarrow>
                    (if approvers_for p c \<noteq> []
                     then map_ok (\<lambda>xs. (i, env, approvers_for p c) # xs) (asked_from policies c run_env (i + 1) ts)
                     else asked_from policies c run_env (i + 1) ts)))"

subsection \<open>A name no task has\<close>

function fresh_from :: "string list \<Rightarrow> string \<Rightarrow> nat \<Rightarrow> string" where
  "fresh_from names base n =
     (let name = base @ ''-'' @ digits_of n in if name \<in> set names then fresh_from names base (n + 1) else name)"
  by pat_completeness auto
termination
proof (relation "measure (\<lambda>(names, base, n). card {m. n \<le> m \<and> base @ ''-'' @ digits_of m \<in> set names})", goal_cases)
  case (2 names base n x)
  let ?S = "\<lambda>k. {m. k \<le> m \<and> base @ ''-'' @ digits_of m \<in> set names}"
  have "finite (?S n)"
    by (rule finite_imageD [where f = "\<lambda>m. base @ ''-'' @ digits_of m"])
      (auto intro: finite_subset [of _ "set names"] inj_onI)
  moreover have "?S (n + 1) \<subset> ?S n"
    using 2 by (intro psubsetI) (auto simp: set_eq_iff intro: exI [of _ n])
  ultimately show ?case by (simp add: psubset_card_mono)
qed simp

declare fresh_from.simps [simp del]

definition gate_name :: "string list \<Rightarrow> string \<Rightarrow> string" where
  "gate_name names task =
     (let base = task @ ''.environment'' in if base \<in> set names then fresh_from names base 2 else base)"

subsection \<open>The gates\<close>

definition gate_message :: "string option \<Rightarrow> string \<Rightarrow> string \<Rightarrow> string \<Rightarrow> string" where
  "gate_message actor c env task =
     (let q = [CHR 0x27]
      in (case actor of Some a \<Rightarrow> a @ q @ ''s run'' | None \<Rightarrow> ''A run'')
         @ '', which is '' @ c @ '', asks to use the protected environment '' @ q @ env @ q @ '' in task '' @ q @ task @ q
         @ ''. Approve it to let that task run.'')"

text \<open>The gate as serde reads it: what the object does not name has its default.\<close>

definition gate_for :: "string \<Rightarrow> string option \<Rightarrow> string \<Rightarrow> string list \<Rightarrow> string \<Rightarrow> task_spec \<Rightarrow> task_spec" where
  "gate_for c actor env approvers name t =
     \<lparr>ts_name = name, ts_command = [], ts_depends_on = ts_depends_on t, ts_input = None, ts_template = None,
      ts_arguments = [], ts_with_items = None, ts_with_param = None, ts_with_output_of = None, ts_when = ts_when t,
      ts_instance_key = None, ts_trigger_rule = ts_trigger_rule t, ts_hook = None, ts_allow_failure = False,
      ts_task_type = Some ''approval'', ts_workflow = None, ts_wait = None,
      ts_approval_timeout_secs = Some gate_timeout_secs, ts_approval_on_timeout = Some ''reject'',
      ts_approval_message = Some (gate_message actor c env (ts_name t)), ts_approval_show = [], ts_binds = [],
      ts_approvers = approvers, ts_not_triggerer = False, ts_max_attempts = 1, ts_retry_delay_secs = 0,
      ts_retry_max_delay_secs = None, ts_retry_on_timeout = None, ts_retry_budgets = [], ts_timeout_secs = None,
      ts_docker_image = None, ts_image_pull_policy = None, ts_env = [], ts_environment = None, ts_resources = None,
      ts_service_account = None, ts_runner_class = None, ts_priority = 0, ts_pool = None, ts_cache = None,
      ts_repeat = None, ts_defer = None, ts_produces = [], ts_gang = None, ts_gang_member = None, ts_isolation = None,
      ts_workspace = None, ts_services = [], ts_env_from = [], ts_identity = None, ts_forge_token = None,
      ts_docker_daemon = False, ts_privileged = False, ts_tokens = None, ts_artifact_api = False\<rparr>"

text \<open>The loop over what was asked: the tasks, the names taken, the gates so far.\<close>

fun put_gates :: "string \<Rightarrow> string option \<Rightarrow> asked list \<Rightarrow> task_spec list \<Rightarrow> string list \<Rightarrow> task_spec list
    \<Rightarrow> task_spec list \<times> task_spec list" where
  "put_gates c actor [] tasks names gates = (tasks, gates)"
| "put_gates c actor ((i, env, approvers) # as) tasks names gates =
     (let t = tasks ! i; name = gate_name names (ts_name t); gate = gate_for c actor env approvers name t
      in put_gates c actor as (tasks[i := t\<lparr>ts_depends_on := ts_depends_on t @ [name]\<rparr>]) (name # names) (gates @ [gate]))"

definition gated_spec :: "dag_spec \<Rightarrow> asked list \<Rightarrow> string \<Rightarrow> string option \<Rightarrow> dag_spec" where
  "gated_spec spec as c actor =
     (let (tasks, gates) = put_gates c actor as (ds_tasks spec) (map ts_name (ds_tasks spec)) []
      in spec\<lparr>ds_tasks := tasks @ gates\<rparr>)"

definition with_gates :: "dag_env \<Rightarrow> dag_graph \<Rightarrow> asked list \<Rightarrow> string \<Rightarrow> string option \<Rightarrow> dag_error + dag_graph" where
  "with_gates env g as c actor =
     map_ok (\<lambda>h. h\<lparr>dg_parameters := dg_parameters g\<rparr>) (from_spec env (gated_spec (dg_spec g) as c actor))"

definition gated :: "dag_env \<Rightarrow> policies \<Rightarrow> dag_graph \<Rightarrow> run_trigger option \<Rightarrow> trust_error + dag_graph option" where
  "gated env policies g trigger =
     (let c = class_of trigger
      in if \<not> confined c then Inr None
         else case asked_from policies c (ds_environment (dg_spec g)) 0 (ds_tasks (dg_spec g)) of
                Inl e \<Rightarrow> Inl e
              | Inr as \<Rightarrow>
                  if as = [] then Inr None
                  else (case with_gates env g as c (Option.bind trigger rt_actor) of
                          Inl e \<Rightarrow> Inl (Gated_graph e)
                        | Inr h \<Rightarrow> Inr (Some h)))"

subsection \<open>Making a run\<close>

definition held_graph :: "dag_env \<Rightarrow> policies \<Rightarrow> dag_graph \<Rightarrow> run_trigger option \<Rightarrow> trust_error + dag_graph" where
  "held_graph env policies g trigger =
     (case held g (class_of trigger) of
        Inl e \<Rightarrow> Inl (Run_confined e)
      | Inr h \<Rightarrow>
          (let g1 = (case h of Some x \<Rightarrow> x | None \<Rightarrow> g)
           in map_ok (\<lambda>k. case k of Some x \<Rightarrow> x | None \<Rightarrow> g1) (gated env policies g1 trigger)))"

definition make_run ::
  "dag_env \<Rightarrow> policies \<Rightarrow> create_env \<Rightarrow> dag_graph \<Rightarrow> run_trigger option \<Rightarrow> instant \<Rightarrow> int \<Rightarrow> int \<Rightarrow> int \<Rightarrow> db
     \<Rightarrow> trust_error + db \<times> string" where
  "make_run env policies ce g trigger now active waiting max_waiting db =
     (case held_graph env policies g trigger of
        Inl e \<Rightarrow> Inl e
      | Inr h \<Rightarrow>
          (case create_run ce h now active waiting max_waiting db of
             Inl e \<Rightarrow> Inl (Run_not_made e)
           | Inr r \<Rightarrow> Inr r))"

end
