(* ===== verification/Confine_Props.thy ===== *)
theory Confine_Props
  imports Confine Isolation_Props Dag_Props
begin

text \<open>
  What a run that is not trusted is held to: the operator's limits cannot be turned off, and a task
  of such a run that is dispatched is within them, uses nothing it may not use, and runs under the
  floor of its class.
\<close>

subsection \<open>The limits\<close>

definition limits_ok :: "limits \<Rightarrow> bool" where
  "limits_ok l =
     (6 * 2 ^ 20 \<le> li_memory_bytes l \<and> li_memory_bytes l < 2 ^ 63
      \<and> 1 \<le> li_pids l \<and> li_pids l < 2 ^ 63
      \<and> 10 ^ 7 \<le> li_nano_cpus l \<and> li_nano_cpus l \<le> 4096 * 10 ^ 9
      \<and> 1 \<le> li_timeout_secs l \<and> li_timeout_secs l \<le> 7 * 24 * 3600
      \<and> 1 \<le> li_max_attempts l \<and> li_max_attempts l \<le> 100
      \<and> 1 \<le> li_max_tasks l \<and> li_max_tasks l \<le> 100000
      \<and> li_max_services l \<le> max_services)"

lemma limit_count_ok: "limit_count key a b v = Inr n \<Longrightarrow> a \<le> n \<and> n \<le> b"
  by (auto simp: limit_count_def split: option.splits if_splits)

lemma memory_limit_ok: "memory_limit v = Inr n \<Longrightarrow> 6 * 2 ^ 20 \<le> n \<and> n < 2 ^ 63"
  by (auto simp: memory_limit_def Let_def split: prod.splits option.splits if_splits)

lemma hundredth: "f64_round (1 / 100) = Fin (5764607523034235 / 576460752303423488)"
proof -
  have q: "quotient_of (1 / 100) = (1, 100)" by code_simp
  have l: "log2_floor (nat 1) (nat 100) = - 7" by code_simp
  have x: "1 / 100 / pow2 (- 59) = 144115188075855872 / 25" by (simp add: pow2_def)
  have "\<lfloor>144115188075855872 / 25 :: rat\<rfloor> = 5764607523034234" by (rule floor_unique) simp_all
  then have h: "half_even (144115188075855872 / 25) = 5764607523034235" by (simp add: half_even_def)
  have "round_abs (1 / 100) = Some (5764607523034235 / 576460752303423488)"
    unfolding round_abs_def q prod.case Let_def l by (simp add: x h pow2_def)
  then show ?thesis by (simp add: f64_round_def)
qed

lemma round_away_between:
  assumes "0 \<le> q"
  shows "of_int m \<le> q \<Longrightarrow> m \<le> round_away q" "q \<le> of_int m \<Longrightarrow> round_away q \<le> m"
  using assms by (simp_all add: round_away_def) linarith+

lemma f64_le_Fin: "f64_le (Fin a) (Fin b) \<longleftrightarrow> a \<le> b"
  by (auto simp: f64_le_def)

lemma cpus_limit_ok:
  assumes "cpus_limit v = Inr n"
  shows "10 ^ 7 \<le> n \<and> n \<le> 4096 * 10 ^ 9"
proof -
  from assms obtain q where q: "5764607523034235 / 576460752303423488 \<le> q" "q \<le> 4096"
    "n = f64_round_as_i64 (f64_mul (Fin q) (Fin 1000000000))"
    unfolding cpus_limit_def hundredth f64_le_Fin
    by (auto simp del: f64_mul.simps f64_round_as_i64.simps split: option.splits f64.splits if_splits)
  have b: "of_int (10 ^ 7) \<le> q * 1000000000" "q * 1000000000 \<le> of_int (4096 * 10 ^ 9)" using q(1,2) by simp_all
  then have "0 < q * 1000000000" "q * 1000000000 < 2 ^ 53" by simp_all
  from round_abs_between [OF this] b obtain w where
    w: "round_abs (q * 1000000000) = Some w" "of_int (10 ^ 7) \<le> w" "w \<le> of_int (4096 * 10 ^ 9)" by blast
  have "0 \<le> w" using w(2) by simp
  note r = round_away_between [OF this]
  have "10 ^ 7 \<le> round_away w" "round_away w \<le> 4096 * 10 ^ 9" using r(1) [OF w(2)] r(2) [OF w(3)] .
  moreover have "f64_mul (Fin q) (Fin 1000000000) = Fin w"
    using w(1) q(1) by (simp add: f64_round_def)
  ultimately show ?thesis using q(3) by simp
qed

lemma limit_entry_ok:
  assumes "limits_ok l" "limit_entry item l = Inr l'"
  shows "limits_ok l'"
  using assms
  by (auto simp: limit_entry_def Let_def map_ok_Inr limits_ok_def max_services_def
      dest!: limit_count_ok memory_limit_ok cpus_limit_ok split: option.splits if_splits)

lemma limit_entries_ok: "limits_ok l \<Longrightarrow> limit_entries l es = Inr l' \<Longrightarrow> limits_ok l'"
proof (induction es arbitrary: l)
  case (Cons e es)
  then show ?case by (cases "limit_entry e l") (auto dest: limit_entry_ok)
qed simp

lemma default_limits_ok: "limits_ok default_limits"
  by (simp add: limits_ok_def default_limits_def max_services_def)

lemma parsed_limits_ok: "limits_parse raw = Inr l \<Longrightarrow> limits_ok l"
  unfolding limits_parse_def using default_limits_ok limit_entries_ok by blast

text \<open>C35. Whatever an operator writes for the limits of work that is not trusted, what is read either is
  refused or limits everything: memory from 6 MiB, at least one process, from a hundredth of a CPU
  to 4096, a timeout from a second to a week, one to a hundred attempts, one to 100000 tasks, and
  eight services at most; nothing written is the default, itself within these bounds. The
  hundredth of a CPU is a double times a billion, rounded twice, and still no less than 10000000
  billionths.\<close>

theorem limits_are_never_off:
  "(case limits_parse raw of Inl e \<Rightarrow> True | Inr l \<Rightarrow> limits_ok l)
   \<and> (comma_list raw = [] \<longrightarrow> limits_parse raw = Inr default_limits)"
  using parsed_limits_ok [of raw] by (auto simp: limits_parse_def split: sum.split)

theorem limits_are_never_off_witness:
  "limits_parse '' , ,'' = Inr default_limits
   \<and> limits_parse ''memory=512m, pids=64 ,services=0'' =
       Inr (default_limits\<lparr>li_memory_bytes := 536870912, li_pids := 64, li_max_services := 0\<rparr>)"
proof
  have "comma_list '' , ,'' = []" by code_simp
  then show "limits_parse '' , ,'' = Inr default_limits" using limits_are_never_off [of "'' , ,''"] by simp
  show "limits_parse ''memory=512m, pids=64 ,services=0'' =
       Inr (default_limits\<lparr>li_memory_bytes := 536870912, li_pids := 64, li_max_services := 0\<rparr>)" by code_simp
qed

subsection \<open>A task that is dispatched\<close>

text \<open>A task that runs its own containers, and has the engine do nothing else on its word.\<close>

definition own_containers_only :: "string \<Rightarrow> task_spec \<Rightarrow> bool" where
  "own_containers_only c t =
     (ts_task_type t \<in> {None, Some ''task''}
      \<and> ts_service_account t = None \<and> (ts_identity t = None \<or> c = agent_class)
      \<and> \<not> ts_docker_daemon t \<and> \<not> ts_privileged t \<and> ts_defer t = None \<and> ts_wait t = None \<and> ts_workflow t = None
      \<and> ts_produces t = [] \<and> ts_repeat t = None \<and> ts_with_output_of t = None \<and> ts_gang t = None \<and> ts_gang_member t = None
      \<and> ts_approval_timeout_secs t = None \<and> ts_approval_on_timeout t = None \<and> ts_approval_message t = None
      \<and> ts_approval_show t = [] \<and> ts_binds t = [] \<and> ts_approvers t = [] \<and> \<not> ts_not_triggerer t)"

lemma confined_task_refusal_None: "confined_task_refusal t c = None \<longleftrightarrow> own_containers_only c t"
  by (cases "ts_task_type t") (auto simp: confined_task_refusal_def own_containers_only_def guard_simps)

text \<open>It takes nothing of what every class would share.\<close>

definition takes_nothing_shared :: "task_spec \<Rightarrow> bool" where
  "takes_nothing_shared t =
     (ts_cache t = None \<and> ts_pool t = Some confined_pool \<and> ts_priority t \<le> 0 \<and> ts_retry_budgets t = [])"

lemma withhold_shares_nothing: "takes_nothing_shared (withhold t)"
  by (simp add: takes_nothing_shared_def withhold_def)

definition spends_within :: "limits \<Rightarrow> task_spec \<Rightarrow> bool" where
  "spends_within l t =
     (1 \<le> ts_max_attempts t \<and> ts_max_attempts t \<le> li_max_attempts l \<and> length (ts_services t) \<le> li_max_services l
      \<and> (case ts_timeout_secs t of None \<Rightarrow> False | Some s \<Rightarrow> s \<le> li_timeout_secs l))"

definition names_images_of :: "string list \<Rightarrow> task_spec \<Rightarrow> bool" where
  "names_images_of allowed t =
     (allowed = []
      \<or> ((case ts_docker_image t of None \<Rightarrow> True | Some i \<Rightarrow> any_matches allowed i)
         \<and> list_all (\<lambda>s. any_matches allowed (sv_image s)) (ts_services t)))"

lemma image_refusal_None: "image_refusal allowed t = None \<longleftrightarrow> names_images_of allowed t"
  by (auto simp: image_refusal_def names_images_of_def guard_simps list_all_iff split: option.split)

lemma confined_task_held:
  assumes "confined c" "confine_task cn c tasks t = Inr (t', co)"
  obtains h where "cn = Some h" "co \<noteq> None" "own_containers_only c t'" "takes_nothing_shared t'"
    "names_images_of (cn_images h) t'" "tasks \<le> li_max_tasks (cn_limits h)"
    "limits_ok (cn_limits h) \<Longrightarrow> spends_within (cn_limits h) t'"
proof -
  from assms obtain h where h: "cn = Some h" "dispatch_refusal cn c tasks t = None" "co \<noteq> None"
      "t' = spend (cn_limits h) (withhold t)"
    by (auto simp: confine_task_def dispatch_refusal_def split: option.splits)
  from h(1,2) have n: "confined_task_refusal t c = None" "image_refusal (cn_images h) t = None"
      "\<not> too_many_services (cn_limits h) t" "\<not> too_many (cn_limits h) tasks"
    by (simp_all add: dispatch_refusal_def guard_simps)
  have "own_containers_only c t'"
    using n(1) unfolding confined_task_refusal_None by (simp add: own_containers_only_def h(4) spend_def withhold_def)
  moreover have "takes_nothing_shared t'"
    using withhold_shares_nothing [of t] by (simp add: takes_nothing_shared_def h(4) spend_def)
  moreover have "names_images_of (cn_images h) t'"
    using n(2) unfolding image_refusal_None by (simp add: names_images_of_def h(4) spend_def withhold_def)
  moreover have "spends_within (cn_limits h) t'" if "limits_ok (cn_limits h)"
    using n(3) that
    by (auto simp: spends_within_def limits_ok_def too_many_services_def h(4) spend_def withhold_def split: option.split)
  ultimately show ?thesis using that h(1,3) n(4) by (simp add: too_many_def)
qed

lemma confining_held:
  assumes "confining_of kind enforcer own net floor_raw limits_raw images_raw = Inr (Some h)"
  obtains raw fl where "floor_raw = Some raw" "parse_floor raw = Inr fl" "cn_floor h = fl\<lparr>iso_service_account_token := Some False\<rparr>"
    "limits_ok (cn_limits h)" "kind \<noteq> Local" "kind = Docker \<Longrightarrow> net"
    "kind = Kubernetes \<Longrightarrow> iso_network (cn_floor h) = Some NetNone \<or> (\<exists>a. iso_network (cn_floor h) = Some (NetAllow a))"
proof -
  from assms obtain raw fl where
    r: "floor_raw = Some raw" "parse_floor raw = Inr fl" "limits_parse limits_raw = Inr (cn_limits h)"
      "cn_floor h = fl\<lparr>iso_service_account_token := Some False\<rparr>"
      "confined_engine_refusal kind (fl\<lparr>iso_service_account_token := Some False\<rparr>) net = None"
    unfolding confining_of_def Let_def
    by (auto simp: guard_simps split: option.splits sum.splits if_splits)
  show ?thesis
    by (rule that [OF r(1,2,4) parsed_limits_ok [OF r(3)]])
      (use r(4,5) in \<open>auto simp: confined_engine_refusal_def split: executor_kind.splits option.splits network.splits if_splits\<close>)
qed

lemma floor_is_held: "holds_floor (fst (apply_floor req fl)) fl"
  unfolding apply_floor_fst by (rule floored_holds)

lemma dispatched_under_floor:
  assumes "iso_service_account_token fl = Some False"
  shows "\<exists>iso. dispatch_isolation declared own (Some fl) = Some iso \<and> holds_floor iso fl"
proof -
  define e where "e = (case own of Some f \<Rightarrow> fst (apply_floor (case declared of Some i \<Rightarrow> i | None \<Rightarrow> iso_default) f)
      | None \<Rightarrow> case declared of Some i \<Rightarrow> i | None \<Rightarrow> iso_default)"
  have h: "holds_floor (fst (apply_floor e fl)) fl" by (rule floor_is_held)
  then have "iso_service_account_token (fst (apply_floor e fl)) = Some False" using assms by (simp add: holds_floor_def)
  then have "fst (apply_floor e fl) \<noteq> iso_default" by (auto simp: iso_default_def)
  then have "dispatch_isolation declared own (Some fl) = Some (fst (apply_floor e fl))"
    by (simp add: dispatch_isolation_def e_def Let_def)
  with h show ?thesis by blast
qed

text \<open>C8. On an engine that is told to run work that is not trusted, every task of it that is dispatched
  is held: it runs only its own containers, in images the operator listed, takes no cache, no named
  pool, no place ahead in the queue and no attempts of its own choosing, has a timeout, attempts,
  services and a run within limits that are never off, and runs under an envelope that holds every
  demand of the operator's floor for such work, with no token of the installation's; on an engine
  that is not told to, none is dispatched; and no engine that runs tasks as its own processes is
  ever told to.\<close>

theorem confined_task_is_held:
  assumes "confining_of kind enforcer own net floor_raw limits_raw images_raw = Inr cn" "confined c"
    "confine_task cn c tasks t = Inr (t', co)"
  shows "\<exists>h raw fl iso. cn = Some h \<and> floor_raw = Some raw \<and> parse_floor raw = Inr fl
     \<and> own_containers_only c t' \<and> takes_nothing_shared t' \<and> names_images_of (cn_images h) t'
     \<and> limits_ok (cn_limits h) \<and> spends_within (cn_limits h) t' \<and> tasks \<le> li_max_tasks (cn_limits h)
     \<and> dispatch_isolation (ts_isolation t') own (class_floor_of co cn) = Some iso
     \<and> holds_floor iso fl \<and> iso_service_account_token iso = Some False
     \<and> kind \<noteq> Local \<and> (kind = Docker \<longrightarrow> net)
     \<and> (kind = Kubernetes \<longrightarrow> iso_network iso = Some NetNone \<or> (\<exists>a. iso_network iso = Some (NetAllow a)))"
proof -
  from confined_task_held [OF assms(2,3)] obtain h where
    h: "cn = Some h" "co \<noteq> None" "own_containers_only c t'" "takes_nothing_shared t'"
      "names_images_of (cn_images h) t'" "tasks \<le> li_max_tasks (cn_limits h)"
      "limits_ok (cn_limits h) \<Longrightarrow> spends_within (cn_limits h) t'" by blast
  from confining_held [OF assms(1) [unfolded h(1)]] obtain raw fl where
    f: "floor_raw = Some raw" "parse_floor raw = Inr fl" "cn_floor h = fl\<lparr>iso_service_account_token := Some False\<rparr>"
      "limits_ok (cn_limits h)" "kind \<noteq> Local" "kind = Docker \<Longrightarrow> net"
      "kind = Kubernetes \<Longrightarrow> iso_network (cn_floor h) = Some NetNone \<or> (\<exists>a. iso_network (cn_floor h) = Some (NetAllow a))"
    by metis
  have "class_floor_of co cn = Some (cn_floor h)" using h(1,2) by (simp add: class_floor_of_def)
  with dispatched_under_floor [of "cn_floor h" "ts_isolation t'" own] f(3) obtain iso where
    i: "dispatch_isolation (ts_isolation t') own (class_floor_of co cn) = Some iso" "holds_floor iso (cn_floor h)" by auto
  then have "holds_floor iso fl" "iso_service_account_token iso = Some False"
    unfolding f(3) by (simp_all add: holds_floor_def)
  moreover have "iso_network iso = Some NetNone \<or> (\<exists>a. iso_network iso = Some (NetAllow a))" if "kind = Kubernetes"
    using f(7) [OF that] i(2) by (auto simp: holds_floor_def)
  ultimately show ?thesis using h f i(1) by blast
qed

definition docker_start :: "start_error + confining option" where
  "docker_start = confining_of Docker (Some (from_kind Docker)) None True (Some ''network=none'') ''attempts=2'' ''docker.io/library/*''"

definition agents_task :: task_spec where
  "agents_task = (plain_task ''build'' [])\<lparr>ts_docker_image := Some ''docker.io/library/alpine'', ts_max_attempts := 9, ts_priority := 5\<rparr>"

lemma agents_task_dispatched:
  "case docker_start of Inl e \<Rightarrow> False | Inr cn \<Rightarrow> (case confine_task cn agent_class 3 agents_task of Inl e \<Rightarrow> False | Inr r \<Rightarrow> True)"
  by code_simp

theorem confined_task_is_held_witness:
  "\<exists>cn t' co h iso. docker_start = Inr cn \<and> confine_task cn agent_class 3 agents_task = Inr (t', co) \<and> cn = Some h
     \<and> spends_within (cn_limits h) t' \<and> takes_nothing_shared t'
     \<and> dispatch_isolation (ts_isolation t') None (class_floor_of co cn) = Some iso \<and> iso_service_account_token iso = Some False"
proof -
  from agents_task_dispatched obtain cn t' co where d: "docker_start = Inr cn" "confine_task cn agent_class 3 agents_task = Inr (t', co)"
    by (auto split: sum.splits)
  have "confined agent_class" by (simp add: confined_def agent_class_def trusted_class_def)
  from confined_task_is_held [OF d(1) [unfolded docker_start_def] this d(2)] d show ?thesis by blast
qed

end
