(* ===== verification/Protected_Props.thy ===== *)
theory Protected_Props
  imports Protected_Env Confine_Props
begin

text \<open>
  Protected environments: each task of a run that is not trusted waits on a gate of the policy's
  approvers; what the gates change of a workflow and what they leave.
\<close>

subsection \<open>What the gates change\<close>

text \<open>The gates, each with the place of the task it is before.\<close>

fun gate_plan :: "string \<Rightarrow> string option \<Rightarrow> task_spec list \<Rightarrow> string list \<Rightarrow> asked list \<Rightarrow> (nat \<times> task_spec) list" where
  "gate_plan c actor tasks names [] = []"
| "gate_plan c actor tasks names ((i, env, approvers) # as) =
     (let name = gate_name names (ts_name (tasks ! i))
      in (i, gate_for c actor env approvers name (tasks ! i)) # gate_plan c actor tasks (name # names) as)"

text \<open>A task behind its gate.\<close>

definition behind :: "(nat \<times> task_spec) list \<Rightarrow> nat \<Rightarrow> task_spec \<Rightarrow> task_spec" where
  "behind plan i t =
     (case map_of plan i of None \<Rightarrow> t | Some g \<Rightarrow> t\<lparr>ts_depends_on := ts_depends_on t @ [ts_name g]\<rparr>)"

lemma behind_sel [simp]: "ts_name (behind plan i t) = ts_name t" "ts_hook (behind plan i t) = ts_hook t"
  by (simp_all add: behind_def split: option.split)

lemma gate_plan_places: "map fst (gate_plan c actor tasks names as) = map fst as"
  by (induction as arbitrary: names) (auto simp: Let_def)

lemma gate_plan_update:
  "i \<notin> set (map fst as) \<Longrightarrow> gate_plan c actor (tasks[i := t]) names as = gate_plan c actor tasks names as"
  by (induction as arbitrary: names) (auto simp: Let_def)

lemma put_gates_plan:
  assumes "distinct (map fst as)" "\<forall>i \<in> set (map fst as). i < length tasks"
  shows "put_gates c actor as tasks names gates =
     (map (\<lambda>i. behind (gate_plan c actor tasks names as) i (tasks ! i)) [0 ..< length tasks],
      gates @ map snd (gate_plan c actor tasks names as))"
  using assms
proof (induction as arbitrary: tasks names gates)
  case Nil
  then show ?case by (simp add: behind_def map_nth)
next
  case (Cons a as)
  obtain i env ap where a: "a = (i, env, ap)" by (cases a)
  let ?t = "tasks ! i" and ?name = "gate_name names (ts_name (tasks ! i))"
  let ?tasks = "tasks[i := ?t\<lparr>ts_depends_on := ts_depends_on ?t @ [?name]\<rparr>]"
  let ?plan = "gate_plan c actor tasks (?name # names) as"
  have new: "i \<notin> set (map fst as)" "distinct (map fst as)" "\<forall>j \<in> set (map fst as). j < length ?tasks"
    using Cons.prems by (auto simp: a)
  have none: "map_of ?plan i = None"
    unfolding map_of_eq_None_iff set_map [symmetric] gate_plan_places using new(1) .
  have "behind ?plan j (?tasks ! j) = behind (gate_plan c actor tasks names (a # as)) j (tasks ! j)" if "j < length tasks" for j
    using that none by (cases "j = i") (simp_all add: behind_def a Let_def gate_for_def)
  then show ?case
    using Cons.IH [OF new(2,3)] by (simp add: a Let_def gate_plan_update [OF new(1)])
qed

text \<open>What was asked, and for which tasks.\<close>

definition run_environment :: "dag_spec \<Rightarrow> task_spec \<Rightarrow> string option" where
  "run_environment spec t = (case ts_environment t of Some e \<Rightarrow> Some e | None \<Rightarrow> ds_environment spec)"

definition asks :: "policies \<Rightarrow> string \<Rightarrow> dag_spec \<Rightarrow> task_spec \<Rightarrow> (string \<times> string list) option" where
  "asks policies c spec t =
     (if is_approval t then None
      else case run_environment spec t of
             None \<Rightarrow> None
           | Some env \<Rightarrow>
               (case policies env of
                  Inl _ \<Rightarrow> None
                | Inr p \<Rightarrow> if approvers_for p c = [] then None else Some (env, approvers_for p c)))"

lemma asked_from_tasks:
  assumes "asked_from policies c (ds_environment spec) k ts = Inr as"
  shows "as = concat (map (\<lambda>(i, t). case asks policies c spec t of None \<Rightarrow> [] | Some (env, ap) \<Rightarrow> [(i, env, ap)]) (enumerate k ts))"
  using assms
proof (induction ts arbitrary: k as)
  case (Cons t ts)
  then show ?case
    by (auto simp: asks_def run_environment_def map_ok_Inr split: option.splits sum.splits if_splits)
qed simp

lemma asked_places:
  assumes "asked_from policies c (ds_environment spec) 0 ts = Inr as"
  shows "distinct (map fst as)" "set (map fst as) \<subseteq> {0 ..< length ts}"
    "i < length ts \<Longrightarrow> asks policies c spec (ts ! i) = Some (env, ap) \<Longrightarrow> (i, env, ap) \<in> set as"
    "(i, env, ap) \<in> set as \<Longrightarrow> i < length ts \<and> asks policies c spec (ts ! i) = Some (env, ap)"
proof -
  let ?f = "\<lambda>(i, t). case asks policies c spec t of None \<Rightarrow> [] | Some (env, ap) \<Rightarrow> [(i, env, ap)]"
  have as: "as = concat (map ?f (enumerate 0 ts))" by (rule asked_from_tasks [OF assms])
  have d: "map fst (concat (map ?f xs)) = map fst (filter (\<lambda>(i, t). asks policies c spec t \<noteq> None) xs)" for xs
    by (induction xs) (auto split: option.split)
  show "distinct (map fst as)" unfolding as d by (rule distinct_map_filter) (simp add: distinct_enumerate)
  show m: "(i, env, ap) \<in> set as \<Longrightarrow> i < length ts \<and> asks policies c spec (ts ! i) = Some (env, ap)" for i env ap
    unfolding as by (auto simp: in_set_enumerate_eq split: option.splits)
  then show "set (map fst as) \<subseteq> {0 ..< length ts}" by fastforce
  show "i < length ts \<Longrightarrow> asks policies c spec (ts ! i) = Some (env, ap) \<Longrightarrow> (i, env, ap) \<in> set as"
    unfolding as by (force simp: in_set_enumerate_eq)
qed

lemma fresh_from_new: "fresh_from names base n \<notin> set names"
  by (induction names base n rule: fresh_from.induct) (subst fresh_from.simps, simp add: Let_def)

lemma gate_name_new: "gate_name names task \<notin> set names"
  by (simp add: gate_name_def Let_def fresh_from_new)

lemma gate_plan_gates:
  "(i, g) \<in> set (gate_plan c actor tasks names as) \<Longrightarrow>
     ts_name g \<notin> set names \<and> (\<exists>env ap. (i, env, ap) \<in> set as \<and> g = gate_for c actor env ap (ts_name g) (tasks ! i))"
proof (induction as arbitrary: names)
  case (Cons a as)
  obtain j env ap where a: "a = (j, env, ap)" by (cases a)
  let ?name = "gate_name names (ts_name (tasks ! j))"
  from Cons.prems consider "i = j" "g = gate_for c actor env ap ?name (tasks ! j)"
    | "(i, g) \<in> set (gate_plan c actor tasks (?name # names) as)" by (auto simp: a Let_def)
  then show ?case
  proof cases
    case 1
    then show ?thesis using gate_name_new [of names "ts_name (tasks ! j)"] by (auto simp: a gate_for_def)
  next
    case 2
    from Cons.IH [OF this] show ?thesis by auto
  qed
qed simp

lemma gate_plan_names: "distinct (map (ts_name \<circ> snd) (gate_plan c actor tasks names as))"
proof (induction as arbitrary: names)
  case (Cons a as)
  obtain j env ap where a: "a = (j, env, ap)" by (cases a)
  let ?name = "gate_name names (ts_name (tasks ! j))"
  have "?name \<noteq> ts_name (snd p)" if "p \<in> set (gate_plan c actor tasks (?name # names) as)" for p
    using that gate_plan_gates [of "fst p" "snd p" c actor tasks "?name # names" as] by auto
  with Cons.IH [of "?name # names"] show ?case by (auto simp: a Let_def gate_for_def)
qed simp

lemma gate_plan_at:
  assumes "distinct (map fst as)" "(i, env, ap) \<in> set as"
  shows "\<exists>g. map_of (gate_plan c actor tasks names as) i = Some g \<and> g = gate_for c actor env ap (ts_name g) (tasks ! i)"
proof -
  have "i \<in> set (map fst (gate_plan c actor tasks names as))" unfolding gate_plan_places using assms(2) by force
  then obtain g where g: "map_of (gate_plan c actor tasks names as) i = Some g" by (auto simp: map_of_eq_None_iff dest: weak_map_of_SomeI)
  from gate_plan_gates [OF map_of_SomeD [OF g]] obtain env' ap' where
    e: "(i, env', ap') \<in> set as" "g = gate_for c actor env' ap' (ts_name g) (tasks ! i)" by blast
  have "(env', ap') = (env, ap)" using assms e(1) by (meson eq_key_imp_eq_value)
  with g e(2) show ?thesis by auto
qed

lemma gate_plan_none:
  assumes "i \<notin> set (map fst as)"
  shows "map_of (gate_plan c actor tasks names as) i = None"
  unfolding map_of_eq_None_iff set_map [symmetric] gate_plan_places using assms .

text \<open>A task \<open>t\<close> made into \<open>t'\<close> behind the gate \<open>g\<close> of \<open>approvers\<close>.\<close>

definition waits_on :: "task_spec \<Rightarrow> string list \<Rightarrow> task_spec \<Rightarrow> task_spec \<Rightarrow> bool" where
  "waits_on t approvers t' g =
     (is_approval g \<and> ts_approvers g = approvers \<and> ts_approval_on_timeout g = Some ''reject''
      \<and> ts_approval_timeout_secs g = Some gate_timeout_secs \<and> \<not> ts_allow_failure g \<and> ts_command g = [] \<and> ts_env g = []
      \<and> set (ts_depends_on g) = set (ts_depends_on t) \<and> ts_when g = ts_when t \<and> ts_trigger_rule g = ts_trigger_rule t
      \<and> set (ts_depends_on t') = insert (ts_name g) (set (ts_depends_on t))
      \<and> t' = t\<lparr>ts_depends_on := ts_depends_on t'\<rparr>)"

definition dedup_task :: "task_spec \<Rightarrow> task_spec" where
  "dedup_task t = t\<lparr>ts_depends_on := rev (remdups (rev (ts_depends_on t)))\<rparr>"

lemma dedup_tasks: "ds_tasks (dedup_depends_on spec) = map dedup_task (ds_tasks spec)"
  by (simp add: dedup_depends_on_def dedup_task_def)

lemma gated_tasks:
  assumes "gated env policies g trigger = Inr (Some h)"
  obtains as h0 where
    "asked_from policies (class_of trigger) (ds_environment (dg_spec g)) 0 (ds_tasks (dg_spec g)) = Inr as"
    "from_spec env (gated_spec (dg_spec g) as (class_of trigger) (Option.bind trigger rt_actor)) = Inr h0"
    "h = h0\<lparr>dg_parameters := dg_parameters g\<rparr>" "confined (class_of trigger)"
proof -
  note d = assms [unfolded gated_def Let_def]
  then have c: "confined (class_of trigger)" by (auto split: if_splits)
  obtain as where as: "asked_from policies (class_of trigger) (ds_environment (dg_spec g)) 0 (ds_tasks (dg_spec g)) = Inr as"
    using d c by (auto split: sum.splits)
  with d c have "with_gates env g as (class_of trigger) (Option.bind trigger rt_actor) = Inr h"
    by (simp split: sum.splits if_splits)
  then obtain h0 where "from_spec env (gated_spec (dg_spec g) as (class_of trigger) (Option.bind trigger rt_actor)) = Inr h0"
    "h = h0\<lparr>dg_parameters := dg_parameters g\<rparr>" by (auto simp: with_gates_def map_ok_Inr)
  with as c that show ?thesis by blast
qed

lemma gated_spec_tasks:
  fixes actor :: "string option"
  assumes "asked_from policies c (ds_environment spec) 0 (ds_tasks spec) = Inr as"
  defines "plan \<equiv> gate_plan c actor (ds_tasks spec) (task_names spec) as"
  shows "ds_tasks (gated_spec spec as c actor) =
     map (\<lambda>i. behind plan i (ds_tasks spec ! i)) [0 ..< length (ds_tasks spec)] @ map snd plan"
proof -
  have "\<forall>i \<in> set (map fst as). i < length (ds_tasks spec)" using asked_places(2) [OF assms(1)] by auto
  from put_gates_plan [OF asked_places(1) [OF assms(1)] this, of c actor "map ts_name (ds_tasks spec)" "[]"]
  show ?thesis by (simp add: gated_spec_def plan_def task_names_def)
qed

lemma behind_waits:
  assumes "map_of plan i = Some g" "g = gate_for c actor env ap (ts_name g) t"
  shows "waits_on (dedup_task t) ap (dedup_task (behind plan i t)) (dedup_task g)"
proof -
  have "ts_depends_on g = ts_depends_on t" "is_approval g" "ts_approvers g = ap" "ts_approval_on_timeout g = Some ''reject''"
    "ts_approval_timeout_secs g = Some gate_timeout_secs" "\<not> ts_allow_failure g" "ts_command g = []" "ts_env g = []"
    "ts_when g = ts_when t" "ts_trigger_rule g = ts_trigger_rule t"
    by (subst assms(2), simp add: gate_for_def is_approval_def)+
  then show ?thesis using assms(1) by (auto simp: waits_on_def behind_def dedup_task_def is_approval_def)
qed


subsubsection \<open>An example\<close>

definition prod_policies :: policies where
  "prod_policies n =
     Inr (if n = ''prod'' then
            Some \<lparr>ep_allowed_trust = [trusted_class, agent_class], ep_allowed_refs = None, ep_allowed_pipelines = None,
                  ep_allowed_identity = [], ep_approvers = [''group:release'']\<rparr>
          else None)"

definition fixer_trigger :: run_trigger where
  "fixer_trigger = trigger_default\<lparr>rt_kind := kind_ci, rt_principal := ''ci:dispatch'', rt_actor := Some ''agent:fixer'',
     rt_trust := Some agent_class\<rparr>"

definition deploy_with :: "string option \<Rightarrow> task_spec" where
  "deploy_with rule = (plain_task ''deploy'' [])\<lparr>ts_environment := Some ''prod'', ts_trigger_rule := rule\<rparr>"

definition one_deploy :: dag_spec where
  "one_deploy = plain_dag [deploy_with None]"

lemma one_deploy_gated:
  "case from_spec plain_env one_deploy of
     Inl e \<Rightarrow> False
   | Inr g \<Rightarrow> (case gated plain_env prod_policies g (Some fixer_trigger) of
        Inl e \<Rightarrow> False
      | Inr r \<Rightarrow> (case r of None \<Rightarrow> False
          | Some h \<Rightarrow> map ts_depends_on (ds_tasks (dg_spec h)) = [[''deploy.environment''], []]
              \<and> length (ds_tasks (dg_spec g)) = 1
              \<and> asks prod_policies (class_of (Some fixer_trigger)) (dg_spec g) (ds_tasks (dg_spec g) ! 0) = Some (''prod'', [''group:release''])))"
  by code_simp


end
