(* ===== verification/Protected_Gaps.thy ===== *)
theory Protected_Gaps
  imports Protected_Props Create_Props Complete_Props
begin

text \<open>
  Where the gate of a protected environment does not do what it is for: a task that runs however
  its dependencies end is not held by a refusal, and the gates themselves may have a run refused.
\<close>

subsection \<open>Where a gate does not hold\<close>

text \<open>A run of one task in a protected environment: the gate asks, nobody answers for a day, and the
  scheduler goes on.\<close>

definition after_rejection :: "string option \<Rightarrow> (string \<times> task_status) list" where
  "after_rejection rule =
     (case from_spec plain_env (plain_dag [deploy_with rule]) of
        Inl e \<Rightarrow> []
      | Inr g \<Rightarrow>
          (case make_run plain_env prod_policies example_ce g (Some fixer_trigger) 0 0 0 100 empty_db of
             Inl e \<Rightarrow> []
           | Inr (db, run) \<Rightarrow>
               (let db1 = fst (advance_ready_tasks (\<lambda>_. None) (\<lambda>_ _. 0) db);
                    late = 86401 * nanos;
                    db2 = fst (resolve_expired_approvals example_services late (\<lambda>_. late) db1);
                    db3 = fst (advance_ready_tasks (\<lambda>_. None) (\<lambda>_ _. late) db2)
                in map (\<lambda>r. (tr_name r, tr_status r)) (task_runs db3))))"


definition make_of :: "policies \<Rightarrow> dag_spec \<Rightarrow> trust_error option" where
  "make_of policies spec =
     (case from_spec plain_env spec of
        Inl e \<Rightarrow> Some (Gated_graph e)
      | Inr g \<Rightarrow> left_err (make_run plain_env policies example_ce g (Some fixer_trigger) 0 0 0 100 empty_db))"

text \<open>A workflow that is accepted, and made where its environment asks nobody, is refused once the
  engine's own gate is put into it: where it sets no cap on its active runs (\<open>max_active_runs: 0\<close>,
  which the hold on the run has given a key), where the prefix of the hold makes its key too
  long, and where its budget counts its own tasks.\<close>

theorem gate_refuses_the_run:
  "map (make_of (\<lambda>_. Inr None))
     [one_deploy\<lparr>ds_max_active_runs := Some 0\<rparr>,
      one_deploy\<lparr>ds_max_active_runs := Some 1, ds_concurrency_key := Some (replicate 195 CHR ''k'')\<rparr>,
      one_deploy\<lparr>ds_budget := Some \<lparr>rb_tasks = Some 1, rb_external_cost = None, rb_external_cost_attribution = False, rb_tokens = None\<rparr>\<rparr>]
     = [None, None, None]
   \<and> map (make_of prod_policies)
     [one_deploy\<lparr>ds_max_active_runs := Some 0\<rparr>,
      one_deploy\<lparr>ds_max_active_runs := Some 1, ds_concurrency_key := Some (replicate 195 CHR ''k'')\<rparr>,
      one_deploy\<lparr>ds_budget := Some \<lparr>rb_tasks = Some 1, rb_external_cost = None, rb_external_cost_attribution = False, rb_tokens = None\<rparr>\<rparr>]
     = [Some (Gated_graph (Run_error Key_no_cap)), Some (Gated_graph (Run_error Key_long)),
        Some (Gated_graph (Budget_error (Task_budget_exceeded 1 2)))]"
  by code_simp

end
