(* ===== verification/Crypto_Envelope.thy ===== *)
theory Crypto_Envelope
  imports Isolation "HOL-Library.Word"
begin

text \<open>
  The encryption of stored secrets and artifacts (crates/dagron-crypto/src/lib.rs): the sealed blob,
  the two text forms, the binary envelope, the chunked stream, and the rotation of the key that
  wraps a data key. AES-256-GCM, base64, UTF-8 and SHA-256 are parameters; what the code draws at
  random (a nonce, a data key) is an argument. Paths below are of that file.
\<close>

type_synonym byte = "8 word"

subsection \<open>What comes from elsewhere\<close>

text \<open>\<open>Aes256Gcm\<close>: key, nonce, associated data, message.\<close>

record aead =
  ae_encrypt :: "byte list \<Rightarrow> byte list \<Rightarrow> byte list \<Rightarrow> byte list \<Rightarrow> byte list option"
  ae_decrypt :: "byte list \<Rightarrow> byte list \<Rightarrow> byte list \<Rightarrow> byte list \<Rightarrow> byte list option"

record codec =
  cd_b64 :: "byte list \<Rightarrow> string"
  cd_unb64 :: "string \<Rightarrow> byte list option"
  cd_utf8 :: "string \<Rightarrow> byte list"
  cd_from_utf8 :: "byte list \<Rightarrow> string option"

text \<open>A \<open>KeyProvider\<close>; the first argument of \<open>kp_wrap\<close> is what a call of it draws at random.\<close>

record key_provider =
  kp_id :: string
  kp_wrap :: "byte list \<Rightarrow> byte list \<Rightarrow> byte list option"
  kp_unwrap :: "byte list \<Rightarrow> byte list option"

datatype crypto_error =
    Not_set
  | Encryption_failed
  | Truncated_blob
  | Decryption_failed
  | Unknown_secret_version
  | Bad_base64
  | Not_utf8
  | Id_has_colon string
  | Not_an_envelope
  | Missing_part string
  | Other_provider string string
  | Wrap_failed
  | Unwrap_failed
  | Id_too_long nat
  | Bad_tag nat
  | Truncated_frame nat nat
  | After_final

definition or_err :: "'e \<Rightarrow> 'a option \<Rightarrow> 'e + 'a" where
  "or_err e v = (case v of None \<Rightarrow> Inl e | Some x \<Rightarrow> Inr x)"

subsection \<open>The key\<close>

definition key_from_material :: "codec \<Rightarrow> (byte list \<Rightarrow> byte list) \<Rightarrow> string \<Rightarrow> byte list" where
  "key_from_material cd sha256 raw =
     (case cd_unb64 cd raw of
        Some bytes \<Rightarrow> if length bytes = 32 then bytes else sha256 (cd_utf8 cd raw)
      | None \<Rightarrow> sha256 (cd_utf8 cd raw))"

text \<open>\<open>value\<close> is the variable of the environment.\<close>

definition key_from_env :: "codec \<Rightarrow> (byte list \<Rightarrow> byte list) \<Rightarrow> string option \<Rightarrow> crypto_error + byte list" where
  "key_from_env cd sha256 var =
     (case map_option trim var of
        Some (c # cs) \<Rightarrow> Inr (key_from_material cd sha256 (c # cs))
      | _ \<Rightarrow> Inl Not_set)"

subsection \<open>A sealed blob\<close>

definition nonce_len :: nat where "nonce_len = 12"

definition seal :: "aead \<Rightarrow> byte list \<Rightarrow> byte list \<Rightarrow> byte list \<Rightarrow> crypto_error + byte list" where
  "seal ae key nonce plaintext = map_ok (\<lambda>ct. nonce @ ct) (or_err Encryption_failed (ae_encrypt ae key nonce [] plaintext))"

definition open_blob :: "aead \<Rightarrow> byte list \<Rightarrow> byte list \<Rightarrow> crypto_error + byte list" where
  "open_blob ae key blob =
     (if length blob \<le> nonce_len then Inl Truncated_blob
      else or_err Decryption_failed (ae_decrypt ae key (take nonce_len blob) [] (drop nonce_len blob)))"

text \<open>\<open>map_err\<close>\<close>

definition with_err :: "'e \<Rightarrow> 'e + 'a \<Rightarrow> 'e + 'a" where
  "with_err e r = (case r of Inl _ \<Rightarrow> Inl e | Inr x \<Rightarrow> Inr x)"

definition encrypt_v1 :: "aead \<Rightarrow> codec \<Rightarrow> byte list \<Rightarrow> byte list \<Rightarrow> string \<Rightarrow> crypto_error + string" where
  "encrypt_v1 ae cd key nonce plaintext =
     map_ok (\<lambda>blob. ''v1:'' @ cd_b64 cd blob) (seal ae key nonce (cd_utf8 cd plaintext))"

definition decrypt_v1 :: "aead \<Rightarrow> codec \<Rightarrow> byte list \<Rightarrow> string \<Rightarrow> crypto_error + string" where
  "decrypt_v1 ae cd key stored =
     and_then (or_err Unknown_secret_version (strip_prefix ''v1:'' stored)) (\<lambda>encoded.
     and_then (or_err Bad_base64 (cd_unb64 cd encoded)) (\<lambda>blob.
     and_then (with_err Decryption_failed (open_blob ae key blob)) (\<lambda>pt.
     or_err Not_utf8 (cd_from_utf8 cd pt))))"

subsection \<open>The text envelope\<close>

definition wrap_key :: "key_provider \<Rightarrow> byte list \<Rightarrow> byte list \<Rightarrow> crypto_error + byte list" where
  "wrap_key kp rnd dek = or_err Wrap_failed (kp_wrap kp rnd dek)"

definition unwrap_key :: "key_provider \<Rightarrow> byte list \<Rightarrow> crypto_error + byte list" where
  "unwrap_key kp wrapped = or_err Unwrap_failed (kp_unwrap kp wrapped)"

definition encrypt_envelope ::
  "aead \<Rightarrow> codec \<Rightarrow> key_provider \<Rightarrow> byte list \<Rightarrow> byte list \<Rightarrow> byte list \<Rightarrow> string \<Rightarrow> crypto_error + string" where
  "encrypt_envelope ae cd kp rnd dek nonce plaintext =
     (if CHR '':'' \<in> set (kp_id kp) then Inl (Id_has_colon (kp_id kp))
      else and_then (seal ae dek nonce (cd_utf8 cd plaintext)) (\<lambda>payload.
           map_ok (\<lambda>wrapped. ''v2:'' @ kp_id kp @ '':'' @ cd_b64 cd wrapped @ '':'' @ cd_b64 cd payload) (wrap_key kp rnd dek)))"

text \<open>\<open>splitn(3, ':')\<close> and the three \<open>next\<close>s.\<close>

definition split_envelope :: "string \<Rightarrow> crypto_error + string \<times> string \<times> string" where
  "split_envelope stored =
     and_then (or_err Not_an_envelope (strip_prefix ''v2:'' stored)) (\<lambda>rest.
     and_then (or_err (Missing_part ''wrapped key'') (split_once '':'' rest)) (\<lambda>(pid, more).
     map_ok (\<lambda>(wrapped, payload). (pid, wrapped, payload)) (or_err (Missing_part ''payload'') (split_once '':'' more))))"

definition decrypt_envelope :: "aead \<Rightarrow> codec \<Rightarrow> key_provider \<Rightarrow> string \<Rightarrow> crypto_error + string" where
  "decrypt_envelope ae cd kp stored =
     and_then (split_envelope stored) (\<lambda>(pid, wrapped_b64, payload_b64).
     if pid \<noteq> kp_id kp then Inl (Other_provider pid (kp_id kp))
     else and_then (or_err Bad_base64 (cd_unb64 cd wrapped_b64)) (\<lambda>wrapped.
          and_then (or_err Bad_base64 (cd_unb64 cd payload_b64)) (\<lambda>payload.
          and_then (unwrap_key kp wrapped) (\<lambda>dek.
          and_then (with_err Decryption_failed (open_blob ae dek payload)) (\<lambda>pt.
          or_err Not_utf8 (cd_from_utf8 cd pt))))))"

definition rewrap_envelope ::
  "codec \<Rightarrow> key_provider \<Rightarrow> key_provider \<Rightarrow> byte list \<Rightarrow> string \<Rightarrow> crypto_error + string" where
  "rewrap_envelope cd old new rnd stored =
     (if CHR '':'' \<in> set (kp_id new) then Inl (Id_has_colon (kp_id new))
      else and_then (split_envelope stored) (\<lambda>(pid, wrapped_b64, payload_b64).
           if pid \<noteq> kp_id old then Inl (Other_provider pid (kp_id old))
           else and_then (or_err Bad_base64 (cd_unb64 cd wrapped_b64)) (\<lambda>wrapped.
                and_then (unwrap_key old wrapped) (\<lambda>dek.
                map_ok (\<lambda>rewrapped. ''v2:'' @ kp_id new @ '':'' @ cd_b64 cd rewrapped @ '':'' @ payload_b64) (wrap_key new rnd dek)))))"

subsection \<open>Frames\<close>

text \<open>\<open>u32::to_le_bytes\<close> of a length cast \<open>as u32\<close>, which keeps its low 32 bits; and back.\<close>

definition u32_le :: "nat \<Rightarrow> byte list" where
  "u32_le n = map (\<lambda>i. word_of_nat (n div 256 ^ i)) [0, 1, 2, 3]"

definition le_u32 :: "byte list \<Rightarrow> nat" where
  "le_u32 bs = sum_list (map2 (\<lambda>b i. unat b * 256 ^ i) bs [0 ..< length bs])"

definition take_bytes :: "nat \<Rightarrow> byte list \<Rightarrow> crypto_error + byte list \<times> byte list" where
  "take_bytes n buf = (if length buf < n then Inl (Truncated_frame n (length buf)) else Inr (take n buf, drop n buf))"

text \<open>What the binary envelope and the stream's header begin with: a tag, the provider's id and the
  wrapped key. Reading it, the id has to be text, and the given provider's.\<close>

definition frame_head :: "codec \<Rightarrow> byte \<Rightarrow> string \<Rightarrow> byte list \<Rightarrow> byte list" where
  "frame_head cd tag pid wrapped =
     [tag] @ [word_of_nat (length (cd_utf8 cd pid))] @ cd_utf8 cd pid @ u32_le (length wrapped) @ wrapped"

definition read_head :: "codec \<Rightarrow> byte \<Rightarrow> string \<Rightarrow> byte list \<Rightarrow> crypto_error + byte list \<times> byte list" where
  "read_head cd tag pid buf =
     and_then (take_bytes 1 buf) (\<lambda>(t, r0).
     if t \<noteq> [tag] then Inl (Bad_tag (unat (hd t)))
     else and_then (take_bytes 1 r0) (\<lambda>(l, r1).
          and_then (take_bytes (unat (hd l)) r1) (\<lambda>(i, r2).
          and_then (or_err Not_utf8 (cd_from_utf8 cd i)) (\<lambda>found.
          if found \<noteq> pid then Inl (Other_provider found pid)
          else and_then (take_bytes 4 r2) (\<lambda>(n, r3).
               take_bytes (le_u32 n) r3)))))"

definition id_too_long :: "codec \<Rightarrow> key_provider \<Rightarrow> bool" where
  "id_too_long cd kp = (length (cd_utf8 cd (kp_id kp)) > 255)"

definition bin_tag :: byte where "bin_tag = 2"

definition encrypt_envelope_bytes ::
  "aead \<Rightarrow> codec \<Rightarrow> key_provider \<Rightarrow> byte list \<Rightarrow> byte list \<Rightarrow> byte list \<Rightarrow> byte list \<Rightarrow> crypto_error + byte list" where
  "encrypt_envelope_bytes ae cd kp rnd dek nonce plaintext =
     (if id_too_long cd kp then Inl (Id_too_long (length (cd_utf8 cd (kp_id kp))))
      else and_then (seal ae dek nonce plaintext) (\<lambda>payload.
           map_ok (\<lambda>wrapped. frame_head cd bin_tag (kp_id kp) wrapped @ payload) (wrap_key kp rnd dek)))"

definition decrypt_envelope_bytes :: "aead \<Rightarrow> codec \<Rightarrow> key_provider \<Rightarrow> byte list \<Rightarrow> crypto_error + byte list" where
  "decrypt_envelope_bytes ae cd kp blob =
     and_then (read_head cd bin_tag (kp_id kp) blob) (\<lambda>(wrapped, rest).
     and_then (unwrap_key kp wrapped) (\<lambda>dek.
     with_err Decryption_failed (open_blob ae dek rest)))"

definition rewrap_envelope_bytes ::
  "codec \<Rightarrow> key_provider \<Rightarrow> key_provider \<Rightarrow> byte list \<Rightarrow> byte list \<Rightarrow> crypto_error + byte list" where
  "rewrap_envelope_bytes cd old new rnd blob =
     (if id_too_long cd new then Inl (Id_too_long (length (cd_utf8 cd (kp_id new))))
      else and_then (read_head cd bin_tag (kp_id old) blob) (\<lambda>(wrapped, payload).
           and_then (unwrap_key old wrapped) (\<lambda>dek.
           map_ok (\<lambda>rewrapped. frame_head cd bin_tag (kp_id new) rewrapped @ payload) (wrap_key new rnd dek))))"

subsection \<open>The stream\<close>

definition stream_tag :: byte where "stream_tag = 3"

record sealer =
  se_dek :: "byte list"
  se_index :: "32 word"

definition sealer_new :: "codec \<Rightarrow> key_provider \<Rightarrow> byte list \<Rightarrow> byte list \<Rightarrow> crypto_error + byte list \<times> sealer" where
  "sealer_new cd kp rnd dek =
     (if id_too_long cd kp then Inl (Id_too_long (length (cd_utf8 cd (kp_id kp))))
      else map_ok (\<lambda>wrapped. (frame_head cd stream_tag (kp_id kp) wrapped, \<lparr>se_dek = dek, se_index = 0\<rparr>)) (wrap_key kp rnd dek))"

definition chunk_aad :: "32 word \<Rightarrow> bool \<Rightarrow> byte list" where
  "chunk_aad index is_final = u32_le (unat index) @ [if is_final then 1 else 0]"

text \<open>The index is a \<open>u32\<close>: it goes round after \<open>2 ^ 32\<close> chunks where overflow is not checked.\<close>

definition seal_chunk :: "aead \<Rightarrow> byte list \<Rightarrow> byte list \<Rightarrow> bool \<Rightarrow> sealer \<Rightarrow> crypto_error + byte list \<times> sealer" where
  "seal_chunk ae nonce plaintext is_final s =
     map_ok (\<lambda>ct. ([if is_final then 1 else 0] @ nonce @ ct, s\<lparr>se_index := se_index s + 1\<rparr>))
       (or_err Encryption_failed (ae_encrypt ae (se_dek s) nonce (chunk_aad (se_index s) is_final) plaintext))"

record opener =
  op_dek :: "byte list"
  op_index :: "32 word"
  op_finished :: bool

definition opener_new :: "codec \<Rightarrow> key_provider \<Rightarrow> byte list \<Rightarrow> crypto_error + opener" where
  "opener_new cd kp header =
     and_then (read_head cd stream_tag (kp_id kp) header) (\<lambda>(wrapped, rest).
     map_ok (\<lambda>dek. \<lparr>op_dek = dek, op_index = 0, op_finished = False\<rparr>) (unwrap_key kp wrapped))"

definition open_chunk :: "aead \<Rightarrow> byte list \<Rightarrow> opener \<Rightarrow> crypto_error + (byte list \<times> bool) \<times> opener" where
  "open_chunk ae frame ch =
     (if op_finished ch then Inl After_final
      else and_then (take_bytes 1 frame) (\<lambda>(f, r0).
           and_then (take_bytes nonce_len r0) (\<lambda>(nonce, ct).
           (let is_final = (hd f \<noteq> 0)
            in map_ok (\<lambda>pt. ((pt, is_final), ch\<lparr>op_index := op_index ch + 1, op_finished := is_final\<rparr>))
                 (or_err Decryption_failed (ae_decrypt ae (op_dek ch) nonce (chunk_aad (op_index ch) is_final) ct))))))"

definition rewrap_stream_header ::
  "codec \<Rightarrow> key_provider \<Rightarrow> key_provider \<Rightarrow> byte list \<Rightarrow> byte list \<Rightarrow> crypto_error + byte list" where
  "rewrap_stream_header cd old new rnd header =
     (if id_too_long cd new then Inl (Id_too_long (length (cd_utf8 cd (kp_id new))))
      else and_then (read_head cd stream_tag (kp_id old) header) (\<lambda>(wrapped, rest).
           and_then (unwrap_key old wrapped) (\<lambda>dek.
           map_ok (frame_head cd stream_tag (kp_id new)) (wrap_key new rnd dek))))"

subsection \<open>The local provider\<close>

definition local_provider :: "aead \<Rightarrow> byte list \<Rightarrow> string \<Rightarrow> key_provider" where
  "local_provider ae kek pid =
     \<lparr>kp_id = pid,
      kp_wrap = (\<lambda>nonce dek. case seal ae kek nonce dek of Inl _ \<Rightarrow> None | Inr w \<Rightarrow> Some w),
      kp_unwrap = (\<lambda>wrapped. case open_blob ae kek wrapped of
                     Inl _ \<Rightarrow> None
                   | Inr bytes \<Rightarrow> if length bytes = 32 then Some bytes else None)\<rparr>"

end
