(* ===== verification/Artifact_Store.thy ===== *)
theory Artifact_Store
  imports Crypto_Envelope
begin

text \<open>
  Artifacts encrypted at rest (crates/dagron-artifact/src/lib.rs, \<open>EncryptedStore\<close>): what is written to
  the store beneath, whole or chunk by chunk, how it is read back, buffered or as a stream, and the
  sweep that moves every artifact to a new key. The store beneath is a map; its failures, and what
  the providers draw at random, are arguments.
\<close>

datatype store_error =
    Crypto crypto_error
  | Missing_stream_tag
  | Missing_header
  | Truncated_prefix
  | Frame_too_long nat
  | Truncated_body nat nat
  | Truncated_stream
  | Store_failed
  | No_artifact

definition crypto :: "crypto_error + 'a \<Rightarrow> store_error + 'a" where
  "crypto r = (case r of Inl e \<Rightarrow> Inl (Crypto e) | Inr x \<Rightarrow> Inr x)"

subsection \<open>Frames\<close>

definition stream_blob_tag :: byte where "stream_blob_tag = 3"

definition max_frame_len :: nat where "max_frame_len = 8 * 1024 * 1024"

definition write_frame :: "byte list \<Rightarrow> byte list" where
  "write_frame data = u32_le (length data) @ data"

definition read_frame_sync :: "byte list \<Rightarrow> store_error + (byte list \<times> byte list) option" where
  "read_frame_sync cur =
     (if cur = [] then Inr None
      else if length cur < 4 then Inl Truncated_prefix
      else (let n = le_u32 (take 4 cur); rest = drop 4 cur
            in if n > max_frame_len then Inl (Frame_too_long n)
               else if length rest < n then Inl (Truncated_body n (length rest))
               else Inr (Some (take n rest, drop n rest))))"

text \<open>\<open>read_exact\<close> of the prefix takes an end inside it as the end of the stream.\<close>

definition read_frame_async :: "byte list \<Rightarrow> store_error + (byte list \<times> byte list) option" where
  "read_frame_async cur =
     (if length cur < 4 then Inr None
      else (let n = le_u32 (take 4 cur); rest = drop 4 cur
            in if n > max_frame_len then Inl (Frame_too_long n)
               else if length rest < n then Inl (Truncated_body n (length rest))
               else Inr (Some (take n rest, drop n rest))))"

lemma read_frame_shorter:
  "read_frame_sync cur = Inr (Some (frame, rest)) \<Longrightarrow> length rest < length cur"
  "read_frame_async cur = Inr (Some (frame, rest)) \<Longrightarrow> length rest < length cur"
  unfolding read_frame_sync_def read_frame_async_def
  by (auto simp: Let_def split: if_splits)

subsection \<open>Writing\<close>

text \<open>
  The sealing task of \<open>put_stream\<close>: what the reader yields, one buffer after the other, an empty one
  (or none) at its end. A buffer is sealed when the next has come, so that the last is marked final.
  \<open>nonces\<close> holds what is drawn for each chunk.
\<close>

fun seal_loop ::
  "aead \<Rightarrow> (nat \<Rightarrow> byte list) \<Rightarrow> nat \<Rightarrow> byte list option \<Rightarrow> byte list list \<Rightarrow> sealer \<Rightarrow> crypto_error + byte list" where
  "seal_loop ae nonces i pending [] s =
     map_ok (\<lambda>(frame, s'). write_frame frame) (seal_chunk ae (nonces i) (case pending of None \<Rightarrow> [] | Some p \<Rightarrow> p) True s)"
| "seal_loop ae nonces i pending (buf # reads) s =
     (if buf = [] then seal_loop ae nonces i pending [] s
      else (case pending of
              None \<Rightarrow> seal_loop ae nonces i (Some buf) reads s
            | Some prev \<Rightarrow>
                and_then (seal_chunk ae (nonces i) prev False s) (\<lambda>(frame, s').
                map_ok (\<lambda>more. write_frame frame @ more) (seal_loop ae nonces (Suc i) (Some buf) reads s'))))"

definition put_stream_blob ::
  "aead \<Rightarrow> codec \<Rightarrow> key_provider \<Rightarrow> byte list \<Rightarrow> byte list \<Rightarrow> (nat \<Rightarrow> byte list) \<Rightarrow> byte list list \<Rightarrow>
   crypto_error + byte list" where
  "put_stream_blob ae cd kp rnd dek nonces reads =
     and_then (sealer_new cd kp rnd dek) (\<lambda>(header, s).
     map_ok (\<lambda>frames. [stream_blob_tag] @ write_frame header @ frames) (seal_loop ae nonces 0 None reads s))"

text \<open>\<open>put\<close>\<close>

definition put_blob ::
  "aead \<Rightarrow> codec \<Rightarrow> key_provider \<Rightarrow> byte list \<Rightarrow> byte list \<Rightarrow> byte list \<Rightarrow> byte list \<Rightarrow> crypto_error + byte list" where
  "put_blob ae cd kp rnd dek nonce bytes = encrypt_envelope_bytes ae cd kp rnd dek nonce bytes"

subsection \<open>Reading\<close>

text \<open>The loop over the frames; what it read, and the opener.\<close>

function open_frames :: "bool \<Rightarrow> aead \<Rightarrow> byte list \<Rightarrow> opener \<Rightarrow> byte list \<Rightarrow> store_error + byte list \<times> opener" where
  "open_frames buffered ae cur ch out =
     and_then (if buffered then read_frame_sync cur else read_frame_async cur) (\<lambda>fr.
       case fr of
         None \<Rightarrow> Inr (out, ch)
       | Some (frame, rest) \<Rightarrow>
           and_then (crypto (open_chunk ae frame ch)) (\<lambda>((pt, is_final), ch').
           if is_final then Inr (out @ pt, ch') else open_frames buffered ae rest ch' (out @ pt)))"
  by pat_completeness auto
termination
  by (relation "measure (\<lambda>(_, _, cur, _). length cur)")
    (auto dest: read_frame_shorter split: if_splits)

declare open_frames.simps [simp del]

definition finished_out :: "byte list \<times> opener \<Rightarrow> store_error + byte list" where
  "finished_out r = (if op_finished (snd r) then Inr (fst r) else Inl Truncated_stream)"

definition decrypt_stream_blob :: "aead \<Rightarrow> codec \<Rightarrow> key_provider \<Rightarrow> byte list \<Rightarrow> store_error + byte list" where
  "decrypt_stream_blob ae cd kp raw =
     (case raw of
        [] \<Rightarrow> Inl Missing_stream_tag
      | t # cur \<Rightarrow>
          if t \<noteq> stream_blob_tag then Inl Missing_stream_tag
          else and_then (read_frame_sync cur) (\<lambda>fr.
                 case fr of
                   None \<Rightarrow> Inl Missing_header
                 | Some (header, rest) \<Rightarrow>
                     and_then (crypto (opener_new cd kp header)) (\<lambda>ch.
                     and_then (open_frames True ae rest ch []) finished_out)))"

text \<open>\<open>get\<close> of the bytes stored.\<close>

definition get_blob :: "aead \<Rightarrow> codec \<Rightarrow> key_provider \<Rightarrow> byte list \<Rightarrow> store_error + byte list" where
  "get_blob ae cd kp raw =
     (if take 1 raw = [stream_blob_tag] then decrypt_stream_blob ae cd kp raw
      else crypto (decrypt_envelope_bytes ae cd kp raw))"

text \<open>\<open>get_stream\<close>: all that the reader it returns yields, or the error it ends with.\<close>

definition get_stream_blob :: "aead \<Rightarrow> codec \<Rightarrow> key_provider \<Rightarrow> byte list \<Rightarrow> store_error + byte list" where
  "get_stream_blob ae cd kp raw =
     (case raw of
        [] \<Rightarrow> Inr []
      | t # cur \<Rightarrow>
          if t = stream_blob_tag then
            and_then (read_frame_async cur) (\<lambda>fr.
              case fr of
                None \<Rightarrow> Inl Missing_header
              | Some (header, rest) \<Rightarrow>
                  and_then (crypto (opener_new cd kp header)) (\<lambda>ch.
                  and_then (open_frames False ae rest ch []) finished_out))
          else crypto (decrypt_envelope_bytes ae cd kp raw))"

subsection \<open>Rotation\<close>

definition rotate_stream_blob ::
  "codec \<Rightarrow> key_provider \<Rightarrow> key_provider \<Rightarrow> byte list \<Rightarrow> byte list \<Rightarrow> store_error + byte list" where
  "rotate_stream_blob cd old new rnd raw =
     (case raw of
        [] \<Rightarrow> Inl Missing_stream_tag
      | t # cur \<Rightarrow>
          if t \<noteq> stream_blob_tag then Inl Missing_stream_tag
          else and_then (read_frame_sync cur) (\<lambda>fr.
                 case fr of
                   None \<Rightarrow> Inl Missing_header
                 | Some (header, rest) \<Rightarrow>
                     map_ok (\<lambda>new_header. [stream_blob_tag] @ write_frame new_header @ rest)
                       (crypto (rewrap_stream_header cd old new rnd header))))"

definition rotate_blob ::
  "codec \<Rightarrow> key_provider \<Rightarrow> key_provider \<Rightarrow> byte list \<Rightarrow> byte list \<Rightarrow> store_error + byte list" where
  "rotate_blob cd from to rnd raw =
     (if take 1 raw = [stream_blob_tag] then rotate_stream_blob cd from to rnd raw
      else crypto (rewrap_envelope_bytes cd from to rnd raw))"

type_synonym blobs = "string \<rightharpoonup> byte list"

text \<open>
  \<open>rotate_from\<close> over the keys the store lists: the store it leaves, and the error it stopped at. What
  was rewritten before an error stays. \<open>get_fails\<close> and \<open>put_fails\<close> are the store's failures in this
  sweep, \<open>rnd\<close> what the providers draw for each artifact.
\<close>

fun rotate_from ::
  "codec \<Rightarrow> key_provider \<Rightarrow> key_provider \<Rightarrow> (string \<Rightarrow> byte list) \<Rightarrow> (string \<Rightarrow> bool) \<Rightarrow> (string \<Rightarrow> bool) \<Rightarrow>
   string list \<Rightarrow> blobs \<Rightarrow> blobs \<times> store_error option" where
  "rotate_from cd old new rnd get_fails put_fails [] st = (st, None)"
| "rotate_from cd old new rnd get_fails put_fails (k # ks) st =
     (if get_fails k then (st, Some Store_failed)
      else (case st k of
              None \<Rightarrow> (st, Some No_artifact)
            | Some raw \<Rightarrow>
                (case rotate_blob cd old new (rnd k) raw of
                   Inr rotated \<Rightarrow>
                     if put_fails k then (st, Some Store_failed)
                     else rotate_from cd old new rnd get_fails put_fails ks (st(k \<mapsto> rotated))
                 | Inl e \<Rightarrow>
                     (case rotate_blob cd new new (rnd k) raw of
                        Inl _ \<Rightarrow> (st, Some e)
                      | Inr _ \<Rightarrow> rotate_from cd old new rnd get_fails put_fails ks st))))"

end
