(* ===== verification/Crypto_Props.thy ===== *)
theory Crypto_Props
  imports Crypto_Envelope
begin

text \<open>
  What the encryption of dagron-crypto relies on, as laws of its parameters, and what follows for
  the forms a value is stored in.
\<close>

subsection \<open>The laws\<close>

text \<open>AES-256-GCM decrypts what it encrypted; a tag of 16 bytes comes after the ciphertext.\<close>

definition aead_ok :: "aead \<Rightarrow> bool" where
  "aead_ok ae \<longleftrightarrow> (\<forall>k n a m c. ae_encrypt ae k n a m = Some c \<longrightarrow>
     ae_decrypt ae k n a c = Some m \<and> length c = length m + 16)"

text \<open>Base64 and UTF-8 decode what they encoded; no colon is of base64's alphabet.\<close>

definition codec_ok :: "codec \<Rightarrow> bool" where
  "codec_ok cd \<longleftrightarrow> (\<forall>b. cd_unb64 cd (cd_b64 cd b) = Some b \<and> CHR '':'' \<notin> set (cd_b64 cd b)) \<and>
     (\<forall>s. cd_from_utf8 cd (cd_utf8 cd s) = Some s)"

text \<open>
  A provider unwraps the data keys it wrapped, each 32 bytes long, and wraps into few bytes. What it
  draws at random is a nonce.
\<close>

definition provider_ok :: "key_provider \<Rightarrow> bool" where
  "provider_ok kp \<longleftrightarrow>
     (\<forall>rnd dek w. length rnd = nonce_len \<and> length dek = 32 \<and> kp_wrap kp rnd dek = Some w \<longrightarrow> kp_unwrap kp w = Some dek \<and> length w \<le> 65536) \<and>
     (\<forall>w d. kp_unwrap kp w = Some d \<longrightarrow> length d = 32)"

lemma aead_okD: "aead_ok ae \<Longrightarrow> ae_encrypt ae k n a m = Some c \<Longrightarrow> ae_decrypt ae k n a c = Some m"
  "aead_ok ae \<Longrightarrow> ae_encrypt ae k n a m = Some c \<Longrightarrow> length c = length m + 16"
  by (auto simp: aead_ok_def)

lemma codec_okD: "codec_ok cd \<Longrightarrow> cd_unb64 cd (cd_b64 cd b) = Some b"
  "codec_ok cd \<Longrightarrow> CHR '':'' \<notin> set (cd_b64 cd b)"
  "codec_ok cd \<Longrightarrow> cd_from_utf8 cd (cd_utf8 cd s) = Some s"
  by (auto simp: codec_ok_def)

lemma or_err_Inr: "or_err e v = Inr x \<longleftrightarrow> v = Some x"
  by (auto simp: or_err_def split: option.splits)

lemma provider_okD:
  "provider_ok kp \<Longrightarrow> length rnd = nonce_len \<Longrightarrow> length dek = 32 \<Longrightarrow> wrap_key kp rnd dek = Inr w \<Longrightarrow> unwrap_key kp w = Inr dek"
  "provider_ok kp \<Longrightarrow> length rnd = nonce_len \<Longrightarrow> length dek = 32 \<Longrightarrow> wrap_key kp rnd dek = Inr w \<Longrightarrow> length w \<le> 65536"
  "provider_ok kp \<Longrightarrow> unwrap_key kp w = Inr dek \<Longrightarrow> length dek = 32"
  unfolding provider_ok_def wrap_key_def unwrap_key_def or_err_Inr by blast+

lemma with_err_Inr: "with_err e r = Inr x \<longleftrightarrow> r = Inr x"
  by (auto simp: with_err_def split: sum.splits)

lemmas ok_iffs = and_then_Inr map_ok_Inr or_err_Inr with_err_Inr

subsection \<open>A sealed blob\<close>

lemma open_seal:
  assumes "aead_ok ae" "length nonce = nonce_len" "seal ae k nonce m = Inr blob"
  shows "open_blob ae k blob = Inr m"
  using assms aead_okD[OF assms(1)]
  by (auto simp: seal_def open_blob_def ok_iffs)

lemma local_provider_unwraps:
  assumes "aead_ok ae" "length rnd = nonce_len" "length dek = 32"
    and "kp_wrap (local_provider ae kek pid) rnd dek = Some w"
  shows "kp_unwrap (local_provider ae kek pid) w = Some dek \<and> length w = 60"
proof -
  from assms(4) have w: "seal ae kek rnd dek = Inr w"
    by (auto simp: local_provider_def split: sum.splits)
  have "length w = 60"
    using w aead_okD(2)[OF assms(1)] assms(2,3) by (auto simp: seal_def ok_iffs nonce_len_def)
  with open_seal[OF assms(1,2) w] assms(3) show ?thesis by (simp add: local_provider_def)
qed

text \<open>The local provider keeps the laws of a provider.\<close>

lemma local_provider_ok:
  assumes "aead_ok ae"
  shows "provider_ok (local_provider ae kek pid)"
proof -
  have "kp_unwrap (local_provider ae kek pid) w = Some d \<Longrightarrow> length d = 32" for w d
    by (auto simp: local_provider_def split: sum.splits if_splits)
  moreover have "kp_unwrap (local_provider ae kek pid) w = Some dek \<and> length w \<le> 65536"
    if "length rnd = nonce_len \<and> length dek = 32 \<and> kp_wrap (local_provider ae kek pid) rnd dek = Some w" for rnd dek w
    using local_provider_unwraps[OF assms conjunct1[OF that] conjunct1[OF conjunct2[OF that]] conjunct2[OF conjunct2[OF that]]]
    by linarith
  ultimately show ?thesis unfolding provider_ok_def by blast
qed

subsection \<open>The text forms\<close>

lemma v1_round_trip:
  assumes "aead_ok ae" "codec_ok cd" "length nonce = nonce_len"
    and "encrypt_v1 ae cd key nonce v = Inr s"
  shows "decrypt_v1 ae cd key s = Inr v"
  using assms(4) open_seal[OF assms(1,3)] codec_okD[OF assms(2)]
  by (auto simp: encrypt_v1_def decrypt_v1_def ok_iffs strip_prefix_iff)

lemma split_once_colon: "CHR '':'' \<notin> set a \<Longrightarrow> split_once '':'' (a @ CHR '':'' # b) = Some (a, b)"
  by (induction a) auto

lemma split_envelope_parts:
  assumes "CHR '':'' \<notin> set pid" "CHR '':'' \<notin> set w"
  shows "split_envelope (''v2:'' @ pid @ '':'' @ w @ '':'' @ p) = Inr (pid, w, p)"
  using assms split_once_colon[of pid "w @ CHR '':'' # p"] split_once_colon[of w p]
  by (simp add: split_envelope_def or_err_def)

text \<open>Reading an envelope: its three parts, and the value under the key that the provider unwraps.\<close>

lemma decrypt_envelope_Inr:
  "decrypt_envelope ae cd kp s = Inr v \<longleftrightarrow>
     (\<exists>w p wrapped payload dek pt. split_envelope s = Inr (kp_id kp, w, p) \<and> cd_unb64 cd w = Some wrapped \<and>
        cd_unb64 cd p = Some payload \<and> unwrap_key kp wrapped = Inr dek \<and> open_blob ae dek payload = Inr pt \<and>
        cd_from_utf8 cd pt = Some v)"
  by (auto simp: decrypt_envelope_def ok_iffs split: if_splits)

lemma envelope_round_trip:
  assumes "aead_ok ae" "codec_ok cd" "provider_ok kp" "length nonce = nonce_len" "length dek = 32" "length rnd = nonce_len"
    and "encrypt_envelope ae cd kp rnd dek nonce v = Inr s"
  shows "decrypt_envelope ae cd kp s = Inr v"
proof -
  from assms(7) obtain payload w where colon: "CHR '':'' \<notin> set (kp_id kp)"
    and payload: "seal ae dek nonce (cd_utf8 cd v) = Inr payload" and w: "wrap_key kp rnd dek = Inr w"
    and s: "s = ''v2:'' @ kp_id kp @ '':'' @ cd_b64 cd w @ '':'' @ cd_b64 cd payload"
    by (auto simp: encrypt_envelope_def ok_iffs split: if_splits)
  have "split_envelope s = Inr (kp_id kp, cd_b64 cd w, cd_b64 cd payload)"
    unfolding s by (rule split_envelope_parts[OF colon codec_okD(2)[OF assms(2)]])
  with open_seal[OF assms(1,4) payload] provider_okD(1)[OF assms(3,6,5) w] codec_okD[OF assms(2)]
  show ?thesis by (auto simp: decrypt_envelope_Inr)
qed

lemma rewrap_keeps_value:
  assumes "codec_ok cd" "provider_ok old" "provider_ok new" "length rnd = nonce_len"
    and "decrypt_envelope ae cd old s = Inr v" "rewrap_envelope cd old new rnd s = Inr s'"
  shows "decrypt_envelope ae cd new s' = Inr v"
proof -
  from assms(5) obtain w p wrapped payload dek pt where s: "split_envelope s = Inr (kp_id old, w, p)"
    and p: "cd_unb64 cd w = Some wrapped" "cd_unb64 cd p = Some payload" "unwrap_key old wrapped = Inr dek"
      "open_blob ae dek payload = Inr pt" "cd_from_utf8 cd pt = Some v"
    by (auto simp: decrypt_envelope_Inr)
  from assms(6) s p obtain w' where colon: "CHR '':'' \<notin> set (kp_id new)" and w': "wrap_key new rnd dek = Inr w'"
    and s': "s' = ''v2:'' @ kp_id new @ '':'' @ cd_b64 cd w' @ '':'' @ p"
    by (auto simp: rewrap_envelope_def ok_iffs split: if_splits)
  have "split_envelope s' = Inr (kp_id new, cd_b64 cd w', p)"
    unfolding s' by (rule split_envelope_parts[OF colon codec_okD(2)[OF assms(1)]])
  with p provider_okD(1)[OF assms(3,4) provider_okD(3)[OF assms(2) p(3)] w'] codec_okD[OF assms(1)]
  show ?thesis by (auto simp: decrypt_envelope_Inr)
qed

lemma rewrap_leaves_old:
  assumes "codec_ok cd" "kp_id old \<noteq> kp_id new" "rewrap_envelope cd old new rnd s = Inr s'"
  shows "decrypt_envelope ae cd old s' = Inl (Other_provider (kp_id new) (kp_id old))"
proof -
  from assms(3) obtain w' p where colon: "CHR '':'' \<notin> set (kp_id new)"
    and s': "s' = ''v2:'' @ kp_id new @ '':'' @ cd_b64 cd w' @ '':'' @ p"
    by (auto simp: rewrap_envelope_def ok_iffs split: if_splits prod.splits)
  have "split_envelope s' = Inr (kp_id new, cd_b64 cd w', p)"
    unfolding s' by (rule split_envelope_parts[OF colon codec_okD(2)[OF assms(1)]])
  with assms(2) show ?thesis by (simp add: decrypt_envelope_def)
qed

subsection \<open>Frames\<close>

lemma u32_le_length [simp]: "length (u32_le n) = 4"
  by (simp add: u32_le_def)

lemma le_u32_of:
  assumes "n < 2 ^ 32"
  shows "le_u32 (u32_le n) = n"
proof -
  have top: "n div 16777216 mod 256 = n div 16777216" using assms by (simp add: less_mult_imp_div_less)
  have "n div 65536 = n div 16777216 * 256 + n div 65536 mod 256"
    using div_mult_mod_eq[of "n div 65536" 256] by (simp add: div_mult2_eq[symmetric])
  moreover have "n div 256 = n div 65536 * 256 + n div 256 mod 256"
    using div_mult_mod_eq[of "n div 256" 256] by (simp add: div_mult2_eq[symmetric])
  moreover have "n = n div 256 * 256 + n mod 256" by simp
  ultimately have "n mod 256 + ((n div 256) mod 256 * 256 + ((n div 65536) mod 256 * 65536 + (n div 16777216) mod 256 * 16777216)) = n"
    using top by linarith
  moreover have "[0 ..< length (u32_le n)] = [0, 1, 2, 3]" by (simp add: upt_conv_Cons)
  moreover have "unat (word_of_nat k :: byte) = k mod 256" for k
    by (simp add: unsigned_of_nat take_bit_eq_mod)
  ultimately show ?thesis
    unfolding le_u32_def by (simp add: u32_le_def top)
qed

lemma u32_le_inj: "u32_le m = u32_le n \<Longrightarrow> m < 2 ^ 32 \<Longrightarrow> n < 2 ^ 32 \<Longrightarrow> m = n"
  by (metis le_u32_of)

lemma take_bytes_append: "length a = n \<Longrightarrow> take_bytes n (a @ b) = Inr (a, b)"
  by (simp add: take_bytes_def)

lemma read_head_of:
  assumes "codec_ok cd" "length (cd_utf8 cd pid) \<le> 255" "length w < 2 ^ 32"
  shows "read_head cd tag pid (frame_head cd tag pid w @ rest) = Inr (w, rest)"
proof -
  have "unat (word_of_nat (length (cd_utf8 cd pid)) :: byte) = length (cd_utf8 cd pid)"
    using assms(2) by (simp add: unsigned_of_nat take_bit_eq_mod)
  with le_u32_of[OF assms(3)] codec_okD[OF assms(1)] show ?thesis
    using take_bytes_append[of "[tag]" 1] take_bytes_append[of "[word_of_nat (length (cd_utf8 cd pid))] :: byte list" 1]
    by (simp add: read_head_def frame_head_def take_bytes_append or_err_def)
qed

lemma bytes_round_trip:
  assumes "aead_ok ae" "codec_ok cd" "provider_ok kp" "length nonce = nonce_len" "length dek = 32" "length rnd = nonce_len"
    and "encrypt_envelope_bytes ae cd kp rnd dek nonce v = Inr b"
  shows "decrypt_envelope_bytes ae cd kp b = Inr v"
proof -
  from assms(7) obtain payload w where short: "length (cd_utf8 cd (kp_id kp)) \<le> 255"
    and payload: "seal ae dek nonce v = Inr payload" and w: "wrap_key kp rnd dek = Inr w"
    and b: "b = frame_head cd bin_tag (kp_id kp) w @ payload"
    by (auto simp: encrypt_envelope_bytes_def id_too_long_def ok_iffs split: if_splits)
  have "length w < 2 ^ 32" using provider_okD(2)[OF assms(3,6,5) w] by simp
  from read_head_of[OF assms(2) short this] open_seal[OF assms(1,4) payload] provider_okD(1)[OF assms(3,6,5) w]
  show ?thesis by (simp add: decrypt_envelope_bytes_def b with_err_def)
qed

lemma rewrap_bytes_keeps_value:
  assumes "codec_ok cd" "provider_ok old" "provider_ok new" "length rnd = nonce_len"
    and "decrypt_envelope_bytes ae cd old b = Inr v" "rewrap_envelope_bytes cd old new rnd b = Inr b'"
  shows "decrypt_envelope_bytes ae cd new b' = Inr v"
proof -
  from assms(5) obtain w rest dek where h: "read_head cd bin_tag (kp_id old) b = Inr (w, rest)"
    and d: "unwrap_key old w = Inr dek" "open_blob ae dek rest = Inr v"
    by (auto simp: decrypt_envelope_bytes_def ok_iffs)
  from assms(6) h d obtain w' where short: "length (cd_utf8 cd (kp_id new)) \<le> 255"
    and w': "wrap_key new rnd dek = Inr w'" and b': "b' = frame_head cd bin_tag (kp_id new) w' @ rest"
    by (auto simp: rewrap_envelope_bytes_def id_too_long_def ok_iffs split: if_splits)
  note len = provider_okD(3)[OF assms(2) d(1)]
  have "length w' < 2 ^ 32" using provider_okD(2)[OF assms(3,4) len w'] by simp
  from read_head_of[OF assms(1) short this] d(2) provider_okD(1)[OF assms(3,4) len w']
  show ?thesis by (simp add: decrypt_envelope_bytes_def b' with_err_def)
qed

subsection \<open>The stream's header\<close>

lemma opener_of_sealer:
  assumes "codec_ok cd" "provider_ok kp" "length rnd = nonce_len" "length dek = 32"
    and "sealer_new cd kp rnd dek = Inr (header, s)"
  shows "opener_new cd kp header = Inr \<lparr>op_dek = dek, op_index = 0, op_finished = False\<rparr>"
    and "s = \<lparr>se_dek = dek, se_index = 0\<rparr>" and "length header \<le> 65797"
proof -
  from assms(5) obtain w where short: "length (cd_utf8 cd (kp_id kp)) \<le> 255" and w: "wrap_key kp rnd dek = Inr w"
    and h: "header = frame_head cd stream_tag (kp_id kp) w" and s: "s = \<lparr>se_dek = dek, se_index = 0\<rparr>"
    by (auto simp: sealer_new_def id_too_long_def ok_iffs split: if_splits)
  note lw = provider_okD(2)[OF assms(2-4) w]
  have "length w < 2 ^ 32" using lw by simp
  from read_head_of[OF assms(1) short this, of stream_tag "[]"] provider_okD(1)[OF assms(2-4) w]
  show "opener_new cd kp header = Inr \<lparr>op_dek = dek, op_index = 0, op_finished = False\<rparr>"
    by (simp add: opener_new_def h)
  show "s = \<lparr>se_dek = dek, se_index = 0\<rparr>" by (rule s)
  show "length header \<le> 65797" using lw short by (simp add: h frame_head_def)
qed

lemma rewrap_header_keeps_opener:
  assumes "codec_ok cd" "provider_ok old" "provider_ok new" "length rnd = nonce_len"
    and "opener_new cd old header = Inr ch" "rewrap_stream_header cd old new rnd header = Inr header'"
  shows "opener_new cd new header' = Inr ch" and "length header' \<le> 65797"
proof -
  from assms(5) obtain w rest dek where h: "read_head cd stream_tag (kp_id old) header = Inr (w, rest)"
    and d: "unwrap_key old w = Inr dek" and ch: "ch = \<lparr>op_dek = dek, op_index = 0, op_finished = False\<rparr>"
    by (auto simp: opener_new_def ok_iffs)
  from assms(6) h d obtain w' where short: "length (cd_utf8 cd (kp_id new)) \<le> 255"
    and w': "wrap_key new rnd dek = Inr w'" and h': "header' = frame_head cd stream_tag (kp_id new) w'"
    by (auto simp: rewrap_stream_header_def id_too_long_def ok_iffs split: if_splits)
  note len = provider_okD(3)[OF assms(2) d]
  note lw = provider_okD(2)[OF assms(3,4) len w']
  have "length w' < 2 ^ 32" using lw by simp
  from read_head_of[OF assms(1) short this, of stream_tag "[]"] provider_okD(1)[OF assms(3,4) len w']
  show "opener_new cd new header' = Inr ch" by (simp add: opener_new_def h' ch)
  show "length header' \<le> 65797" using lw short by (simp add: h' frame_head_def)
qed

end
