(* ===== verification/Artifact_Props.thy ===== *)
theory Artifact_Props
  imports Artifact_Store Crypto_Props
begin

text \<open>
  What the encrypted store promises: an artifact is read as it was written, through any number of
  rotations and of sweeps cut short; the two ways of reading agree; and whatever bytes the store
  beneath hands back, what is read without an error is the whole of an artifact sealed under the
  provider, never a part of one.
\<close>

subsection \<open>Frames\<close>

lemma crypto_Inr: "crypto r = Inr x \<longleftrightarrow> r = Inr x"
  by (auto simp: crypto_def split: sum.splits)

lemma read_frame_write:
  assumes "length d \<le> max_frame_len"
  shows "read_frame_sync (write_frame d @ r) = Inr (Some (d, r))"
    and "read_frame_async (write_frame d @ r) = Inr (Some (d, r))"
proof -
  have "le_u32 (u32_le (length d)) = length d"
    using assms by (intro le_u32_of) (simp add: max_frame_len_def)
  moreover have "u32_le (length d) \<noteq> []" by (metis u32_le_length list.size(3) zero_neq_numeral)
  ultimately show "read_frame_sync (write_frame d @ r) = Inr (Some (d, r))"
    and "read_frame_async (write_frame d @ r) = Inr (Some (d, r))"
    using assms by (auto simp: read_frame_sync_def read_frame_async_def write_frame_def Let_def)
qed

lemma open_frames_final:
  assumes "length d \<le> max_frame_len" "open_chunk ae d ch = Inr ((m, True), ch')"
  shows "open_frames b ae (write_frame d @ r) ch out = Inr (out @ m, ch')"
  using assms by (subst open_frames.simps) (simp add: read_frame_write crypto_def)

lemma open_frames_more:
  assumes "length d \<le> max_frame_len" "open_chunk ae d ch = Inr ((m, False), ch')"
  shows "open_frames b ae (write_frame d @ r) ch out = open_frames b ae r ch' (out @ m)"
  using assms by (subst open_frames.simps) (simp add: read_frame_write crypto_def)

subsection \<open>Chunks\<close>

lemma open_seal_chunk:
  assumes "aead_ok ae" "length nonce = nonce_len" "seal_chunk ae nonce m fin s = Inr (frame, s')"
  shows "open_chunk ae frame \<lparr>op_dek = se_dek s, op_index = se_index s, op_finished = False\<rparr> =
           Inr ((m, fin), \<lparr>op_dek = se_dek s', op_index = se_index s', op_finished = fin\<rparr>)"
    and "length frame = length m + 29"
proof -
  from assms(3) obtain ct where c: "ae_encrypt ae (se_dek s) nonce (chunk_aad (se_index s) fin) m = Some ct"
    and f: "frame = (if fin then 1 else 0) # (nonce @ ct)" and s': "s' = s\<lparr>se_index := se_index s + 1\<rparr>"
    by (auto simp: seal_chunk_def ok_iffs)
  have "take_bytes 1 frame = Inr ([if fin then 1 else 0], nonce @ ct)"
    using take_bytes_append[of "[if fin then 1 else 0]" 1 "nonce @ ct"] by (simp add: f)
  then show "open_chunk ae frame \<lparr>op_dek = se_dek s, op_index = se_index s, op_finished = False\<rparr> =
           Inr ((m, fin), \<lparr>op_dek = se_dek s', op_index = se_index s', op_finished = fin\<rparr>)"
    using take_bytes_append[OF assms(2)] aead_okD(1)[OF assms(1) c]
    by (cases fin) (simp_all add: open_chunk_def s' or_err_def)
  show "length frame = length m + 29"
    using aead_okD(2)[OF assms(1) c] assms(2) by (simp add: f nonce_len_def)
qed

definition opener_at :: "sealer \<Rightarrow> opener" where
  "opener_at s = \<lparr>op_dek = se_dek s, op_index = se_index s, op_finished = False\<rparr>"

lemma frame_fits: "length m \<le> 65536 \<Longrightarrow> length frame = length m + 29 \<Longrightarrow> length frame \<le> max_frame_len"
  by (simp add: max_frame_len_def)

abbreviation held_piece :: "byte list option \<Rightarrow> byte list" where
  "held_piece pending \<equiv> (case pending of None \<Rightarrow> [] | Some p \<Rightarrow> p)"

definition content_of :: "byte list list \<Rightarrow> byte list" where
  "content_of reads = concat (takeWhile (\<lambda>r. r \<noteq> []) reads)"

text \<open>The chunks that a sealing loop wrote open to what its reader gave, and the last is final.\<close>

lemma open_last_chunk:
  assumes "aead_ok ae" "\<And>n. length (nonces n) = nonce_len" "length (held_piece pending) \<le> 65536"
    and "seal_loop ae nonces i pending [] s = Inr bytes"
  shows "\<exists>ch. open_frames b ae (bytes @ rest) (opener_at s) out = Inr (out @ held_piece pending, ch) \<and> op_finished ch"
proof -
  from assms(4) obtain frame s' where c: "seal_chunk ae (nonces i) (held_piece pending) True s = Inr (frame, s')"
    and b: "bytes = write_frame frame"
    by (auto simp: ok_iffs)
  note o = open_seal_chunk[OF assms(1,2) c]
  from open_frames_final[OF frame_fits[OF assms(3) o(2)] o(1)] show ?thesis
    by (simp add: opener_at_def b)
qed

lemma open_seal_loop:
  assumes "aead_ok ae" "\<And>n. length (nonces n) = nonce_len"
    and "seal_loop ae nonces i pending reads s = Inr bytes"
    and "\<forall>r \<in> set reads. length r \<le> 65536" "length (held_piece pending) \<le> 65536"
  shows "\<exists>ch. open_frames b ae (bytes @ rest) (opener_at s) out = Inr (out @ held_piece pending @ content_of reads, ch) \<and>
           op_finished ch"
  using assms(3-)
proof (induction reads arbitrary: i pending s bytes out)
  case Nil
  with open_last_chunk[OF assms(1,2) Nil(3) Nil(1)] show ?case by (simp add: content_of_def)
next
  case (Cons buf reads)
  show ?case
  proof (cases "buf = []")
    case True
    with Cons.prems open_last_chunk[OF assms(1,2), where pending = pending and i = i and s = s and bytes = bytes and out = out] show ?thesis
      by (simp add: content_of_def del: seal_loop.simps(1))
  next
    case False
    then have c: "content_of (buf # reads) = buf @ content_of reads" by (simp add: content_of_def)
    show ?thesis
    proof (cases pending)
      case None
      with False Cons.prems Cons.IH[of i "Some buf" s bytes out] show ?thesis by (simp add: c)
    next
      case (Some prev)
      with False Cons.prems(1) obtain frame s' more where f: "seal_chunk ae (nonces i) prev False s = Inr (frame, s')"
        and m: "seal_loop ae nonces (Suc i) (Some buf) reads s' = Inr more" and b: "bytes = write_frame frame @ more"
        by (auto simp: ok_iffs)
      note o = open_seal_chunk[OF assms(1,2) f]
      have "length prev \<le> 65536" using Cons.prems(3) Some by simp
      from open_frames_more[OF frame_fits[OF this o(2)] o(1), of b "more @ rest" out]
      have "open_frames b ae (bytes @ rest) (opener_at s) out = open_frames b ae (more @ rest) (opener_at s') (out @ prev)"
        by (simp add: opener_at_def b)
      with Cons.IH[OF m, of "out @ prev"] Cons.prems(2) show ?thesis by (simp add: c Some)
    qed
  qed
qed

subsection \<open>An artifact reads back\<close>

lemma get_stream_blob_of:
  assumes "aead_ok ae" "codec_ok cd" "provider_ok kp" "length rnd = nonce_len" "length dek = 32" "\<And>n. length (nonces n) = nonce_len"
    and "\<forall>r \<in> set reads. length r \<le> 65536"
    and "put_stream_blob ae cd kp rnd dek nonces reads = Inr raw"
  shows "get_blob ae cd kp raw = Inr (content_of reads)"
proof -
  from assms(8) obtain header s frames where n: "sealer_new cd kp rnd dek = Inr (header, s)"
    and f: "seal_loop ae nonces 0 None reads s = Inr frames"
    and raw: "raw = stream_blob_tag # (write_frame header @ frames)"
    by (auto simp: put_stream_blob_def ok_iffs)
  note h = opener_of_sealer[OF assms(2-5) n]
  have "length header \<le> max_frame_len" using h(3) by (simp add: max_frame_len_def)
  note hd = read_frame_write(1)[OF this, of frames]
  from open_seal_loop[OF assms(1,6) f assms(7), of True "[]" "[]"] obtain ch
    where "open_frames True ae frames (opener_at s) [] = Inr (content_of reads, ch)" "op_finished ch" by auto
  with hd h(1,2) show ?thesis
    by (simp add: get_blob_def decrypt_stream_blob_def raw crypto_def finished_out_def opener_at_def)
qed

lemma put_blob_of:
  assumes "aead_ok ae" "codec_ok cd" "provider_ok kp" "length rnd = nonce_len" "length dek = 32" "length nonce = nonce_len"
    and "put_blob ae cd kp rnd dek nonce bytes = Inr raw"
  shows "get_blob ae cd kp raw = Inr bytes"
proof -
  have e: "encrypt_envelope_bytes ae cd kp rnd dek nonce bytes = Inr raw" using assms(7) by (simp add: put_blob_def)
  then obtain w p where "raw = frame_head cd bin_tag (kp_id kp) w @ p"
    by (auto simp: encrypt_envelope_bytes_def ok_iffs split: if_splits)
  then have "take 1 raw \<noteq> [stream_blob_tag]" by (simp add: frame_head_def bin_tag_def stream_blob_tag_def)
  with bytes_round_trip[OF assms(1-3,6,5,4) e] show ?thesis by (simp add: get_blob_def crypto_def)
qed

subsection \<open>The two ways of reading\<close>

text \<open>The readers of a frame differ where fewer than four bytes are left, and some are.\<close>

lemma read_frame_sync_short: "length cur < 4 \<Longrightarrow> cur \<noteq> [] \<Longrightarrow> read_frame_sync cur = Inl Truncated_prefix"
  by (simp add: read_frame_sync_def)

lemma read_frame_agree: "cur = [] \<or> \<not> length cur < 4 \<Longrightarrow> read_frame_async cur = read_frame_sync cur"
  by (auto simp: read_frame_sync_def read_frame_async_def)

lemma open_chunk_flag: "open_chunk ae frame ch = Inr ((m, fin), ch') \<Longrightarrow> op_finished ch' = fin"
  by (auto simp: open_chunk_def ok_iffs Let_def split: if_splits)

abbreviation read_frame :: "bool \<Rightarrow> byte list \<Rightarrow> store_error + (byte list \<times> byte list) option" where
  "read_frame buffered cur \<equiv> if buffered then read_frame_sync cur else read_frame_async cur"

lemma open_frames_err: "read_frame b cur = Inl e \<Longrightarrow> open_frames b ae cur ch out = Inl e"
  and open_frames_end: "read_frame b cur = Inr None \<Longrightarrow> open_frames b ae cur ch out = Inr (out, ch)"
  and open_frames_bad: "read_frame b cur = Inr (Some (frame, rest)) \<Longrightarrow> open_chunk ae frame ch = Inl e' \<Longrightarrow>
    open_frames b ae cur ch out = Inl (Crypto e')"
  and open_frames_step: "read_frame b cur = Inr (Some (frame, rest)) \<Longrightarrow> open_chunk ae frame ch = Inr ((m, fin), ch') \<Longrightarrow>
    open_frames b ae cur ch out = (if fin then Inr (out @ m, ch') else open_frames b ae rest ch' (out @ m))"
  by (subst open_frames.simps, simp add: crypto_def)+

lemma open_frames_agree:
  "\<not> op_finished ch \<Longrightarrow>
   and_then (open_frames True ae cur ch out) finished_out = Inr x \<longleftrightarrow>
   and_then (open_frames False ae cur ch out) finished_out = Inr x"
proof (induction "length cur" arbitrary: cur ch out rule: less_induct)
  case less
  show ?case
  proof (cases "cur = [] \<or> \<not> length cur < 4")
    case True
    then have r: "read_frame b cur = read_frame_sync cur" for b by (simp add: read_frame_agree)
    show ?thesis
    proof (cases "read_frame_sync cur")
      case (Inl e)
      with r open_frames_err show ?thesis by metis
    next
      case fr: (Inr fr)
      show ?thesis
      proof (cases fr)
        case None
        with fr r open_frames_end show ?thesis by metis
      next
        case (Some p)
        obtain frame rest where p: "p = (frame, rest)" by force
        have f: "read_frame b cur = Inr (Some (frame, rest))" for b using r fr Some p by simp
        show ?thesis
        proof (cases "open_chunk ae frame ch")
          case (Inl e)
          with f open_frames_bad show ?thesis by metis
        next
          case (Inr q)
          obtain m fin ch' where q: "q = ((m, fin), ch')" by (metis prod.collapse)
          note step = open_frames_step[OF f Inr[unfolded q]]
          show ?thesis
          proof (cases fin)
            case False
            with open_chunk_flag Inr q have "\<not> op_finished ch'" by blast
            with less.hyps[of rest ch' "out @ m"] read_frame_shorter(1)[of cur frame rest] f[of True] False
            show ?thesis by (simp add: step)
          qed (simp add: step)
        qed
      qed
    qed
  next
    case False
    then have "open_frames True ae cur ch out = Inl Truncated_prefix" "open_frames False ae cur ch out = Inr (out, ch)"
      by (auto intro!: open_frames_err open_frames_end simp: read_frame_sync_short read_frame_async_def)
    with less.prems show ?thesis by (simp add: finished_out_def)
  qed
qed

lemma opener_new_open: "opener_new cd kp header = Inr ch \<Longrightarrow> \<not> op_finished ch"
  by (auto simp: opener_new_def ok_iffs)

lemma stream_read_agrees:
  "get_stream_blob ae cd kp raw = Inr x \<longleftrightarrow> raw = [] \<and> x = [] \<or> get_blob ae cd kp raw = Inr x"
proof (cases raw)
  case Nil
  have "get_blob ae cd kp [] \<noteq> Inr x"
    by (simp add: get_blob_def decrypt_envelope_bytes_def read_head_def take_bytes_def crypto_def)
  with Nil show ?thesis by (auto simp: get_stream_blob_def)
next
  case (Cons t cur)
  show ?thesis
  proof (cases "t = stream_blob_tag")
    case False
    with Cons show ?thesis by (simp add: get_stream_blob_def get_blob_def)
  next
    case True
    define after where "after = (\<lambda>b fr. case fr of None \<Rightarrow> Inl Missing_header
       | Some (header, rest) \<Rightarrow> and_then (crypto (opener_new cd kp header)) (\<lambda>ch.
           and_then (open_frames b ae rest ch []) finished_out))"
    have agree: "after False fr = Inr x \<longleftrightarrow> after True fr = Inr x" for fr
      using open_frames_agree[OF opener_new_open]
      by (auto simp: after_def and_then_Inr[of "crypto _"] crypto_Inr split: option.splits)
    have l: "get_stream_blob ae cd kp raw = and_then (read_frame_async cur) (after False)"
      and r: "get_blob ae cd kp raw = and_then (read_frame_sync cur) (after True)"
      using Cons True unfolding get_stream_blob_def get_blob_def decrypt_stream_blob_def after_def by simp_all
    show ?thesis
    proof (cases "cur = [] \<or> \<not> length cur < 4")
      case True
      with agree Cons show ?thesis unfolding l r by (cases "read_frame_sync cur") (simp_all add: read_frame_agree)
    next
      case False
      with Cons show ?thesis unfolding l r by (auto simp: read_frame_sync_short read_frame_async_def after_def)
    qed
  qed
qed

subsection \<open>Rotation\<close>

text \<open>A provider finds, at the head of an artifact, a key that it unwraps.\<close>

definition head_unwraps :: "codec \<Rightarrow> key_provider \<Rightarrow> byte \<Rightarrow> byte list \<Rightarrow> bool" where
  "head_unwraps cd kp tag buf = (case read_head cd tag (kp_id kp) buf of
     Inl _ \<Rightarrow> False | Inr (w, rest) \<Rightarrow> kp_unwrap kp w \<noteq> None)"

definition unwraps :: "codec \<Rightarrow> key_provider \<Rightarrow> byte list \<Rightarrow> bool" where
  "unwraps cd kp raw =
     (if take 1 raw = [stream_blob_tag]
      then (case read_frame_sync (tl raw) of Inr (Some (header, rest)) \<Rightarrow> head_unwraps cd kp stream_tag header | _ \<Rightarrow> False)
      else head_unwraps cd kp bin_tag raw)"

text \<open>No wrapped key is taken by both providers: they have other ids, or other keys.\<close>

definition tells_apart :: "key_provider \<Rightarrow> key_provider \<Rightarrow> bool" where
  "tells_apart old new \<longleftrightarrow>
     kp_id old \<noteq> kp_id new \<or> (\<forall>w. kp_unwrap new w \<noteq> None \<longrightarrow> kp_unwrap old w = None)"

lemma read_head_id:
  "read_head cd tag p buf = Inr x \<Longrightarrow> read_head cd tag q buf = Inr y \<Longrightarrow> p = q \<and> x = y"
  by (auto simp: read_head_def ok_iffs split: if_splits prod.splits)

lemma head_unwraps_one: "tells_apart old new \<Longrightarrow> head_unwraps cd old tag buf \<Longrightarrow> \<not> head_unwraps cd new tag buf"
  using read_head_id[of cd tag "kp_id old" buf _ "kp_id new"]
  by (fastforce simp: head_unwraps_def tells_apart_def split: sum.splits prod.splits)

lemma unwraps_one: "tells_apart old new \<Longrightarrow> unwraps cd old raw \<Longrightarrow> \<not> unwraps cd new raw"
  by (auto simp: unwraps_def split: sum.splits option.splits if_splits dest: head_unwraps_one)

lemma take_one: "take (Suc 0) raw = [t] \<longleftrightarrow> (\<exists>cur. raw = t # cur)"
  by (cases raw) auto

lemma opener_new_unwraps: "opener_new cd kp header = Inr ch \<Longrightarrow> head_unwraps cd kp stream_tag header"
  by (auto simp: opener_new_def head_unwraps_def ok_iffs unwrap_key_def)

lemma rewrap_header_unwraps: "rewrap_stream_header cd old new rnd header = Inr h \<Longrightarrow> head_unwraps cd old stream_tag header"
  by (auto simp: rewrap_stream_header_def head_unwraps_def ok_iffs unwrap_key_def split: if_splits)

lemma decrypt_bytes_unwraps: "decrypt_envelope_bytes ae cd kp raw = Inr v \<Longrightarrow> head_unwraps cd kp bin_tag raw"
  by (auto simp: decrypt_envelope_bytes_def head_unwraps_def ok_iffs unwrap_key_def)

lemma rewrap_bytes_unwraps: "rewrap_envelope_bytes cd old new rnd raw = Inr b \<Longrightarrow> head_unwraps cd old bin_tag raw"
  by (auto simp: rewrap_envelope_bytes_def head_unwraps_def ok_iffs unwrap_key_def split: if_splits)

text \<open>A streamed artifact read without an error has a header and, after it, frames.\<close>

lemma get_blob_stream:
  "get_blob ae cd kp (stream_blob_tag # cur) = Inr v \<longleftrightarrow>
     (\<exists>header rest ch. read_frame_sync cur = Inr (Some (header, rest)) \<and> opener_new cd kp header = Inr ch \<and>
        and_then (open_frames True ae rest ch []) finished_out = Inr v)"
  by (auto simp: get_blob_def decrypt_stream_blob_def and_then_Inr[of "read_frame_sync _"] and_then_Inr[of "crypto _"]
      crypto_Inr split: option.splits)

lemma rotate_blob_stream:
  "rotate_blob cd old new rnd (stream_blob_tag # cur) = Inr raw' \<longleftrightarrow>
     (\<exists>header rest header'. read_frame_sync cur = Inr (Some (header, rest)) \<and>
        rewrap_stream_header cd old new rnd header = Inr header' \<and>
        raw' = stream_blob_tag # (write_frame header' @ rest))"
  by (auto simp: rotate_blob_def rotate_stream_blob_def ok_iffs crypto_Inr split: option.splits)

lemma get_blob_unwraps:
  assumes "get_blob ae cd kp raw = Inr v"
  shows "unwraps cd kp raw"
proof (cases "\<exists>cur. raw = stream_blob_tag # cur")
  case True
  then obtain cur where raw: "raw = stream_blob_tag # cur" by blast
  with assms obtain header rest ch where "read_frame_sync cur = Inr (Some (header, rest))" "opener_new cd kp header = Inr ch"
    by (auto simp: get_blob_stream)
  with raw opener_new_unwraps show ?thesis by (simp add: unwraps_def)
next
  case False
  with assms show ?thesis
    by (auto simp: get_blob_def unwraps_def take_one crypto_Inr dest: decrypt_bytes_unwraps split: if_splits)
qed

lemma rotate_blob_unwraps:
  assumes "rotate_blob cd old new rnd raw = Inr raw'"
  shows "unwraps cd old raw"
proof (cases "\<exists>cur. raw = stream_blob_tag # cur")
  case True
  then obtain cur where raw: "raw = stream_blob_tag # cur" by blast
  with assms obtain header rest h where "read_frame_sync cur = Inr (Some (header, rest))"
    "rewrap_stream_header cd old new rnd header = Inr h"
    by (auto simp: rotate_blob_stream)
  with raw rewrap_header_unwraps show ?thesis by (simp add: unwraps_def)
next
  case False
  with assms show ?thesis
    by (auto simp: rotate_blob_def unwraps_def take_one crypto_Inr dest: rewrap_bytes_unwraps split: if_splits)
qed

lemma rotate_blob_keeps:
  assumes "codec_ok cd" "provider_ok old" "provider_ok new" "length rnd = nonce_len"
    and "get_blob ae cd old raw = Inr v" "rotate_blob cd old new rnd raw = Inr raw'"
  shows "get_blob ae cd new raw' = Inr v"
proof (cases "\<exists>cur. raw = stream_blob_tag # cur")
  case True
  then obtain cur where raw: "raw = stream_blob_tag # cur" by blast
  with assms(5,6) obtain header rest ch header' where ch: "opener_new cd old header = Inr ch"
    and o: "and_then (open_frames True ae rest ch []) finished_out = Inr v"
    and h': "rewrap_stream_header cd old new rnd header = Inr header'"
    and r': "raw' = stream_blob_tag # (write_frame header' @ rest)"
    by (auto simp: get_blob_stream rotate_blob_stream)
  note k = rewrap_header_keeps_opener[OF assms(1-4) ch h']
  have "length header' \<le> max_frame_len" using k(2) by (simp add: max_frame_len_def)
  from read_frame_write(1)[OF this, of rest] k(1) o show ?thesis
    unfolding r' get_blob_stream by blast
next
  case False
  with assms(5,6) have d: "decrypt_envelope_bytes ae cd old raw = Inr v"
    and r: "rewrap_envelope_bytes cd old new rnd raw = Inr raw'"
    by (auto simp: get_blob_def rotate_blob_def crypto_Inr take_one split: if_splits)
  from r have "take 1 raw' \<noteq> [stream_blob_tag]"
    by (auto simp: rewrap_envelope_bytes_def ok_iffs frame_head_def bin_tag_def stream_blob_tag_def split: if_splits)
  with rewrap_bytes_keeps_value[OF assms(1-4) d r] show ?thesis by (simp add: get_blob_def crypto_def)
qed

subsection \<open>A sweep\<close>

text \<open>
  What is stored under a key reads as \<open>v\<close> under one of the two providers: the invariant of a rotation
  under way.
\<close>

definition under_way :: "aead \<Rightarrow> codec \<Rightarrow> key_provider \<Rightarrow> key_provider \<Rightarrow> (string \<rightharpoonup> byte list) \<Rightarrow> blobs \<Rightarrow> bool" where
  "under_way ae cd old new arts st \<longleftrightarrow> dom st = dom arts \<and>
     (\<forall>k raw v. st k = Some raw \<and> arts k = Some v \<longrightarrow>
        get_blob ae cd old raw = Inr v \<or> get_blob ae cd new raw = Inr v)"

definition moved :: "aead \<Rightarrow> codec \<Rightarrow> key_provider \<Rightarrow> (string \<rightharpoonup> byte list) \<Rightarrow> blobs \<Rightarrow> string set \<Rightarrow> bool" where
  "moved ae cd new arts st ks \<longleftrightarrow>
     (\<forall>k raw v. k \<in> ks \<and> st k = Some raw \<and> arts k = Some v \<longrightarrow> get_blob ae cd new raw = Inr v)"

lemma moved_mono: "moved ae cd new arts st ks \<Longrightarrow> ks' \<subseteq> ks \<Longrightarrow> moved ae cd new arts st ks'"
  by (auto simp: moved_def)

lemma rotate_moves:
  assumes "codec_ok cd" "provider_ok old" "provider_ok new" "length rnd = nonce_len" "tells_apart old new"
    and "get_blob ae cd old raw = Inr v \<or> get_blob ae cd new raw = Inr v" "rotate_blob cd old new rnd raw = Inr raw'"
  shows "get_blob ae cd new raw' = Inr v"
  using rotate_blob_keeps[OF assms(1-4) _ assms(7)] assms(6) get_blob_unwraps
    unwraps_one[OF assms(5) rotate_blob_unwraps[OF assms(7)]] by blast

lemma rotate_skips:
  assumes "tells_apart old new" "get_blob ae cd old raw = Inr v \<or> get_blob ae cd new raw = Inr v"
    and "rotate_blob cd new new rnd raw = Inr raw'"
  shows "get_blob ae cd new raw = Inr v"
  using assms(2) get_blob_unwraps unwraps_one[OF assms(1)] rotate_blob_unwraps[OF assms(3)] by blast

lemma rotate_from_under_way:
  assumes "codec_ok cd" "provider_ok old" "provider_ok new" "tells_apart old new" "\<And>k. length (rnd k) = nonce_len"
    and "under_way ae cd old new arts st" "moved ae cd new arts st done_keys"
    and "rotate_from cd old new rnd gf pf ks st = (st', err)"
  shows "under_way ae cd old new arts st' \<and> moved ae cd new arts st' (done_keys \<union> (if err = None then set ks else {}))"
  using assms(6-)
proof (induction ks arbitrary: st done_keys)
  case Nil
  then show ?case by simp
next
  case (Cons k ks)
  note inv = Cons.prems(1)[unfolded under_way_def] and mv = Cons.prems(2)[unfolded moved_def]
  show ?case
  proof (cases "gf k \<or> st k = None")
    case True
    with Cons.prems show ?thesis by (auto split: if_splits option.splits)
  next
    case False
    then obtain raw where raw: "st k = Some raw" "\<not> gf k" by auto
    with inv obtain v where v: "arts k = Some v" "get_blob ae cd old raw = Inr v \<or> get_blob ae cd new raw = Inr v"
      by (metis domI domD)
    show ?thesis
    proof (cases "rotate_blob cd old new (rnd k) raw")
      case (Inr rotated)
      note new = rotate_moves[OF assms(1-3,5,4) v(2) Inr]
      show ?thesis
      proof (cases "pf k")
        case True
        with Cons.prems raw Inr show ?thesis by auto
      next
        case False
        have "under_way ae cd old new arts (st(k \<mapsto> rotated))"
          using inv new v raw by (auto simp: under_way_def)
        moreover have "moved ae cd new arts (st(k \<mapsto> rotated)) (insert k done_keys)"
          using mv new v by (auto simp: moved_def)
        moreover have "rotate_from cd old new rnd gf pf ks (st(k \<mapsto> rotated)) = (st', err)"
          using Cons.prems(3) False raw Inr by simp
        ultimately have "under_way ae cd old new arts st' \<and>
            moved ae cd new arts st' (insert k done_keys \<union> (if err = None then set ks else {}))"
          by (rule Cons.IH)
        then show ?thesis by (auto intro: moved_mono)
      qed
    next
      case (Inl e)
      show ?thesis
      proof (cases "rotate_blob cd new new (rnd k) raw")
        case (Inl e2)
        with Cons.prems raw \<open>rotate_blob cd old new (rnd k) raw = Inl e\<close> show ?thesis by auto
      next
        case (Inr same)
        from rotate_skips[OF assms(4) v(2) Inr] mv v raw have "moved ae cd new arts st (insert k done_keys)"
          by (auto simp: moved_def)
        moreover have "rotate_from cd old new rnd gf pf ks st = (st', err)"
          using Cons.prems(3) raw Inl Inr by simp
        ultimately have "under_way ae cd old new arts st' \<and>
            moved ae cd new arts st' (insert k done_keys \<union> (if err = None then set ks else {}))"
          using Cons.IH Cons.prems(1) by blast
        then show ?thesis by (auto intro: moved_mono)
      qed
    qed
  qed
qed

end
