(* ===== verification/Artifact_Seal.thy ===== *)
theory Artifact_Seal
  imports Artifact_Props
begin

text \<open>
  What an adversary in front of the encrypted store can do. The store beneath may hand back any
  bytes at all; the cipher and the provider are only trusted to accept what was made with them.
\<close>

subsection \<open>What was sealed\<close>

text \<open>An artifact written whole, or in the pieces that \<open>put_stream\<close> makes of what its reader yields.\<close>

datatype sealed_object = Whole "byte list" "byte list" | Chunked "byte list" "byte list list"

definition pieces_of :: "byte list list \<Rightarrow> byte list list" where
  "pieces_of reads = (case takeWhile (\<lambda>r. r \<noteq> []) reads of [] \<Rightarrow> [[]] | p # ps \<Rightarrow> p # ps)"

fun object_key :: "sealed_object \<Rightarrow> byte list" where
  "object_key (Whole dek m) = dek"
| "object_key (Chunked dek ps) = dek"

fun object_bytes :: "sealed_object \<Rightarrow> byte list" where
  "object_bytes (Whole dek m) = m"
| "object_bytes (Chunked dek ps) = concat ps"

text \<open>The associated data and the message of every encryption that writing it asks for.\<close>

fun object_seals :: "sealed_object \<Rightarrow> (byte list \<times> byte list) list" where
  "object_seals (Whole dek m) = [([], m)]"
| "object_seals (Chunked dek ps) =
     map (\<lambda>i. (chunk_aad (word_of_nat i) (Suc i = length ps), ps ! i)) [0 ..< length ps]"

lemma pieces_content: "concat (pieces_of reads) = content_of reads"
  by (simp add: pieces_of_def content_of_def split: list.splits)

text \<open>
  The loop from chunk \<open>i\<close> on asks for what is left of the list, its pending piece first.
\<close>

lemma seal_loop_asks:
  assumes "word_of_nat i = se_index s" "pending = Some p \<or> pending = None \<and> p = []"
    and "ps = takeWhile (\<lambda>r. r \<noteq> []) reads"
    and "qs = (if pending = None \<and> ps \<noteq> [] then ps else p # ps)"
    and "\<And>j n. j < length qs \<Longrightarrow>
       ae_encrypt ae (se_dek s) n (chunk_aad (word_of_nat (i + j)) (Suc j = length qs)) (qs ! j) =
       ae_encrypt ae' (se_dek s) n (chunk_aad (word_of_nat (i + j)) (Suc j = length qs)) (qs ! j)"
  shows "seal_loop ae nonces i pending reads s = seal_loop ae' nonces i pending reads s"
  using assms
proof (induction reads arbitrary: i pending p ps qs s)
  case Nil
  from Nil.prems(5)[of 0] Nil.prems(1-4) show ?case by (auto simp: seal_chunk_def)
next
  case (Cons buf reads)
  show ?case
  proof (cases "buf = []")
    case True
    from Cons.prems(5)[of 0] Cons.prems(1-4) True show ?thesis by (auto simp: seal_chunk_def)
  next
    case False
    let ?rest = "takeWhile (\<lambda>r. r \<noteq> []) reads"
    show ?thesis
    proof (cases pending)
      case None
      have qs: "qs = buf # ?rest" using Cons.prems(3,4) False None by simp
      have "seal_loop ae nonces i (Some buf) reads s = seal_loop ae' nonces i (Some buf) reads s"
        by (rule Cons.IH[where p = buf and qs = qs, OF Cons.prems(1) _ refl])
          (use Cons.prems(5) qs in simp_all)
      with False None show ?thesis by simp
    next
      case (Some q)
      then have q: "q = p" using Cons.prems(2) by simp
      have qs: "qs = p # buf # ?rest" using Cons.prems(3,4) False Some by simp
      have c: "seal_chunk ae (nonces i) q False s = seal_chunk ae' (nonces i) q False s"
        using Cons.prems(5)[of 0] Cons.prems(1) by (simp add: qs seal_chunk_def q)
      have "seal_loop ae nonces (Suc i) (Some buf) reads s' = seal_loop ae' nonces (Suc i) (Some buf) reads s'"
        if s': "s' = s\<lparr>se_index := se_index s + 1\<rparr>" for s'
      proof (rule Cons.IH[where p = buf and qs = "buf # ?rest", OF _ _ refl])
        show "word_of_nat (Suc i) = se_index s'" using Cons.prems(1) by (simp add: s')
      next
        fix j n
        assume "j < length (buf # ?rest)"
        with Cons.prems(5)[of "Suc j" n] show
          "ae_encrypt ae (se_dek s') n (chunk_aad (word_of_nat (Suc i + j)) (Suc j = length (buf # ?rest))) ((buf # ?rest) ! j) =
           ae_encrypt ae' (se_dek s') n (chunk_aad (word_of_nat (Suc i + j)) (Suc j = length (buf # ?rest))) ((buf # ?rest) ! j)"
          by (simp add: qs s')
      qed simp_all
      then have "and_then (seal_chunk ae' (nonces i) q False s) (\<lambda>(frame, s').
            map_ok (\<lambda>more. write_frame frame @ more) (seal_loop ae nonces (Suc i) (Some buf) reads s')) =
          and_then (seal_chunk ae' (nonces i) q False s) (\<lambda>(frame, s').
            map_ok (\<lambda>more. write_frame frame @ more) (seal_loop ae' nonces (Suc i) (Some buf) reads s'))"
        by (intro and_then_cong) (auto simp: seal_chunk_def ok_iffs)
      with False Some c show ?thesis by simp
    qed
  qed
qed

text \<open>So a streamed write asks the cipher for nothing but the seals of its pieces.\<close>

lemma put_stream_asks:
  assumes "\<And>a m n. (a, m) \<in> set (object_seals (Chunked dek (pieces_of reads))) \<Longrightarrow>
    ae_encrypt ae dek n a m = ae_encrypt ae' dek n a m"
  shows "put_stream_blob ae cd kp rnd dek nonces reads = put_stream_blob ae' cd kp rnd dek nonces reads"
proof -
  let ?ps = "takeWhile (\<lambda>r. r \<noteq> []) reads"
  have qs: "pieces_of reads = (if (None :: byte list option) = None \<and> ?ps \<noteq> [] then ?ps else [] # ?ps)"
    by (simp add: pieces_of_def split: list.splits)
  have asked: "ae_encrypt ae dek n (chunk_aad (word_of_nat j) (Suc j = length (pieces_of reads))) (pieces_of reads ! j) =
      ae_encrypt ae' dek n (chunk_aad (word_of_nat j) (Suc j = length (pieces_of reads))) (pieces_of reads ! j)"
    if "j < length (pieces_of reads)" for j n
    by (rule assms) (use that in auto)
  have "seal_loop ae nonces 0 None reads s = seal_loop ae' nonces 0 None reads s"
    if s: "s = \<lparr>se_dek = dek, se_index = 0\<rparr>" for s
    by (rule seal_loop_asks[where p = "[]" and qs = "pieces_of reads", OF _ _ refl qs])
      (use asked s in simp_all)
  then show ?thesis unfolding put_stream_blob_def
    by (intro and_then_cong) (auto simp: sealer_new_def ok_iffs split: if_splits)
qed

subsection \<open>What is accepted\<close>

text \<open>
  Every artifact has a data key of its own, the provider unwraps no other key, and under these keys
  the cipher accepts only what was sealed, with the associated data it was sealed with.
\<close>

definition authentic :: "aead \<Rightarrow> key_provider \<Rightarrow> sealed_object list \<Rightarrow> bool" where
  "authentic ae kp objs \<longleftrightarrow> distinct (map object_key objs) \<and>
     (\<forall>w d. kp_unwrap kp w = Some d \<longrightarrow> d \<in> object_key ` set objs) \<and>
     (\<forall>ob \<in> set objs. \<forall>n a c m. ae_decrypt ae (object_key ob) n a c = Some m \<longrightarrow> (a, m) \<in> set (object_seals ob))"

text \<open>A stream's index does not go round.\<close>

fun object_fits :: "sealed_object \<Rightarrow> bool" where
  "object_fits (Whole dek m) = True"
| "object_fits (Chunked dek ps) = (ps \<noteq> [] \<and> length ps \<le> 2 ^ 32)"

lemma chunk_aad_inj:
  assumes "chunk_aad v f = chunk_aad w g"
  shows "v = w \<and> f = g"
proof -
  from assms have "u32_le (unat v) = u32_le (unat w)" and f: "f = g"
    by (auto simp: chunk_aad_def split: if_splits)
  moreover have "unat v < 2 ^ 32" "unat w < 2 ^ 32" using unsigned_less[of v] unsigned_less[of w] by simp_all
  ultimately have "unat v = unat w" by (blast intro: u32_le_inj)
  with f show ?thesis by (simp add: word_unat_eq_iff)
qed

lemma chunk_aad_not_empty: "chunk_aad v f \<noteq> []"
  by (simp add: chunk_aad_def)

lemma word_of_nat_index:
  assumes "word_of_nat i = (word_of_nat j :: 32 word)" "i < 2 ^ 32" "j < 2 ^ 32"
  shows "i = j"
proof -
  have "unat (word_of_nat i :: 32 word) = i" "unat (word_of_nat j :: 32 word) = j"
    using assms(2,3) by (simp_all add: unsigned_of_nat take_bit_eq_mod)
  with assms(1) show ?thesis by metis
qed

text \<open>A chunk accepted at an index is the piece of that index, and final if the piece is the last.\<close>

lemma accepted_chunk:
  assumes "\<And>n a c m. ae_decrypt ae (op_dek ch) n a c = Some m \<Longrightarrow> (a, m) \<in> set (object_seals (Chunked dek ps))"
    and "i < length ps" "length ps \<le> 2 ^ 32" "op_index ch = word_of_nat i"
    and "open_chunk ae frame ch = Inr ((m, fin), ch')"
  shows "m = ps ! i \<and> fin = (Suc i = length ps) \<and> op_index ch' = word_of_nat (Suc i) \<and> op_dek ch' = op_dek ch"
proof -
  from assms(5) obtain n c where d: "ae_decrypt ae (op_dek ch) n (chunk_aad (op_index ch) fin) c = Some m"
    and ch': "ch' = ch\<lparr>op_index := op_index ch + 1, op_finished := fin\<rparr>"
    by (auto simp: open_chunk_def ok_iffs Let_def split: if_splits)
  from assms(1)[OF d] obtain j where j: "j < length ps" "m = ps ! j"
    and aad: "chunk_aad (op_index ch) fin = chunk_aad (word_of_nat j) (Suc j = length ps)"
    by auto
  from chunk_aad_inj[OF aad] assms(4) have "word_of_nat i = (word_of_nat j :: 32 word)" by simp
  then have "i = j" using assms(2,3) j(1) by (intro word_of_nat_index) simp_all
  with j chunk_aad_inj[OF aad] assms(4) show ?thesis by (simp add: ch')
qed

lemma whole_accepts_no_chunk:
  assumes "\<And>n a c m. ae_decrypt ae (op_dek ch) n a c = Some m \<Longrightarrow> (a, m) \<in> set (object_seals (Whole dek b))"
  shows "open_chunk ae frame ch \<noteq> Inr r"
  using assms chunk_aad_not_empty by (fastforce simp: open_chunk_def ok_iffs Let_def split: if_splits)

lemma frames_read_on:
  assumes "open_frames b ae cur ch out = Inr (got, ch')"
  shows "ch' = ch \<or> (\<exists>frame rest m fin ch2. read_frame b cur = Inr (Some (frame, rest)) \<and>
    open_chunk ae frame ch = Inr ((m, fin), ch2))"
proof (cases "read_frame b cur")
  case (Inl e)
  with assms open_frames_err show ?thesis by fastforce
next
  case (Inr fr)
  show ?thesis
  proof (cases fr)
    case None
    with Inr open_frames_end[of b cur ae ch out] assms show ?thesis by simp
  next
    case (Some p)
    then obtain frame rest where f: "read_frame b cur = Inr (Some (frame, rest))" using Inr by (cases p) simp
    show ?thesis
    proof (cases "open_chunk ae frame ch")
      case (Inl e)
      with open_frames_bad[OF f] assms show ?thesis by simp
    next
      case (Inr q)
      with f show ?thesis by (metis prod.collapse)
    qed
  qed
qed

lemma accepted_frames:
  assumes "\<And>n a c m. ae_decrypt ae dek n a c = Some m \<Longrightarrow> (a, m) \<in> set (object_seals (Chunked dek ps))"
    and "length ps \<le> 2 ^ 32"
    and "open_frames True ae cur ch out = Inr (got, ch')" "op_finished ch'" "\<not> op_finished ch"
    and "i < length ps" "op_index ch = word_of_nat i" "op_dek ch = dek" "out = concat (take i ps)"
  shows "got = concat ps"
  using assms(3-)
proof (induction "length cur" arbitrary: cur ch out i rule: less_induct)
  case less
  from frames_read_on[OF less.prems(1)] less.prems(2,3) obtain frame rest m fin ch2
    where fr: "read_frame True cur = Inr (Some (frame, rest))" and c: "open_chunk ae frame ch = Inr ((m, fin), ch2)"
    by blast
  have acc: "m = ps ! i \<and> fin = (Suc i = length ps) \<and> op_index ch2 = word_of_nat (Suc i) \<and> op_dek ch2 = op_dek ch"
    by (rule accepted_chunk[OF _ less.prems(4) assms(2) less.prems(5) c]) (use assms(1) less.prems(6) in simp)
  have out: "out @ m = concat (take (Suc i) ps)"
    using acc less.prems(4,7) by (simp add: take_Suc_conv_app_nth)
  show ?case
  proof (cases fin)
    case True
    with acc out less.prems(1) open_frames_step[OF fr c] show ?thesis by simp
  next
    case False
    have "length rest < length cur" using read_frame_shorter(1) fr by simp
    moreover have "open_frames True ae rest ch2 (out @ m) = Inr (got, ch')"
      using less.prems(1) open_frames_step[OF fr c] False by simp
    moreover have "\<not> op_finished ch2" using open_chunk_flag[OF c] False by simp
    moreover have "Suc i < length ps" using acc False less.prems(4) by simp
    ultimately show ?thesis using less.hyps[of rest ch2 "out @ m" "Suc i"] less.prems(2,6) acc out by simp
  qed
qed

text \<open>What is read under an authentic provider is an artifact that was sealed, and all of it.\<close>

lemma whole_read:
  assumes "authentic ae kp objs" "kp_unwrap kp w = Some dek"
  obtains ob where "ob \<in> set objs" "object_key ob = dek"
    and "\<And>n a c m. ae_decrypt ae dek n a c = Some m \<Longrightarrow> (a, m) \<in> set (object_seals ob)"
  using assms unfolding authentic_def by blast

lemma read_is_whole:
  assumes "authentic ae kp objs" "\<forall>ob \<in> set objs. object_fits ob" "get_blob ae cd kp raw = Inr v"
  shows "v \<in> object_bytes ` set objs"
proof (cases "\<exists>cur. raw = stream_blob_tag # cur")
  case True
  then obtain cur where raw: "raw = stream_blob_tag # cur" by blast
  with assms(3) obtain header rest ch where h: "opener_new cd kp header = Inr ch"
    and o: "and_then (open_frames True ae rest ch []) finished_out = Inr v"
    by (auto simp: get_blob_stream)
  from h obtain w dek where w: "kp_unwrap kp w = Some dek" and ch: "ch = \<lparr>op_dek = dek, op_index = 0, op_finished = False\<rparr>"
    by (auto simp: opener_new_def ok_iffs unwrap_key_def)
  from o obtain ch' where f: "open_frames True ae rest ch [] = Inr (v, ch')" "op_finished ch'"
    by (auto simp: and_then_Inr finished_out_def split: if_splits)
  from whole_read[OF assms(1) w] obtain ob where ob: "ob \<in> set objs" "object_key ob = dek"
    and only: "\<And>n a c m. ae_decrypt ae dek n a c = Some m \<Longrightarrow> (a, m) \<in> set (object_seals ob)" by blast
  show ?thesis
  proof (cases ob)
    case (Chunked d ps)
    with ob assms(2) have "d = dek" "ps \<noteq> []" "length ps \<le> 2 ^ 32" by auto
    with accepted_frames[OF only[unfolded Chunked \<open>d = dek\<close>] _ f, where i = 0] have "v = object_bytes ob"
      by (simp add: ch Chunked)
    with ob(1) show ?thesis by blast
  next
    case (Whole d b)
    have no: "open_chunk ae frame ch \<noteq> Inr r" for frame r
      by (rule whole_accepts_no_chunk[of _ _ d b]) (use only Whole ch in simp)
    from frames_read_on[OF f(1)] no have "ch' = ch" by blast
    with f(2) show ?thesis by (simp add: ch)
  qed
next
  case False
  with assms(3) have "decrypt_envelope_bytes ae cd kp raw = Inr v"
    by (auto simp: get_blob_def crypto_Inr take_one split: if_splits)
  then obtain w dek rest where w: "kp_unwrap kp w = Some dek" and o: "open_blob ae dek rest = Inr v"
    by (auto simp: decrypt_envelope_bytes_def ok_iffs unwrap_key_def)
  from o obtain n c where d: "ae_decrypt ae dek n [] c = Some v"
    by (auto simp: open_blob_def ok_iffs split: if_splits)
  obtain ob where ob: "ob \<in> set objs" "([], v) \<in> set (object_seals ob)"
    by (rule whole_read[OF assms(1) w]) (use d in blast)
  have "v = object_bytes ob"
  proof (cases ob)
    case (Chunked d' ps)
    with ob(2) obtain i where "[] = chunk_aad (word_of_nat i) (Suc i = length ps)" by auto
    with chunk_aad_not_empty show ?thesis by metis
  qed (use ob(2) in simp)
  with ob(1) show ?thesis by blast
qed

end
