(* ===== verification/Bundle.thy ===== *)
theory Bundle
  imports Crypto_Envelope
begin

text \<open>
  Signed workflow bundles (crates/dagron-crypto/src/bundle.rs): the trusted keys, the checks on a
  manifest and its files, and the reading of a bundle's directory. Ed25519, SHA-256, JSON and hex are
  parameters; a directory is a tree.
\<close>

record spec_entry =
  sp_path :: string
  sp_sha256 :: string

record manifest =
  mf_format :: string
  mf_name :: string
  mf_version :: string
  mf_created_at :: string
  mf_key_id :: "string option"
  mf_specs :: "spec_entry list"

record verified_bundle =
  vb_manifest :: manifest
  vb_manifest_bytes :: "byte list"
  vb_specs :: "(string \<times> string) list"
  vb_digest :: string

text \<open>A verifying key is its bytes; \<open>bl_key_ok\<close> is whether \<open>VerifyingKey::from_bytes\<close> takes them, and
  \<open>bl_verify\<close> is \<open>verify_strict\<close>, of a key, a message and a signature.\<close>

record bundle_lib =
  bl_codec :: codec
  bl_unhex :: "string \<Rightarrow> byte list option"
  bl_lossy :: "byte list \<Rightarrow> string"
  bl_sha256_hex :: "byte list \<Rightarrow> string"
  bl_key_ok :: "byte list \<Rightarrow> bool"
  bl_verify :: "byte list \<Rightarrow> byte list \<Rightarrow> byte list \<Rightarrow> bool"
  bl_parse :: "byte list \<Rightarrow> manifest option"

datatype path_error = Empty_path | Nul_or_backslash | Not_relative | Not_a_spec

datatype bundle_error =
    Key_not_readable nat
  | Key_not_valid nat
  | No_keys_named
  | Keys_not_set
  | No_trusted_keys
  | Signature_length nat
  | Not_signed_by_us
  | Manifest_not_readable
  | Unknown_format string
  | Unnamed_bundle
  | No_specs
  | Bad_entry_path string path_error
  | Malformed_sha256 string
  | Listed_twice string
  | Supplied_twice string
  | Not_listed string
  | File_missing string
  | Sha256_mismatch string
  | Spec_not_text string
  | Dir_is_link
  | Not_a_dir
  | Unreadable string
  | Through_link string
  | Not_a_file string
  | Signature_not_base64

subsection \<open>Trusted keys\<close>

definition key_len :: nat where "key_len = 32"

definition signature_len :: nat where "signature_len = 64"

definition decode_key_material :: "bundle_lib \<Rightarrow> string \<Rightarrow> byte list option" where
  "decode_key_material lib item =
     Option.bind (if length item = key_len * 2 \<and> list_all is_ascii_hexdigit item then bl_unhex lib item
                  else cd_unb64 (bl_codec lib) item)
       (\<lambda>bytes. if length bytes = key_len then Some bytes else None)"

text \<open>The items are numbered, the empty ones with them.\<close>

fun pubkeys_from :: "bundle_lib \<Rightarrow> nat \<Rightarrow> byte list list \<Rightarrow> string list \<Rightarrow> bundle_error + byte list list" where
  "pubkeys_from lib i keys [] = Inr keys"
| "pubkeys_from lib i keys (item # items) =
     (if item = [] then pubkeys_from lib (Suc i) keys items
      else (case decode_key_material lib item of
              None \<Rightarrow> Inl (Key_not_readable (Suc i))
            | Some bytes \<Rightarrow>
                if bl_key_ok lib bytes then pubkeys_from lib (Suc i) (keys @ [bytes]) items
                else Inl (Key_not_valid (Suc i))))"

definition parse_pubkeys :: "bundle_lib \<Rightarrow> string \<Rightarrow> bundle_error + byte list list" where
  "parse_pubkeys lib raw =
     and_then (pubkeys_from lib 0 [] (map trim (split_char (CHR '','') raw))) (\<lambda>keys.
     if keys = [] then Inl No_keys_named else Inr keys)"

definition pubkeys_from_env :: "bundle_lib \<Rightarrow> string option \<Rightarrow> bundle_error + byte list list" where
  "pubkeys_from_env lib var =
     (case var of
        Some raw \<Rightarrow> if trim raw \<noteq> [] then parse_pubkeys lib raw else Inl Keys_not_set
      | None \<Rightarrow> Inl Keys_not_set)"

subsection \<open>Paths\<close>

text \<open>
  \<open>Path::components\<close>: \<open>None\<close> where one of them is not a name (a root, a leading dot, two dots
  anywhere). Empty segments, and dots that do not lead, are passed over.
\<close>

definition normal_components :: "string \<Rightarrow> string list option" where
  "normal_components path =
     (let segs = split_char (CHR ''/'') path
      in if take 1 path = ''/'' \<or> take 1 segs = [''.''] \<or> ''..'' \<in> set segs then None
         else Some (filter (\<lambda>s. s \<noteq> [] \<and> s \<noteq> ''.'') segs))"

text \<open>\<open>Path::extension\<close> of a file's name.\<close>

definition name_extension :: "string \<Rightarrow> string option" where
  "name_extension name =
     (case rsplit_once (CHR ''.'') name of
        Some (stem, ext) \<Rightarrow> if stem = [] then None else Some ext
      | None \<Rightarrow> None)"

definition spec_name :: "string \<Rightarrow> bool" where
  "spec_name name = (name_extension name = Some ''yaml'' \<or> name_extension name = Some ''yml'')"

definition check_rel_path :: "string \<Rightarrow> path_error option" where
  "check_rel_path path =
     (if path = [] then Some Empty_path
      else if CHR 0x00 \<in> set path \<or> CHR 0x5C \<in> set path then Some Nul_or_backslash
      else (case normal_components path of
              None \<Rightarrow> Some Not_relative
            | Some names \<Rightarrow> if names \<noteq> [] \<and> spec_name (last names) then None else Some Not_a_spec))"

subsection \<open>Verifying\<close>

definition bundle_format :: string where "bundle_format = ''dagron.bundle.v1''"

definition check_entry :: "spec_entry \<Rightarrow> bundle_error option" where
  "check_entry e =
     (case check_rel_path (sp_path e) of
        Some why \<Rightarrow> Some (Bad_entry_path (sp_path e) why)
      | None \<Rightarrow> guard (length (sp_sha256 e) \<noteq> 64 \<or> \<not> list_all is_ascii_hexdigit (sp_sha256 e)) (Malformed_sha256 (sp_path e)))"

definition check_listing :: "spec_entry list \<Rightarrow> bundle_error option" where
  "check_listing specs = guard_seen check_entry sp_path (\<lambda>e. Listed_twice (sp_path e)) [] specs"

fun check_supplied :: "string list \<Rightarrow> string list \<Rightarrow> (string \<times> byte list) list \<Rightarrow> bundle_error option" where
  "check_supplied listed seen [] = None"
| "check_supplied listed seen ((path, bytes) # files) =
     (if path \<in> set seen then Some (Supplied_twice path)
      else if path \<notin> set listed then Some (Not_listed path)
      else check_supplied listed (path # seen) files)"

fun read_specs :: "bundle_lib \<Rightarrow> (string \<times> byte list) list \<Rightarrow> spec_entry list \<Rightarrow> bundle_error + (string \<times> string) list" where
  "read_specs lib files [] = Inr []"
| "read_specs lib files (e # es) =
     (case map_of files (sp_path e) of
        None \<Rightarrow> Inl (File_missing (sp_path e))
      | Some bytes \<Rightarrow>
          if \<not> eq_ignore_ascii_case (bl_sha256_hex lib bytes) (sp_sha256 e) then Inl (Sha256_mismatch (sp_path e))
          else (case cd_from_utf8 (bl_codec lib) bytes of
                  None \<Rightarrow> Inl (Spec_not_text (sp_path e))
                | Some content \<Rightarrow> map_ok (\<lambda>specs. (sp_path e, content) # specs) (read_specs lib files es)))"

definition check_manifest :: "manifest \<Rightarrow> bundle_error option" where
  "check_manifest m =
     (if mf_format m \<noteq> bundle_format then Some (Unknown_format (mf_format m))
      else if trim (mf_name m) = [] \<or> trim (mf_version m) = [] then Some Unnamed_bundle
      else if mf_specs m = [] then Some No_specs
      else check_listing (mf_specs m))"

definition verify_bundle ::
  "bundle_lib \<Rightarrow> byte list \<Rightarrow> byte list \<Rightarrow> (string \<times> byte list) list \<Rightarrow> byte list list \<Rightarrow> bundle_error + verified_bundle" where
  "verify_bundle lib manifest_bytes signature files keys =
     (if keys = [] then Inl No_trusted_keys
      else if length signature \<noteq> signature_len then Inl (Signature_length (length signature))
      else if \<not> list_ex (\<lambda>k. bl_verify lib k manifest_bytes signature) keys then Inl Not_signed_by_us
      else (case bl_parse lib manifest_bytes of
              None \<Rightarrow> Inl Manifest_not_readable
            | Some m \<Rightarrow>
                (case check_manifest m of
                   Some e \<Rightarrow> Inl e
                 | None \<Rightarrow>
                     (case check_supplied (map sp_path (mf_specs m)) [] files of
                        Some e \<Rightarrow> Inl e
                      | None \<Rightarrow>
                          map_ok (\<lambda>specs. \<lparr>vb_manifest = m, vb_manifest_bytes = manifest_bytes, vb_specs = specs,
                                           vb_digest = bl_sha256_hex lib manifest_bytes\<rparr>)
                            (read_specs lib files (mf_specs m))))))"

definition provenance :: "verified_bundle \<Rightarrow> string" where
  "provenance b = ''bundle:'' @ mf_name (vb_manifest b) @ ''@'' @ mf_version (vb_manifest b) @ ''#'' @ take 12 (vb_digest b)"

subsection \<open>A bundle's directory\<close>

text \<open>A directory's entries are in the order \<open>read_dir\<close> gives them.\<close>

datatype node = Regular "byte list" | Directory "(string \<times> node) list" | Link | Special

text \<open>\<open>read_within\<close>, of the components below the directory: a link is refused wherever it is on the way.\<close>

fun walk_within :: "string \<Rightarrow> node \<Rightarrow> string list \<Rightarrow> bundle_error + node" where
  "walk_within rel n [] = Inr n"
| "walk_within rel (Directory es) (c # cs) =
     (case map_of es c of
        None \<Rightarrow> Inl (Unreadable rel)
      | Some n \<Rightarrow> if n = Link then Inl (Through_link rel) else walk_within rel n cs)"
| "walk_within rel n (c # cs) = Inl (Unreadable rel)"

definition read_within :: "node \<Rightarrow> string \<Rightarrow> bundle_error + byte list" where
  "read_within dir rel =
     and_then (walk_within rel dir (case normal_components rel of Some cs \<Rightarrow> cs | None \<Rightarrow> [])) (\<lambda>n.
     case n of Regular bytes \<Rightarrow> Inr bytes | _ \<Rightarrow> Inl (Not_a_file rel))"

text \<open>\<open>collect_specs\<close>: below a directory, of which \<open>path_to\<close> is the path; links and hidden entries are
  passed over.\<close>

fun collect_specs :: "string list \<Rightarrow> node \<Rightarrow> string list" where
  "collect_specs path_to (Directory es) =
     concat (map (\<lambda>(name, n).
       if n = Link \<or> take 1 name = ''.'' then []
       else (case n of
               Directory es' \<Rightarrow> collect_specs (path_to @ [name]) n
             | _ \<Rightarrow> if spec_name name then [join ''/'' (path_to @ [name])] else [])) es)"
| "collect_specs path_to n = []"

fun read_listed :: "node \<Rightarrow> string list \<Rightarrow> spec_entry list \<Rightarrow> bundle_error + (string \<times> byte list) list" where
  "read_listed dir listed [] = Inr []"
| "read_listed dir listed (e # es) =
     (case check_rel_path (sp_path e) of
        Some why \<Rightarrow> Inl (Bad_entry_path (sp_path e) why)
      | None \<Rightarrow>
          if sp_path e \<in> set listed then Inl (Listed_twice (sp_path e))
          else and_then (read_within dir (sp_path e)) (\<lambda>bytes.
               map_ok (\<lambda>files. (sp_path e, bytes) # files) (read_listed dir (sp_path e # listed) es)))"

definition read_bundle_dir :: "bundle_lib \<Rightarrow> node \<Rightarrow> bundle_error + byte list \<times> byte list \<times> (string \<times> byte list) list" where
  "read_bundle_dir lib dir =
     (case dir of
        Link \<Rightarrow> Inl Dir_is_link
      | Directory es \<Rightarrow>
          and_then (read_within dir ''manifest.json'') (\<lambda>manifest.
          and_then (read_within dir ''manifest.sig'') (\<lambda>sig_text.
          and_then (or_err Signature_not_base64 (cd_unb64 (bl_codec lib) (trim (bl_lossy lib sig_text)))) (\<lambda>signature.
          and_then (or_err Manifest_not_readable (bl_parse lib manifest)) (\<lambda>listing.
          and_then (read_listed dir [] (mf_specs listing)) (\<lambda>files.
          case find (\<lambda>rel. rel \<notin> set (map sp_path (mf_specs listing))) (collect_specs [] dir) of
            Some rel \<Rightarrow> Inl (Not_listed rel)
          | None \<Rightarrow> Inr (manifest, signature, files))))))
      | _ \<Rightarrow> Inl Not_a_dir)"

definition verify_bundle_dir :: "bundle_lib \<Rightarrow> node \<Rightarrow> byte list list \<Rightarrow> bundle_error + verified_bundle" where
  "verify_bundle_dir lib dir keys =
     and_then (read_bundle_dir lib dir) (\<lambda>(manifest, sig, files). verify_bundle lib manifest sig files keys)"

end
