(* ===== verification/Bundle_Props.thy ===== *)
theory Bundle_Props
  imports Bundle
begin

text \<open>
  What a verified bundle is: what its signer signed, the listed files and no other, each with the
  hash that the manifest gives it.
\<close>

lemma check_supplied_None:
  "check_supplied listed seen files = None \<longleftrightarrow>
     distinct (map fst files) \<and> set (map fst files) \<inter> set seen = {} \<and> set (map fst files) \<subseteq> set listed"
proof (induction files arbitrary: seen)
  case (Cons f files)
  obtain p b where f: "f = (p, b)" by force
  show ?case using Cons.IH[of "p # seen"] by (auto simp: f)
qed simp

text \<open>Specs read, one after the other, in the order of the manifest.\<close>

definition spec_read :: "bundle_lib \<Rightarrow> (string \<times> byte list) list \<Rightarrow> spec_entry \<Rightarrow> string \<times> string \<Rightarrow> bool" where
  "spec_read lib files e s \<longleftrightarrow> fst s = sp_path e \<and>
     (\<exists>bytes. map_of files (sp_path e) = Some bytes \<and> eq_ignore_ascii_case (bl_sha256_hex lib bytes) (sp_sha256 e) \<and>
              cd_from_utf8 (bl_codec lib) bytes = Some (snd s))"

lemma read_specs_step:
  "read_specs lib files (e # es) = Inr specs \<longleftrightarrow>
     (\<exists>s more. specs = s # more \<and> spec_read lib files e s \<and> read_specs lib files es = Inr more)"
  by (auto simp: spec_read_def map_ok_Inr split: option.splits)

lemma read_specs_Inr: "read_specs lib files es = Inr specs \<longleftrightarrow> list_all2 (spec_read lib files) es specs"
proof (induction es arbitrary: specs)
  case Nil
  then show ?case by (cases specs) auto
next
  case (Cons e es)
  then show ?case by (simp add: read_specs_step list_all2_Cons1 del: read_specs.simps)
qed

text \<open>A check before a step.\<close>

lemma checked_Inr: "(case g of Some e \<Rightarrow> Inl e | None \<Rightarrow> r) = Inr x \<longleftrightarrow> g = None \<and> r = Inr x"
  by (cases g) auto

lemma check_manifest_None:
  "check_manifest m = None \<longleftrightarrow> mf_format m = bundle_format \<and> trim (mf_name m) \<noteq> [] \<and> trim (mf_version m) \<noteq> [] \<and>
     mf_specs m \<noteq> [] \<and> (\<forall>e \<in> set (mf_specs m). check_entry e = None) \<and> distinct (map sp_path (mf_specs m))"
  by (auto simp: check_manifest_def check_listing_def guard_seen_None)

lemma verify_bundle_Inr:
  "verify_bundle lib mb sig files keys = Inr b \<longleftrightarrow>
     length sig = signature_len \<and> (\<exists>k \<in> set keys. bl_verify lib k mb sig) \<and>
     bl_parse lib mb = Some (vb_manifest b) \<and> check_manifest (vb_manifest b) = None \<and>
     distinct (map fst files) \<and> set (map fst files) \<subseteq> set (map sp_path (mf_specs (vb_manifest b))) \<and>
     list_all2 (spec_read lib files) (mf_specs (vb_manifest b)) (vb_specs b) \<and>
     vb_manifest_bytes b = mb \<and> vb_digest b = bl_sha256_hex lib mb"
  by (cases b)
    (auto simp: verify_bundle_def list_ex_iff checked_Inr check_supplied_None map_ok_Inr read_specs_Inr split: option.splits)

lemma list_all2_paths: "list_all2 (spec_read lib files) es specs \<Longrightarrow> map fst specs = map sp_path es"
  by (induction rule: list_all2_induct) (auto simp: spec_read_def)

text \<open>The files supplied are the files listed.\<close>

lemma read_files_supplied:
  assumes "list_all2 (spec_read lib files) es specs"
  shows "set (map sp_path es) \<subseteq> set (map fst files)"
  using assms
  by (induction rule: list_all2_induct) (auto simp: spec_read_def dest!: map_of_SomeD intro: rev_image_eqI)

text \<open>Two file sets that fit one listing give the same specs, or two texts with one hash.\<close>

lemma eq_ignore_trans: "eq_ignore_ascii_case a c \<Longrightarrow> eq_ignore_ascii_case b c \<Longrightarrow> eq_ignore_ascii_case a b"
  by (simp add: eq_ignore_ascii_case_def)

definition collision :: "bundle_lib \<Rightarrow> byte list \<Rightarrow> byte list \<Rightarrow> bool" where
  "collision lib x y \<longleftrightarrow> x \<noteq> y \<and> eq_ignore_ascii_case (bl_sha256_hex lib x) (bl_sha256_hex lib y)"

lemma same_listing_same_specs:
  assumes "list_all2 (spec_read lib files) es specs" "list_all2 (spec_read lib files') es specs'"
  shows "specs = specs' \<or> (\<exists>(p, x) \<in> set files. \<exists>(p', y) \<in> set files'. collision lib x y)"
  using assms
proof (induction es arbitrary: specs specs')
  case (Cons e es)
  from Cons.prems obtain s more s' more' where sp: "specs = s # more" "specs' = s' # more'"
    and s: "spec_read lib files e s" "spec_read lib files' e s'"
    and m: "list_all2 (spec_read lib files) es more" "list_all2 (spec_read lib files') es more'"
    by (auto simp: list_all2_Cons1)
  from s obtain x y where x: "map_of files (sp_path e) = Some x" "map_of files' (sp_path e) = Some y"
    and h: "eq_ignore_ascii_case (bl_sha256_hex lib x) (bl_sha256_hex lib y)"
    and t: "cd_from_utf8 (bl_codec lib) x = Some (snd s)" "cd_from_utf8 (bl_codec lib) y = Some (snd s')"
    by (auto simp: spec_read_def intro: eq_ignore_trans)
  show ?case
  proof (cases "x = y")
    case True
    with t s have "s = s'" by (auto simp: spec_read_def prod_eq_iff)
    with Cons.IH[OF m] sp show ?thesis by auto
  next
    case False
    with h have "collision lib x y" by (simp add: collision_def)
    with map_of_SomeD[OF x(1)] map_of_SomeD[OF x(2)] show ?thesis by blast
  qed
qed auto

subsection \<open>A directory\<close>

lemma find_None: "find P xs = None \<longleftrightarrow> (\<forall>x \<in> set xs. \<not> P x)"
  by (auto simp: find_None_iff)

lemma read_listed_Inr:
  "read_listed dir seen es = Inr files \<Longrightarrow>
   list_all2 (\<lambda>e (p, bytes). p = sp_path e \<and> check_rel_path p = None \<and> read_within dir p = Inr bytes) es files"
  by (induction es arbitrary: seen files)
    (auto simp: and_then_Inr map_ok_Inr list_all2_Cons1 split: option.splits if_splits)

text \<open>A walk that arrives has met no link, and ends where the tree has its file.\<close>

fun reaches :: "node \<Rightarrow> string list \<Rightarrow> node \<Rightarrow> bool" where
  "reaches n [] m = (m = n)"
| "reaches (Directory es) (c # cs) m = (\<exists>n. map_of es c = Some n \<and> n \<noteq> Link \<and> reaches n cs m)"
| "reaches n (c # cs) m = False"

lemma walk_reaches: "walk_within rel n cs = Inr m \<longleftrightarrow> reaches n cs m"
  by (induction rel n cs rule: walk_within.induct) (auto split: option.splits)

lemma regular_Inr: "(case n of Regular bytes \<Rightarrow> Inr bytes | Directory es \<Rightarrow> Inl e | Link \<Rightarrow> Inl e | Special \<Rightarrow> Inl e) = Inr x
    \<longleftrightarrow> n = Regular x"
  by (cases n) auto

lemma read_within_Inr:
  "read_within dir p = Inr bytes \<longleftrightarrow>
     reaches dir (case normal_components p of Some cs \<Rightarrow> cs | None \<Rightarrow> []) (Regular bytes)"
  by (simp add: read_within_def and_then_Inr walk_reaches regular_Inr)

lemma read_bundle_dir_Inr:
  assumes "read_bundle_dir lib dir = Inr (mb, sig, files)"
  shows "\<exists>listing. bl_parse lib mb = Some listing \<and>
     (\<forall>rel \<in> set (collect_specs [] dir). rel \<in> set (map sp_path (mf_specs listing))) \<and>
     (\<forall>(p, bytes) \<in> set files. read_within dir p = Inr bytes)"
proof (cases dir)
  case (Directory es)
  with assms obtain listing where l: "bl_parse lib mb = Some listing" "read_listed dir [] (mf_specs listing) = Inr files"
    and f: "find (\<lambda>rel. rel \<notin> set (map sp_path (mf_specs listing))) (collect_specs [] dir) = None"
    by (auto simp: read_bundle_dir_def and_then_Inr or_err_def simp del: collect_specs.simps split: option.splits)
  have "\<forall>(p, bytes) \<in> set files. read_within dir p = Inr bytes"
    using read_listed_Inr[OF l(2)] by (fastforce simp: list_all2_conv_all_nth in_set_conv_nth split: prod.splits)
  with l(1) f show ?thesis unfolding find_None by blast
qed (use assms in \<open>simp_all add: read_bundle_dir_def\<close>)

end
