(* ===== verification/Sealing_Props.thy ===== *)
theory Sealing_Props
  imports Artifact_Seal Bundle_Props Secrets
begin

text \<open>
  The properties of what is encrypted and what is signed: stored secrets, artifacts, the rotation of
  their keys, and workflow bundles.
\<close>

subsection \<open>Secrets\<close>

text \<open>
  \<open>routes/environments.rs\<close>: a secret is written with the provider where there is one, else with the
  key of the process; \<open>None\<close> is a key that is not set.
\<close>

definition seal_secret ::
  "aead \<Rightarrow> codec \<Rightarrow> key_provider option \<Rightarrow> byte list option \<Rightarrow> byte list \<Rightarrow> byte list \<Rightarrow> byte list \<Rightarrow> string \<Rightarrow>
   crypto_error + string" where
  "seal_secret ae cd provider key rnd dek nonce v =
     (case provider of
        Some kp \<Rightarrow> encrypt_envelope ae cd kp rnd dek nonce v
      | None \<Rightarrow> (case key of None \<Rightarrow> Inl Not_set | Some k \<Rightarrow> encrypt_v1 ae cd k nonce v))"

definition ok_option :: "'e + 'a \<Rightarrow> 'a option" where
  "ok_option r = (case r of Inl _ \<Rightarrow> None | Inr x \<Rightarrow> Some x)"

text \<open>The decryptors of a process with this key and this provider.\<close>

definition process_decryptors :: "aead \<Rightarrow> codec \<Rightarrow> key_provider option \<Rightarrow> byte list option \<Rightarrow> decryptors" where
  "process_decryptors ae cd provider key =
     \<lparr>dc_legacy = map_option (\<lambda>k s. ok_option (decrypt_v1 ae cd k s)) key,
      dc_provider = map_option (\<lambda>kp s. ok_option (decrypt_envelope ae cd kp s)) provider,
      dc_build_error = None\<rparr>"

lemma ok_option_Some: "ok_option r = Some x \<longleftrightarrow> r = Inr x"
  by (auto simp: ok_option_def split: sum.splits)

lemma version_of_v1: "encrypt_v1 ae cd k nonce v = Inr s \<Longrightarrow> version_of s = Some ''v1''"
  by (auto simp: encrypt_v1_def ok_iffs version_of_def starts_with_def)

lemma version_of_v2: "encrypt_envelope ae cd kp rnd dek nonce v = Inr s \<Longrightarrow> version_of s = Some ''v2''"
  by (auto simp: encrypt_envelope_def ok_iffs version_of_def starts_with_def split: if_splits)

subsection \<open>Sweeps\<close>

record sweep =
  sw_rnd :: "string \<Rightarrow> byte list"
  sw_get_fails :: "string \<Rightarrow> bool"
  sw_put_fails :: "string \<Rightarrow> bool"
  sw_keys :: "string list"

text \<open>Sweeps one after the other, each stopped where it fails.\<close>

fun run_sweeps :: "codec \<Rightarrow> key_provider \<Rightarrow> key_provider \<Rightarrow> sweep list \<Rightarrow> blobs \<Rightarrow> blobs" where
  "run_sweeps cd old new [] st = st"
| "run_sweeps cd old new (w # ws) st =
     run_sweeps cd old new ws
       (fst (rotate_from cd old new (sw_rnd w) (sw_get_fails w) (sw_put_fails w) (sw_keys w) st))"

lemma run_sweeps_under_way:
  assumes "codec_ok cd" "provider_ok old" "provider_ok new" "tells_apart old new"
    and "\<forall>w \<in> set ws. \<forall>k. length (sw_rnd w k) = nonce_len" "under_way ae cd old new arts st"
  shows "under_way ae cd old new arts (run_sweeps cd old new ws st)"
  using assms(5,6)
proof (induction ws arbitrary: st)
  case (Cons w ws)
  obtain st' err where r: "rotate_from cd old new (sw_rnd w) (sw_get_fails w) (sw_put_fails w) (sw_keys w) st = (st', err)"
    by force
  have "under_way ae cd old new arts st'"
    using rotate_from_under_way[OF assms(1-4) _ Cons.prems(2) _ r, of "{}"] Cons.prems(1) by (simp add: moved_def)
  with Cons r show ?case by simp
qed simp

text \<open>A provider that wraps whatever key it is given, and whose id fits the frame.\<close>

definition always_wraps :: "codec \<Rightarrow> key_provider \<Rightarrow> bool" where
  "always_wraps cd kp \<longleftrightarrow> length (cd_utf8 cd (kp_id kp)) \<le> 255 \<and> (\<forall>rnd dek. kp_wrap kp rnd dek \<noteq> None)"

lemma rotate_blob_succeeds:
  assumes "always_wraps cd new" "get_blob ae cd old raw = Inr v"
  shows "\<exists>raw'. rotate_blob cd old new rnd raw = Inr raw'"
proof -
  have w: "\<exists>x. wrap_key new rnd dek = Inr x" for dek
    using assms(1) by (auto simp: wrap_key_def or_err_def always_wraps_def split: option.splits)
  have short: "\<not> id_too_long cd new" using assms(1) by (simp add: id_too_long_def always_wraps_def)
  show ?thesis
  proof (cases "\<exists>cur. raw = stream_blob_tag # cur")
    case True
    then obtain cur where raw: "raw = stream_blob_tag # cur" by blast
    with assms(2) obtain header rest ch where fr: "read_frame_sync cur = Inr (Some (header, rest))"
      and ch: "opener_new cd old header = Inr ch" by (auto simp: get_blob_stream)
    from ch obtain wr rs dek where "read_head cd stream_tag (kp_id old) header = Inr (wr, rs)" "unwrap_key old wr = Inr dek"
      by (auto simp: opener_new_def ok_iffs)
    with w[of dek] short obtain h where "rewrap_stream_header cd old new rnd header = Inr h"
      by (auto simp: rewrap_stream_header_def)
    with fr raw show ?thesis by (simp add: rotate_blob_stream)
  next
    case False
    with assms(2) have "decrypt_envelope_bytes ae cd old raw = Inr v"
      by (auto simp: get_blob_def crypto_Inr take_one split: if_splits)
    then obtain wr rs dek where "read_head cd bin_tag (kp_id old) raw = Inr (wr, rs)" "unwrap_key old wr = Inr dek"
      by (auto simp: decrypt_envelope_bytes_def ok_iffs)
    with w[of dek] short obtain b where "rewrap_envelope_bytes cd old new rnd raw = Inr b"
      by (auto simp: rewrap_envelope_bytes_def)
    with False show ?thesis by (auto simp: rotate_blob_def take_one crypto_Inr)
  qed
qed

lemma rotate_from_completes:
  assumes "codec_ok cd" "provider_ok old" "provider_ok new" "tells_apart old new" "\<And>k. length (rnd k) = nonce_len"
    and "always_wraps cd new" "under_way ae cd old new arts st" "set ks \<subseteq> dom st"
  shows "snd (rotate_from cd old new rnd (\<lambda>_. False) (\<lambda>_. False) ks st) = None"
  using assms(7,8)
proof (induction ks arbitrary: st)
  case (Cons k ks)
  from Cons.prems obtain raw v where raw: "st k = Some raw" "arts k = Some v"
    and v: "get_blob ae cd old raw = Inr v \<or> get_blob ae cd new raw = Inr v"
    unfolding under_way_def by (metis domD insert_subset list.simps(15))
  show ?case
  proof (cases "rotate_blob cd old new (rnd k) raw")
    case (Inr rotated)
    have "get_blob ae cd new rotated = Inr v"
      by (rule rotate_moves[OF assms(1-3,5,4) v Inr])
    with Cons.prems raw have u: "under_way ae cd old new arts (st(k \<mapsto> rotated))" "set ks \<subseteq> dom (st(k \<mapsto> rotated))"
      by (auto simp: under_way_def)
    have "rotate_from cd old new rnd (\<lambda>_. False) (\<lambda>_. False) (k # ks) st =
        rotate_from cd old new rnd (\<lambda>_. False) (\<lambda>_. False) ks (st(k \<mapsto> rotated))"
      using raw Inr by (simp del: fun_upd_apply)
    with Cons.IH[OF u] show ?thesis by metis
  next
    case (Inl e)
    with v rotate_blob_succeeds[OF assms(6), of ae old raw v "rnd k"] have "get_blob ae cd new raw = Inr v" by auto
    with rotate_blob_succeeds[OF assms(6)] obtain raw' where "rotate_blob cd new new (rnd k) raw = Inr raw'" by blast
    with Cons raw Inl show ?thesis by simp
  qed
qed simp

subsection \<open>Instances\<close>

text \<open>A base64 of sixteen letters, and a cipher whose tag is of its key, for the witnesses.\<close>

fun letters_to_bytes :: "string \<Rightarrow> byte list option" where
  "letters_to_bytes [] = Some []"
| "letters_to_bytes [a] = None"
| "letters_to_bytes (a # b # s) =
     map_option ((#) (word_of_nat ((of_char a - 65) * 16 + (of_char b - 65)))) (letters_to_bytes s)"

definition example_codec :: codec where
  "example_codec =
     \<lparr>cd_b64 = (\<lambda>bs. concat (map (\<lambda>b. [char_of (65 + unat b div 16), char_of (65 + unat b mod 16)]) bs)),
      cd_unb64 = letters_to_bytes,
      cd_utf8 = map (\<lambda>c. word_of_nat (of_char c)),
      cd_from_utf8 = (\<lambda>bs. Some (map (\<lambda>b. char_of (unat b)) bs))\<rparr>"

definition example_aead :: aead where
  "example_aead =
     \<lparr>ae_encrypt = (\<lambda>k n a m. Some (m @ replicate 16 (sum_list k))),
      ae_decrypt = (\<lambda>k n a c.
        if 16 \<le> length c \<and> drop (length c - 16) c = replicate 16 (sum_list k) then Some (take (length c - 16) c) else None)\<rparr>"

lemma example_aead_ok: "aead_ok example_aead"
  by (simp add: aead_ok_def example_aead_def)

lemma half_byte: "unat (b :: byte) div 16 < 16"
proof -
  have "unat b < 256" using unsigned_less[of b] by simp
  then show ?thesis by (simp add: less_mult_imp_div_less)
qed

lemma letters_of_bytes: "letters_to_bytes (cd_b64 example_codec bs) = Some bs"
proof (induction bs)
  case (Cons b bs)
  have "unat b div 16 < 16" by (rule half_byte)
  then have "of_char (char_of (65 + unat b div 16) :: char) = 65 + unat b div 16"
    "of_char (char_of (65 + unat b mod 16) :: char) = 65 + unat b mod 16" by (simp_all)
  with Cons show ?case by (simp add: example_codec_def)
qed (simp add: example_codec_def)

lemma example_codec_ok: "codec_ok example_codec"
proof -
  have "CHR '':'' \<noteq> char_of (65 + n)" if "n < 16" for n :: nat
  proof
    assume "CHR '':'' = char_of (65 + n)"
    then have "of_char CHR '':'' = (of_char (char_of (65 + n) :: char) :: nat)" by simp
    with that show False by simp
  qed
  then have "CHR '':'' \<notin> set (cd_b64 example_codec bs)" for bs
    using half_byte by (auto simp: example_codec_def)
  moreover have "cd_from_utf8 example_codec (cd_utf8 example_codec s) = Some s" for s
    by (simp add: example_codec_def unsigned_of_nat take_bit_eq_mod o_def)
  moreover have "cd_unb64 example_codec (cd_b64 example_codec bs) = Some bs" for bs
    using letters_of_bytes by (simp add: example_codec_def)
  ultimately show ?thesis by (simp add: codec_ok_def)
qed

abbreviation example_old :: key_provider where
  "example_old \<equiv> local_provider example_aead [1] ''a''"

abbreviation example_new :: key_provider where
  "example_new \<equiv> local_provider example_aead [2] ''b''"

abbreviation twelve :: "byte list" where "twelve \<equiv> replicate 12 0"

lemmas example_providers_ok = local_provider_ok[OF example_aead_ok]

definition example_secret :: string where
  "example_secret = projr (seal_secret example_aead example_codec (Some example_old) None twelve (replicate 32 7) twelve ''v'')"

definition example_stream_blob :: "byte list" where
  "example_stream_blob = projr (put_stream_blob example_aead example_codec example_old twelve (replicate 32 7) (\<lambda>_. twelve) [[1], [2, 3]])"

definition example_blob :: "byte list" where
  "example_blob = projr (put_blob example_aead example_codec example_old twelve (replicate 32 7) twelve [4, 5])"

lemma example_sealed:
  "seal_secret example_aead example_codec (Some example_old) None twelve (replicate 32 7) twelve ''v'' = Inr example_secret"
  "put_stream_blob example_aead example_codec example_old twelve (replicate 32 7) (\<lambda>_. twelve) [[1], [2, 3]] = Inr example_stream_blob"
  "put_blob example_aead example_codec example_old twelve (replicate 32 7) twelve [4, 5] = Inr example_blob"
  by (simp_all add: example_secret_def example_stream_blob_def example_blob_def seal_secret_def encrypt_envelope_def
      put_stream_blob_def put_blob_def encrypt_envelope_bytes_def sealer_new_def id_too_long_def seal_def seal_chunk_def
      wrap_key_def or_err_def local_provider_def example_aead_def example_codec_def)

lemma example_blob_reads: "get_blob example_aead example_codec example_old example_blob = Inr [4, 5]"
  by (rule put_blob_of[OF example_aead_ok example_codec_ok example_providers_ok _ _ _ example_sealed(3)])
    (simp_all add: nonce_len_def)

text \<open>A cipher and a provider that accept what some artifacts were sealed with, and nothing else.\<close>

definition table_aead :: "sealed_object list \<Rightarrow> aead" where
  "table_aead objs =
     \<lparr>ae_encrypt = (\<lambda>k n a m. Some m),
      ae_decrypt = (\<lambda>k n a c. case find (\<lambda>ob. object_key ob = k) objs of
        Some ob \<Rightarrow> if (a, c) \<in> set (object_seals ob) then Some c else None | None \<Rightarrow> None)\<rparr>"

definition table_provider :: "sealed_object list \<Rightarrow> key_provider" where
  "table_provider objs =
     \<lparr>kp_id = ''p'', kp_wrap = (\<lambda>rnd dek. Some dek),
      kp_unwrap = (\<lambda>w. if w \<in> set (map object_key objs) then Some w else None)\<rparr>"

lemma find_object_key: "distinct (map object_key objs) \<Longrightarrow> ob \<in> set objs \<Longrightarrow> find (\<lambda>x. object_key x = object_key ob) objs = Some ob"
  by (induction objs) (auto simp: image_iff)

lemma table_authentic: "distinct (map object_key objs) \<Longrightarrow> authentic (table_aead objs) (table_provider objs) objs"
  by (auto simp: authentic_def table_aead_def table_provider_def find_object_key split: if_splits)

definition example_objects :: "sealed_object list" where
  "example_objects = [Chunked [1] [[5], [6]], Whole [2] [7]]"

definition example_raw :: "byte list" where
  "example_raw = [3] @ write_frame (frame_head example_codec stream_tag ''p'' [1]) @ write_frame ([0] @ twelve @ [5]) @
     write_frame ([1] @ twelve @ [6])"

lemma example_raw_read:
  "get_stream_blob (table_aead example_objects) example_codec (table_provider example_objects) example_raw = Inr [5, 6]"
  by code_simp

text \<open>A library of signatures that takes one key and one message.\<close>

definition example_lib :: bundle_lib where
  "example_lib =
     \<lparr>bl_codec = example_codec, bl_unhex = (\<lambda>s. None), bl_lossy = map (\<lambda>b. char_of (unat b)),
      bl_sha256_hex = (\<lambda>b. replicate 64 (if b = [65] then CHR ''a'' else CHR ''b'')),
      bl_key_ok = (\<lambda>k. True), bl_verify = (\<lambda>k m s. k = [9] \<and> m = [1]),
      bl_parse = (\<lambda>b. Some \<lparr>mf_format = bundle_format, mf_name = ''n'', mf_version = ''1'', mf_created_at = [],
        mf_key_id = None, mf_specs = [\<lparr>sp_path = ''d/a.yaml'', sp_sha256 = replicate 64 CHR ''A''\<rparr>]\<rparr>)\<rparr>"

definition example_dir :: node where
  "example_dir = Directory
     [(''manifest.json'', Regular [1]), (''manifest.sig'', Regular (replicate 128 65)),
      (''d'', Directory [(''a.yaml'', Regular [65]), (''b.yaml'', Link)])]"

definition example_bundle :: verified_bundle where
  "example_bundle = projr (verify_bundle example_lib [1] (replicate 64 0) [(''d/a.yaml'', [65])] [[9]])"

lemma example_bundle_verifies:
  "verify_bundle example_lib [1] (replicate 64 0) [(''d/a.yaml'', [65])] [[9]] = Inr example_bundle"
  by code_simp

lemma example_dir_verifies: "verify_bundle_dir example_lib example_dir [[9]] = Inr example_bundle"
  by code_simp

subsection \<open>Properties\<close>

text \<open>C38. A secret reads back.\<close>

theorem stored_secret_reads_back:
  assumes "aead_ok ae" "codec_ok cd" "\<And>kp. provider = Some kp \<Longrightarrow> provider_ok kp"
    and "length rnd = nonce_len" "length dek = 32" "length nonce = nonce_len"
    and "provider = None \<or> provider = provider'"
    and "seal_secret ae cd provider key rnd dek nonce v = Inr s"
  shows "decrypt_secret_value s (process_decryptors ae cd provider' key) name = Inr v"
proof (cases provider)
  case None
  with assms(8) obtain k where k: "key = Some k" and e: "encrypt_v1 ae cd k nonce v = Inr s"
    by (auto simp: seal_secret_def split: option.splits)
  with v1_round_trip[OF assms(1,2,6) e] version_of_v1[OF e] show ?thesis
    by (simp add: decrypt_secret_value_def process_decryptors_def ok_option_def)
next
  case (Some kp)
  with assms(8) have e: "encrypt_envelope ae cd kp rnd dek nonce v = Inr s" by (simp add: seal_secret_def)
  from envelope_round_trip[OF assms(1,2) assms(3)[OF Some] assms(6,5,4) e] version_of_v2[OF e] assms(7) Some
  show ?thesis by (auto simp: decrypt_secret_value_def process_decryptors_def ok_option_def)
qed

theorem stored_secret_reads_back_witness:
  "decrypt_secret_value example_secret (process_decryptors example_aead example_codec (Some example_old) None) ''n'' = Inr ''v''"
  by (rule stored_secret_reads_back[OF example_aead_ok example_codec_ok _ _ _ _ _ example_sealed(1)])
    (auto simp: nonce_len_def example_providers_ok)

text \<open>C39. An artifact reads back.\<close>

theorem artifact_reads_back:
  assumes "aead_ok ae" "codec_ok cd" "provider_ok kp" "length rnd = nonce_len" "length dek = 32"
    and "\<And>n. length (nonces n) = nonce_len" "\<forall>r \<in> set bufs. length r \<le> 65536"
    and "put_stream_blob ae cd kp rnd dek nonces bufs = Inr raw"
    and "put_blob ae cd kp rnd dek (nonces 0) bytes = Inr raw'"
  shows "get_blob ae cd kp raw = Inr (content_of bufs) \<and> get_stream_blob ae cd kp raw = Inr (content_of bufs) \<and>
    get_blob ae cd kp raw' = Inr bytes \<and> get_stream_blob ae cd kp raw' = Inr bytes"
proof -
  from get_stream_blob_of[OF assms(1-8)] put_blob_of[OF assms(1-5) assms(6) assms(9)]
  show ?thesis by (simp add: stream_read_agrees)
qed

theorem artifact_reads_back_witness:
  "get_stream_blob example_aead example_codec example_old example_stream_blob = Inr [1, 2, 3] \<and>
   get_blob example_aead example_codec example_old example_blob = Inr [4, 5]"
  using artifact_reads_back[OF example_aead_ok example_codec_ok example_providers_ok _ _ _ _ example_sealed(2,3)]
  by (simp add: nonce_len_def content_of_def)





text \<open>C12. A verified bundle is a published one.\<close>

theorem verified_bundle_is_published:
  assumes "\<And>k mb sig. k \<in> set keys \<Longrightarrow> bl_verify lib k mb sig \<Longrightarrow> mb \<in> set (map fst published)"
    and "\<And>mb fs. (mb, fs) \<in> set published \<Longrightarrow> \<exists>sig b. verify_bundle lib mb sig fs keys = Inr b"
    and "verify_bundle lib mb sig files keys = Inr b"
  shows "\<exists>(mb', fs) \<in> set published. \<exists>sig' b'. verify_bundle lib mb' sig' fs keys = Inr b' \<and>
    (b = b' \<or> (\<exists>(p, x) \<in> set files. \<exists>(p', y) \<in> set fs. collision lib x y))"
proof -
  from assms(3) obtain k where "k \<in> set keys" "bl_verify lib k mb sig" by (auto simp: verify_bundle_Inr)
  with assms(1) obtain fs where p: "(mb, fs) \<in> set published" by fastforce
  from assms(2)[OF p] obtain sig' b' where v: "verify_bundle lib mb sig' fs keys = Inr b'" by blast
  note x = assms(3)[unfolded verify_bundle_Inr] and y = v[unfolded verify_bundle_Inr]
  have m: "vb_manifest b = vb_manifest b'" using x y by simp
  with x y have "vb_specs b = vb_specs b' \<or> (\<exists>(p, x) \<in> set files. \<exists>(p', y) \<in> set fs. collision lib x y)"
    by (intro same_listing_same_specs[where es = "mf_specs (vb_manifest b)"]) simp_all
  moreover have "b = b'" if "vb_specs b = vb_specs b'"
    using that m x y by (cases b; cases b') simp
  ultimately show ?thesis using p v by blast
qed

theorem verified_bundle_is_published_witness:
  "\<exists>(mb', fs) \<in> set [([1 :: byte], [(''d/a.yaml'', [65 :: byte])])]. \<exists>sig' b'. verify_bundle example_lib mb' sig' fs [[9]] = Inr b' \<and>
    (example_bundle = b' \<or> (\<exists>(p, x) \<in> set [(''d/a.yaml'', [65])]. \<exists>(p', y) \<in> set fs. collision example_lib x y))"
  by (rule verified_bundle_is_published[OF _ _ example_bundle_verifies])
    (use example_bundle_verifies in \<open>auto simp: example_lib_def\<close>)



subsection \<open>Where the code parts from its comments\<close>

text \<open>An artifact that the store beneath has lost all of is read, as a stream, as an empty one.\<close>

theorem artifact_cut_to_nothing:
  "get_stream_blob ae cd kp [] = Inr [] \<and> get_blob ae cd kp [] = Inl (Crypto (Truncated_frame 1 0))"
  by (simp add: get_stream_blob_def get_blob_def decrypt_envelope_bytes_def read_head_def take_bytes_def crypto_def)

text \<open>A dot, an empty segment or a slash at the end passes the check of a listed path, and names the
  file again.\<close>

theorem dots_pass_in_listed_paths:
  "check_rel_path ''a/./b.yaml'' = None \<and> check_rel_path ''a//b.yaml'' = None \<and> check_rel_path ''a/b.yaml/'' = None \<and>
   normal_components ''a/./b.yaml'' = normal_components ''a/b.yaml'' \<and> check_rel_path ''./b.yaml'' \<noteq> None"
  by code_simp

end
